(* ===== verification/Fabric_Prelude.thy ===== *)
theory Fabric_Prelude
  imports Main "HOL-Library.Monad_Syntax" "HOL-Library.AList" "HOL-Library.List_Lexorder" "HOL-Library.Char_ord"
    "HOL-Library.Sublist" "HOL-Library.Multiset"
begin

text \<open>
  What the component theories share: the Python exceptions the services raise, operations that
  change a state and may raise (the state is kept when they raise, as in Python), loops over
  lists, and dictionaries as association lists in insertion order.
\<close>

named_theorems op_simps \<open>unfolding of operations one step at a time\<close>

named_theorems dict_simps \<open>lookups in dictionaries written out as literals\<close>

section \<open>Exceptions\<close>

text \<open>
  The domain exceptions of \<^verbatim>\<open>agentfabric/errors.py\<close> and the built-in ones the modelled code
  raises, each with its message.
\<close>

datatype py_error =
    AuthorizationError string
  | ValidationError string
  | NotFoundError string
  | ConflictError string
  | ValueError string
  | KeyError string
  | PermissionError string
  | RuntimeError string
  | TypeError string
  | AttributeError string
  | ZeroDivisionError string
  | OverflowError string
  | OtherError string

type_synonym 'a result = "py_error + 'a"

primrec err_str :: "py_error \<Rightarrow> string" where
  "err_str (AuthorizationError m) = m"
| "err_str (ValidationError m) = m"
| "err_str (NotFoundError m) = m"
| "err_str (ConflictError m) = m"
| "err_str (ValueError m) = m"
| "err_str (KeyError m) = CHR 0x27 # m @ [CHR 0x27]"
| "err_str (PermissionError m) = m"
| "err_str (RuntimeError m) = m"
| "err_str (TypeError m) = m"
| "err_str (AttributeError m) = m"
| "err_str (ZeroDivisionError m) = m"
| "err_str (OverflowError m) = m"
| "err_str (OtherError m) = m"

section \<open>Operations on a state that may raise\<close>

type_synonym ('s, 'a) op = "'s \<Rightarrow> 'a result \<times> 's"

definition ok :: "'a \<Rightarrow> ('s, 'a) op" where
  "ok a = (\<lambda>s. (Inr a, s))"

definition raise :: "py_error \<Rightarrow> ('s, 'a) op" where
  "raise e = (\<lambda>s. (Inl e, s))"

definition lift :: "'a result \<Rightarrow> ('s, 'a) op" where
  "lift r = (\<lambda>s. (r, s))"

definition bind :: "('s, 'a) op \<Rightarrow> ('a \<Rightarrow> ('s, 'b) op) \<Rightarrow> ('s, 'b) op" where
  "bind m f = (\<lambda>s. case m s of (Inl e, s') \<Rightarrow> (Inl e, s') | (Inr a, s') \<Rightarrow> f a s')"

definition gets :: "('s \<Rightarrow> 'a) \<Rightarrow> ('s, 'a) op" where
  "gets f = (\<lambda>s. (Inr (f s), s))"

definition modify :: "('s \<Rightarrow> 's) \<Rightarrow> ('s, unit) op" where
  "modify f = (\<lambda>s. (Inr (), f s))"

definition catch :: "('s, 'a) op \<Rightarrow> (py_error \<Rightarrow> ('s, 'a) op) \<Rightarrow> ('s, 'a) op" where
  "catch m h = (\<lambda>s. case m s of (Inl e, s') \<Rightarrow> h e s' | (Inr a, s') \<Rightarrow> (Inr a, s'))"

definition guard :: "bool \<Rightarrow> py_error \<Rightarrow> ('s, unit) op" where
  "guard b e = (if b then ok () else raise e)"

fun mapM :: "('a \<Rightarrow> ('s, 'b) op) \<Rightarrow> 'a list \<Rightarrow> ('s, 'b list) op" where
  "mapM f [] = ok []"
| "mapM f (x # xs) = bind (f x) (\<lambda>y. bind (mapM f xs) (\<lambda>ys. ok (y # ys)))"

fun forM :: "('a \<Rightarrow> ('s, unit) op) \<Rightarrow> 'a list \<Rightarrow> ('s, unit) op" where
  "forM f [] = ok ()"
| "forM f (x # xs) = bind (f x) (\<lambda>_. forM f xs)"

fun map_result :: "('a \<Rightarrow> 'b result) \<Rightarrow> 'a list \<Rightarrow> 'b list result" where
  "map_result f [] = Inr []"
| "map_result f (x # xs) =
     (case f x of Inl e \<Rightarrow> Inl e | Inr y \<Rightarrow>
       (case map_result f xs of Inl e \<Rightarrow> Inl e | Inr ys \<Rightarrow> Inr (y # ys)))"

abbreviation final :: "('s, 'a) op \<Rightarrow> 's \<Rightarrow> 's" where
  "final m s \<equiv> snd (m s)"

abbreviation outcome :: "('s, 'a) op \<Rightarrow> 's \<Rightarrow> 'a result" where
  "outcome m s \<equiv> fst (m s)"

lemma ok_apply [op_simps]: "ok a s = (Inr a, s)"
  by (simp add: ok_def)

lemma raise_apply [op_simps]: "raise e s = (Inl e, s)"
  by (simp add: raise_def)

lemma lift_apply [op_simps]: "lift r s = (r, s)"
  by (simp add: lift_def)

lemma gets_apply [op_simps]: "gets f s = (Inr (f s), s)"
  by (simp add: gets_def)

lemma modify_apply [op_simps]: "modify f s = (Inr (), f s)"
  by (simp add: modify_def)

lemma bind_ok [simp]: "bind (ok a) f = f a"
  by (simp add: bind_def ok_def)

lemma bind_raise [simp]: "bind (raise e) f = raise e"
  by (simp add: bind_def raise_def)

lemma bind_lift_Inr [simp]: "bind (lift (Inr a)) f = f a"
  by (simp add: bind_def lift_def)

lemma bind_lift_Inl [simp]: "bind (lift (Inl e)) f = raise e"
  by (simp add: bind_def lift_def raise_def)

lemma bind_ok_right [simp]: "bind m ok = m"
  by (rule ext) (simp add: bind_def ok_def split: prod.splits sum.splits)

lemma bind_assoc: "bind (bind m f) g = bind m (\<lambda>a. bind (f a) g)"
  by (rule ext) (simp add: bind_def ok_def split: prod.splits sum.splits)

lemma bind_apply [op_simps]:
  "bind m f s = (case m s of (Inl e, s') \<Rightarrow> (Inl e, s') | (Inr a, s') \<Rightarrow> f a s')"
  by (simp add: bind_def)

lemma bind_Inr: "m s = (Inr a, s') \<Longrightarrow> bind m f s = f a s'"
  by (simp add: bind_def)

lemma bind_Inl: "m s = (Inl e, s') \<Longrightarrow> bind m f s = (Inl e, s')"
  by (simp add: bind_def)

lemma bind_eq_Inr_iff:
  "bind m f s = (Inr b, s'') \<longleftrightarrow> (\<exists>a s'. m s = (Inr a, s') \<and> f a s' = (Inr b, s''))"
  by (auto simp: bind_def split: prod.splits sum.splits)

lemma guard_True [simp]: "guard True e = ok ()"
  by (simp add: guard_def)

lemma guard_False [simp]: "guard False e = raise e"
  by (simp add: guard_def)

lemma catch_ok [simp]: "catch (ok a) h = ok a"
  by (simp add: catch_def ok_def)

lemma catch_raise [simp]: "catch (raise e) h = h e"
  by (simp add: catch_def raise_def)

lemma catch_apply [op_simps]:
  "catch m h s = (case m s of (Inl e, s') \<Rightarrow> h e s' | (Inr a, s') \<Rightarrow> (Inr a, s'))"
  by (simp add: catch_def)

lemma mapM_all_Inr:
  "(\<And>x. x \<in> set xs \<Longrightarrow> f x s = (Inr (g x), s)) \<Longrightarrow> mapM f xs s = (Inr (map g xs), s)"
  by (induction xs) (auto simp: op_simps)

lemma forM_append: "forM f (xs @ ys) = bind (forM f xs) (\<lambda>_. forM f ys)"
  by (induction xs) (simp_all add: bind_assoc)

lemma map_result_all_Inr:
  "(\<And>x. x \<in> set xs \<Longrightarrow> f x = Inr (g x)) \<Longrightarrow> map_result f xs = Inr (map g xs)"
  by (induction xs) auto

section \<open>Contracts every step of an operation keeps\<close>

text \<open>
  A reflexive and transitive relation between the state before and the state after: what holds
  for each primitive step holds for every operation composed of them, whether it returns or
  raises. The components use it for the append-only log, for the hash chain and for the
  invariants of their stores.
\<close>

locale step_contract =
  fixes R :: "'s \<Rightarrow> 's \<Rightarrow> bool"
  assumes refl: "R s s"
    and trans: "R s t \<Longrightarrow> R t u \<Longrightarrow> R s u"
begin

definition steps :: "('s, 'a) op \<Rightarrow> bool" where
  "steps m \<longleftrightarrow> (\<forall>s. R s (snd (m s)))"

lemma stepsD: "steps m \<Longrightarrow> R s (snd (m s))"
  by (simp add: steps_def)

lemma steps_ok: "steps (ok a)"
  by (simp add: steps_def refl op_simps)

lemma steps_raise: "steps (raise e)"
  by (simp add: steps_def refl op_simps)

lemma steps_lift: "steps (lift r)"
  by (simp add: steps_def refl op_simps)

lemma steps_gets: "steps (gets f)"
  by (simp add: steps_def refl op_simps)

lemma steps_guard: "steps (guard b e)"
  by (simp add: guard_def steps_ok steps_raise)

lemma steps_bind_val:
  assumes "steps m" "\<And>s a. fst (m s) = Inr a \<Longrightarrow> steps (f a)"
  shows "steps (bind m f)"
  unfolding steps_def
proof
  fix s
  from assms(1) have *: "R s (snd (m s))" by (rule stepsD)
  show "R s (snd (bind m f s))"
  proof (cases "m s")
    case (Pair r t)
    show ?thesis
    proof (cases r)
      case (Inl e)
      with * Pair show ?thesis by (simp add: bind_apply)
    next
      case (Inr a)
      then have "steps (f a)" using Pair assms(2) [of s a] by simp
      then have "R t (snd (f a t))" by (rule stepsD)
      with * Pair Inr show ?thesis by (auto simp: bind_apply intro: trans)
    qed
  qed
qed

lemma steps_bind: "steps m \<Longrightarrow> (\<And>a. steps (f a)) \<Longrightarrow> steps (bind m f)"
  by (rule steps_bind_val)

lemma steps_catch:
  assumes "steps m" "\<And>e. steps (h e)"
  shows "steps (catch m h)"
  unfolding steps_def
proof
  fix s
  from assms(1) have *: "R s (snd (m s))" by (rule stepsD)
  show "R s (snd (catch m h s))"
  proof (cases "m s")
    case (Pair r t)
    show ?thesis
    proof (cases r)
      case (Inl e)
      have "R t (snd (h e t))" using assms(2) by (rule stepsD)
      with * Pair Inl show ?thesis by (auto simp: catch_apply intro: trans)
    next
      case (Inr a)
      with * Pair show ?thesis by (simp add: catch_apply)
    qed
  qed
qed

lemma steps_if: "(b \<Longrightarrow> steps m) \<Longrightarrow> (\<not> b \<Longrightarrow> steps n) \<Longrightarrow> steps (if b then m else n)"
  by simp

lemma steps_case_option:
  "(x = None \<Longrightarrow> steps m) \<Longrightarrow> (\<And>y. x = Some y \<Longrightarrow> steps (f y)) \<Longrightarrow> steps (case x of None \<Rightarrow> m | Some y \<Rightarrow> f y)"
  by (cases x) auto

lemma steps_case_prod:
  "(\<And>a b. x = (a, b) \<Longrightarrow> steps (f a b)) \<Longrightarrow> steps (case x of (a, b) \<Rightarrow> f a b)"
  by (cases x) auto

lemma steps_mapM: "(\<And>x. x \<in> set xs \<Longrightarrow> steps (f x)) \<Longrightarrow> steps (mapM f xs)"
  by (induction xs) (auto intro!: steps_bind steps_ok)

lemma steps_forM: "(\<And>x. x \<in> set xs \<Longrightarrow> steps (f x)) \<Longrightarrow> steps (forM f xs)"
  by (induction xs) (auto intro!: steps_bind steps_ok)

lemmas steps_intros = steps_ok steps_raise steps_lift steps_gets steps_guard steps_bind steps_catch
  steps_if steps_case_option steps_case_prod steps_mapM steps_forM

end

section \<open>Dictionaries\<close>

text \<open>
  A Python \<^verbatim>\<open>dict\<close> keeps the order in which its keys were first set; assigning to a key that is
  there keeps its place. That is \<^const>\<open>AList.update\<close> on association lists with distinct keys.
\<close>

type_synonym 'v dict = "(string \<times> 'v) list"

definition is_dict :: "(('k \<times> 'v) list) \<Rightarrow> bool" where
  "is_dict d \<longleftrightarrow> distinct (map fst d)"

definition sorted_items :: "(('k::linorder) \<times> 'v) list \<Rightarrow> ('k \<times> 'v) list" where
  "sorted_items d = sort_key fst d"

lemma is_dict_Nil [simp]: "is_dict []"
  by (simp add: is_dict_def)

lemma is_dict_update [simp]: "is_dict d \<Longrightarrow> is_dict (AList.update k v d)"
  by (simp add: is_dict_def AList.distinct_update)

lemma is_dict_delete [simp]: "is_dict d \<Longrightarrow> is_dict (AList.delete k d)"
  by (simp add: is_dict_def AList.distinct_delete)

lemma is_dict_Cons [simp]: "is_dict ((k, v) # d) \<longleftrightarrow> k \<notin> fst ` set d \<and> is_dict d"
  by (auto simp: is_dict_def)

lemma map_of_delete [simp]: "map_of (AList.delete k d) k' = (if k' = k then None else map_of d k')"
  by (simp add: AList.delete_conv')

lemma map_of_update [simp]: "map_of (AList.update k v d) k' = (if k' = k then Some v else map_of d k')"
  by (simp add: AList.update_conv')

lemma set_sorted_items [simp]: "set (sorted_items d) = set d"
  by (simp add: sorted_items_def)

lemma length_sorted_items [simp]: "length (sorted_items d) = length d"
  by (simp add: sorted_items_def)

lemma sorted_sorted_items: "sorted (map fst (sorted_items d))"
  by (simp add: sorted_items_def)

lemma is_dict_sorted_items [simp]: "is_dict (sorted_items d) = is_dict d"
proof -
  have "mset (map fst (sorted_items d)) = mset (map fst d)"
    by (simp add: sorted_items_def)
  then show ?thesis
    unfolding is_dict_def by (rule mset_eq_imp_distinct_iff)
qed

lemma map_of_eq_Some_iff_dict: "is_dict d \<Longrightarrow> map_of d k = Some v \<longleftrightarrow> (k, v) \<in> set d"
  by (simp add: is_dict_def)

lemma map_of_sorted_items: "is_dict d \<Longrightarrow> map_of (sorted_items d) = map_of d"
  by (rule map_of_inject_set [THEN iffD2]) (simp_all add: is_dict_def [symmetric])

lemma mem_update_dict:
  "is_dict d \<Longrightarrow> (k', v') \<in> set (AList.update k v d) \<longleftrightarrow> (if k' = k then v' = v else (k', v') \<in> set d)"
  by (auto simp flip: map_of_eq_Some_iff_dict simp: is_dict_update)

lemma mem_delete_dict:
  "(k', v') \<in> set (AList.delete k d) \<longleftrightarrow> k' \<noteq> k \<and> (k', v') \<in> set d"
  by (auto simp: AList.delete_eq)

end
