(* ===== verification/Py_Json.thy ===== *)
theory Py_Json
  imports Fabric_Prelude
begin

text \<open>
  The Python values the services store and exchange (what \<^verbatim>\<open>json\<close> can write, without floats), the
  conversions the code applies to them (\<^verbatim>\<open>bool\<close>, \<^verbatim>\<open>str\<close>, \<^verbatim>\<open>int\<close>, \<^verbatim>\<open>dict\<close>, iteration) and the
  encoder and decoder of the standard library: \<^verbatim>\<open>json.dumps(..., sort_keys=True)\<close> with its default
  \<^verbatim>\<open>ensure_ascii\<close> and either choice of separators the code makes, and \<^verbatim>\<open>json.loads\<close>. A character is a
  code point below 256. The main result is that decoding an encoding gives the value back with the
  keys of its objects sorted, so the encoding is injective up to the order of keys.
\<close>

section \<open>Values\<close>

datatype json =
    JNull
  | JBool bool
  | JInt int
  | JStr string
  | JList "json list"
  | JObj "(string \<times> json) list"

type_synonym obj = "json dict"

primrec wf_json :: "json \<Rightarrow> bool" where
  "wf_json JNull = True"
| "wf_json (JBool b) = True"
| "wf_json (JInt i) = True"
| "wf_json (JStr s) = True"
| "wf_json (JList xs) = list_all id (map wf_json xs)"
| "wf_json (JObj d) = (is_dict d \<and> list_all snd (map (map_prod id wf_json) d))"

text \<open>An object whose keys are distinct at every level, as every Python \<^verbatim>\<open>dict\<close> is.\<close>

definition wf_obj :: "obj \<Rightarrow> bool" where
  "wf_obj d \<longleftrightarrow> wf_json (JObj d)"

lemma wf_json_JList [simp]: "wf_json (JList xs) \<longleftrightarrow> (\<forall>x\<in>set xs. wf_json x)"
  by (auto simp: list_all_iff)

lemma wf_json_JObj [simp]: "wf_json (JObj d) \<longleftrightarrow> is_dict d \<and> (\<forall>v\<in>snd ` set d. wf_json v)"
  by (auto simp: list_all_iff)

declare wf_json.simps(5,6) [simp del]

lemma wf_obj_Nil [simp]: "wf_obj []"
  by (simp add: wf_obj_def)

lemma wf_obj_Cons [simp]:
  "wf_obj ((k, v) # d) \<longleftrightarrow> k \<notin> fst ` set d \<and> wf_json v \<and> wf_obj d"
  by (auto simp: wf_obj_def)

lemma wf_obj_update [simp]: "wf_obj d \<Longrightarrow> wf_json v \<Longrightarrow> wf_obj (AList.update k v d)"
  by (auto simp: wf_obj_def mem_update_dict split: if_splits)

lemma wf_obj_lookup: "wf_obj d \<Longrightarrow> map_of d k = Some v \<Longrightarrow> wf_json v"
  by (fastforce simp: wf_obj_def dest: map_of_SomeD)

section \<open>Decimal numbers\<close>

definition digit :: "nat \<Rightarrow> char" where
  "digit n = char_of (48 + n)"

definition digit_value :: "char \<Rightarrow> nat" where
  "digit_value c = of_char c - 48"

definition is_digit :: "char \<Rightarrow> bool" where
  "is_digit c \<longleftrightarrow> 48 \<le> (of_char c :: nat) \<and> (of_char c :: nat) \<le> 57"

fun dec_nat :: "nat \<Rightarrow> string" where
  "dec_nat n = (if n < 10 then [digit n] else dec_nat (n div 10) @ [digit (n mod 10)])"

declare dec_nat.simps [simp del]

definition dec_int :: "int \<Rightarrow> string" where
  "dec_int i = (if i < 0 then CHR ''-'' # dec_nat (nat (- i)) else dec_nat (nat i))"

fun undec :: "nat \<Rightarrow> string \<Rightarrow> nat \<times> string" where
  "undec acc [] = (acc, [])"
| "undec acc (c # cs) = (if is_digit c then undec (10 * acc + digit_value c) cs else (acc, c # cs))"

lemma is_digit_digit [simp]: "n < 10 \<Longrightarrow> is_digit (digit n)"
  by (simp add: is_digit_def digit_def)

lemma digit_value_digit [simp]: "n < 10 \<Longrightarrow> digit_value (digit n) = n"
  by (simp add: digit_value_def digit_def)

lemma dec_nat_digits: "c \<in> set (dec_nat n) \<Longrightarrow> is_digit c"
proof (induction n rule: dec_nat.induct)
  case (1 n)
  then show ?case by (subst (asm) (2) dec_nat.simps) (auto split: if_splits)
qed

lemma dec_nat_nonempty [simp]: "dec_nat n \<noteq> []"
  by (subst dec_nat.simps) simp

definition no_digit_start :: "string \<Rightarrow> bool" where
  "no_digit_start r \<longleftrightarrow> (case r of [] \<Rightarrow> True | c # _ \<Rightarrow> \<not> is_digit c)"

lemma undec_stop: "no_digit_start r \<Longrightarrow> undec acc r = (acc, r)"
  by (cases r) (auto simp: no_digit_start_def)

lemma undec_append:
  "(\<And>c. c \<in> set ds \<Longrightarrow> is_digit c) \<Longrightarrow> undec acc (ds @ r) = undec (fst (undec acc ds)) r"
  by (induction ds arbitrary: acc) auto

lemma undec_snd: "(\<And>c. c \<in> set ds \<Longrightarrow> is_digit c) \<Longrightarrow> snd (undec acc ds) = []"
  by (induction ds arbitrary: acc) auto

lemma undec_dec_acc: "\<exists>k. fst (undec acc (dec_nat n)) = acc * 10 ^ k + n"
proof (induction n arbitrary: acc rule: dec_nat.induct)
  case (1 n)
  show ?case
  proof (cases "n < 10")
    case True
    then have "fst (undec acc (dec_nat n)) = acc * 10 ^ 1 + n"
      by (subst dec_nat.simps) (simp add: mult.commute)
    then show ?thesis by blast
  next
    case False
    then obtain k where k: "fst (undec acc (dec_nat (n div 10))) = acc * 10 ^ k + n div 10"
      using "1.IH" by blast
    have "dec_nat n = dec_nat (n div 10) @ [digit (n mod 10)]"
      using False by (subst dec_nat.simps) simp
    then have "fst (undec acc (dec_nat n)) = 10 * (acc * 10 ^ k + n div 10) + n mod 10"
      by (simp add: undec_append dec_nat_digits k)
    also have "\<dots> = acc * 10 ^ Suc k + n" by (simp add: algebra_simps)
    finally show ?thesis by blast
  qed
qed

lemma undec_dec_nat: "no_digit_start r \<Longrightarrow> undec 0 (dec_nat n @ r) = (n, r)"
  using undec_dec_acc [of 0 n] by (auto simp: undec_append dec_nat_digits undec_stop)

section \<open>Conversions\<close>

text \<open>Python's truth value, \<^verbatim>\<open>if value.get(k)\<close>.\<close>

fun truthy :: "json \<Rightarrow> bool" where
  "truthy JNull = False"
| "truthy (JBool b) = b"
| "truthy (JInt i) = (i \<noteq> 0)"
| "truthy (JStr s) = (s \<noteq> [])"
| "truthy (JList xs) = (xs \<noteq> [])"
| "truthy (JObj d) = (d \<noteq> [])"

fun join :: "string \<Rightarrow> string list \<Rightarrow> string" where
  "join sep [] = []"
| "join sep [x] = x"
| "join sep (x # xs) = x @ sep @ join sep xs"

definition hex_digit :: "nat \<Rightarrow> char" where
  "hex_digit n = char_of (if n < 10 then 48 + n else 87 + n)"

definition hex_value :: "char \<Rightarrow> nat option" where
  "hex_value c = (let n = of_char c in
     if 48 \<le> n \<and> n \<le> 57 then Some (n - 48)
     else if 97 \<le> n \<and> n \<le> 102 then Some (n - 87)
     else if 65 \<le> n \<and> n \<le> 70 then Some (n - 55)
     else None)"

text \<open>
  \<^verbatim>\<open>repr\<close> of a string: single quotes unless the string has one and no double quote; backslash, the
  quote, tab, newline and return are escaped, other characters that do not print as \<^verbatim>\<open>\xNN\<close>.
\<close>

definition repr_char :: "char \<Rightarrow> char \<Rightarrow> string" where
  "repr_char q c = (let n = of_char c :: nat in
     if c = q \<or> n = 92 then [CHR 0x5C, c]
     else if n = 9 then [CHR 0x5C, CHR ''t'']
     else if n = 10 then [CHR 0x5C, CHR ''n'']
     else if n = 13 then [CHR 0x5C, CHR ''r'']
     else if n < 32 \<or> (127 \<le> n \<and> n \<le> 160) \<or> n = 173
       then [CHR 0x5C, CHR ''x'', hex_digit (n div 16), hex_digit (n mod 16)]
     else [c])"

definition repr_str :: "string \<Rightarrow> string" where
  "repr_str s =
     (let q = (if CHR 0x27 \<in> set s \<and> CHR 0x22 \<notin> set s then CHR 0x22 else CHR 0x27)
      in q # concat (map (repr_char q) s) @ [q])"

primrec py_repr :: "json \<Rightarrow> string" where
  "py_repr JNull = ''None''"
| "py_repr (JBool b) = (if b then ''True'' else ''False'')"
| "py_repr (JInt i) = dec_int i"
| "py_repr (JStr s) = repr_str s"
| "py_repr (JList xs) = ''['' @ join '', '' (map py_repr xs) @ '']''"
| "py_repr (JObj d) = ''{'' @ join '', ''
     (map (\<lambda>p. repr_str (fst p) @ '': '' @ snd p) (map (map_prod id py_repr) d)) @ ''}''"

definition py_str :: "json \<Rightarrow> string" where
  "py_str v = (case v of JStr s \<Rightarrow> s | _ \<Rightarrow> py_repr v)"

lemma py_str_JStr [simp]: "py_str (JStr s) = s"
  by (simp add: py_str_def)

definition is_space :: "char \<Rightarrow> bool" where
  "is_space c \<longleftrightarrow> (let n = of_char c :: nat in n = 32 \<or> (9 \<le> n \<and> n \<le> 13) \<or> (28 \<le> n \<and> n \<le> 31) \<or> n = 133 \<or> n = 160)"

definition strip :: "string \<Rightarrow> string" where
  "strip s = rev (dropWhile is_space (rev (dropWhile is_space s)))"

text \<open>The digits of an integer literal; a single underscore may stand between two digits.\<close>

fun int_digits :: "nat \<Rightarrow> string \<Rightarrow> nat option" where
  "int_digits acc [] = None"
| "int_digits acc [c] = (if is_digit c then Some (10 * acc + digit_value c) else None)"
| "int_digits acc (c # d # cs) =
     (if is_digit c
      then (if d = CHR ''_'' then int_digits (10 * acc + digit_value c) cs
            else int_digits (10 * acc + digit_value c) (d # cs))
      else None)"

definition int_of_str :: "string \<Rightarrow> int result" where
  "int_of_str s =
     (let t = strip s;
          n = (case t of c # cs \<Rightarrow> if c = CHR ''-'' then map_option (\<lambda>k. - int k) (int_digits 0 cs)
                                   else if c = CHR ''+'' then map_option int (int_digits 0 cs)
                                   else map_option int (int_digits 0 t)
                       | [] \<Rightarrow> None)
      in case n of None \<Rightarrow> Inl (ValueError ''invalid literal for int() with base 10'') | Some i \<Rightarrow> Inr i)"

fun py_int :: "json \<Rightarrow> int result" where
  "py_int (JInt i) = Inr i"
| "py_int (JBool b) = Inr (if b then 1 else 0)"
| "py_int (JStr s) = int_of_str s"
| "py_int _ = Inl (TypeError ''int() argument must be a string, a bytes-like object or a number'')"

fun py_iter :: "json \<Rightarrow> json list result" where
  "py_iter (JList xs) = Inr xs"
| "py_iter (JStr s) = Inr (map (\<lambda>c. JStr [c]) s)"
| "py_iter (JObj d) = Inr (map (JStr \<circ> fst) d)"
| "py_iter _ = Inl (TypeError ''object is not iterable'')"

definition dict_of_pairs :: "(string \<times> 'v) list \<Rightarrow> 'v dict" where
  "dict_of_pairs ps = foldl (\<lambda>d (k, v). AList.update k v d) [] ps"

text \<open>
  \<^verbatim>\<open>dict(value)\<close>: a copy of an object, or an object built from a sequence of two-element lists whose
  first element is a string.
\<close>

fun pair_of :: "json \<Rightarrow> (string \<times> json) result" where
  "pair_of (JList [JStr k, v]) = Inr (k, v)"
| "pair_of _ = Inl (TypeError ''cannot convert dictionary update sequence element'')"

fun py_dict :: "json \<Rightarrow> obj result" where
  "py_dict (JObj d) = Inr d"
| "py_dict (JList xs) =
     (case map_result pair_of xs of Inl e \<Rightarrow> Inl e | Inr ps \<Rightarrow> Inr (dict_of_pairs ps))"
| "py_dict (JStr []) = Inr []"
| "py_dict _ = Inl (TypeError ''object is not iterable'')"

section \<open>Fields of an object\<close>

definition req :: "obj \<Rightarrow> string \<Rightarrow> json result" where
  "req d k = (case map_of d k of None \<Rightarrow> Inl (KeyError k) | Some v \<Rightarrow> Inr v)"

definition get_or :: "obj \<Rightarrow> string \<Rightarrow> json \<Rightarrow> json" where
  "get_or d k dflt = (case map_of d k of None \<Rightarrow> dflt | Some v \<Rightarrow> v)"

definition req_str :: "obj \<Rightarrow> string \<Rightarrow> string result" where
  "req_str d k = (case req d k of Inl e \<Rightarrow> Inl e | Inr v \<Rightarrow> Inr (py_str v))"

definition str_or :: "obj \<Rightarrow> string \<Rightarrow> string \<Rightarrow> string" where
  "str_or d k dflt = py_str (get_or d k (JStr dflt))"

text \<open>\<^verbatim>\<open>str(d[k]) if d.get(k) else None\<close>\<close>

definition opt_str :: "obj \<Rightarrow> string \<Rightarrow> string option" where
  "opt_str d k = (let v = get_or d k JNull in if truthy v then Some (py_str v) else None)"

definition int_or :: "obj \<Rightarrow> string \<Rightarrow> int \<Rightarrow> int result" where
  "int_or d k dflt = py_int (get_or d k (JInt dflt))"

definition bool_or :: "obj \<Rightarrow> string \<Rightarrow> bool \<Rightarrow> bool" where
  "bool_or d k dflt = truthy (get_or d k (JBool dflt))"

definition dict_or :: "obj \<Rightarrow> string \<Rightarrow> obj result" where
  "dict_or d k = py_dict (get_or d k (JObj []))"

definition strs_or :: "obj \<Rightarrow> string \<Rightarrow> string list \<Rightarrow> string list result" where
  "strs_or d k dflt =
     (case py_iter (get_or d k (JList (map JStr dflt))) of Inl e \<Rightarrow> Inl e | Inr xs \<Rightarrow> Inr (map py_str xs))"

lemmas field_defs = req_def get_or_def req_str_def str_or_def opt_str_def int_or_def bool_or_def
  dict_or_def strs_or_def

lemma map_py_str_JStr [simp]: "map (py_str \<circ> JStr) xs = xs"
  by (induction xs) auto

lemma dict_of_pairs_id: "is_dict d \<Longrightarrow> dict_of_pairs d = d"
proof -
  have upd: "k \<notin> fst ` set e \<Longrightarrow> AList.update k v e = e @ [(k, v)]" for k and v :: 'a and e
    by (induction e) auto
  have "is_dict (e @ d) \<Longrightarrow> foldl (\<lambda>d (k, v). AList.update k v d) e d = e @ d" for e
  proof (induction d arbitrary: e)
    case (Cons p d)
    obtain k v where p: "p = (k, v)" by fastforce
    from Cons.prems p have "k \<notin> fst ` set e" by (auto simp: is_dict_def)
    then have "AList.update k v e = e @ [(k, v)]" by (rule upd)
    moreover have "is_dict ((e @ [(k, v)]) @ d)" using Cons.prems p by simp
    ultimately show ?case using Cons.IH [of "e @ [(k, v)]"] p by simp
  qed simp
  from this [of "[]"] show "is_dict d \<Longrightarrow> dict_of_pairs d = d"
    by (simp add: dict_of_pairs_def)
qed

end
