(* ===== verification/Py_Json_Codec.thy ===== *)
theory Py_Json_Codec
  imports Py_Json
begin

text \<open>
  The encoder and the decoder of the standard library's \<^verbatim>\<open>json\<close> module on the values of
  \<open>Py_Json\<close>. The decoder takes the length of its input as fuel: each nested call has consumed at
  least one character, so it never runs out.
\<close>

section \<open>Encoding\<close>

text \<open>\<^verbatim>\<open>sort_keys=True\<close> writes the members of every object in the order of their keys.\<close>

primrec canon :: "json \<Rightarrow> json" where
  "canon JNull = JNull"
| "canon (JBool b) = JBool b"
| "canon (JInt i) = JInt i"
| "canon (JStr s) = JStr s"
| "canon (JList xs) = JList (map canon xs)"
| "canon (JObj d) = JObj (sorted_items (map (map_prod id canon) d))"

definition esc_char :: "char \<Rightarrow> string" where
  "esc_char c = (let n = of_char c :: nat in
     if n = 34 then [CHR 0x5C, CHR 0x22]
     else if n = 92 then [CHR 0x5C, CHR 0x5C]
     else if n = 10 then [CHR 0x5C, CHR ''n'']
     else if n = 13 then [CHR 0x5C, CHR ''r'']
     else if n = 9 then [CHR 0x5C, CHR ''t'']
     else if n = 12 then [CHR 0x5C, CHR ''f'']
     else if n = 8 then [CHR 0x5C, CHR ''b'']
     else if 32 \<le> n \<and> n \<le> 126 then [c]
     else [CHR 0x5C, CHR ''u'', CHR ''0'', CHR ''0'', hex_digit (n div 16), hex_digit (n mod 16)])"

definition quote :: "string \<Rightarrow> string" where
  "quote s = CHR 0x22 # concat (map esc_char s) @ [CHR 0x22]"

primrec enc :: "string \<Rightarrow> string \<Rightarrow> json \<Rightarrow> string" where
  "enc is ks JNull = ''null''"
| "enc is ks (JBool b) = (if b then ''true'' else ''false'')"
| "enc is ks (JInt i) = dec_int i"
| "enc is ks (JStr s) = quote s"
| "enc is ks (JList xs) = ''['' @ join is (map (enc is ks) xs) @ '']''"
| "enc is ks (JObj d) = ''{'' @ join is
     (map (\<lambda>p. quote (fst p) @ ks @ snd p) (map (map_prod id (enc is ks)) d)) @ ''}''"

text \<open>The two ways the code calls it: compact separators for hashing, the default ones elsewhere.\<close>

definition dumps_compact :: "json \<Rightarrow> string" where
  "dumps_compact v = enc '','' '':'' (canon v)"

definition dumps :: "json \<Rightarrow> string" where
  "dumps v = enc '', '' '': '' (canon v)"

section \<open>Decoding\<close>

definition json_ws :: "char \<Rightarrow> bool" where
  "json_ws c \<longleftrightarrow> (let n = of_char c :: nat in n = 32 \<or> n = 9 \<or> n = 10 \<or> n = 13)"

definition skip :: "string \<Rightarrow> string" where
  "skip s = dropWhile json_ws s"

definition unesc :: "char \<Rightarrow> char option" where
  "unesc e =
     (if e = CHR 0x22 then Some (CHR 0x22)
      else if e = CHR 0x5C then Some (CHR 0x5C)
      else if e = CHR ''/'' then Some (CHR ''/'')
      else if e = CHR ''b'' then Some (CHR 0x08)
      else if e = CHR ''f'' then Some (CHR 0x0C)
      else if e = CHR ''n'' then Some (CHR 0x0A)
      else if e = CHR ''r'' then Some (CHR 0x0D)
      else if e = CHR ''t'' then Some (CHR 0x09)
      else None)"

definition hex4 :: "char \<Rightarrow> char \<Rightarrow> char \<Rightarrow> char \<Rightarrow> char option" where
  "hex4 a b c d = (case (hex_value a, hex_value b, hex_value c, hex_value d) of
     (Some w, Some x, Some y, Some z) \<Rightarrow>
       (let n = 4096 * w + 256 * x + 16 * y + z in if n < 256 then Some (char_of n) else None)
   | _ \<Rightarrow> None)"

text \<open>The rest of a string literal, after its opening quote.\<close>

fun pstr :: "string \<Rightarrow> (string \<times> string) option" where
  "pstr [] = None"
| "pstr (c # cs) =
     (if c = CHR 0x22 then Some ([], cs)
      else if c = CHR 0x5C then
        (case cs of
           [] \<Rightarrow> None
         | e # es \<Rightarrow>
             (if e = CHR ''u'' then
                (case es of
                   h1 # h2 # h3 # h4 # r \<Rightarrow>
                     (case hex4 h1 h2 h3 h4 of None \<Rightarrow> None | Some ch \<Rightarrow>
                       map_option (\<lambda>(s, t). (ch # s, t)) (pstr r))
                 | _ \<Rightarrow> None)
              else (case unesc e of None \<Rightarrow> None | Some ch \<Rightarrow>
                      map_option (\<lambda>(s, t). (ch # s, t)) (pstr es))))
      else if (of_char c :: nat) < 32 then None
      else map_option (\<lambda>(s, t). (c # s, t)) (pstr cs))"

text \<open>A number without fraction and exponent; one with either is a float, outside the model.\<close>

definition pnat :: "string \<Rightarrow> (nat \<times> string) option" where
  "pnat s = (case s of
     [] \<Rightarrow> None
   | c # cs \<Rightarrow>
       (if \<not> is_digit c then None
        else let (n, r) = (if c = CHR ''0'' then (0, cs) else undec 0 s) in
          (case r of x # _ \<Rightarrow> if x = CHR ''.'' \<or> x = CHR ''e'' \<or> x = CHR ''E'' then None else Some (n, r)
             | [] \<Rightarrow> Some (n, r))))"

definition pnum :: "string \<Rightarrow> (json \<times> string) option" where
  "pnum s = (case s of
     c # cs \<Rightarrow> if c = CHR ''-'' then map_option (\<lambda>(n, r). (JInt (- int n), r)) (pnat cs)
               else map_option (\<lambda>(n, r). (JInt (int n), r)) (pnat s)
   | [] \<Rightarrow> None)"

definition pword :: "string \<Rightarrow> json \<Rightarrow> string \<Rightarrow> (json \<times> string) option" where
  "pword w v s = (if take (length w) s = w then Some (v, drop (length w) s) else None)"

fun pval :: "nat \<Rightarrow> string \<Rightarrow> (json \<times> string) option"
and pelems :: "nat \<Rightarrow> string \<Rightarrow> (json list \<times> string) option"
and pmembers :: "nat \<Rightarrow> string \<Rightarrow> ((string \<times> json) list \<times> string) option" where
  "pval 0 s = None"
| "pval (Suc n) s = (case s of
     [] \<Rightarrow> None
   | c # cs \<Rightarrow>
       if c = CHR 0x22 then map_option (\<lambda>(t, r). (JStr t, r)) (pstr cs)
       else if c = CHR ''['' then
         (case skip cs of
            [] \<Rightarrow> None
          | d # ds \<Rightarrow> if d = CHR '']'' then Some (JList [], ds)
                      else map_option (\<lambda>(xs, r). (JList xs, r)) (pelems n (d # ds)))
       else if c = CHR ''{'' then
         (case skip cs of
            [] \<Rightarrow> None
          | d # ds \<Rightarrow> if d = CHR ''}'' then Some (JObj [], ds)
                      else map_option (\<lambda>(ps, r). (JObj (dict_of_pairs ps), r)) (pmembers n (d # ds)))
       else if c = CHR ''n'' then pword ''null'' JNull s
       else if c = CHR ''t'' then pword ''true'' (JBool True) s
       else if c = CHR ''f'' then pword ''false'' (JBool False) s
       else pnum s)"
| "pelems 0 s = None"
| "pelems (Suc n) s = (case pval n s of
     None \<Rightarrow> None
   | Some (v, t) \<Rightarrow>
       (case skip t of
          [] \<Rightarrow> None
        | c # u \<Rightarrow>
            if c = CHR '']'' then Some ([v], u)
            else if c = CHR '','' then map_option (\<lambda>(vs, r). (v # vs, r)) (pelems n (skip u))
            else None))"
| "pmembers 0 s = None"
| "pmembers (Suc n) s = (case s of
     [] \<Rightarrow> None
   | q # qs \<Rightarrow>
       if q \<noteq> CHR 0x22 then None
       else (case pstr qs of
          None \<Rightarrow> None
        | Some (k, t) \<Rightarrow>
            (case skip t of
               [] \<Rightarrow> None
             | c # u \<Rightarrow>
                 if c \<noteq> CHR '':'' then None
                 else (case pval n (skip u) of
                    None \<Rightarrow> None
                  | Some (v, w) \<Rightarrow>
                      (case skip w of
                         [] \<Rightarrow> None
                       | d # x \<Rightarrow>
                           if d = CHR ''}'' then Some ([(k, v)], x)
                           else if d = CHR '','' then
                             map_option (\<lambda>(ps, r). ((k, v) # ps, r)) (pmembers n (skip x))
                           else None)))))"

definition loads :: "string \<Rightarrow> json result" where
  "loads s = (case pval (Suc (length s)) (skip s) of
     Some (v, r) \<Rightarrow> if skip r = [] then Inr v else Inl (ValueError ''Extra data'')
   | None \<Rightarrow> Inl (ValueError ''Expecting value''))"

section \<open>Strings and numbers read back\<close>

lemma hex_value_digit [simp]: "n < 16 \<Longrightarrow> hex_value (hex_digit n) = Some n"
  by (auto simp: hex_value_def hex_digit_def Let_def)

lemma hex4_byte: "hex4 (CHR ''0'') (CHR ''0'') (hex_digit (n div 16)) (hex_digit (n mod 16)) = Some (char_of n)"
  if "n < 256" for n :: nat
proof -
  have "n div 16 < 16" using that by simp
  moreover have "hex_value (CHR ''0'') = Some 0" by (simp add: hex_value_def)
  ultimately show ?thesis using that by (simp add: hex4_def Let_def)
qed

lemma of_char_bound: "(of_char c :: nat) < 256"
  using of_char_mod_256 [of c, where ?'a = nat] by (metis mod_less_divisor zero_less_numeral)

lemma char_eq_code: "c = d \<longleftrightarrow> (of_char c :: nat) = of_char d"
  by simp

lemma pstr_esc: "pstr (esc_char c @ r) = map_option (\<lambda>(s, t). (c # s, t)) (pstr r)"
proof -
  define n :: nat where "n = of_char c"
  have n: "n < 256" unfolding n_def by (rule of_char_bound)
  have c: "c = char_of n" unfolding n_def by simp
  have chars: "char_of (34::nat) = CHR 0x22" "char_of (92::nat) = CHR 0x5C" "char_of (10::nat) = CHR 0x0A"
    "char_of (13::nat) = CHR 0x0D" "char_of (9::nat) = CHR 0x09" "char_of (12::nat) = CHR 0x0C" "char_of (8::nat) = CHR 0x08"
    by (simp_all add: char_of_def bit_0)
  have special: "n = 34 \<or> n = 92 \<or> n = 10 \<or> n = 13 \<or> n = 9 \<or> n = 12 \<or> n = 8 \<Longrightarrow> ?thesis"
    unfolding c by (elim disjE) (simp_all add: esc_char_def unesc_def chars)
  show ?thesis
  proof (cases "n = 34 \<or> n = 92 \<or> n = 10 \<or> n = 13 \<or> n = 9 \<or> n = 12 \<or> n = 8")
    case True
    then show ?thesis by (rule special)
  next
    case False
    then have plain: "c \<noteq> CHR 0x22" "c \<noteq> CHR 0x5C"
      unfolding char_eq_code [of c] n_def by simp_all
    have esc: "esc_char c = (if 32 \<le> n \<and> n \<le> 126 then [c]
        else [CHR 0x5C, CHR ''u'', CHR ''0'', CHR ''0'', hex_digit (n div 16), hex_digit (n mod 16)])"
      using False unfolding esc_char_def Let_def n_def by simp
    show ?thesis using plain unfolding esc by (auto simp: hex4_byte [OF n] c [symmetric] n_def [symmetric])
  qed
qed

lemma pstr_quote: "pstr (concat (map esc_char s) @ CHR 0x22 # r) = Some (s, r)"
  by (induction s) (simp_all add: pstr_esc)

definition stop :: "string \<Rightarrow> bool" where
  "stop r \<longleftrightarrow> (case r of [] \<Rightarrow> True
     | c # _ \<Rightarrow> \<not> is_digit c \<and> c \<noteq> CHR ''.'' \<and> c \<noteq> CHR ''e'' \<and> c \<noteq> CHR ''E'')"

lemma dec_nat_hd_zero: "hd (dec_nat n) = CHR ''0'' \<Longrightarrow> n = 0"
proof (induction n rule: dec_nat.induct)
  case (1 n)
  show ?case
  proof (cases "n < 10")
    case True
    with "1.prems" have "digit n = CHR ''0''" by (subst (asm) dec_nat.simps) simp
    then have "digit_value (digit n) = digit_value (CHR ''0'')" by simp
    with True show ?thesis by (simp add: digit_value_def [of "CHR ''0''"])
  next
    case False
    with "1.prems" have "hd (dec_nat (n div 10)) = CHR ''0''"
      by (subst (asm) dec_nat.simps) (simp add: hd_append)
    with False "1.IH" have "n div 10 = 0" by simp
    with False show ?thesis by (simp add: div_eq_0_iff)
  qed
qed

lemma pnat_dec: "stop r \<Longrightarrow> pnat (dec_nat n @ r) = Some (n, r)"
proof -
  assume r: "stop r"
  then have nd: "no_digit_start r" by (auto simp: stop_def no_digit_start_def split: list.splits)
  obtain c cs where cs: "dec_nat n = c # cs" by (cases "dec_nat n") auto
  then have dc: "is_digit c" using dec_nat_digits [of c n] by simp
  have u: "undec 0 (c # cs @ r) = (n, r)" using undec_dec_nat [OF nd, of n] cs by simp
  have z: "cs = []" if "c = CHR ''0''"
  proof -
    from that cs dec_nat_hd_zero [of n] have "n = 0" by simp
    with cs show ?thesis by (subst (asm) dec_nat.simps) simp
  qed
  have "(if c = CHR ''0'' then (0, cs @ r) else undec 0 (c # cs @ r)) = (n, r)"
    using u z cs dec_nat_hd_zero [of n] by auto
  then show ?thesis
    using r dc cs by (auto simp: pnat_def stop_def split: list.splits)
qed

lemma pnum_dec: "stop r \<Longrightarrow> pnum (dec_int i @ r) = Some (JInt i, r)"
proof -
  assume r: "stop r"
  have minus: "c \<noteq> CHR ''-''" if "is_digit c" for c using that by (auto simp: is_digit_def)
  obtain c cs where cs: "dec_nat (nat i) = c # cs" by (cases "dec_nat (nat i)") auto
  then have "is_digit c" using dec_nat_digits [of c "nat i"] by simp
  then have c: "c \<noteq> CHR ''-''" by (rule minus)
  show ?thesis
    using pnat_dec [OF r, of "nat i"] pnat_dec [OF r, of "nat (- i)"] c cs
    by (auto simp: pnum_def dec_int_def)
qed

definition seps_ok :: "string \<Rightarrow> string \<Rightarrow> bool" where
  "seps_ok is ks \<longleftrightarrow> (\<exists>a b. is = CHR '','' # a \<and> ks = CHR '':'' # b \<and> list_all json_ws a \<and> list_all json_ws b)"

definition val_start :: "char \<Rightarrow> bool" where
  "val_start c \<longleftrightarrow> \<not> json_ws c \<and> c \<noteq> CHR '']'' \<and> c \<noteq> CHR ''}''"

lemma skip_start: "\<not> json_ws c \<Longrightarrow> skip (c # cs) = c # cs"
  by (simp add: skip_def)

lemma skip_ws: "list_all json_ws a \<Longrightarrow> skip (a @ s) = skip s"
  by (simp add: skip_def dropWhile_append list_all_iff)

lemma enc_start: "\<exists>c cs. enc is ks v = c # cs \<and> val_start c"
proof (cases v)
  case (JInt i)
  have dig: "val_start c" if "is_digit c" for c
    using that by (auto simp: val_start_def json_ws_def is_digit_def Let_def)
  show ?thesis
  proof (cases "dec_nat (nat i)")
    case (Cons c cs)
    then have "val_start c" using dec_nat_digits [of c "nat i"] by (auto intro: dig)
    then show ?thesis using JInt Cons by (auto simp: dec_int_def val_start_def json_ws_def)
  qed simp
qed (auto simp: val_start_def json_ws_def quote_def)

lemma skip_enc: "skip (enc is ks v @ r) = enc is ks v @ r"
  using enc_start [of "is" ks v] by (auto simp: val_start_def skip_start)

lemma stop_sep: "stop (CHR '','' # r)" "stop (CHR '']'' # r)" "stop (CHR ''}'' # r)" "stop []"
  by (auto simp: stop_def is_digit_def)

lemma ws_codes [simp]: "\<not> json_ws CHR '','' " "\<not> json_ws CHR '']''" "\<not> json_ws CHR ''}''" "\<not> json_ws CHR '':''"
  "\<not> json_ws CHR 0x22" "\<not> json_ws CHR ''{''" "\<not> json_ws CHR ''[''"
  by (simp_all add: json_ws_def)

definition reads_back :: "string \<Rightarrow> string \<Rightarrow> json \<Rightarrow> bool" where
  "reads_back is ks v \<longleftrightarrow>
     (\<forall>n r. length (enc is ks v) < n \<longrightarrow> stop r \<longrightarrow> pval n (enc is ks v @ r) = Some (v, r))"

lemma pelems_join:
  assumes "seps_ok is ks"
  shows "xs \<noteq> [] \<Longrightarrow> (\<And>x. x \<in> set xs \<Longrightarrow> reads_back is ks x) \<Longrightarrow>
    length (join is (map (enc is ks) xs)) + 1 < n \<Longrightarrow>
    pelems n (join is (map (enc is ks) xs) @ CHR '']'' # r) = Some (xs, r)"
proof (induction xs arbitrary: n)
  case (Cons x xs)
  obtain a where a: "is = CHR '','' # a" "list_all json_ws a" using assms by (auto simp: seps_ok_def)
  obtain m where n: "n = Suc m" using Cons.prems(3) by (cases n) auto
  have px: "length (enc is ks x) < m \<Longrightarrow> stop t \<Longrightarrow> pval m (enc is ks x @ t) = Some (x, t)" for t
    using Cons.prems(2) [of x] by (simp add: reads_back_def)
  show ?case
  proof (cases xs)
    case Nil
    with Cons.prems n show ?thesis by (simp add: px stop_sep skip_start)
  next
    case (Cons y ys)
    let ?rest = "join is (map (enc is ks) xs)"
    have j: "join is (map (enc is ks) (x # xs)) = enc is ks x @ CHR '','' # a @ ?rest"
      using a Cons by simp
    have len: "length (enc is ks x) < m" "length ?rest + 1 < m"
      using Cons.prems(3) n j by auto
    have IH: "pelems m (?rest @ CHR '']'' # r) = Some (xs, r)"
      using Cons.IH [of m] Cons.prems(2) len(2) Cons by auto
    have "\<exists>c cs. ?rest = c # cs \<and> val_start c"
      using Cons enc_start [of "is" ks y] by (cases ys) auto
    then have sk: "skip (a @ ?rest @ CHR '']'' # r) = ?rest @ CHR '']'' # r"
      by (auto simp: skip_ws [OF a(2)] val_start_def skip_start)
    show ?thesis
      unfolding j n using len IH sk by (simp add: px stop_sep skip_start)
  qed
qed simp

abbreviation enc_member :: "string \<Rightarrow> string \<Rightarrow> string \<times> json \<Rightarrow> string" where
  "enc_member is ks p \<equiv> quote (fst p) @ ks @ enc is ks (snd p)"

lemma pmembers_join:
  assumes "seps_ok is ks"
  shows "d \<noteq> [] \<Longrightarrow> (\<And>p. p \<in> set d \<Longrightarrow> reads_back is ks (snd p)) \<Longrightarrow>
    length (join is (map (enc_member is ks) d)) + 1 < n \<Longrightarrow>
    pmembers n (join is (map (enc_member is ks) d) @ CHR ''}'' # r) = Some (d, r)"
proof (induction d arbitrary: n)
  case (Cons p d)
  obtain a b where a: "is = CHR '','' # a" "list_all json_ws a" and b: "ks = CHR '':'' # b" "list_all json_ws b"
    using assms by (auto simp: seps_ok_def)
  obtain k v where p: "p = (k, v)" by fastforce
  obtain m where n: "n = Suc m" using Cons.prems(3) by (cases n) auto
  have pv: "length (enc is ks v) < m \<Longrightarrow> stop t \<Longrightarrow> pval m (enc is ks v @ t) = Some (v, t)" for t
    using Cons.prems(2) [of p] p by (simp add: reads_back_def)
  have sk: "skip (b @ enc is ks v @ t) = enc is ks v @ t" for t
    by (simp add: skip_ws [OF b(2)] skip_enc)
  have key: "pstr (concat (map esc_char k) @ CHR 0x22 # t) = Some (k, t)" for t
    by (rule pstr_quote)
  show ?case
  proof (cases d)
    case Nil
    have "length (enc is ks v) < m" using Cons.prems(3) n p Nil by simp
    moreover have j: "join is (map (enc_member is ks) (p # d)) =
      CHR 0x22 # concat (map esc_char k) @ CHR 0x22 # CHR '':'' # b @ enc is ks v"
      using b p Nil by (simp add: quote_def)
    ultimately show ?thesis
      unfolding n j using Nil p by (simp add: key skip_start sk pv stop_sep)
  next
    case (Cons q qs)
    let ?rest = "join is (map (enc_member is ks) d)"
    have j: "join is (map (enc_member is ks) (p # d)) =
      CHR 0x22 # concat (map esc_char k) @ CHR 0x22 # CHR '':'' # b @ enc is ks v @ CHR '','' # a @ ?rest"
      using a b p Cons by (simp add: quote_def)
    have len: "length (enc is ks v) < m" "length ?rest + 1 < m"
      using Cons.prems(3) n j by auto
    have IH: "pmembers m (?rest @ CHR ''}'' # r) = Some (d, r)"
      using Cons.IH [of m] Cons.prems(2) len(2) Cons by auto
    have "\<exists>cs. ?rest = CHR 0x22 # cs"
      using Cons by (cases qs) (auto simp: quote_def)
    then have sk2: "skip (a @ ?rest @ CHR ''}'' # r) = ?rest @ CHR ''}'' # r"
      by (auto simp: skip_ws [OF a(2)] skip_start)
    show ?thesis
      unfolding j n using len IH sk2 p
      by (simp add: key skip_start sk pv stop_sep)
  qed
qed simp

lemma enc_JObj: "enc is ks (JObj d) = CHR ''{'' # join is (map (enc_member is ks) d) @ [CHR ''}'']"
  by (simp add: comp_def)

theorem reads_back_enc:
  assumes "seps_ok is ks"
  shows "wf_json v \<Longrightarrow> reads_back is ks v"
proof (induction v)
  case JNull
  show ?case unfolding reads_back_def
  proof (intro allI impI)
    fix n r assume "length (enc is ks JNull) < n"
    then show "pval n (enc is ks JNull @ r) = Some (JNull, r)" by (cases n) (simp_all add: pword_def)
  qed
next
  case (JBool b)
  show ?case unfolding reads_back_def
  proof (intro allI impI)
    fix n r assume "length (enc is ks (JBool b)) < n"
    then show "pval n (enc is ks (JBool b) @ r) = Some (JBool b, r)"
      by (cases n) (simp_all add: pword_def)
  qed
next
  case (JInt i)
  show ?case unfolding reads_back_def
  proof (intro allI impI)
    fix n r assume "length (enc is ks (JInt i)) < n" and r: "stop r"
    then obtain m where n: "n = Suc m" by (cases n) auto
    have "dec_int i \<noteq> []" and "is_digit (hd (dec_int i)) \<or> hd (dec_int i) = CHR ''-''"
      using dec_nat_digits [of "hd (dec_nat (nat i))" "nat i"] by (auto simp: dec_int_def)
    then obtain c cs where c: "dec_int i = c # cs" and dc: "is_digit c \<or> c = CHR ''-''"
      by (cases "dec_int i") auto
    then have "c \<notin> {CHR 0x22, CHR ''['', CHR ''{'', CHR ''n'', CHR ''t'', CHR ''f''}"
      by (auto simp: is_digit_def)
    then show "pval n (enc is ks (JInt i) @ r) = Some (JInt i, r)"
      using pnum_dec [OF r, of i] n c by simp
  qed
next
  case (JStr s)
  show ?case unfolding reads_back_def
  proof (intro allI impI)
    fix n r assume "length (enc is ks (JStr s)) < n"
    then show "pval n (enc is ks (JStr s) @ r) = Some (JStr s, r)"
      by (cases n) (simp_all add: quote_def pstr_quote)
  qed
next
  case (JList xs)
  then have rb: "\<And>x. x \<in> set xs \<Longrightarrow> reads_back is ks x" by simp
  show ?case unfolding reads_back_def
  proof (intro allI impI)
    fix n r assume len: "length (enc is ks (JList xs)) < n"
    then obtain m where n: "n = Suc m" by (cases n) auto
    let ?j = "join is (map (enc is ks) xs)"
    show "pval n (enc is ks (JList xs) @ r) = Some (JList xs, r)"
    proof (cases xs)
      case Nil
      with n show ?thesis by (simp add: skip_start)
    next
      case (Cons y ys)
      have "pelems m (?j @ CHR '']'' # r) = Some (xs, r)"
        using len n by (intro pelems_join [OF assms]) (auto simp: Cons rb)
      moreover obtain c cs where "?j = c # cs" "val_start c"
        using Cons enc_start [of "is" ks y] by (cases ys) auto
      ultimately show ?thesis using n by (simp add: skip_start val_start_def)
    qed
  qed
next
  case (JObj d)
  then have rb: "\<And>p. p \<in> set d \<Longrightarrow> reads_back is ks (snd p)" and dd: "is_dict d"
    by (auto intro!: JObj.IH)
  show ?case unfolding reads_back_def
  proof (intro allI impI)
    fix n r assume len: "length (enc is ks (JObj d)) < n"
    then obtain m where n: "n = Suc m" by (cases n) auto
    let ?j = "join is (map (enc_member is ks) d)"
    show "pval n (enc is ks (JObj d) @ r) = Some (JObj d, r)"
    proof (cases d)
      case Nil
      with n show ?thesis by (simp add: skip_start)
    next
      case (Cons q qs)
      have "pmembers m (?j @ CHR ''}'' # r) = Some (d, r)"
        using len n by (intro pmembers_join [OF assms]) (auto simp: Cons rb enc_JObj simp del: enc.simps)
      moreover have "\<exists>cs. ?j = CHR 0x22 # cs"
        using Cons by (cases qs) (auto simp: quote_def)
      ultimately show ?thesis using n dd
        unfolding enc_JObj by (auto simp: skip_start dict_of_pairs_id)
    qed
  qed
qed

lemma fst_map_prod_id [simp]: "fst ` map_prod id f ` set d = fst ` set d"
  by force

lemma is_dict_map_prod [simp]: "is_dict (map (map_prod id f) d) = is_dict d"
  by (simp add: is_dict_def)

lemma wf_json_canon [simp]: "wf_json v \<Longrightarrow> wf_json (canon v)"
  by (induction v) fastforce+

lemma sorted_items_idem [simp]: "sorted_items (sorted_items d) = sorted_items d"
  by (simp add: sorted_items_def sorted_sort_id sort_key_id_if_sorted)

lemma seps_ok_compact [simp]: "seps_ok '','' '':''"
  by (simp add: seps_ok_def)

lemma seps_ok_default [simp]: "seps_ok '', '' '': ''"
  by (simp add: seps_ok_def json_ws_def)

lemma reads_backD:
  "reads_back is ks v \<Longrightarrow> length (enc is ks v) < n \<Longrightarrow> stop r \<Longrightarrow> pval n (enc is ks v @ r) = Some (v, r)"
  by (simp add: reads_back_def)

lemma loads_enc:
  assumes "seps_ok is ks" "wf_json v"
  shows "loads (enc is ks v) = Inr v"
proof -
  have "reads_back is ks v" using assms by (rule reads_back_enc)
  then have "pval (Suc (length (enc is ks v))) (enc is ks v @ []) = Some (v, [])"
    by (rule reads_backD) (simp_all add: stop_sep)
  then show ?thesis
    using skip_enc [of "is" ks v "[]"] by (simp add: loads_def skip_def del: pval.simps)
qed

lemma loads_dumps: "wf_json v \<Longrightarrow> loads (dumps v) = Inr (canon v)"
  by (simp add: dumps_def loads_enc)

lemma loads_dumps_compact: "wf_json v \<Longrightarrow> loads (dumps_compact v) = Inr (canon v)"
  by (simp add: dumps_compact_def loads_enc)

lemma dumps_compact_inj:
  "wf_json v \<Longrightarrow> wf_json w \<Longrightarrow> dumps_compact v = dumps_compact w \<longleftrightarrow> canon v = canon w"
  by (metis dumps_compact_def loads_dumps_compact sum.inject(2))

end
