(* ===== verification/Persistence.thy ===== *)
theory Persistence
  imports Py_Json_Codec
begin

text \<open>
  The document stores of \<^verbatim>\<open>agentfabric/persistence\<close>: the in-memory store, the JSON-file store, the
  SQLite store and the unit of work on top of them. The locale \<open>document_store\<close> is the contract of
  \<^verbatim>\<open>PersistenceStore\<close>, a map from collections and keys to documents; every backend is interpreted
  in it. A backend that writes JSON text gives documents back with their keys sorted, which is the
  only difference a client can see.
\<close>

type_synonym collection = "obj dict"
type_synonym mstore = "collection dict"

section \<open>The in-memory store\<close>

definition coll :: "mstore \<Rightarrow> string \<Rightarrow> collection" where
  "coll s c = (case map_of s c of None \<Rightarrow> [] | Some d \<Rightarrow> d)"

definition setdefault :: "string \<Rightarrow> 'v \<Rightarrow> 'v dict \<Rightarrow> 'v dict" where
  "setdefault k v d = (case map_of d k of None \<Rightarrow> AList.update k v d | Some _ \<Rightarrow> d)"

definition doc_tenant :: "string \<Rightarrow> obj \<Rightarrow> bool" where
  "doc_tenant t d \<longleftrightarrow> map_of d ''tenant_id'' = Some (JStr t)"

definition mem_initialize :: "(mstore, unit) op" where
  "mem_initialize = modify (setdefault ''_meta'' [])"

definition mem_put :: "string \<Rightarrow> string \<Rightarrow> obj \<Rightarrow> (mstore, unit) op" where
  "mem_put c k v = modify (\<lambda>s. AList.update c (AList.update k v (coll s c)) (setdefault c [] s))"

definition mem_get :: "string \<Rightarrow> string \<Rightarrow> (mstore, obj option) op" where
  "mem_get c k = gets (\<lambda>s. map_of (coll s c) k)"

definition mem_delete :: "string \<Rightarrow> string \<Rightarrow> (mstore, bool) op" where
  "mem_delete c k = (\<lambda>s.
     if map_of (coll s c) k \<noteq> None then (Inr True, AList.update c (AList.delete k (coll s c)) s)
     else (Inr False, s))"

definition mem_list :: "string \<Rightarrow> (mstore, obj list) op" where
  "mem_list c = gets (\<lambda>s. map snd (sorted_items (coll s c)))"

definition mem_list_tenant :: "string \<Rightarrow> string \<Rightarrow> (mstore, obj list) op" where
  "mem_list_tenant c t = gets (\<lambda>s. map snd (filter (\<lambda>(k, v). doc_tenant t v) (sorted_items (coll s c))))"

definition mem_keys :: "string \<Rightarrow> (mstore, string list) op" where
  "mem_keys c = gets (\<lambda>s. sort (map fst (coll s c)))"

definition mem_health :: "(mstore, obj) op" where
  "mem_health = gets (\<lambda>s. [(''status'', JStr ''ok''), (''backend'', JStr ''memory''),
     (''collections'', JList (map JStr (sort (map fst s))))])"

section \<open>The JSON-file store\<close>

text \<open>
  The state is the content of the file, or nothing when there is no file yet. A write replaces the
  whole file (through a temporary file in the same directory).
\<close>

type_synonym jfile = "string option"

definition coll_json :: "collection \<Rightarrow> json" where
  "coll_json d = JObj (map (map_prod id JObj) d)"

definition store_json :: "mstore \<Rightarrow> json" where
  "store_json s = JObj (map (map_prod id coll_json) s)"

fun doc_of_json :: "json \<Rightarrow> obj result" where
  "doc_of_json (JObj d) = Inr d"
| "doc_of_json _ = Inl (AttributeError ''object has no attribute get'')"

definition values_of :: "(json \<Rightarrow> 'v result) \<Rightarrow> obj \<Rightarrow> 'v dict result" where
  "values_of f d = map_result (\<lambda>(k, v). case f v of Inl e \<Rightarrow> Inl e | Inr x \<Rightarrow> Inr (k, x)) d"

fun coll_of_json :: "json \<Rightarrow> collection result" where
  "coll_of_json (JObj d) = values_of doc_of_json d"
| "coll_of_json _ = Inl (AttributeError ''object has no attribute get'')"

fun store_of_json :: "json \<Rightarrow> mstore result" where
  "store_of_json (JObj d) = values_of coll_of_json d"
| "store_of_json _ = Inl (AttributeError ''object has no attribute get'')"

definition js_write :: "mstore \<Rightarrow> (jfile, unit) op" where
  "js_write s = modify (\<lambda>_. Some (dumps (store_json s)))"

definition js_initialize :: "(jfile, unit) op" where
  "js_initialize = (\<lambda>f. case f of None \<Rightarrow> js_write [(''_meta'', [])] f | Some _ \<Rightarrow> (Inr (), f))"

definition js_read :: "(jfile, mstore) op" where
  "js_read = bind js_initialize (\<lambda>_. \<lambda>f. case f of
     None \<Rightarrow> (Inl (OtherError ''FileNotFoundError''), f)
   | Some text \<Rightarrow> (case loads text of Inl e \<Rightarrow> (Inl e, f) | Inr v \<Rightarrow> (store_of_json v, f)))"

definition js_put :: "string \<Rightarrow> string \<Rightarrow> obj \<Rightarrow> (jfile, unit) op" where
  "js_put c k v = bind js_read (\<lambda>s. js_write (snd (mem_put c k v s)))"

definition js_get :: "string \<Rightarrow> string \<Rightarrow> (jfile, obj option) op" where
  "js_get c k = bind js_read (\<lambda>s. ok (map_of (coll s c) k))"

definition js_delete :: "string \<Rightarrow> string \<Rightarrow> (jfile, bool) op" where
  "js_delete c k = bind js_read (\<lambda>s.
     if map_of (coll s c) k = None then ok False
     else bind (js_write (AList.update c (AList.delete k (coll s c)) s)) (\<lambda>_. ok True))"

definition js_list :: "string \<Rightarrow> (jfile, obj list) op" where
  "js_list c = bind js_read (\<lambda>s. ok (map snd (sorted_items (coll s c))))"

definition js_list_tenant :: "string \<Rightarrow> string \<Rightarrow> (jfile, obj list) op" where
  "js_list_tenant c t =
     bind js_read (\<lambda>s. ok (map snd (filter (\<lambda>(k, v). doc_tenant t v) (sorted_items (coll s c)))))"

definition js_keys :: "string \<Rightarrow> (jfile, string list) op" where
  "js_keys c = bind js_read (\<lambda>s. ok (sort (map fst (coll s c))))"

definition js_health :: "(jfile, obj) op" where
  "js_health = catch
     (bind js_read (\<lambda>s. ok [(''status'', JStr ''ok''), (''backend'', JStr ''json''),
        (''collections'', JList (map JStr (sort (map fst s))))]))
     (\<lambda>e. ok [(''status'', JStr ''error''), (''backend'', JStr ''json''), (''error'', JStr (err_str e))])"

section \<open>The SQLite store\<close>

text \<open>
  The rows of table \<^verbatim>\<open>af_documents\<close>, keyed by collection and key, and, while a transaction is open,
  the rows its connection sees. The column \<^verbatim>\<open>updated_at\<close> is never read. Creating the tables if
  they do not exist changes nothing a later operation can see.
\<close>

type_synonym rows = "((string \<times> string) \<times> string) list"

record sqlite_db =
  db_rows :: rows
  db_active :: "rows option"

definition db_view :: "sqlite_db \<Rightarrow> rows" where
  "db_view db = (case db_active db of None \<Rightarrow> db_rows db | Some r \<Rightarrow> r)"

definition db_set :: "rows \<Rightarrow> sqlite_db \<Rightarrow> sqlite_db" where
  "db_set r db = (case db_active db of None \<Rightarrow> db\<lparr>db_rows := r\<rparr> | Some _ \<Rightarrow> db\<lparr>db_active := Some r\<rparr>)"

definition coll_rows :: "string \<Rightarrow> rows \<Rightarrow> (string \<times> string) list" where
  "coll_rows c r = map (\<lambda>((_, k), v). (k, v)) (filter (\<lambda>((c', _), _). c' = c) r)"

definition load_doc :: "string \<Rightarrow> obj result" where
  "load_doc text = (case loads text of Inl e \<Rightarrow> Inl e | Inr v \<Rightarrow> doc_of_json v)"

definition sql_put :: "string \<Rightarrow> string \<Rightarrow> obj \<Rightarrow> (sqlite_db, unit) op" where
  "sql_put c k v = modify (\<lambda>db. db_set (AList.update (c, k) (dumps (JObj v)) (db_view db)) db)"

definition sql_get :: "string \<Rightarrow> string \<Rightarrow> (sqlite_db, obj option) op" where
  "sql_get c k = (\<lambda>db. case map_of (db_view db) (c, k) of
     None \<Rightarrow> (Inr None, db)
   | Some text \<Rightarrow> (case load_doc text of Inl e \<Rightarrow> (Inl e, db) | Inr d \<Rightarrow> (Inr (Some d), db)))"

definition sql_delete :: "string \<Rightarrow> string \<Rightarrow> (sqlite_db, bool) op" where
  "sql_delete c k = (\<lambda>db. (Inr (map_of (db_view db) (c, k) \<noteq> None),
     db_set (AList.delete (c, k) (db_view db)) db))"

definition sql_list :: "string \<Rightarrow> (sqlite_db, obj list) op" where
  "sql_list c = (\<lambda>db. (map_result load_doc (map snd (sorted_items (coll_rows c (db_view db)))), db))"

definition sql_list_tenant :: "string \<Rightarrow> string \<Rightarrow> (sqlite_db, obj list) op" where
  "sql_list_tenant c t = bind (sql_list c) (\<lambda>ds. ok (filter (doc_tenant t) ds))"

definition sql_keys :: "string \<Rightarrow> (sqlite_db, string list) op" where
  "sql_keys c = gets (\<lambda>db. map fst (sorted_items (coll_rows c (db_view db))))"

definition sql_health :: "(sqlite_db, obj) op" where
  "sql_health = gets (\<lambda>db. [(''status'', JStr ''ok''), (''backend'', JStr ''sqlite''),
     (''documents'', JInt (int (length (db_rows db))))])"

text \<open>\<^verbatim>\<open>with store.transaction()\<close>: commit when the body returns, roll back when it raises.\<close>

definition sql_transaction :: "(sqlite_db, 'a) op \<Rightarrow> (sqlite_db, 'a) op" where
  "sql_transaction body = (\<lambda>db.
     let db0 = db\<lparr>db_active := Some (db_rows db)\<rparr> in
     case body db0 of
       (Inr a, db1) \<Rightarrow> (Inr a, db1\<lparr>db_rows := db_view db1, db_active := None\<rparr>)
     | (Inl e, db1) \<Rightarrow> (Inl e, db1\<lparr>db_active := None\<rparr>))"

section \<open>The unit of work\<close>

text \<open>
  \<^verbatim>\<open>with UnitOfWork(store): body\<close>. The memory store is put back to its snapshot when the body raises,
  the SQLite store runs the body in a transaction, and a store of another class (the JSON-file
  store) gets neither.
\<close>

definition uow_memory :: "(mstore, 'a) op \<Rightarrow> (mstore, 'a) op" where
  "uow_memory body = (\<lambda>s. case body s of (Inl e, _) \<Rightarrow> (Inl e, s) | (Inr a, s') \<Rightarrow> (Inr a, s'))"

definition uow_sqlite :: "(sqlite_db, 'a) op \<Rightarrow> (sqlite_db, 'a) op" where
  "uow_sqlite body = sql_transaction body"

definition uow_other :: "(jfile, 'a) op \<Rightarrow> (jfile, 'a) op" where
  "uow_other body = body"

section \<open>The contract of a document store\<close>

text \<open>
  What a client sees of a store is a partial map from collection and key to document. A stored
  document comes back as \<open>norm\<close> of what was put. Reading may change the state (the JSON-file store
  creates its file) but not that map.
\<close>

definition keys_of :: "('k::linorder \<rightharpoonup> 'v) \<Rightarrow> 'k list" where
  "keys_of m = sorted_list_of_set (dom m)"

definition values_sorted :: "('k::linorder \<rightharpoonup> 'v) \<Rightarrow> 'v list" where
  "values_sorted m = map (\<lambda>k. the (m k)) (keys_of m)"

lemma keys_of_dict: "is_dict d \<Longrightarrow> keys_of (map_of d) = map fst (sorted_items d)"
  unfolding keys_of_def
  by (rule sorted_distinct_set_unique)
    (simp_all add: finite_dom_map_of sorted_sorted_items dom_map_of_conv_image_fst
      is_dict_sorted_items [unfolded is_dict_def] is_dict_def)

lemma values_sorted_dict:
  assumes "is_dict d"
  shows "values_sorted (map_of d) = map snd (sorted_items d)"
proof -
  have "map_of d (fst p) = Some (snd p)" if "p \<in> set (sorted_items d)" for p
    using that assms map_of_eq_Some_iff_dict [of d "fst p" "snd p"] by simp
  then show ?thesis
    using assms by (simp add: values_sorted_def keys_of_dict)
qed

locale document_store =
  fixes put :: "string \<Rightarrow> string \<Rightarrow> obj \<Rightarrow> ('s, unit) op"
    and get :: "string \<Rightarrow> string \<Rightarrow> ('s, obj option) op"
    and del :: "string \<Rightarrow> string \<Rightarrow> ('s, bool) op"
    and lst :: "string \<Rightarrow> ('s, obj list) op"
    and lst_tenant :: "string \<Rightarrow> string \<Rightarrow> ('s, obj list) op"
    and keys :: "string \<Rightarrow> ('s, string list) op"
    and inv :: "'s \<Rightarrow> bool"
    and view :: "'s \<Rightarrow> string \<Rightarrow> string \<Rightarrow> obj option"
    and norm :: "obj \<Rightarrow> obj"
  assumes put_law: "inv s \<Longrightarrow> wf_obj v \<Longrightarrow>
      \<exists>s'. put c k v s = (Inr (), s') \<and> inv s' \<and> view s' = (view s)(c := (view s c)(k \<mapsto> norm v))"
    and del_law: "inv s \<Longrightarrow>
      \<exists>s'. del c k s = (Inr (view s c k \<noteq> None), s') \<and> inv s' \<and> view s' = (view s)(c := (view s c)(k := None))"
    and get_law: "inv s \<Longrightarrow> \<exists>s'. get c k s = (Inr (view s c k), s') \<and> inv s' \<and> view s' = view s"
    and lst_law: "inv s \<Longrightarrow> \<exists>s'. lst c s = (Inr (values_sorted (view s c)), s') \<and> inv s' \<and> view s' = view s"
    and lst_tenant_law: "inv s \<Longrightarrow>
      \<exists>s'. lst_tenant c t s = (Inr (filter (doc_tenant t) (values_sorted (view s c))), s') \<and> inv s' \<and> view s' = view s"
    and keys_law: "inv s \<Longrightarrow> \<exists>s'. keys c s = (Inr (keys_of (view s c)), s') \<and> inv s' \<and> view s' = view s"
    and view_finite: "inv s \<Longrightarrow> finite (dom (view s c))"
    and norm_tenant: "wf_obj v \<Longrightarrow> doc_tenant t (norm v) = doc_tenant t v"
begin

lemma get_put:
  assumes "inv s" "wf_obj v"
  shows "outcome (bind (put c k v) (\<lambda>_. get c' k')) s =
    Inr (if c' = c \<and> k' = k then Some (norm v) else view s c' k')"
proof -
  obtain s1 where 1: "put c k v s = (Inr (), s1)" "inv s1" "view s1 = (view s)(c := (view s c)(k \<mapsto> norm v))"
    using put_law [OF assms] by blast
  obtain s2 where 2: "get c' k' s1 = (Inr (view s1 c' k'), s2)"
    using get_law [OF 1(2)] by blast
  show ?thesis by (simp add: bind_apply 1(1,3) 2)
qed

lemma get_del:
  assumes "inv s"
  shows "outcome (bind (del c k) (\<lambda>_. get c' k')) s =
    Inr (if c' = c \<and> k' = k then None else view s c' k')"
proof -
  obtain s1 where 1: "del c k s = (Inr (view s c k \<noteq> None), s1)" "inv s1"
      "view s1 = (view s)(c := (view s c)(k := None))"
    using del_law [OF assms] by blast
  obtain s2 where 2: "get c' k' s1 = (Inr (view s1 c' k'), s2)"
    using get_law [OF 1(2)] by blast
  show ?thesis by (simp add: bind_apply 1(1,3) 2)
qed

end

text \<open>A client's history of writes, on any backend and on the specification.\<close>

datatype store_cmd = Put string string obj | Delete string string

fun cmd_wf :: "store_cmd \<Rightarrow> bool" where
  "cmd_wf (Put c k v) \<longleftrightarrow> wf_obj v"
| "cmd_wf (Delete c k) \<longleftrightarrow> True"

fun run_cmd :: "(string \<Rightarrow> string \<Rightarrow> obj \<Rightarrow> ('s, unit) op) \<Rightarrow> (string \<Rightarrow> string \<Rightarrow> ('s, bool) op) \<Rightarrow> store_cmd \<Rightarrow> ('s, unit) op" where
  "run_cmd put del (Put c k v) = put c k v"
| "run_cmd put del (Delete c k) = bind (del c k) (\<lambda>_. ok ())"

fun spec_cmd :: "(obj \<Rightarrow> obj) \<Rightarrow> store_cmd \<Rightarrow> (string \<Rightarrow> string \<Rightarrow> obj option) \<Rightarrow> (string \<Rightarrow> string \<Rightarrow> obj option)" where
  "spec_cmd norm (Put c k v) m = m(c := (m c)(k \<mapsto> norm v))"
| "spec_cmd norm (Delete c k) m = m(c := (m c)(k := None))"

definition spec_run :: "(obj \<Rightarrow> obj) \<Rightarrow> store_cmd list \<Rightarrow> (string \<Rightarrow> string \<Rightarrow> obj option)" where
  "spec_run norm cmds = fold (spec_cmd norm) cmds (\<lambda>_ _. None)"

context document_store
begin

lemma run_cmd_refines:
  assumes "inv s" "cmd_wf x"
  shows "\<exists>s'. run_cmd put del x s = (Inr (), s') \<and> inv s' \<and> view s' = spec_cmd norm x (view s)"
proof (cases x)
  case (Put c k v)
  with assms put_law [of s v c k] show ?thesis by simp
next
  case (Delete c k)
  obtain s' where "del c k s = (Inr (view s c k \<noteq> None), s')" "inv s'"
      "view s' = (view s)(c := (view s c)(k := None))"
    using del_law [OF assms(1)] by blast
  with Delete show ?thesis by (simp add: bind_Inr ok_apply)
qed

lemma run_refines:
  assumes "inv s" "list_all cmd_wf cmds"
  shows "\<exists>s'. forM (run_cmd put del) cmds s = (Inr (), s') \<and> inv s' \<and>
    view s' = fold (spec_cmd norm) cmds (view s)"
  using assms
proof (induction cmds arbitrary: s)
  case Nil
  then show ?case by (simp add: ok_apply)
next
  case (Cons x cmds)
  obtain s1 where 1: "run_cmd put del x s = (Inr (), s1)" "inv s1" "view s1 = spec_cmd norm x (view s)"
    using run_cmd_refines Cons.prems by fastforce
  moreover obtain s2 where "forM (run_cmd put del) cmds s1 = (Inr (), s2) \<and> inv s2 \<and>
      view s2 = fold (spec_cmd norm) cmds (view s1)"
    using Cons.IH [OF 1(2)] Cons.prems by fastforce
  ultimately show ?case by (simp add: bind_Inr)
qed

lemma get_after_run:
  assumes "inv s" "view s = (\<lambda>_ _. None)" "list_all cmd_wf cmds"
  shows "outcome (bind (forM (run_cmd put del) cmds) (\<lambda>_. get c k)) s = Inr (spec_run norm cmds c k)"
proof -
  obtain s1 where 1: "forM (run_cmd put del) cmds s = (Inr (), s1)" "inv s1"
      "view s1 = spec_run norm cmds"
    using run_refines [OF assms(1,3)] assms(2) by (auto simp: spec_run_def)
  obtain s2 where 2: "get c k s1 = (Inr (view s1 c k), s2)"
    using get_law [OF 1(2)] by blast
  show ?thesis by (simp add: bind_apply 1(1,3) 2)
qed

lemma keys_after_run:
  assumes "inv s" "view s = (\<lambda>_ _. None)" "list_all cmd_wf cmds"
  shows "outcome (bind (forM (run_cmd put del) cmds) (\<lambda>_. keys c)) s = Inr (keys_of (spec_run norm cmds c))"
proof -
  obtain s1 where 1: "forM (run_cmd put del) cmds s = (Inr (), s1)" "inv s1"
      "view s1 = spec_run norm cmds"
    using run_refines [OF assms(1,3)] assms(2) by (auto simp: spec_run_def)
  obtain s2 where 2: "keys c s1 = (Inr (keys_of (view s1 c)), s2)"
    using keys_law [OF 1(2)] by blast
  show ?thesis by (simp add: bind_apply 1(1,3) 2)
qed

text \<open>A tenant listing gives documents of that tenant only.\<close>

lemma tenant_listing:
  assumes "inv s" "outcome (lst_tenant c t) s = Inr ds"
  shows "set ds = {d \<in> ran (view s c). doc_tenant t d}"
proof -
  have "ds = filter (doc_tenant t) (values_sorted (view s c))"
    using lst_tenant_law [OF assms(1), of c t] assms(2) by auto
  then have "set ds = {d \<in> (\<lambda>k. the (view s c k)) ` dom (view s c). doc_tenant t d}"
    using view_finite [OF assms(1), of c] by (auto simp: values_sorted_def keys_of_def)
  moreover have "(\<lambda>k. the (view s c k)) ` dom (view s c) = ran (view s c)"
    by (force simp: ran_def)
  ultimately show ?thesis by simp
qed

end

lemma spec_run_norm:
  "map_option norm (spec_run (\<lambda>v. v) cmds c k) = spec_run norm cmds c k"
proof -
  have "(\<lambda>c k. map_option norm (fold (spec_cmd (\<lambda>v. v)) cmds m c k)) =
      fold (spec_cmd norm) cmds (\<lambda>c k. map_option norm (m c k))" for m
  proof (induction cmds arbitrary: m)
    case (Cons x cmds)
    have "(\<lambda>c k. map_option norm (spec_cmd (\<lambda>v. v) x m c k)) = spec_cmd norm x (\<lambda>c k. map_option norm (m c k))"
      by (cases x) (auto simp: fun_eq_iff)
    with Cons.IH [of "spec_cmd (\<lambda>v. v) x m"] show ?case by simp
  qed simp
  from this [of "\<lambda>_ _. None"] show ?thesis by (simp add: spec_run_def fun_eq_iff)
qed

section \<open>The in-memory store meets the contract\<close>

definition mem_inv :: "mstore \<Rightarrow> bool" where
  "mem_inv s \<longleftrightarrow> is_dict s \<and> (\<forall>d \<in> snd ` set s. is_dict d \<and> (\<forall>v \<in> snd ` set d. wf_obj v))"

definition mem_view :: "mstore \<Rightarrow> string \<Rightarrow> string \<Rightarrow> obj option" where
  "mem_view s c k = map_of (coll s c) k"

lemma mem_inv_Nil [simp]: "mem_inv []"
  by (simp add: mem_inv_def)

lemma mem_inv_coll:
  assumes "mem_inv s"
  shows "is_dict (coll s c)" "v \<in> snd ` set (coll s c) \<Longrightarrow> wf_obj v"
proof -
  have "is_dict (coll s c) \<and> (\<forall>v \<in> snd ` set (coll s c). wf_obj v)"
  proof (cases "map_of s c")
    case (Some d)
    then have "d \<in> snd ` set s" using map_of_SomeD by force
    with assms Some show ?thesis unfolding coll_def mem_inv_def by fastforce
  qed (simp add: coll_def)
  then show "is_dict (coll s c)" "v \<in> snd ` set (coll s c) \<Longrightarrow> wf_obj v" by blast+
qed

lemma mem_view_wf: "mem_inv s \<Longrightarrow> mem_view s c k = Some v \<Longrightarrow> wf_obj v"
  by (auto simp: mem_view_def dest: map_of_SomeD intro!: mem_inv_coll(2) [where s = s and c = c] image_eqI [of _ snd])

lemma coll_update: "coll (AList.update c d s) c' = (if c' = c then d else coll s c')"
  by (simp add: coll_def)

lemma coll_setdefault: "coll (setdefault c [] s) c' = coll s c'"
  by (auto simp: coll_def setdefault_def split: option.splits)

lemma setdefault_update: "AList.update c d (setdefault c e s) = AList.update c d s"
  by (induction s) (auto simp: setdefault_def split: option.splits)

lemma mem_inv_update:
  assumes "mem_inv s" "is_dict d" "\<And>v. v \<in> snd ` set d \<Longrightarrow> wf_obj v"
  shows "mem_inv (AList.update c d s)"
  using assms by (fastforce simp: mem_inv_def mem_update_dict split: if_splits)

lemma mem_put_inv:
  assumes "mem_inv s" "wf_obj v"
  shows "mem_inv (AList.update c (AList.update k v (coll s c)) s)"
proof (rule mem_inv_update [OF assms(1)])
  show "is_dict (AList.update k v (coll s c))" by (simp add: mem_inv_coll [OF assms(1)])
next
  fix u assume "u \<in> snd ` set (AList.update k v (coll s c))"
  then obtain k' where "(k', u) \<in> set (AList.update k v (coll s c))" by force
  then show "wf_obj u"
    using assms mem_inv_coll [OF assms(1), where c = c]
    by (force simp: mem_update_dict split: if_splits)
qed

lemma mem_delete_inv:
  assumes "mem_inv s"
  shows "mem_inv (AList.update c (AList.delete k (coll s c)) s)"
proof (rule mem_inv_update [OF assms(1)])
  show "is_dict (AList.delete k (coll s c))" by (simp add: mem_inv_coll [OF assms(1)])
next
  fix u assume "u \<in> snd ` set (AList.delete k (coll s c))"
  then show "wf_obj u"
    using mem_inv_coll(2) [OF assms(1), where c = c and v = u] by (force simp: mem_delete_dict)
qed

interpretation memory: document_store mem_put mem_get mem_delete mem_list mem_list_tenant mem_keys
  mem_inv mem_view "\<lambda>v. v"
proof unfold_locales
  fix s :: mstore and c k t :: string and v :: obj
  show "\<exists>s'. mem_put c k v s = (Inr (), s') \<and> mem_inv s' \<and> mem_view s' = (mem_view s)(c := (mem_view s c)(k \<mapsto> v))"
    if "mem_inv s" "wf_obj v"
    using that by (auto simp: mem_put_def op_simps setdefault_update mem_put_inv mem_view_def coll_update fun_eq_iff)
  show "finite (dom (mem_view s c))"
    by (simp add: mem_view_def [abs_def] finite_dom_map_of)
  assume inv: "mem_inv s"
  show "\<exists>s'. mem_delete c k s = (Inr (mem_view s c k \<noteq> None), s') \<and> mem_inv s' \<and>
      mem_view s' = (mem_view s)(c := (mem_view s c)(k := None))"
    using mem_delete_inv [OF inv] inv by (auto simp: mem_delete_def mem_view_def coll_update fun_eq_iff)
  show "\<exists>s'. mem_get c k s = (Inr (mem_view s c k), s') \<and> mem_inv s' \<and> mem_view s' = mem_view s"
    using inv by (simp add: mem_get_def op_simps mem_view_def)
  have d: "is_dict (coll s c)" by (rule mem_inv_coll [OF inv])
  have eta: "mem_view s c = map_of (coll s c)" by (simp add: fun_eq_iff mem_view_def)
  show "\<exists>s'. mem_list c s = (Inr (values_sorted (mem_view s c)), s') \<and> mem_inv s' \<and> mem_view s' = mem_view s"
    using inv d by (simp add: mem_list_def op_simps values_sorted_dict eta)
  show "\<exists>s'. mem_list_tenant c t s = (Inr (filter (doc_tenant t) (values_sorted (mem_view s c))), s') \<and>
      mem_inv s' \<and> mem_view s' = mem_view s"
    using inv d by (simp add: mem_list_tenant_def op_simps values_sorted_dict eta filter_map comp_def case_prod_unfold)
  have "map fst (sorted_items (coll s c)) = sort (map fst (coll s c))"
    by (rule properties_for_sort [symmetric]) (simp_all add: sorted_sorted_items sorted_items_def)
  then show "\<exists>s'. mem_keys c s = (Inr (keys_of (mem_view s c)), s') \<and> mem_inv s' \<and> mem_view s' = mem_view s"
    using inv d by (simp add: mem_keys_def op_simps keys_of_dict eta)
qed simp

section \<open>The JSON-file store meets the contract\<close>

definition norm_doc :: "obj \<Rightarrow> obj" where
  "norm_doc d = sorted_items (map (map_prod id canon) d)"

definition norm_coll :: "collection \<Rightarrow> collection" where
  "norm_coll d = sorted_items (map (map_prod id norm_doc) d)"

definition norm_store :: "mstore \<Rightarrow> mstore" where
  "norm_store s = sorted_items (map (map_prod id norm_coll) s)"

lemma sorted_items_map_prod: "sorted_items (map (map_prod id f) d) = map (map_prod id f) (sorted_items d)"
proof (induction d)
  case (Cons p d)
  have "insort_key fst (map_prod id f p) (map (map_prod id f) e) = map (map_prod id f) (insort_key fst p e)" for e
    by (induction e) simp_all
  with Cons show ?case unfolding id_def sorted_items_def by simp
qed (simp add: sorted_items_def)


lemma canon_JObj: "canon (JObj d) = JObj (norm_doc d)"
  by (simp add: norm_doc_def)

lemma canon_members:
  assumes "\<And>x. canon (j x) = j (n x)"
  shows "canon (JObj (map (map_prod id j) d)) = JObj (map (map_prod id j) (sorted_items (map (map_prod id n) d)))"
proof -
  have "map (map_prod id canon) (map (map_prod id j) d) = map (map_prod id j) (map (map_prod id n) d)"
    using assms by (simp add: case_prod_unfold map_prod_def)
  then have "canon (JObj (map (map_prod id j) d)) = JObj (sorted_items (map (map_prod id j) (map (map_prod id n) d)))"
    by (simp only: canon.simps)
  then show ?thesis by (simp only: sorted_items_map_prod)
qed

lemma canon_coll: "canon (coll_json d) = coll_json (norm_coll d)"
  unfolding coll_json_def norm_coll_def by (rule canon_members) (rule canon_JObj)

lemma canon_store: "canon (store_json s) = store_json (norm_store s)"
  unfolding store_json_def norm_store_def by (rule canon_members) (rule canon_coll)

lemma values_of_map:
  "(\<And>v. v \<in> snd ` set d \<Longrightarrow> f (g v) = Inr v) \<Longrightarrow> values_of f (map (map_prod id g) d) = Inr d"
  by (induction d) (auto simp: values_of_def)

lemma store_of_store_json: "store_of_json (store_json s) = Inr s"
  by (simp add: store_json_def coll_json_def values_of_map)

lemma wf_store_json: "mem_inv s \<Longrightarrow> wf_json (store_json s)"
  by (fastforce simp: store_json_def coll_json_def mem_inv_def wf_obj_def)

lemma norm_doc_wf: "wf_obj d \<Longrightarrow> wf_obj (norm_doc d)"
  using wf_json_canon [of "JObj d"] by (simp add: wf_obj_def canon_JObj del: canon.simps)

lemma norm_store_inv:
  assumes "mem_inv s"
  shows "mem_inv (norm_store s)"
  using assms
  by (fastforce simp: mem_inv_def norm_store_def norm_coll_def intro: norm_doc_wf)

lemma load_doc_dumps: "wf_obj d \<Longrightarrow> load_doc (dumps (JObj d)) = Inr (norm_doc d)"
  by (simp add: load_doc_def loads_dumps wf_obj_def canon_JObj del: canon.simps)


definition js_inv :: "jfile \<Rightarrow> bool" where
  "js_inv f \<longleftrightarrow> f = None \<or> (\<exists>s. mem_inv s \<and> f = Some (dumps (store_json s)))"

definition js_view :: "jfile \<Rightarrow> string \<Rightarrow> string \<Rightarrow> obj option" where
  "js_view f c k = (case outcome js_read f of Inr s \<Rightarrow> mem_view s c k | Inl _ \<Rightarrow> None)"

lemma js_read_text:
  "mem_inv s \<Longrightarrow> js_read (Some (dumps (store_json s))) = (Inr (norm_store s), Some (dumps (store_json s)))"
  by (simp add: js_read_def js_initialize_def op_simps loads_dumps wf_store_json canon_store
      store_of_store_json del: canon.simps)

lemma js_read_empty: "js_read None = js_read (Some (dumps (store_json [(''_meta'', [])])))"
  by (simp add: js_read_def js_initialize_def js_write_def op_simps)

lemma map_of_map_prod: "map_of (map (map_prod id f) d) k = map_option f (map_of d k)"
  by (induction d) auto

lemma mem_view_norm:
  assumes "mem_inv s"
  shows "mem_view (norm_store s) c k = map_option norm_doc (mem_view s c k)"
proof -
  have "coll (norm_store s) c = (case map_of s c of None \<Rightarrow> [] | Some d \<Rightarrow> norm_coll d)"
    using assms by (auto simp: coll_def norm_store_def map_of_sorted_items mem_inv_def map_of_map_prod split: option.splits)
  moreover have "map_of (norm_coll d) k = map_option norm_doc (map_of d k)" if "map_of s c = Some d" for d
    using that mem_inv_coll(1) [OF assms, where c = c]
    by (simp add: coll_def norm_coll_def map_of_sorted_items map_of_map_prod)
  ultimately show ?thesis
    by (simp add: mem_view_def coll_def split: option.splits)
qed

lemma norm_json_idem: "wf_json v \<Longrightarrow> canon (canon v) = canon v"
proof (induction v)
  case (JObj d)
  then have "map (map_prod id canon) (map (map_prod id canon) (sorted_items d)) = map (map_prod id canon) (sorted_items d)"
    by (fastforce simp: map_prod_def)
  then show ?case by (simp add: sorted_items_map_prod del: map_map)
qed auto

lemma norm_doc_idem: "wf_obj d \<Longrightarrow> norm_doc (norm_doc d) = norm_doc d"
  using norm_json_idem [of "JObj d"] by (simp add: wf_obj_def canon_JObj del: canon.simps)

text \<open>Reading never raises, and gives normal documents only.\<close>

lemma js_read_ok:
  assumes "js_inv f"
  shows "\<exists>s f'. js_read f = (Inr s, f') \<and> mem_inv s \<and> js_inv f' \<and> js_view f = mem_view s \<and>
    js_view f' = mem_view s \<and> (\<forall>c k. map_option norm_doc (mem_view s c k) = mem_view s c k)"
proof -
  obtain s0 where s0: "mem_inv s0" "js_read f = js_read (Some (dumps (store_json s0)))"
  proof (cases f)
    case None
    then show ?thesis
      using js_read_empty by (intro that [of "[(''_meta'', [])]"]) (simp_all add: mem_inv_def)
  next
    case (Some t)
    with assms that show ?thesis by (auto simp: js_inv_def)
  qed
  have "map_option norm_doc (mem_view (norm_store s0) c k) = mem_view (norm_store s0) c k" for c k
    using mem_view_wf [OF s0(1), of c k]
    by (cases "mem_view s0 c k") (simp_all add: mem_view_norm [OF s0(1)] norm_doc_idem)
  with s0 js_read_text [OF s0(1)] norm_store_inv [OF s0(1)] show ?thesis
    by (auto simp: js_inv_def js_view_def fun_eq_iff)
qed

lemma js_write_ok:
  assumes "mem_inv s"
  shows "js_write s f = (Inr (), Some (dumps (store_json s)))"
    and "js_inv (Some (dumps (store_json s)))"
    and "js_view (Some (dumps (store_json s))) c k = map_option norm_doc (mem_view s c k)"
  using assms js_read_text [OF assms]
  by (auto simp: js_write_def op_simps js_inv_def js_view_def mem_view_norm)


lemma doc_tenant_norm: "wf_obj v \<Longrightarrow> doc_tenant t (norm_doc v) = doc_tenant t v"
proof -
  have *: "canon x = JStr t \<longleftrightarrow> x = JStr t" for x by (cases x) simp_all
  show "wf_obj v \<Longrightarrow> doc_tenant t (norm_doc v) = doc_tenant t v"
    by (simp add: doc_tenant_def norm_doc_def wf_obj_def map_of_sorted_items map_of_map_prod *)
qed

text \<open>The operations of the JSON-file store are those of the memory store on what it reads.\<close>

lemma js_observe:
  assumes "js_inv f" "\<And>s. mem_inv s \<Longrightarrow> g s = h (mem_view s)"
  shows "\<exists>f'. bind js_read (\<lambda>s. ok (g s)) f = (Inr (h (js_view f)), f') \<and> js_inv f' \<and> js_view f' = js_view f"
  using js_read_ok [OF assms(1)] assms(2) by (auto simp: bind_apply ok_apply)

lemma mem_observe:
  assumes "mem_inv s"
  shows "map snd (sorted_items (coll s c)) = values_sorted (mem_view s c)"
    and "map snd (filter (\<lambda>(k, v). doc_tenant t v) (sorted_items (coll s c))) =
      filter (doc_tenant t) (values_sorted (mem_view s c))"
    and "sort (map fst (coll s c)) = keys_of (mem_view s c)"
  using memory.lst_law [OF assms, of c] memory.lst_tenant_law [OF assms, of c t] memory.keys_law [OF assms, of c]
  by (simp_all add: mem_list_def mem_list_tenant_def mem_keys_def op_simps)

interpretation json_file: document_store js_put js_get js_delete js_list js_list_tenant js_keys
  js_inv js_view norm_doc
proof unfold_locales
  fix f :: jfile and c k t :: string and v :: obj
  show "doc_tenant t (norm_doc v) = doc_tenant t v" if "wf_obj v"
    using that by (rule doc_tenant_norm)
  assume inv: "js_inv f"
  obtain s f' where r: "js_read f = (Inr s, f')" "mem_inv s" "js_inv f'" "js_view f = mem_view s"
      "js_view f' = mem_view s" and n: "\<And>c k. map_option norm_doc (mem_view s c k) = mem_view s c k"
    using js_read_ok [OF inv] by blast
  show "\<exists>s'. js_put c k v f = (Inr (), s') \<and> js_inv s' \<and> js_view s' = (js_view f)(c := (js_view f c)(k \<mapsto> norm_doc v))"
    if wf: "wf_obj v"
  proof -
    obtain s2 where s2: "mem_put c k v s = (Inr (), s2)" "mem_inv s2" "mem_view s2 = (mem_view s)(c := (mem_view s c)(k \<mapsto> v))"
      using memory.put_law [OF r(2) wf] by blast
    show ?thesis
      using js_write_ok(1) [OF s2(2), of f'] js_write_ok(2,3) [OF s2(2)] n
      by (auto simp: js_put_def bind_apply r s2 fun_eq_iff)
  qed
  show "\<exists>s'. js_delete c k f = (Inr (js_view f c k \<noteq> None), s') \<and> js_inv s' \<and>
      js_view s' = (js_view f)(c := (js_view f c)(k := None))"
  proof (cases "mem_view s c k")
    case None
    with r show ?thesis by (auto simp: js_delete_def mem_view_def bind_apply ok_apply fun_eq_iff)
  next
    case (Some d)
    obtain s2 where s2: "mem_delete c k s = (Inr True, s2)" "mem_inv s2" "mem_view s2 = (mem_view s)(c := (mem_view s c)(k := None))"
      using memory.del_law [OF r(2), of c k] Some by auto
    moreover have "s2 = AList.update c (AList.delete k (coll s c)) s"
      using s2(1) Some by (simp add: mem_delete_def mem_view_def)
    ultimately show ?thesis
      using js_write_ok(1) [OF s2(2), of f'] js_write_ok(2,3) [OF s2(2)] n Some
      by (auto simp: js_delete_def r mem_view_def bind_apply ok_apply fun_eq_iff)
  qed
  show "finite (dom (js_view f c))"
    using r(4) memory.view_finite [OF r(2)] by simp
  show "\<exists>s'. js_get c k f = (Inr (js_view f c k), s') \<and> js_inv s' \<and> js_view s' = js_view f"
    unfolding js_get_def by (rule js_observe [OF inv]) (simp add: mem_view_def)
  show "\<exists>s'. js_list c f = (Inr (values_sorted (js_view f c)), s') \<and> js_inv s' \<and> js_view s' = js_view f"
    unfolding js_list_def by (rule js_observe [OF inv]) (rule mem_observe)
  show "\<exists>s'. js_list_tenant c t f = (Inr (filter (doc_tenant t) (values_sorted (js_view f c))), s') \<and>
      js_inv s' \<and> js_view s' = js_view f"
    unfolding js_list_tenant_def by (rule js_observe [OF inv]) (rule mem_observe)
  show "\<exists>s'. js_keys c f = (Inr (keys_of (js_view f c)), s') \<and> js_inv s' \<and> js_view s' = js_view f"
    unfolding js_keys_def by (rule js_observe [OF inv]) (rule mem_observe)
qed

section \<open>The SQLite store meets the contract\<close>

definition sql_inv :: "sqlite_db \<Rightarrow> bool" where
  "sql_inv db \<longleftrightarrow> is_dict (db_view db) \<and> (\<forall>t \<in> snd ` set (db_view db). \<exists>d. wf_obj d \<and> t = dumps (JObj d))"

definition loaded :: "string \<Rightarrow> obj" where
  "loaded t = (case load_doc t of Inr d \<Rightarrow> d | Inl _ \<Rightarrow> [])"

definition sql_view :: "sqlite_db \<Rightarrow> string \<Rightarrow> string \<Rightarrow> obj option" where
  "sql_view db c k = map_option loaded (map_of (db_view db) (c, k))"

lemma db_view_set [simp]: "db_view (db_set r db) = r"
  by (simp add: db_view_def db_set_def split: option.splits)

lemma loaded_dumps [simp]: "wf_obj d \<Longrightarrow> loaded (dumps (JObj d)) = norm_doc d"
  by (simp add: loaded_def load_doc_dumps)

lemma sql_inv_load:
  assumes "sql_inv db" "t \<in> snd ` set (db_view db)"
  shows "load_doc t = Inr (loaded t)"
  using assms by (force simp: sql_inv_def load_doc_dumps loaded_def)

lemma map_of_coll_rows: "map_of (coll_rows c r) k = map_of r (c, k)"
  by (induction r) (auto simp: coll_rows_def)

lemma set_coll_rows: "(k, t) \<in> set (coll_rows c r) \<longleftrightarrow> ((c, k), t) \<in> set r"
  by (force simp: coll_rows_def)

lemma is_dict_coll_rows: "is_dict r \<Longrightarrow> is_dict (coll_rows c r)"
proof (induction r)
  case (Cons p r)
  then show ?case
    by (cases p, cases "fst p") (force simp: coll_rows_def)
qed (simp add: coll_rows_def)

lemma sql_view_coll: "sql_view db c = map_of (map (map_prod id loaded) (coll_rows c (db_view db)))"
  by (simp add: fun_eq_iff sql_view_def map_of_map_prod map_of_coll_rows)

lemma sql_list_ok:
  assumes "sql_inv db"
  shows "sql_list c db = (Inr (values_sorted (sql_view db c)), db)"
proof -
  let ?r = "sorted_items (coll_rows c (db_view db))"
  have d: "is_dict (coll_rows c (db_view db))"
    using assms by (simp add: sql_inv_def is_dict_coll_rows)
  have "load_doc t = Inr (loaded t)" if "t \<in> set (map snd ?r)" for t
  proof -
    from that obtain k where "((c, k), t) \<in> set (db_view db)" by (auto simp: set_coll_rows)
    then show ?thesis by (intro sql_inv_load [OF assms]) force
  qed
  then have "map_result load_doc (map snd ?r) = Inr (map loaded (map snd ?r))"
    by (rule map_result_all_Inr)
  moreover have "map loaded (map snd ?r) = values_sorted (sql_view db c)"
    using d by (simp add: sql_view_coll values_sorted_dict sorted_items_map_prod)
  ultimately show ?thesis by (simp add: sql_list_def)
qed

interpretation sqlite: document_store sql_put sql_get sql_delete sql_list sql_list_tenant sql_keys
  sql_inv sql_view norm_doc
proof unfold_locales
  fix db :: sqlite_db and c k t :: string and v :: obj
  show "doc_tenant t (norm_doc v) = doc_tenant t v" if "wf_obj v"
    using that by (rule doc_tenant_norm)
  show "finite (dom (sql_view db c))"
    by (simp add: sql_view_coll finite_dom_map_of)
  assume inv: "sql_inv db"
  then have d: "is_dict (db_view db)" by (simp add: sql_inv_def)
  show "\<exists>s'. sql_put c k v db = (Inr (), s') \<and> sql_inv s' \<and> sql_view s' = (sql_view db)(c := (sql_view db c)(k \<mapsto> norm_doc v))"
    if wf: "wf_obj v"
  proof -
    have "sql_inv (db_set (AList.update (c, k) (dumps (JObj v)) (db_view db)) db)"
      using inv wf d by (fastforce simp: sql_inv_def mem_update_dict split: if_splits)
    then show ?thesis
      using wf by (auto simp: sql_put_def modify_apply sql_view_def fun_eq_iff)
  qed
  show "\<exists>s'. sql_delete c k db = (Inr (sql_view db c k \<noteq> None), s') \<and> sql_inv s' \<and>
      sql_view s' = (sql_view db)(c := (sql_view db c)(k := None))"
    using inv by (fastforce simp: sql_delete_def sql_inv_def sql_view_def fun_eq_iff mem_delete_dict)
  show "\<exists>s'. sql_get c k db = (Inr (sql_view db c k), s') \<and> sql_inv s' \<and> sql_view s' = sql_view db"
  proof (cases "map_of (db_view db) (c, k)")
    case (Some t)
    then have "t \<in> snd ` set (db_view db)" by (force dest: map_of_SomeD)
    with inv Some show ?thesis by (simp add: sql_get_def sql_view_def sql_inv_load)
  qed (use inv in \<open>simp add: sql_get_def sql_view_def\<close>)
  show "\<exists>s'. sql_list c db = (Inr (values_sorted (sql_view db c)), s') \<and> sql_inv s' \<and> sql_view s' = sql_view db"
    using inv by (simp add: sql_list_ok)
  show "\<exists>s'. sql_list_tenant c t db = (Inr (filter (doc_tenant t) (values_sorted (sql_view db c))), s') \<and>
      sql_inv s' \<and> sql_view s' = sql_view db"
    using inv by (simp add: sql_list_tenant_def sql_list_ok bind_apply ok_apply)
  show "\<exists>s'. sql_keys c db = (Inr (keys_of (sql_view db c)), s') \<and> sql_inv s' \<and> sql_view s' = sql_view db"
    using inv d by (simp add: sql_keys_def gets_apply sql_view_coll keys_of_dict is_dict_coll_rows
        sorted_items_map_prod)
qed

section \<open>Transactions\<close>

text \<open>Inside a transaction the operations work on the connection's rows and leave the table alone.\<close>

definition db_isolated :: "sqlite_db \<Rightarrow> sqlite_db \<Rightarrow> bool" where
  "db_isolated s t \<longleftrightarrow> db_active s \<noteq> None \<longrightarrow> db_active t \<noteq> None \<and> db_rows t = db_rows s"

interpretation in_transaction: step_contract db_isolated
  by unfold_locales (auto simp: db_isolated_def)

lemma in_transaction_run_cmd: "in_transaction.steps (run_cmd sql_put sql_delete x)"
  by (cases x) (auto simp: in_transaction.steps_def db_isolated_def sql_put_def sql_delete_def
      db_set_def op_simps split: option.splits)

lemma sql_transaction_rollback:
  assumes "in_transaction.steps body" "db_active db = None" "outcome (sql_transaction body) db = Inl e"
  shows "sql_transaction body db = (Inl e, db)"
  using in_transaction.stepsD [OF assms(1), of "db\<lparr>db_active := Some (db_rows db)\<rparr>"] assms(2,3)
  by (auto simp: sql_transaction_def db_isolated_def split: prod.splits sum.splits)

lemma sql_transaction_commit:
  assumes "db_active db = None" "body (db\<lparr>db_active := Some (db_rows db)\<rparr>) = (Inr a, db1)"
  shows "outcome (sql_transaction body) db = Inr a"
    and "sql_view (final (sql_transaction body) db) = sql_view db1"
  using assms by (auto simp: sql_transaction_def sql_view_def fun_eq_iff db_view_def)

section \<open>Properties\<close>

definition empty_db :: sqlite_db where
  "empty_db = \<lparr>db_rows = [], db_active = None\<rparr>"

lemma empty_stores:
  "mem_view [] = (\<lambda>_ _. None)" "js_inv None" "js_view None = (\<lambda>_ _. None)"
  "sql_inv empty_db" "sql_view empty_db = (\<lambda>_ _. None)"
proof -
  have "js_read None = (Inr (norm_store [(''_meta'', [])]), Some (dumps (store_json [(''_meta'', [])])))"
    unfolding js_read_empty by (rule js_read_text) (simp add: mem_inv_def)
  then show "js_view None = (\<lambda>_ _. None)"
    by (auto simp: js_view_def fun_eq_iff mem_view_def coll_def norm_store_def norm_coll_def sorted_items_def)
qed (auto simp: mem_view_def coll_def js_inv_def sql_inv_def sql_view_def db_view_def empty_db_def fun_eq_iff)

lemma keys_of_norm: "keys_of (spec_run norm cmds c) = keys_of (spec_run (\<lambda>v. v) cmds c)"
proof -
  have "dom (spec_run norm cmds c) = dom (spec_run (\<lambda>v. v) cmds c)"
    by (auto simp: dom_def simp flip: spec_run_norm [of norm])
  then show ?thesis by (simp add: keys_of_def)
qed

text \<open>
  C2. The three backends are one store to a client: after any history of puts and deletes of
  well-formed documents, started on an empty store of each kind, every lookup in the JSON file and
  in SQLite gives the document the memory store gives, with its keys sorted, every listing of the
  keys of a collection is the same list, and none of the operations raises.
\<close>

theorem backends_agree:
  assumes "list_all cmd_wf cmds"
  shows "\<exists>doc ks.
    outcome (bind (forM (run_cmd mem_put mem_delete) cmds) (\<lambda>_. mem_get c k)) [] = Inr doc \<and>
    outcome (bind (forM (run_cmd mem_put mem_delete) cmds) (\<lambda>_. mem_keys c)) [] = Inr ks \<and>
    outcome (bind (forM (run_cmd js_put js_delete) cmds) (\<lambda>_. js_get c k)) None = Inr (map_option norm_doc doc) \<and>
    outcome (bind (forM (run_cmd js_put js_delete) cmds) (\<lambda>_. js_keys c)) None = Inr ks \<and>
    outcome (bind (forM (run_cmd sql_put sql_delete) cmds) (\<lambda>_. sql_get c k)) empty_db = Inr (map_option norm_doc doc) \<and>
    outcome (bind (forM (run_cmd sql_put sql_delete) cmds) (\<lambda>_. sql_keys c)) empty_db = Inr ks"
  using assms
  by (simp add: memory.get_after_run memory.keys_after_run json_file.get_after_run json_file.keys_after_run
      sqlite.get_after_run sqlite.keys_after_run empty_stores spec_run_norm keys_of_norm [of norm_doc])

theorem backends_agree_witness:
  "\<exists>doc ks.
    outcome (bind (forM (run_cmd mem_put mem_delete) [Put ''c'' ''k'' [(''b'', JInt 1), (''a'', JNull)], Delete ''c'' ''x'']) (\<lambda>_. mem_get ''c'' ''k'')) [] = Inr doc \<and>
    outcome (bind (forM (run_cmd mem_put mem_delete) [Put ''c'' ''k'' [(''b'', JInt 1), (''a'', JNull)], Delete ''c'' ''x'']) (\<lambda>_. mem_keys ''c'')) [] = Inr ks \<and>
    outcome (bind (forM (run_cmd js_put js_delete) [Put ''c'' ''k'' [(''b'', JInt 1), (''a'', JNull)], Delete ''c'' ''x'']) (\<lambda>_. js_get ''c'' ''k'')) None = Inr (map_option norm_doc doc)"
  using backends_agree [of "[Put ''c'' ''k'' [(''b'', JInt 1), (''a'', JNull)], Delete ''c'' ''x'']" "''c''" "''k''"]
  by auto

text \<open>A body that does its work and then raises.\<close>

definition failing :: "('s, unit) op \<Rightarrow> py_error \<Rightarrow> ('s, unit) op" where
  "failing m e = bind m (\<lambda>_. raise e)"

text \<open>
  C6. A unit of work is atomic on the memory store and on SQLite: when its body, any history of puts
  and deletes, ends by raising, the error reaches the caller and the store is exactly what it was;
  when SQLite's body returns, its writes are the ones a client sees afterwards.
\<close>

theorem unit_of_work_atomic:
  assumes "mem_inv s" "sql_inv db" "db_active db = None" "list_all cmd_wf cmds"
  shows "uow_memory (failing (forM (run_cmd mem_put mem_delete) cmds) e) s = (Inl e, s) \<and>
    uow_sqlite (failing (forM (run_cmd sql_put sql_delete) cmds) e) db = (Inl e, db) \<and>
    outcome (uow_sqlite (forM (run_cmd sql_put sql_delete) cmds)) db = Inr () \<and>
    sql_view (final (uow_sqlite (forM (run_cmd sql_put sql_delete) cmds)) db) = fold (spec_cmd norm_doc) cmds (sql_view db)"
proof -
  let ?db = "db\<lparr>db_active := Some (db_rows db)\<rparr>"
  have same: "sql_inv ?db = sql_inv db" "sql_view ?db = sql_view db"
    using assms(3) by (simp_all add: sql_inv_def sql_view_def fun_eq_iff db_view_def)
  obtain s1 where s1: "forM (run_cmd mem_put mem_delete) cmds s = (Inr (), s1)"
    using memory.run_refines [OF assms(1,4)] by blast
  obtain db1 where db1: "forM (run_cmd sql_put sql_delete) cmds ?db = (Inr (), db1)"
      "sql_view db1 = fold (spec_cmd norm_doc) cmds (sql_view db)"
    using sqlite.run_refines [of ?db, OF _ assms(4)] assms(2) same by auto
  let ?body = "failing (forM (run_cmd sql_put sql_delete) cmds) e"
  have "outcome (sql_transaction ?body) db = Inl e"
    by (simp add: sql_transaction_def failing_def bind_apply db1 raise_apply)
  moreover have "in_transaction.steps ?body"
    unfolding failing_def by (intro in_transaction.steps_intros in_transaction_run_cmd)
  ultimately have "uow_sqlite ?body db = (Inl e, db)"
    unfolding uow_sqlite_def using assms(3) by (rule sql_transaction_rollback [rotated -1])
  then show ?thesis
    using sql_transaction_commit [where body = "forM (run_cmd sql_put sql_delete) cmds", OF assms(3) db1(1)] db1(2)
    by (simp add: uow_memory_def uow_sqlite_def failing_def bind_apply s1 raise_apply)
qed

theorem unit_of_work_atomic_witness:
  "uow_memory (failing (forM (run_cmd mem_put mem_delete) [Put ''c'' ''k'' [(''a'', JInt 1)]]) (ValueError ''x'')) [] =
      (Inl (ValueError ''x''), []) \<and>
   sql_view (final (uow_sqlite (forM (run_cmd sql_put sql_delete) [Put ''c'' ''k'' [(''a'', JInt 1)]])) empty_db) =
      fold (spec_cmd norm_doc) [Put ''c'' ''k'' [(''a'', JInt 1)]] (sql_view empty_db)"
proof -
  have "db_active empty_db = None" by (simp add: empty_db_def)
  then show ?thesis
    using unit_of_work_atomic [of "[]" empty_db "[Put ''c'' ''k'' [(''a'', JInt 1)]]" "ValueError ''x''"] empty_stores(4)
    by simp
qed

text \<open>
  On the JSON-file store a unit of work is not atomic: every write made before the body raised
  is still in the file.
\<close>

theorem unit_of_work_json_not_rolled_back:
  assumes "js_inv f" "list_all cmd_wf cmds"
  shows "\<exists>f'. uow_other (failing (forM (run_cmd js_put js_delete) cmds) e) f = (Inl e, f') \<and>
    js_view f' = fold (spec_cmd norm_doc) cmds (js_view f)"
  using json_file.run_refines [OF assms] by (auto simp: uow_other_def failing_def bind_apply raise_apply)

theorem unit_of_work_json_not_rolled_back_witness:
  "\<exists>f'. uow_other (failing (forM (run_cmd js_put js_delete) [Put ''c'' ''k'' []]) (ValueError ''x'')) None = (Inl (ValueError ''x''), f') \<and>
    js_view f' ''c'' ''k'' = Some [] \<and> js_view None ''c'' ''k'' = None"
proof -
  have "norm_doc [] = []" by (simp add: norm_doc_def sorted_items_def)
  then show ?thesis
    using unit_of_work_json_not_rolled_back [of None "[Put ''c'' ''k'' []]" "ValueError ''x''"] empty_stores(2,3)
    by auto
qed

text \<open>
  A tenant's listing gives the documents of that tenant in the collection, all of them and no
  other, on each of the three backends.
\<close>

theorem list_tenant_isolated:
  shows "(mem_inv s \<and> outcome (mem_list_tenant c t) s = Inr ds \<longrightarrow> set ds = {d \<in> ran (mem_view s c). doc_tenant t d}) \<and>
    (js_inv f \<and> outcome (js_list_tenant c t) f = Inr ds \<longrightarrow> set ds = {d \<in> ran (js_view f c). doc_tenant t d}) \<and>
    (sql_inv db \<and> outcome (sql_list_tenant c t) db = Inr ds \<longrightarrow> set ds = {d \<in> ran (sql_view db c). doc_tenant t d})"
  using memory.tenant_listing json_file.tenant_listing sqlite.tenant_listing by auto

theorem list_tenant_isolated_witness:
  "set [[(''tenant_id'', JStr ''a'')]] = {d \<in> ran (mem_view [(''c'', [(''k'', [(''tenant_id'', JStr ''a'')]), (''l'', [(''tenant_id'', JStr ''b'')])])] ''c''). doc_tenant ''a'' d}"
proof -
  let ?s = "[(''c'', [(''k'', [(''tenant_id'', JStr ''a'')]), (''l'', [(''tenant_id'', JStr ''b'')])])]"
  have "outcome (mem_list_tenant ''c'' ''a'') ?s = Inr [[(''tenant_id'', JStr ''a'')]]" by code_simp
  moreover have "mem_inv ?s" by code_simp
  ultimately show ?thesis
    using list_tenant_isolated [of ?s "''c''" "''a''" "[[(''tenant_id'', JStr ''a'')]]"] by blast
qed

end
