(* ===== verification/Py_Time.thy ===== *)
theory Py_Time
  imports Py_Json
begin

text \<open>
  The standard library's \<^verbatim>\<open>datetime\<close> as the services use it: instants in UTC with a resolution of a
  microsecond between the years 1 and 9999, their order, adding a duration, and the text form that
  \<^verbatim>\<open>isoformat()\<close> writes and \<^verbatim>\<open>fromisoformat()\<close> reads back. Timestamps with another UTC offset, or none,
  are not written by any service; the reader of the model refuses them.
\<close>

section \<open>Instants\<close>

definition day_us :: int where
  "day_us = 86400000000"

definition max_us :: int where
  "max_us = 3652059 * day_us"

lemma max_us_pos [simp]: "0 < max_us"
  by (simp add: max_us_def day_us_def)

typedef datetime = "{0 ..< max_us}"
  morphisms us_of Abs_datetime
  by (rule exI [of _ 0]) simp

definition dt :: "int \<Rightarrow> datetime" where
  "dt n = Abs_datetime (n mod max_us)"

lemma us_of_bounds [simp]: "0 \<le> us_of t" "us_of t < max_us"
  using us_of [of t] by simp_all

lemma us_of_dt [simp]: "us_of (dt n) = n mod max_us"
  by (simp add: dt_def Abs_datetime_inverse)

lemma dt_us_of [simp]: "dt (us_of t) = t"
  by (simp add: dt_def us_of_inverse)

lemma datetime_eq_iff: "s = t \<longleftrightarrow> us_of s = us_of t"
  by (simp add: us_of_inject)

instantiation datetime :: linorder
begin

definition less_eq_datetime :: "datetime \<Rightarrow> datetime \<Rightarrow> bool" where
  "s \<le> t \<longleftrightarrow> us_of s \<le> us_of t"

definition less_datetime :: "datetime \<Rightarrow> datetime \<Rightarrow> bool" where
  "s < t \<longleftrightarrow> us_of s < us_of t"

instance
  by standard (auto simp: less_eq_datetime_def less_datetime_def datetime_eq_iff)

end

text \<open>\<^verbatim>\<open>datetime + timedelta\<close> with the duration in microseconds; outside the range Python raises.\<close>

definition dt_add :: "datetime \<Rightarrow> int \<Rightarrow> datetime result" where
  "dt_add t n = (if 0 \<le> us_of t + n \<and> us_of t + n < max_us then Inr (dt (us_of t + n))
                 else Inl (OverflowError ''date value out of range''))"

definition seconds :: "int \<Rightarrow> int" where
  "seconds n = n * 1000000"

definition hours :: "int \<Rightarrow> int" where
  "hours n = n * 3600000000"

lemma dt_add_Inr: "dt_add t n = Inr u \<Longrightarrow> us_of u = us_of t + n"
  by (auto simp: dt_add_def split: if_splits)

section \<open>Calendar dates\<close>

definition leap :: "nat \<Rightarrow> bool" where
  "leap y \<longleftrightarrow> y mod 4 = 0 \<and> (y mod 100 \<noteq> 0 \<or> y mod 400 = 0)"

definition month_lengths :: "bool \<Rightarrow> nat list" where
  "month_lengths lp = [31, if lp then 29 else 28, 31, 30, 31, 30, 31, 31, 30, 31, 30, 31]"

fun split_days :: "nat \<Rightarrow> nat \<Rightarrow> nat list \<Rightarrow> nat \<times> nat" where
  "split_days m n [] = (m, n + 1)"
| "split_days m n (l # ls) = (if n < l then (m, n + 1) else split_days (m + 1) (n - l) ls)"

text \<open>The date of the day with the given number, counted from 0 on January 1 of year 1.\<close>

definition ymd :: "nat \<Rightarrow> nat \<times> nat \<times> nat" where
  "ymd n =
     (let a = n div 146097; r = n mod 146097;
          b = min 3 (r div 36524); r2 = r - 36524 * b;
          c = r2 div 1461; r3 = r2 mod 1461;
          d = min 3 (r3 div 365); r4 = r3 - 365 * d;
          y = 400 * a + 100 * b + 4 * c + d + 1;
          (m, k) = split_days 1 r4 (month_lengths (leap y))
      in (y, m, k))"

definition ordinal :: "nat \<Rightarrow> nat \<Rightarrow> nat \<Rightarrow> nat" where
  "ordinal y m k = 365 * (y - 1) + (y - 1) div 4 - (y - 1) div 100 + (y - 1) div 400
     + sum_list (take (m - 1) (month_lengths (leap y))) + (k - 1)"

definition valid_ymd :: "nat \<Rightarrow> nat \<Rightarrow> nat \<Rightarrow> bool" where
  "valid_ymd y m k \<longleftrightarrow> 1 \<le> y \<and> y \<le> 9999 \<and> 1 \<le> m \<and> m \<le> 12 \<and> 1 \<le> k \<and> k \<le> month_lengths (leap y) ! (m - 1)"

lemma split_days_spec:
  assumes "n < sum_list ls"
  shows "\<exists>i k. split_days m n ls = (m + i, k + 1) \<and> i < length ls \<and> k < ls ! i
     \<and> sum_list (take i ls) + k = n"
  using assms
proof (induction ls arbitrary: m n)
  case (Cons l ls)
  show ?case
  proof (cases "n < l")
    case True
    then show ?thesis by (intro exI [of _ 0] exI [of _ n]) simp
  next
    case False
    then have "n - l < sum_list ls" using Cons.prems by simp
    from Cons.IH [OF this, of "m + 1"] obtain i k where
      "split_days (m + 1) (n - l) ls = (m + 1 + i, k + 1)" "i < length ls" "k < ls ! i"
      "sum_list (take i ls) + k = n - l" by blast
    with False show ?thesis by (intro exI [of _ "Suc i"] exI [of _ k]) simp
  qed
qed simp

lemma sum_month_lengths: "sum_list (month_lengths lp) = (if lp then 366 else 365)"
  by (simp add: month_lengths_def)

lemma month_length_le: "i < 12 \<Longrightarrow> month_lengths lp ! i \<le> 31"
proof -
  assume "i < 12"
  then have "month_lengths lp ! i \<in> set (month_lengths lp)"
    by (intro nth_mem) (simp add: month_lengths_def)
  then show ?thesis by (auto simp: month_lengths_def split: if_splits)
qed

lemma cycle_year:
  fixes a b c d :: nat
  assumes "b \<le> 3" "c \<le> 24" "d \<le> 3"
  defines "y \<equiv> 400 * a + 100 * b + 4 * c + d"
  shows "365 * y + y div 4 - y div 100 + y div 400 = 146097 * a + 36524 * b + 1461 * c + 365 * d"
    and "leap (y + 1) \<longleftrightarrow> d = 3 \<and> (c \<noteq> 24 \<or> b = 3)"
proof -
  have y4: "y div 4 = 100 * a + 25 * b + c" and y100: "y div 100 = 4 * a + b" and y400: "y div 400 = a"
    using assms by (auto simp: y_def)
  show "365 * y + y div 4 - y div 100 + y div 400 = 146097 * a + 36524 * b + 1461 * c + 365 * d"
    unfolding y4 y100 y400 by (simp add: y_def)
  have full: "z mod q = 0 \<longleftrightarrow> z = q" if "0 < z" "z \<le> q" for z q :: nat
    using that by (cases "z = q") simp_all
  have e4: "y + 1 = (d + 1) + 4 * (100 * a + 25 * b + c)" and e100: "y + 1 = (4 * c + d + 1) + 100 * (4 * a + b)"
    and e400: "y + 1 = (100 * b + 4 * c + d + 1) + 400 * a" by (simp_all add: y_def)
  have m4: "(y + 1) mod 4 = 0 \<longleftrightarrow> d = 3"
    unfolding e4 mod_mult_self2 using assms(3) by (subst full) simp_all
  have "4 * c + d + 1 = 100 \<longleftrightarrow> c = 24 \<and> d = 3"
    using assms(2,3) by linarith
  then have m100: "(y + 1) mod 100 = 0 \<longleftrightarrow> c = 24 \<and> d = 3"
    unfolding e100 mod_mult_self2 using assms(2,3) by (subst full) simp_all
  have "100 * b + 4 * c + d + 1 = 400 \<longleftrightarrow> b = 3 \<and> c = 24 \<and> d = 3"
    using assms(1-3) by linarith
  then have m400: "(y + 1) mod 400 = 0 \<longleftrightarrow> b = 3 \<and> c = 24 \<and> d = 3"
    unfolding e400 mod_mult_self2 using assms(1-3) by (subst full) simp_all
  show "leap (y + 1) \<longleftrightarrow> d = 3 \<and> (c \<noteq> 24 \<or> b = 3)"
    using m4 m100 m400 by (auto simp: leap_def)
qed

lemma ordinal_ymd:
  assumes "ymd n = (y, m, k)"
  shows "ordinal y m k = n" and "n < 3652059 \<Longrightarrow> valid_ymd y m k" and "1 \<le> y"
proof -
  define a r where "a = n div 146097" and "r = n mod 146097"
  define b r2 where "b = min 3 (r div 36524)" and "r2 = r - 36524 * b"
  define c r3 where "c = r2 div 1461" and "r3 = r2 mod 1461"
  define d r4 where "d = min 3 (r3 div 365)" and "r4 = r3 - 365 * d"
  define Y where "Y = 400 * a + 100 * b + 4 * c + d"
  have r: "r < 146097" "n = 146097 * a + r" by (simp_all add: r_def a_def)
  have b: "b \<le> 3" "r = 36524 * b + r2" "r2 \<le> 36524" "b < 3 \<Longrightarrow> r2 < 36524"
    using r unfolding r2_def b_def by (auto simp: min_def split: if_splits)
  have c: "c \<le> 24" "r2 = 1461 * c + r3" "r3 < 1461"
    using b(3) unfolding c_def r3_def by auto
  have d: "d \<le> 3" "r3 = 365 * d + r4" "r4 \<le> 365" "d < 3 \<Longrightarrow> r4 < 365"
    using c(3) unfolding r4_def d_def by (auto simp: min_def split: if_splits)
  note cy = cycle_year [OF b(1) c(1) d(1), of a, folded Y_def]
  have len: "r4 < sum_list (month_lengths (leap (Y + 1)))"
    unfolding sum_month_lengths cy(2) using b c d by (cases "c = 24"; cases "b = 3"; cases "d = 3") auto
  have "Suc Y = y \<and> split_days 1 r4 (month_lengths (leap (Suc Y))) = (m, k)"
    using assms unfolding ymd_def Let_def
    by (simp add: a_def [symmetric] r_def [symmetric] b_def [symmetric] r2_def [symmetric]
        c_def [symmetric] r3_def [symmetric] d_def [symmetric] r4_def [symmetric] Y_def [symmetric]
        split: prod.splits) metis
  then have "split_days 1 r4 (month_lengths (leap y)) = (m, k)" and y: "y = Y + 1"
    by (simp_all, metis)
  with split_days_spec [OF len, of 1] obtain i j where
    mk: "m = 1 + i" "k = j + 1" and ij: "i < length (month_lengths (leap y))" "j < month_lengths (leap y) ! i"
    "sum_list (take i (month_lengths (leap y))) + j = r4" by auto
  show ord: "ordinal y m k = n"
    using ij(3) cy(1) unfolding ordinal_def mk y by (simp add: r b c d)
  show "1 \<le> y" by (simp add: y)
  show "valid_ymd y m k" if "n < 3652059"
  proof -
    have "Y \<le> 9998"
    proof (rule ccontr)
      assume "\<not> Y \<le> 9998"
      then have "9999 \<le> 400 * a + 100 * b + 4 * c + d" by (simp add: Y_def)
      then have "24 < a \<or> a = 24 \<and> b = 3 \<and> c = 24 \<and> d = 3"
        using b(1) c(1) d(1) by linarith
      moreover have "146097 * a + 36524 * b + 1461 * c + 365 * d \<le> n" by (simp add: r b c d)
      ultimately show False using that by auto
    qed
    then show ?thesis
      using ij mk y by (auto simp: valid_ymd_def month_lengths_def)
  qed
qed

section \<open>The text form\<close>

fun pad :: "nat \<Rightarrow> nat \<Rightarrow> string" where
  "pad 0 n = []"
| "pad (Suc w) n = pad w (n div 10) @ [digit (n mod 10)]"

definition isoformat :: "datetime \<Rightarrow> string" where
  "isoformat t =
     (let n = nat (us_of t);
          (y, m, k) = ymd (n div 86400000000);
          r = n mod 86400000000;
          u = r mod 1000000; s = r div 1000000
      in pad 4 y @ ''-'' @ pad 2 m @ ''-'' @ pad 2 k @ ''T''
         @ pad 2 (s div 3600) @ '':'' @ pad 2 (s div 60 mod 60) @ '':'' @ pad 2 (s mod 60)
         @ (if u = 0 then [] else ''.'' @ pad 6 u) @ ''+00:00'')"

definition unpad :: "nat \<Rightarrow> string \<Rightarrow> (nat \<times> string) option" where
  "unpad w s = (if w \<le> length s \<and> list_all is_digit (take w s)
                then Some (fst (undec 0 (take w s)), drop w s) else None)"

definition expect :: "string \<Rightarrow> string \<Rightarrow> string option" where
  "expect p s = (if take (length p) s = p then Some (drop (length p) s) else None)"

definition parse_iso :: "string \<Rightarrow> datetime option" where
  "parse_iso s0 = do {
     (y, s1) \<leftarrow> unpad 4 s0; s2 \<leftarrow> expect ''-'' s1;
     (m, s3) \<leftarrow> unpad 2 s2; s4 \<leftarrow> expect ''-'' s3;
     (k, s5) \<leftarrow> unpad 2 s4; s6 \<leftarrow> expect ''T'' s5;
     (hh, s7) \<leftarrow> unpad 2 s6; s8 \<leftarrow> expect '':'' s7;
     (mm, s9) \<leftarrow> unpad 2 s8; s10 \<leftarrow> expect '':'' s9;
     (ss, s11) \<leftarrow> unpad 2 s10;
     (u, s12) \<leftarrow> (case expect ''.'' s11 of None \<Rightarrow> Some (0, s11) | Some r \<Rightarrow> unpad 6 r);
     s13 \<leftarrow> expect ''+00:00'' s12;
     if s13 = [] \<and> valid_ymd y m k \<and> hh < 24 \<and> mm < 60 \<and> ss < 60
     then Some (dt (int (((ordinal y m k * 86400 + hh * 3600 + mm * 60 + ss) * 1000000) + u)))
     else None
   }"

definition fromisoformat :: "string \<Rightarrow> datetime result" where
  "fromisoformat s = (case parse_iso s of None \<Rightarrow> Inl (ValueError (''Invalid isoformat string: '' @ repr_str s))
     | Some t \<Rightarrow> Inr t)"

lemma length_pad [simp]: "length (pad w n) = w"
  by (induction w arbitrary: n) auto

lemma pad_digits: "list_all is_digit (pad w n)"
  by (induction w arbitrary: n) auto

lemma undec_pad: "n < 10 ^ w \<Longrightarrow> fst (undec 0 (pad w n)) = n"
proof (induction w arbitrary: n)
  case (Suc w)
  then have "n div 10 < 10 ^ w" by (simp add: div_less_iff_less_mult mult.commute)
  with Suc.IH have "fst (undec 0 (pad w (n div 10))) = n div 10" .
  moreover have "\<And>c. c \<in> set (pad w (n div 10)) \<Longrightarrow> is_digit c"
    using pad_digits [of w "n div 10"] by (simp add: list_all_iff)
  ultimately show ?case by (simp add: undec_append)
qed simp

lemma unpad_pad [simp]: "n < 10 ^ w \<Longrightarrow> unpad w (pad w n @ r) = Some (n, r)"
  using pad_digits [of w n] by (simp add: unpad_def undec_pad)

lemma expect_append [simp]: "expect p (p @ r) = Some r"
  by (simp add: expect_def)

lemma expect_Cons [simp]: "expect [c] (d # r) = (if c = d then Some r else None)"
  by (simp add: expect_def)

lemma expect_whole [simp]: "expect p p = Some []"
  by (simp add: expect_def)

theorem fromisoformat_isoformat [simp]: "fromisoformat (isoformat t) = Inr t"
proof -
  define n where "n = nat (us_of t)"
  define q r where "q = n div 86400000000" and "r = n mod 86400000000"
  define u s where "u = r mod 1000000" and "s = r div 1000000"
  obtain y m k where ymd: "ymd q = (y, m, k)" by (metis prod_cases3)
  have "int n < max_us" by (simp add: n_def)
  then have q: "q < 3652059" unfolding q_def by (simp add: max_us_def day_us_def)
  note ok = ordinal_ymd [OF ymd]
  have v: "valid_ymd y m k" using ok(2) [OF q] .
  moreover from v have "month_lengths (leap y) ! (m - 1) \<le> 31"
    by (intro month_length_le) (auto simp: valid_ymd_def)
  ultimately have small: "y < 10 ^ 4" "m < 10 ^ 2" "k < 10 ^ 2"
    by (auto simp: valid_ymd_def)
  have s: "s < 86400" unfolding s_def r_def by simp
  have u: "u < 10 ^ 6" unfolding u_def by simp
  have tod: "s div 3600 < 10 ^ 2" "s div 60 mod 60 < 10 ^ 2" "s mod 60 < 10 ^ 2" "s div 3600 < 24"
    using s by simp_all
  have "s div 3600 = s div 60 div 60" by (simp flip: div_mult2_eq)
  moreover have "s div 60 div 60 * 60 + s div 60 mod 60 = s div 60" by simp
  moreover have "s div 60 * 60 + s mod 60 = s" by simp
  ultimately have parts: "s div 3600 * 3600 + s div 60 mod 60 * 60 + s mod 60 = s" by linarith
  have iso: "isoformat t = pad 4 y @ ''-'' @ pad 2 m @ ''-'' @ pad 2 k @ ''T''
         @ pad 2 (s div 3600) @ '':'' @ pad 2 (s div 60 mod 60) @ '':'' @ pad 2 (s mod 60)
         @ (if u = 0 then [] else ''.'' @ pad 6 u) @ ''+00:00''"
    unfolding isoformat_def Let_def n_def [symmetric] q_def [symmetric] r_def [symmetric] u_def [symmetric] s_def [symmetric]
    by (simp add: ymd)
  have "(ordinal y m k * 86400 + s) * 1000000 + u = n"
    unfolding ok(1) by (simp add: s_def u_def r_def q_def)
  then have val: "(ordinal y m k * 86400 + s div 3600 * 3600 + s div 60 mod 60 * 60 + s mod 60) * 1000000 + u = n"
    using parts by (simp add: add.assoc)
  have "parse_iso (isoformat t) = Some (dt (int n))"
  proof (cases "u = 0")
    case True
    then show ?thesis unfolding iso parse_iso_def using small tod v val by simp
  next
    case False
    then show ?thesis unfolding iso parse_iso_def using small tod u v val by simp
  qed
  also have "dt (int n) = t" by (simp add: n_def)
  finally show ?thesis by (simp add: fromisoformat_def)
qed

lemma isoformat_inj: "isoformat s = isoformat t \<longleftrightarrow> s = t"
  by (metis fromisoformat_isoformat sum.inject(2))

lemma isoformat_nonempty [simp]: "isoformat t \<noteq> []"
  by (simp add: isoformat_def Let_def split: prod.splits)

end
