(* ===== verification/Events.thy ===== *)
theory Events
  imports Py_Time Persistence
begin

text \<open>
  The world the services act on and its event store (\<^verbatim>\<open>agentfabric/events/event_store.py\<close>): a hash
  chain of events, kept in memory and, when the store is durable, in the collection \<^verbatim>\<open>events\<close> of the
  document store the services share. The digest, the clock and the source of random identifiers
  are functions of the world, so every result holds for all of them; each reading of the clock
  and each identifier drawn advances a counter.
\<close>

section \<open>Events\<close>

record event =
  ev_type :: string
  ev_aggregate :: string
  ev_payload :: obj
  ev_id :: string
  ev_time :: datetime
  ev_seq :: int
  ev_prev :: string
  ev_hash :: string

definition event_as_dict :: "event \<Rightarrow> obj" where
  "event_as_dict e = [
     (''event_id'', JStr (ev_id e)),
     (''sequence'', JInt (ev_seq e)),
     (''event_type'', JStr (ev_type e)),
     (''aggregate_id'', JStr (ev_aggregate e)),
     (''payload'', JObj (ev_payload e)),
     (''timestamp'', JStr (isoformat (ev_time e))),
     (''previous_hash'', JStr (ev_prev e)),
     (''event_hash'', JStr (ev_hash e))]"

definition event_from_dict :: "obj \<Rightarrow> ('s, event) op" where
  "event_from_dict d =
     bind (lift (req d ''timestamp'')) (\<lambda>timestamp.
     bind (lift (fromisoformat (py_str timestamp))) (\<lambda>parsed.
     bind (lift (req_str d ''event_id'')) (\<lambda>i.
     bind (lift (int_or d ''sequence'' 0)) (\<lambda>sq.
     bind (lift (req_str d ''event_type'')) (\<lambda>ty.
     bind (lift (req_str d ''aggregate_id'')) (\<lambda>ag.
     bind (lift (dict_or d ''payload'')) (\<lambda>p.
     ok \<lparr>ev_type = ty, ev_aggregate = ag, ev_payload = p, ev_id = i, ev_time = parsed, ev_seq = sq,
         ev_prev = str_or d ''previous_hash'' [], ev_hash = str_or d ''event_hash'' []\<rparr>)))))))"

lemma event_round_trip [simp]: "event_from_dict (event_as_dict e) s = (Inr e, s)"
  by (simp add: event_from_dict_def event_as_dict_def field_defs op_simps)

section \<open>The registry of event types\<close>

definition event_types_platform :: "string list" where
  "event_types_platform = [
    ''agent.registered'', ''message.sent'', ''message.received'', ''workflow.started'',
    ''workflow.completed'', ''workflow.awaiting_approval'', ''task.started'', ''task.completed'',
    ''task.failed'', ''checkpoint.created'', ''human_approval.requested'', ''human_approval.resolved'',
    ''reputation.updated'', ''memory.recorded'', ''memory.deleted'', ''tenant.created'', ''team.created'',
    ''member.added'', ''quota.updated'', ''billing.plan_updated'', ''usage.recorded'',
    ''marketplace.package.published'', ''marketplace.package.signed'', ''marketplace.package.verified'',
    ''marketplace.package.rejected'', ''marketplace.package.installed'',
    ''marketplace.package.uninstalled'', ''marketplace.package.upgraded'',
    ''marketplace.package.rolled_back'', ''marketplace.entitlement.granted'',
    ''marketplace.entitlement.revoked'', ''marketplace.review.submitted'',
    ''marketplace.abuse_report.submitted'', ''governance.agent_org.created'',
    ''governance.charter.updated'', ''governance.proposal.created'', ''governance.vote.cast'',
    ''governance.consensus.reached'', ''governance.consensus.failed'',
    ''governance.human_approval.requested'', ''governance.human_approval.granted'',
    ''governance.human_approval.rejected'', ''governance.human_approval.escalated'',
    ''governance.action.executed'', ''governance.action.blocked'', ''runtime.job.created'',
    ''runtime.job.assigned'', ''runtime.job.started'', ''runtime.job.completed'', ''runtime.job.failed'',
    ''runtime.job.cancelled'', ''runtime.job.retried'', ''runtime.job.dead_lettered'',
    ''runtime.worker.registered'', ''runtime.worker.heartbeat_missed'', ''runtime.schedule.created'',
    ''runtime.schedule.triggered'', ''runtime.schedule.disabled'', ''runtime.schedule.enabled'',
    ''runtime.health.degraded'', ''runtime.health.recovered'', ''federation.agreement.created'',
    ''federation.agreement.activated'', ''federation.agreement.expired'', ''federation.agreement.revoked'',
    ''federation.capability.published'', ''federation.capability.imported'', ''federation.message.sent'',
    ''federation.message.received'', ''federation.message.rejected'', ''federation.delegation.requested'',
    ''federation.delegation.completed'', ''federation.delegation.failed'',
    ''federation.remote_org.blocked'', ''federation.remote_key.rejected'', ''connector.registered'',
    ''connector.enabled'', ''connector.disabled'', ''connector.execution.requested'',
    ''connector.execution.allowed'', ''connector.execution.denied'', ''connector.execution.completed'',
    ''connector.execution.failed'', ''credential.created'', ''credential.rotated'', ''credential.revoked'',
    ''connector.job.created'', ''connector.operation.completed'', ''connector.policy.denied'']"

definition event_types_operator :: "string list" where
  "event_types_operator = [
    ''renovation.mvp.run.created'', ''renovation.mvp.step.started'', ''renovation.mvp.step.completed'',
    ''renovation.mvp.step.failed'', ''renovation.mvp.run.completed'', ''renovation.mvp.run.failed'',
    ''renovation.mvp.run.replayed'', ''renovation.mvp.run.resumed'',
    ''renovation.mvp.invoice_payment.generated'', ''renovation.mvp.portal_status.viewed'',
    ''renovation.operator.customer.created'', ''renovation.operator.lead.created'',
    ''renovation.operator.lead.converted'', ''renovation.operator.estimate.created'',
    ''renovation.operator.estimate.approved'', ''renovation.operator.proposal.created'',
    ''renovation.operator.proposal.accepted'', ''renovation.operator.job.created'',
    ''renovation.operator.job.status_changed'', ''renovation.operator.schedule_item.created'',
    ''renovation.operator.cost_item.created'', ''renovation.operator.invoice.created'',
    ''renovation.operator.payment.recorded'', ''renovation.operator.portal.viewed'',
    ''renovation.operator.metrics.viewed'', ''renovation.operator.account.role_assigned'',
    ''renovation.operator.settings.updated'', ''renovation.operator.proposal.pdf_exported'',
    ''renovation.operator.invoice.pdf_exported'', ''renovation.operator.attachment.created'',
    ''renovation.operator.attachment.downloaded'', ''renovation.operator.attachment.archived'',
    ''renovation.operator.notification.send_attempted'', ''renovation.operator.notification.queued'',
    ''renovation.operator.notification.failed'', ''renovation.operator.provider.validated'',
    ''renovation.operator.provider.failed'', ''renovation.operator.calendar.sync_attempted'',
    ''renovation.operator.schedule.synced'', ''renovation.operator.payment_link.created'',
    ''renovation.operator.payment_status.updated'', ''renovation.operator.payment_webhook.received'',
    ''renovation.operator.payment_webhook.rejected'', ''connector.sync.started'',
    ''connector.sync.completed'', ''connector.webhook.received'']"

definition event_types_factory :: "string list" where
  "event_types_factory = [
    ''tool.registered'', ''tool.executed'', ''tool.policy.denied'', ''tool.approval.required'',
    ''tool.job.created'', ''tool.result.persisted'', ''evaluation.dataset.created'',
    ''evaluation.run.completed'', ''evaluation.gate.failed'', ''evaluation.gate.passed'',
    ''feedback.created'', ''economics.cost.recorded'', ''economics.revenue.recorded'',
    ''economics.spend_limit.updated'', ''economics.spend_limit.exceeded'', ''agent.metric.recorded'',
    ''agent.health.changed'', ''agent.drift.detected'', ''agent.anomaly.detected'',
    ''agent.degradation.detected'', ''agent.recommendation.created'', ''agent.version.compared'',
    ''factory.idea.created'', ''factory.platform.registered'', ''factory.repository.created'',
    ''factory.repository.updated'', ''factory.repository.deprecated'', ''factory.repository.archived'',
    ''factory.repository.restored'', ''factory.repository.cloned'', ''factory.repository.forked'',
    ''factory.artifact.generated'', ''factory.repository.packaged'', ''factory.quality.passed'',
    ''factory.quality.failed'', ''factory.team.task.assigned'', ''factory.execution.planned'',
    ''factory.execution.dry_run.completed'', ''factory.execution.approval.recorded'',
    ''factory.execution.step.started'', ''factory.execution.step.completed'',
    ''factory.execution.step.failed'', ''factory.execution.completed'', ''factory.execution.rolled_back'',
    ''factory.execution.replayed'', ''factory.build.planned'', ''factory.build.dry_run.completed'',
    ''factory.build.approval.recorded'', ''factory.build.worker.started'',
    ''factory.build.worker.completed'', ''factory.build.failed'', ''factory.build.completed'',
    ''factory.build.review.completed'', ''factory.build.rolled_back'', ''factory.build.replayed'',
    ''renovation.estimate_created'', ''renovation.estimate_updated'', ''renovation.proposal_generated'',
    ''renovation.proposal_exported'', ''renovation.job_created'', ''renovation.job_updated'',
    ''renovation.daily_log_created'', ''renovation.field_note_added'', ''renovation.photo_record_added'',
    ''renovation.issue_record_added'', ''renovation.change_order_created'',
    ''renovation.change_order_approved'', ''renovation.change_order_rejected'',
    ''renovation.change_order_exported'', ''renovation.schedule_created'', ''renovation.schedule_updated'',
    ''renovation.crew_created'', ''renovation.crew_assigned'', ''renovation.crew_unassigned'',
    ''renovation.crew_availability_updated'', ''renovation.material_delivery_created'',
    ''renovation.material_delivery_updated'', ''renovation.delay_detected'',
    ''renovation.schedule_recalculated'', ''renovation.job_cost_recorded'', ''renovation.invoice_created'',
    ''renovation.invoice_paid'', ''renovation.payable_created'', ''renovation.payable_paid'',
    ''renovation.margin_variance_detected'', ''renovation.cost_overrun_detected'',
    ''renovation.cash_flow_forecast_generated'', ''renovation.profitability_scorecard_generated'',
    ''renovation.lead_created'', ''renovation.lead_updated'', ''renovation.lead_converted'',
    ''renovation.opportunity_created'', ''renovation.opportunity_stage_changed'',
    ''renovation.follow_up_task_created'', ''renovation.appointment_requested'',
    ''renovation.site_visit_recorded'', ''renovation.customer_message_recorded'',
    ''renovation.customer_portal_view_generated'']"

definition event_type_values :: "string list" where
  "event_type_values = [''agent'', ''task'', ''message'', ''workflow'', ''audit'', ''checkpoint'',
    ''human_approval'', ''reputation'', ''memory'']"

definition registered :: "string \<Rightarrow> bool" where
  "registered t \<longleftrightarrow> List.member event_types_platform t \<or> List.member event_types_operator t
     \<or> List.member event_types_factory t \<or> List.member event_type_values t"

section \<open>The world\<close>

record world =
  w_store :: mstore
  w_events :: "event list"
  w_durable :: bool
  w_sha :: "string \<Rightarrow> string"
  w_clock :: "nat \<Rightarrow> datetime"
  w_ticks :: nat
  w_uuid :: "nat \<Rightarrow> string"
  w_uuids :: nat

definition utc_now :: "('z world_scheme, datetime) op" where
  "utc_now = (\<lambda>w. (Inr (w_clock w (w_ticks w)), w\<lparr>w_ticks := Suc (w_ticks w)\<rparr>))"

definition uuid_hex12 :: "('z world_scheme, string) op" where
  "uuid_hex12 = (\<lambda>w. (Inr (w_uuid w (w_uuids w)), w\<lparr>w_uuids := Suc (w_uuids w)\<rparr>))"

definition on_store :: "(mstore, 'a) op \<Rightarrow> ('z world_scheme, 'a) op" where
  "on_store m = (\<lambda>w. case m (w_store w) of (r, s) \<Rightarrow> (r, w\<lparr>w_store := s\<rparr>))"

section \<open>The event store\<close>

definition hash_input :: "event \<Rightarrow> json" where
  "hash_input e = JObj [
     (''event_id'', JStr (ev_id e)),
     (''sequence'', JInt (ev_seq e)),
     (''event_type'', JStr (ev_type e)),
     (''aggregate_id'', JStr (ev_aggregate e)),
     (''payload'', JObj (ev_payload e)),
     (''timestamp'', JStr (isoformat (ev_time e))),
     (''previous_hash'', JStr (ev_prev e))]"

definition hash_event :: "(string \<Rightarrow> string) \<Rightarrow> json \<Rightarrow> string" where
  "hash_event sha v = sha (dumps_compact v)"

definition last_hash :: "event list \<Rightarrow> string" where
  "last_hash es = (if es = [] then [] else ev_hash (last es))"

definition es_append :: "string \<Rightarrow> string \<Rightarrow> obj \<Rightarrow> ('z world_scheme, event) op" where
  "es_append ty ag payload =
     (if \<not> registered ty then raise (ValueError (''unregistered event type: '' @ ty))
      else
        bind (gets w_events) (\<lambda>log.
        bind uuid_hex12 (\<lambda>hex.
        bind utc_now (\<lambda>timestamp.
        bind (gets w_sha) (\<lambda>sha.
        bind (gets w_durable) (\<lambda>durable.
          let e0 = \<lparr>ev_type = ty, ev_aggregate = ag, ev_payload = payload, ev_id = ''evt-'' @ hex,
                    ev_time = timestamp, ev_seq = int (length log) + 1, ev_prev = last_hash log, ev_hash = []\<rparr>;
              e = e0\<lparr>ev_hash := hash_event sha (hash_input e0)\<rparr>
          in bind (modify (\<lambda>w. w\<lparr>w_events := w_events w @ [e]\<rparr>)) (\<lambda>_.
             bind (if durable then on_store (mem_put ''events'' (ev_id e) (event_as_dict e)) else ok ()) (\<lambda>_.
             ok e))))))))"

text \<open>A store built over a document store that may already hold events.\<close>

definition es_open :: "('z world_scheme, unit) op" where
  "es_open =
     bind (gets w_durable) (\<lambda>durable.
     if \<not> durable then modify (\<lambda>w. w\<lparr>w_events := []\<rparr>)
     else
       bind (on_store mem_initialize) (\<lambda>_.
       bind (on_store (mem_list ''events'')) (\<lambda>ds.
       bind (mapM (\<lambda>d. bind (lift (int_or d ''sequence'' 0)) (\<lambda>q. ok (q, d))) ds) (\<lambda>qs.
       bind (mapM (\<lambda>(q, d). event_from_dict d) (sort_key fst qs)) (\<lambda>es.
       modify (\<lambda>w. w\<lparr>w_events := es\<rparr>))))))"

definition es_replay :: "string option \<Rightarrow> ('z world_scheme, event list) op" where
  "es_replay ag = gets (\<lambda>w. case ag of None \<Rightarrow> w_events w
     | Some a \<Rightarrow> filter (\<lambda>e. ev_aggregate e = a) (w_events w))"

definition es_timeline :: "('z world_scheme, obj list) op" where
  "es_timeline = gets (\<lambda>w. map event_as_dict (sort_key ev_seq (w_events w)))"

definition es_checkpoint :: "string \<Rightarrow> ('z world_scheme, obj) op" where
  "es_checkpoint ag = bind (es_replay (Some ag)) (\<lambda>es.
     ok [(''aggregate_id'', JStr ag), (''events'', JList (map (JObj \<circ> event_as_dict) es))])"

definition es_get :: "string \<Rightarrow> ('z world_scheme, event option) op" where
  "es_get i = gets (\<lambda>w. find (\<lambda>e. ev_id e = i) (w_events w))"

fun chain_ok :: "(string \<Rightarrow> string) \<Rightarrow> string \<Rightarrow> int \<Rightarrow> event list \<Rightarrow> bool" where
  "chain_ok sha prev n [] = True"
| "chain_ok sha prev n (e # es) \<longleftrightarrow> ev_seq e = n \<and> ev_prev e = prev
     \<and> ev_hash e = hash_event sha (hash_input e) \<and> chain_ok sha (ev_hash e) (n + 1) es"

definition validate_integrity :: "'z world_scheme \<Rightarrow> bool" where
  "validate_integrity w = chain_ok (w_sha w) [] 1 (sort_key ev_seq (w_events w))"

section \<open>The hash chain\<close>

definition next_event :: "string \<Rightarrow> string \<Rightarrow> obj \<Rightarrow> 'z world_scheme \<Rightarrow> event" where
  "next_event ty ag p w =
     (let e0 = \<lparr>ev_type = ty, ev_aggregate = ag, ev_payload = p, ev_id = ''evt-'' @ w_uuid w (w_uuids w),
                ev_time = w_clock w (w_ticks w), ev_seq = int (length (w_events w)) + 1,
                ev_prev = last_hash (w_events w), ev_hash = []\<rparr>
      in e0\<lparr>ev_hash := hash_event (w_sha w) (hash_input e0)\<rparr>)"

definition events_put :: "bool \<Rightarrow> event \<Rightarrow> mstore \<Rightarrow> mstore" where
  "events_put durable e s = (if durable then snd (mem_put ''events'' (ev_id e) (event_as_dict e) s) else s)"

lemma es_append_registered:
  assumes "registered ty"
  shows "es_append ty ag p w = (Inr (next_event ty ag p w),
    w\<lparr>w_uuids := Suc (w_uuids w), w_ticks := Suc (w_ticks w), w_events := w_events w @ [next_event ty ag p w],
      w_store := events_put (w_durable w) (next_event ty ag p w) (w_store w)\<rparr>)"
  using assms
  by (simp add: es_append_def op_simps uuid_hex12_def utc_now_def next_event_def Let_def on_store_def
      events_put_def mem_put_def)

lemma es_append_unregistered:
  "\<not> registered ty \<Longrightarrow> es_append ty ag p w = (Inl (ValueError (''unregistered event type: '' @ ty)), w)"
  by (simp add: es_append_def op_simps)

definition log_ok :: "'z world_scheme \<Rightarrow> bool" where
  "log_ok w \<longleftrightarrow> chain_ok (w_sha w) [] 1 (w_events w)"

lemma chain_ok_append:
  "chain_ok sha p n (es @ [e]) \<longleftrightarrow> chain_ok sha p n es \<and> ev_seq e = n + int (length es) \<and>
     ev_prev e = (if es = [] then p else ev_hash (last es)) \<and> ev_hash e = hash_event sha (hash_input e)"
  by (induction es arbitrary: p n) auto

lemma chain_ok_seq: "chain_ok sha p n es \<Longrightarrow> map ev_seq es = map (\<lambda>i. n + int i) [0..<length es]"
proof (induction es arbitrary: p n)
  case (Cons e es)
  from Cons.prems have "chain_ok sha (ev_hash e) (n + 1) es" unfolding chain_ok.simps by blast
  then have "map ev_seq es = map (\<lambda>i. (n + 1) + int i) [0..<length es]" by (rule Cons.IH)
  then show ?case
    using Cons.prems by (simp add: upt_conv_Cons map_Suc_upt [symmetric] comp_def del: upt_Suc map_Suc_upt)
qed simp

lemma chain_ok_sorted:
  assumes "chain_ok sha p n es"
  shows "sorted (map ev_seq es)" "distinct (map ev_seq es)"
  unfolding chain_ok_seq [OF assms] by (auto simp: sorted_iff_nth_mono distinct_map inj_on_def)

lemma log_ok_validate: "log_ok w \<Longrightarrow> validate_integrity w"
  unfolding log_ok_def validate_integrity_def
  using chain_ok_sorted(1) [of "w_sha w" "[]" 1 "w_events w"] by (simp add: sort_key_id_if_sorted)

lemma log_ok_next:
  assumes "log_ok w"
  shows "chain_ok (w_sha w) [] 1 (w_events w @ [next_event ty ag p w])"
  using assms
  by (auto simp: chain_ok_append log_ok_def next_event_def Let_def last_hash_def hash_input_def)

section \<open>The log in the document store\<close>

definition log_dict :: "event list \<Rightarrow> obj dict" where
  "log_dict es = map (\<lambda>e. (ev_id e, event_as_dict e)) es"

text \<open>
  Identifiers do not repeat, the log uses only identifiers drawn so far, and a durable log is
  what the collection \<^verbatim>\<open>events\<close> holds.
\<close>

definition log_durable :: "'z world_scheme \<Rightarrow> bool" where
  "log_durable w \<longleftrightarrow> inj (w_uuid w) \<and> distinct (map ev_id (w_events w)) \<and>
     (\<forall>e \<in> set (w_events w). \<exists>i < w_uuids w. ev_id e = ''evt-'' @ w_uuid w i) \<and>
     (w_durable w \<longrightarrow> is_dict (coll (w_store w) ''events'') \<and>
        map_of (coll (w_store w) ''events'') = map_of (log_dict (w_events w)))"

lemma log_dict_append: "map_of (log_dict (es @ [e])) = (if ev_id e \<in> ev_id ` set es then map_of (log_dict es)
   else (map_of (log_dict es))(ev_id e \<mapsto> event_as_dict e))"
  by (induction es) (auto simp: log_dict_def)

lemma fresh_event_id:
  "log_durable w \<Longrightarrow> ev_id (next_event ty ag p w) \<notin> ev_id ` set (w_events w)"
  by (fastforce simp: log_durable_def next_event_def Let_def dest: injD)

lemma coll_mem_put: "coll (snd (mem_put c k v s)) c' = (if c' = c then AList.update k v (coll s c) else coll s c')"
  by (simp add: mem_put_def modify_apply setdefault_update coll_update)

lemma log_durable_append:
  assumes "log_durable w"
  shows "log_durable (snd (es_append ty ag p w))"
proof (cases "registered ty")
  case True
  let ?e = "next_event ty ag p w"
  have fresh: "ev_id ?e \<notin> ev_id ` set (w_events w)" using assms by (rule fresh_event_id)
  have "ev_id ?e = ''evt-'' @ w_uuid w (w_uuids w)" by (simp add: next_event_def Let_def)
  with assms fresh True show ?thesis
    by (auto simp: log_durable_def es_append_registered events_put_def coll_mem_put log_dict_append
        AList.update_conv less_Suc_eq)
qed (use assms in \<open>simp add: es_append_unregistered\<close>)

section \<open>What every operation keeps\<close>

text \<open>
  The contract of the audit log: it only grows, the digest, the durability of the store and the
  source of identifiers do not change, an intact chain stays intact and a durable log stays what
  the document store holds.
\<close>

definition audit_step :: "'z world_scheme \<Rightarrow> 'z world_scheme \<Rightarrow> bool" where
  "audit_step w w' \<longleftrightarrow> prefix (w_events w) (w_events w') \<and> w_sha w' = w_sha w \<and> w_durable w' = w_durable w
     \<and> w_uuid w' = w_uuid w \<and> w_uuids w \<le> w_uuids w' \<and> (log_ok w \<longrightarrow> log_ok w') \<and> (log_durable w \<longrightarrow> log_durable w')"

interpretation audit: step_contract audit_step
  by unfold_locales (auto simp: audit_step_def)

named_theorems audit_steps \<open>operations that keep the contract of the audit log\<close>

lemma audit_es_append [audit_steps]: "audit.steps (es_append ty ag p)"
  unfolding audit.steps_def
proof
  fix w :: "'a world_scheme"
  show "audit_step w (snd (es_append ty ag p w))"
  proof (cases "registered ty")
    case True
    then show ?thesis
      using log_ok_next [of w ty ag p] log_durable_append [of w ty ag p]
      by (simp add: audit_step_def es_append_registered log_ok_def)
  qed (simp add: es_append_unregistered audit.refl)
qed

lemma audit_local:
  assumes "w_events w' = w_events w" "w_sha w' = w_sha w" "w_durable w' = w_durable w" "w_uuid w' = w_uuid w"
    "w_uuids w \<le> w_uuids w'" "coll (w_store w') ''events'' = coll (w_store w) ''events''"
  shows "audit_step w w'"
  using assms(5) by (fastforce simp: audit_step_def log_ok_def log_durable_def assms(1-4,6) intro: order.strict_trans2)

lemma audit_utc_now [audit_steps]: "audit.steps utc_now"
  unfolding audit.steps_def utc_now_def by (auto intro!: audit_local)

lemma audit_uuid [audit_steps]: "audit.steps uuid_hex12"
  unfolding audit.steps_def uuid_hex12_def by (auto intro!: audit_local)

lemma audit_on_store:
  assumes "\<And>s. coll (snd (m s)) ''events'' = coll s ''events''"
  shows "audit.steps (on_store m)"
  unfolding audit.steps_def on_store_def
  using assms by (auto intro!: audit_local split: prod.splits) (metis snd_conv)

lemma audit_mem_put [audit_steps]: "c \<noteq> ''events'' \<Longrightarrow> audit.steps (on_store (mem_put c k v))"
  by (rule audit_on_store) (simp add: coll_mem_put)

lemma audit_mem_get [audit_steps]: "audit.steps (on_store (mem_get c k))"
  by (rule audit_on_store) (simp add: mem_get_def gets_apply)

lemma audit_mem_list [audit_steps]: "audit.steps (on_store (mem_list c))"
  by (rule audit_on_store) (simp add: mem_list_def gets_apply)

lemma audit_mem_list_tenant [audit_steps]: "audit.steps (on_store (mem_list_tenant c t))"
  by (rule audit_on_store) (simp add: mem_list_tenant_def gets_apply)

lemma audit_mem_keys [audit_steps]: "audit.steps (on_store (mem_keys c))"
  by (rule audit_on_store) (simp add: mem_keys_def gets_apply)

lemma audit_mem_initialize [audit_steps]: "audit.steps (on_store mem_initialize)"
  by (rule audit_on_store) (simp add: mem_initialize_def modify_apply coll_setdefault)

lemma audit_mem_delete [audit_steps]: "c \<noteq> ''events'' \<Longrightarrow> audit.steps (on_store (mem_delete c k))"
  by (rule audit_on_store) (simp add: mem_delete_def coll_update)

section \<open>Restarting\<close>

lemma mset_dict:
  assumes "is_dict d" "is_dict d'" "map_of d = map_of d'"
  shows "mset d = mset d'"
proof -
  have "set d = set d'"
    using assms by (auto simp flip: map_of_eq_Some_iff_dict)
  moreover have "distinct d" "distinct d'"
    using assms(1,2) by (auto simp: is_dict_def distinct_map)
  ultimately show ?thesis by (simp add: set_eq_iff_mset_eq_distinct)
qed

lemma log_durable_mset:
  assumes "log_durable w" "w_durable w"
  shows "mset (map snd (sorted_items (coll (w_store w) ''events''))) = mset (map event_as_dict (w_events w))"
proof -
  have "is_dict (log_dict (w_events w))"
    using assms(1) by (simp add: log_durable_def is_dict_def log_dict_def comp_def)
  with assms have "mset (coll (w_store w) ''events'') = mset (log_dict (w_events w))"
    by (intro mset_dict) (auto simp: log_durable_def)
  then have "image_mset snd (mset (sorted_items (coll (w_store w) ''events''))) = image_mset snd (mset (log_dict (w_events w)))"
    by (simp add: sorted_items_def)
  then show ?thesis by (simp add: log_dict_def image_mset.compositionality comp_def)
qed

lemma seq_of_event: "int_or (event_as_dict e) ''sequence'' 0 = Inr (ev_seq e)"
  by (simp add: field_defs event_as_dict_def)

definition doc_seq :: "obj \<Rightarrow> int" where
  "doc_seq d = (case int_or d ''sequence'' 0 of Inr q \<Rightarrow> q | Inl _ \<Rightarrow> 0)"

lemma doc_seq_event: "doc_seq (event_as_dict e) = ev_seq e"
  by (simp add: doc_seq_def seq_of_event)

lemma read_log:
  assumes "mset ds = mset (map event_as_dict es)" "sorted (map ev_seq es)" "distinct (map ev_seq es)"
  shows "bind (mapM (\<lambda>d. bind (lift (int_or d ''sequence'' 0)) (\<lambda>q. ok (q, d))) ds) (\<lambda>qs.
       mapM (\<lambda>(q, d). event_from_dict d) (sort_key fst qs)) w = (Inr es, w)"
proof -
  let ?qs = "map (\<lambda>d. (doc_seq d, d)) ds"
  let ?es = "map (\<lambda>e. (ev_seq e, event_as_dict e)) es"
  have mem: "d \<in> event_as_dict ` set es" if "d \<in> set ds" for d
    using that mset_eq_setD [OF assms(1)] by simp
  have 1: "mapM (\<lambda>d. bind (lift (int_or d ''sequence'' 0)) (\<lambda>q. ok (q, d))) ds w = (Inr ?qs, w)"
    by (rule mapM_all_Inr) (auto dest!: mem simp: seq_of_event doc_seq_event ok_apply)
  have "mset ?qs = image_mset (\<lambda>d. (doc_seq d, d)) (mset ds)" by simp
  also have "\<dots> = mset ?es" by (simp add: assms(1) image_mset.compositionality comp_def doc_seq_event)
  finally have ms: "mset ?es = mset ?qs" by simp
  have "inj_on ev_seq (set es)" using assms(3) by (simp add: distinct_map)
  then have "inj_on fst (set ?es)" by (force simp: inj_on_def)
  then have "inj_on fst (set ?qs)" using mset_eq_setD [OF ms] by simp
  then have 2: "sort_key fst ?qs = ?es"
    using ms assms(2) by (intro sort_key_inj_key_eq) (simp_all add: comp_def)
  have "mapM (\<lambda>(q, d). event_from_dict d) ?es w = (Inr es, w)"
    by (induction es) (simp_all add: op_simps)
  with 1 2 show ?thesis by (simp add: bind_apply)
qed

lemma es_open_same_log:
  assumes "log_ok w" "log_durable w" "w_durable w"
  shows "outcome es_open w = Inr () \<and> w_events (final es_open w) = w_events w"
proof -
  let ?s = "setdefault ''_meta'' [] (w_store w)"
  let ?ds = "map snd (sorted_items (coll ?s ''events''))"
  note log = assms(1)[unfolded log_ok_def]
  have ms: "mset ?ds = mset (map event_as_dict (w_events w))"
    using log_durable_mset [OF assms(2,3)] by (simp add: coll_setdefault)
  have split: "es_open w = bind (bind (mapM (\<lambda>d. bind (lift (int_or d ''sequence'' 0)) (\<lambda>q. ok (q, d))) ?ds) (\<lambda>qs.
       mapM (\<lambda>(q, d). event_from_dict d) (sort_key fst qs))) (\<lambda>es. modify (\<lambda>w. w\<lparr>w_events := es\<rparr>)) (w\<lparr>w_store := ?s\<rparr>)"
    using assms(3)
    by (simp add: es_open_def bind_apply gets_apply on_store_def mem_initialize_def mem_list_def modify_apply bind_assoc)
  show ?thesis
    unfolding split by (simp add: bind_apply [of "bind _ _"] read_log [OF ms chain_ok_sorted [OF log]] modify_apply)
qed

section \<open>Tampering\<close>

lemma hash_input_inj:
  assumes "wf_obj (ev_payload a)" "wf_obj (ev_payload b)" "dumps_compact (hash_input a) = dumps_compact (hash_input b)"
  shows "ev_id a = ev_id b \<and> ev_seq a = ev_seq b \<and> ev_type a = ev_type b \<and> ev_aggregate a = ev_aggregate b \<and>
    norm_doc (ev_payload a) = norm_doc (ev_payload b) \<and> ev_time a = ev_time b \<and> ev_prev a = ev_prev b"
proof -
  have "wf_json (hash_input a)" "wf_json (hash_input b)"
    using assms(1,2) by (simp_all add: hash_input_def wf_obj_def)
  with assms(3) have eq: "canon (hash_input a) = canon (hash_input b)"
    by (simp add: dumps_compact_inj)
  have canon: "canon (hash_input e) = JObj [(''aggregate_id'', JStr (ev_aggregate e)), (''event_id'', JStr (ev_id e)),
      (''event_type'', JStr (ev_type e)), (''payload'', JObj (norm_doc (ev_payload e))), (''previous_hash'', JStr (ev_prev e)),
      (''sequence'', JInt (ev_seq e)), (''timestamp'', JStr (isoformat (ev_time e)))]" for e
    by (simp add: hash_input_def norm_doc_def sorted_items_def)
  show ?thesis using eq unfolding canon by (simp add: isoformat_inj)
qed

definition event_norm :: "event \<Rightarrow> event" where
  "event_norm e = e\<lparr>ev_payload := norm_doc (ev_payload e)\<rparr>"

definition collision_at :: "(string \<Rightarrow> string) \<Rightarrow> event \<Rightarrow> event \<Rightarrow> bool" where
  "collision_at sha a b \<longleftrightarrow> dumps_compact (hash_input a) \<noteq> dumps_compact (hash_input b) \<and>
     sha (dumps_compact (hash_input a)) = sha (dumps_compact (hash_input b))"

lemma chain_ok_last:
  "chain_ok sha [] 1 (es @ [e]) \<longleftrightarrow> chain_ok sha [] 1 es \<and> ev_seq e = 1 + int (length es) \<and>
     ev_prev e = last_hash es \<and> ev_hash e = sha (dumps_compact (hash_input e))"
  by (auto simp: chain_ok_append last_hash_def hash_event_def)

lemma chains_with_one_head:
  assumes "length as = length bs" "chain_ok sha [] 1 as" "chain_ok sha [] 1 bs" "last_hash as = last_hash bs"
    "list_all (wf_obj \<circ> ev_payload) as" "list_all (wf_obj \<circ> ev_payload) bs"
  shows "map event_norm as = map event_norm bs \<or> (\<exists>i < length as. collision_at sha (as ! i) (bs ! i))"
  using assms
proof (induction as arbitrary: bs rule: rev_induct)
  case (snoc a as)
  obtain b bs' where bs: "bs = bs' @ [b]" and len: "length as = length bs'"
    using snoc.prems(1) by (cases bs rule: rev_cases) auto
  have hash: "sha (dumps_compact (hash_input a)) = sha (dumps_compact (hash_input b))"
    using snoc.prems(2-4) unfolding bs chain_ok_last by (simp add: last_hash_def)
  show ?case
  proof (cases "dumps_compact (hash_input a) = dumps_compact (hash_input b)")
    case True
    then have same: "event_norm a = event_norm b" "ev_prev a = ev_prev b"
      using hash_input_inj [OF _ _ True] snoc.prems(2,3,5,6) unfolding bs chain_ok_last
      by (auto simp: event_norm_def)
    have "map event_norm as = map event_norm bs' \<or> (\<exists>i < length as. collision_at sha (as ! i) (bs' ! i))"
      using snoc.prems(2,3,5,6) same(2) len unfolding bs chain_ok_last by (intro snoc.IH) auto
    then show ?thesis using same(1) len unfolding bs by (auto simp: nth_append)
  next
    case False
    with hash len show ?thesis
      unfolding bs by (intro disjI2 exI [of _ "length as"]) (auto simp: collision_at_def nth_append)
  qed
qed simp

section \<open>Properties\<close>

text \<open>
  A history of calls of \<^verbatim>\<open>append\<close>; the caller goes on when one is refused.
\<close>

definition append_all :: "(string \<times> string \<times> obj) list \<Rightarrow> ('z world_scheme, unit) op" where
  "append_all calls = forM (\<lambda>(ty, ag, p). catch (bind (es_append ty ag p) (\<lambda>_. ok ())) (\<lambda>_. ok ())) calls"

lemma audit_append_all [audit_steps]: "audit.steps (append_all calls)"
  unfolding append_all_def by (auto intro!: audit.steps_intros audit_steps)

text \<open>
  \<^verbatim>\<open>append\<close> on every branch: an unregistered type raises \<^verbatim>\<open>ValueError\<close> and changes nothing; a
  registered one adds, at the end of the log, an event with the next sequence number, the hash of
  the event before it and its own digest, reads the clock once and draws one identifier, writes
  the event to the document store exactly when the store is durable, and returns the event.
\<close>

theorem es_append_behaviour:
  "es_append ty ag p w =
     (if registered ty
      then (Inr (next_event ty ag p w),
        w\<lparr>w_uuids := Suc (w_uuids w), w_ticks := Suc (w_ticks w), w_events := w_events w @ [next_event ty ag p w],
          w_store := events_put (w_durable w) (next_event ty ag p w) (w_store w)\<rparr>)
      else (Inl (ValueError (''unregistered event type: '' @ ty)), w))"
  by (simp add: es_append_registered es_append_unregistered)

text \<open>
  C3. The log is append-only and stays intact: from a log whose chain is intact, after any history
  of appends, refused ones included, the old log is a prefix of the new one and
  \<^verbatim>\<open>validate_integrity\<close> answers true.
\<close>

theorem append_keeps_integrity:
  assumes "log_ok w"
  shows "prefix (w_events w) (w_events (final (append_all calls) w)) \<and>
    validate_integrity (final (append_all calls) w)"
  using audit.stepsD [OF audit_append_all, of w calls] assms
  by (auto simp: audit_step_def intro: log_ok_validate)

definition world0 :: world where
  "world0 = \<lparr>w_store = [], w_events = [], w_durable = True, w_sha = (\<lambda>s. s), w_clock = (\<lambda>n. dt (int n)),
     w_ticks = 0, w_uuid = (\<lambda>n. dec_nat n), w_uuids = 0\<rparr>"

lemma inj_dec_nat: "inj dec_nat"
proof (rule injI)
  fix m n assume "dec_nat m = dec_nat n"
  then have "undec 0 (dec_nat m @ []) = undec 0 (dec_nat n @ [])" by simp
  then show "m = n" by (simp add: undec_dec_nat no_digit_start_def del: append_Nil2)
qed

lemma world0_ok [simp]: "log_ok world0" "log_durable world0" "w_durable world0"
  by (simp_all add: world0_def log_ok_def log_durable_def coll_def log_dict_def inj_dec_nat)

theorem append_keeps_integrity_witness:
  "validate_integrity (final (append_all [(''task'', ''a'', []), (''nope'', ''a'', []), (''audit'', ''b'', [])]) world0)"
  using append_keeps_integrity [of world0 "[(''task'', ''a'', []), (''nope'', ''a'', []), (''audit'', ''b'', [])]"] by simp

text \<open>
  C4. Tampering is evident: two event stores with the same digest function that both pass
  \<^verbatim>\<open>validate_integrity\<close>, have as many events and end in the same hash hold the same events (payloads
  up to the order of keys), or at some position the two texts that were hashed differ and have
  the same digest: a collision of the digest, given explicitly.
\<close>

theorem tamper_evident:
  assumes "validate_integrity v" "validate_integrity w" "w_sha v = w_sha w"
    "length (w_events v) = length (w_events w)"
    "as = sort_key ev_seq (w_events v)" "bs = sort_key ev_seq (w_events w)"
    "last_hash as = last_hash bs"
    "list_all (wf_obj \<circ> ev_payload) (w_events v)" "list_all (wf_obj \<circ> ev_payload) (w_events w)"
  shows "map event_norm as = map event_norm bs \<or> (\<exists>i < length as. collision_at (w_sha w) (as ! i) (bs ! i))"
  using assms by (intro chains_with_one_head) (auto simp: validate_integrity_def list_all_iff)

definition logged :: "obj \<Rightarrow> world" where
  "logged p = final (append_all [(''task'', ''a'', p)]) world0"

lemma logged_facts:
  "w_events (logged p) = [next_event ''task'' ''a'' p world0]" "w_sha (logged p) = w_sha world0"
  "validate_integrity (logged p)"
proof -
  have reg: "registered ''task''" by code_simp
  then show "w_events (logged p) = [next_event ''task'' ''a'' p world0]" "w_sha (logged p) = w_sha world0"
    by (simp_all add: logged_def append_all_def catch_apply bind_apply ok_apply es_append_registered world0_def)
  have "log_ok (logged p)"
    using audit.stepsD [OF audit_append_all, of world0 "[(''task'', ''a'', p)]"] by (simp add: audit_step_def logged_def)
  then show "validate_integrity (logged p)" by (rule log_ok_validate)
qed

theorem tamper_evident_witness:
  "let as = w_events (logged [(''x'', JInt 1), (''y'', JNull)]); bs = w_events (logged [(''y'', JNull), (''x'', JInt 1)]) in
   as \<noteq> bs \<and> (map event_norm as = map event_norm bs \<or> (\<exists>i < length as. collision_at (w_sha world0) (as ! i) (bs ! i)))"
proof -
  let ?p = "[(''x'', JInt 1), (''y'', JNull)]" and ?q = "[(''y'', JNull), (''x'', JInt 1)]"
  have "last_hash (w_events (logged ?p)) = last_hash (w_events (logged ?q))" "w_events (logged ?p) \<noteq> w_events (logged ?q)"
    by (simp_all add: logged_facts last_hash_def next_event_def Let_def hash_event_def hash_input_def
        dumps_compact_def sorted_items_def)
  then show ?thesis
    using tamper_evident [of "logged ?p" "logged ?q" "w_events (logged ?p)" "w_events (logged ?q)"]
    by (simp add: logged_facts next_event_def Let_def)
qed

text \<open>
  C5. A restart loses nothing: from a durable store whose collection holds the log, after any
  history of appends, an event store opened anew over the document store reads back exactly the
  log, in order, and it passes \<^verbatim>\<open>validate_integrity\<close>. The identifiers drawn are taken not to repeat.
\<close>

theorem restart_restores_log:
  assumes "log_ok w" "log_durable w" "w_durable w" "w' = final (append_all calls) w"
  shows "outcome es_open w' = Inr () \<and> w_events (final es_open w') = w_events w' \<and>
    chain_ok (w_sha w) [] 1 (w_events w')"
proof -
  have "log_ok w'" "log_durable w'" "w_durable w'" "w_sha w' = w_sha w"
    using audit.stepsD [OF audit_append_all, of w calls] assms by (auto simp: audit_step_def)
  then show ?thesis using es_open_same_log [of w'] by (simp add: log_ok_def)
qed

theorem restart_restores_log_witness:
  "let w' = final (append_all [(''task'', ''a'', []), (''audit'', ''b'', [(''k'', JInt 1)])]) world0 in
   outcome es_open w' = Inr () \<and> w_events (final es_open w') = w_events w'"
  using restart_restores_log [of world0 _ "[(''task'', ''a'', []), (''audit'', ''b'', [(''k'', JInt 1)])]"]
  by (simp add: Let_def)

end
