(* ===== verification/Recovery.thy ===== *)
theory Recovery
  imports Events
begin

text \<open>
  Recovery of a workflow from the event log (\<^verbatim>\<open>agentfabric/recovery\<close>): the integrity check, the fold of
  the workflow's events into a state, and the loader of checkpoints.
\<close>

section \<open>Rebuilding the state of a workflow\<close>

record rebuilt =
  rb_status :: string
  rb_results :: "json dict"
  rb_node_status :: "string dict"
  rb_retries :: "int dict"
  rb_checkpoints :: "string list"
  rb_delegated :: "string dict"
  rb_traces :: "obj list"
  rb_completed :: "string set"
  rb_failed :: "string set"
  rb_started :: "string set"

definition rebuilt_init :: rebuilt where
  "rebuilt_init = \<lparr>rb_status = ''unknown'', rb_results = [], rb_node_status = [], rb_retries = [],
     rb_checkpoints = [], rb_delegated = [], rb_traces = [], rb_completed = {}, rb_failed = {}, rb_started = {}\<rparr>"

text \<open>\<^verbatim>\<open>value[k]\<close> for a value that may not be a dictionary.\<close>

fun subscript :: "json \<Rightarrow> string \<Rightarrow> json result" where
  "subscript (JObj d) k = req d k"
| "subscript _ k = Inl (TypeError ''indices must be integers'')"

definition set_node_status :: "string \<Rightarrow> string \<Rightarrow> (rebuilt, unit) op" where
  "set_node_status n st = modify (\<lambda>r. r\<lparr>rb_node_status := AList.update n st (rb_node_status r)\<rparr>)"

definition rebuild_node :: "json \<Rightarrow> (rebuilt, unit) op" where
  "rebuild_node node =
     bind (lift (subscript node ''node_id'')) (\<lambda>i.
     bind (set_node_status (py_str i) ''pending'') (\<lambda>_.
     bind (lift (subscript node ''agent_id'')) (\<lambda>a.
     modify (\<lambda>r. r\<lparr>rb_delegated := AList.update (py_str i) (py_str a) (rb_delegated r)\<rparr>))))"

definition rebuild_nodes_status :: "obj \<Rightarrow> string \<Rightarrow> (rebuilt, unit) op" where
  "rebuild_nodes_status p st =
     bind (lift (py_iter (get_or p ''nodes'' (JList [])))) (\<lambda>ns. forM (\<lambda>n. set_node_status (py_str n) st) ns)"

definition rebuild_event :: "event \<Rightarrow> (rebuilt, unit) op" where
  "rebuild_event e = (let p = ev_payload e; ty = ev_type e in
     if ty = ''workflow.started'' then
       bind (modify (\<lambda>r. r\<lparr>rb_status := ''running''\<rparr>)) (\<lambda>_.
       bind (lift (dict_or p ''task_graph'')) (\<lambda>graph.
       bind (lift (py_iter (get_or graph ''nodes'' (JList [])))) (\<lambda>ns. forM rebuild_node ns)))
     else if ty = ''task.started'' then
       bind (lift (req_str p ''node_id'')) (\<lambda>n.
       bind (modify (\<lambda>r. r\<lparr>rb_started := insert n (rb_started r)\<rparr>)) (\<lambda>_.
       bind (lift (int_or p ''attempt'' 1)) (\<lambda>k.
       modify (\<lambda>r. r\<lparr>rb_retries := AList.update n k (rb_retries r)\<rparr>))))
     else if ty = ''task.completed'' then
       bind (lift (req_str p ''node_id'')) (\<lambda>n.
       bind (modify (\<lambda>r. r\<lparr>rb_completed := insert n (rb_completed r), rb_failed := rb_failed r - {n}\<rparr>)) (\<lambda>_.
       bind (set_node_status n ''completed'') (\<lambda>_.
       bind (case map_of p ''result'' of None \<Rightarrow> ok ()
             | Some v \<Rightarrow> modify (\<lambda>r. r\<lparr>rb_results := AList.update n v (rb_results r)\<rparr>)) (\<lambda>_.
       modify (\<lambda>r. r\<lparr>rb_traces := rb_traces r @ [p]\<rparr>)))))
     else if ty = ''task.failed'' then
       bind (lift (req_str p ''node_id'')) (\<lambda>n.
       bind (gets rb_completed) (\<lambda>completed.
       bind (if n \<notin> completed
             then bind (modify (\<lambda>r. r\<lparr>rb_failed := insert n (rb_failed r)\<rparr>)) (\<lambda>_. set_node_status n ''failed'')
             else ok ()) (\<lambda>_.
       bind (lift (int_or p ''attempt'' 1)) (\<lambda>k.
       bind (modify (\<lambda>r. r\<lparr>rb_retries := AList.update n k (rb_retries r)\<rparr>)) (\<lambda>_.
       modify (\<lambda>r. r\<lparr>rb_traces := rb_traces r @ [p]\<rparr>))))))
     else if ty = ''human_approval.requested'' then
       bind (modify (\<lambda>r. r\<lparr>rb_status := ''awaiting_approval''\<rparr>)) (\<lambda>_. rebuild_nodes_status p ''awaiting_approval'')
     else if ty = ''human_approval.resolved'' then
       bind (rebuild_nodes_status p ''pending'') (\<lambda>_. modify (\<lambda>r. r\<lparr>rb_status := ''running''\<rparr>))
     else if ty = ''checkpoint.created'' then
       bind (lift (req_str p ''checkpoint_id'')) (\<lambda>c.
       modify (\<lambda>r. r\<lparr>rb_checkpoints := rb_checkpoints r @ [c]\<rparr>))
     else if ty = ''workflow.completed'' then modify (\<lambda>r. r\<lparr>rb_status := ''completed''\<rparr>)
     else if ty = ''workflow'' \<and> map_of p ''status'' = Some (JStr ''completed'') then
       modify (\<lambda>r. r\<lparr>rb_status := ''completed''\<rparr>)
     else ok ())"

definition rb_pending :: "rebuilt \<Rightarrow> string set" where
  "rb_pending r = set (map fst (rb_node_status r)) - rb_completed r - rb_failed r"

definition rb_final_status :: "rebuilt \<Rightarrow> string" where
  "rb_final_status r = (if rb_status r = ''unknown'' \<and> rb_started r \<noteq> {} then ''running'' else rb_status r)"

definition str_list :: "string list \<Rightarrow> json" where
  "str_list xs = JList (map JStr xs)"

definition rebuilt_dict :: "string \<Rightarrow> rebuilt \<Rightarrow> obj" where
  "rebuilt_dict wid r = [
     (''workflow_id'', JStr wid),
     (''status'', JStr (rb_final_status r)),
     (''node_results'', JObj (rb_results r)),
     (''node_status'', JObj (map (map_prod id JStr) (rb_node_status r))),
     (''retry_counters'', JObj (map (map_prod id JInt) (rb_retries r))),
     (''completed_task_ids'', str_list (sorted_list_of_set (rb_completed r))),
     (''pending_task_ids'', str_list (sorted_list_of_set (rb_pending r))),
     (''failed_task_ids'', str_list (sorted_list_of_set (rb_failed r - rb_completed r))),
     (''checkpoints'', str_list (rb_checkpoints r)),
     (''delegated_assignments'', JObj (map (map_prod id JStr) (rb_delegated r))),
     (''traces'', JList (map JObj (rb_traces r)))]"

definition rebuild_state :: "event list \<Rightarrow> rebuilt result" where
  "rebuild_state es = (case forM rebuild_event (sort_key ev_seq es) rebuilt_init of (Inl x, _) \<Rightarrow> Inl x | (Inr _, r) \<Rightarrow> Inr r)"

definition rebuild_workflow :: "string \<Rightarrow> event list \<Rightarrow> obj result" where
  "rebuild_workflow wid es = (case rebuild_state es of Inl x \<Rightarrow> Inl x | Inr r \<Rightarrow> Inr (rebuilt_dict wid r))"

section \<open>Checkpoints\<close>

definition cp_load :: "string \<Rightarrow> string \<Rightarrow> ('z world_scheme, obj) op" where
  "cp_load wid cp =
     bind (on_store (mem_get ''checkpoints'' (wid @ '':'' @ cp))) (\<lambda>c. case c of
       None \<Rightarrow> raise (KeyError (''checkpoint not found: '' @ wid @ '':'' @ cp))
     | Some d \<Rightarrow> ok d)"

definition cp_latest :: "string \<Rightarrow> ('z world_scheme, obj option) op" where
  "cp_latest wid =
     bind (on_store (mem_keys ''checkpoints'')) (\<lambda>ks.
     let matching = filter (\<lambda>k. take (length wid + 1) k = wid @ '':'') ks in
     if matching = [] then ok None else on_store (mem_get ''checkpoints'' (last (sort matching))))"

section \<open>The recovery engine\<close>

definition validate_or_raise :: "('z world_scheme, unit) op" where
  "validate_or_raise = bind (gets validate_integrity) (\<lambda>b. guard b (RuntimeError ''event integrity validation failed''))"

definition recover_workflow :: "bool \<Rightarrow> string \<Rightarrow> ('z world_scheme, obj) op" where
  "recover_workflow persistence wid =
     bind validate_or_raise (\<lambda>_.
     bind (es_replay (Some wid)) (\<lambda>es.
     if es = [] then raise (KeyError (''workflow not found: '' @ wid))
     else
       bind (lift (rebuild_state es)) (\<lambda>r.
       let state = rebuilt_dict wid r @ [
         (''recovered'', JBool True),
         (''safe_to_resume'', JBool (rb_final_status r = ''running'' \<or> rb_final_status r = ''awaiting_approval'')),
         (''skip_completed_task_ids'', str_list (sorted_list_of_set (rb_completed r)))]
       in if persistence
          then bind (on_store mem_initialize) (\<lambda>_.
               bind (cp_latest wid) (\<lambda>latest. case latest of
                 None \<Rightarrow> ok state
               | Some c \<Rightarrow> ok (state @ [(''latest_checkpoint'', JObj c)])))
          else ok state)))"

section \<open>Properties\<close>

text \<open>The nodes that events of one type name.\<close>

definition nodes_of :: "string \<Rightarrow> event list \<Rightarrow> string set" where
  "nodes_of ty es = {py_str v |e v. e \<in> set es \<and> ev_type e = ty \<and> map_of (ev_payload e) ''node_id'' = Some v}"

lemma nodes_of_append [simp]: "nodes_of ty (es @ fs) = nodes_of ty es \<union> nodes_of ty fs"
  by (auto simp: nodes_of_def)

lemma nodes_of_single: "nodes_of ty [e] = (if ev_type e = ty then py_str ` set_option (map_of (ev_payload e) ''node_id'') else {})"
  by (auto simp: nodes_of_def)

definition tasks_kept :: "rebuilt \<Rightarrow> rebuilt \<Rightarrow> bool" where
  "tasks_kept r r' \<longleftrightarrow> rb_completed r' = rb_completed r \<and> rb_failed r' = rb_failed r"

interpretation tasks: step_contract tasks_kept
  by unfold_locales (auto simp: tasks_kept_def)

lemma tasks_modify: "(\<And>r. rb_completed (f r) = rb_completed r \<and> rb_failed (f r) = rb_failed r) \<Longrightarrow> tasks.steps (modify f)"
  by (simp add: tasks.steps_def modify_apply tasks_kept_def)

lemma tasks_set_node_status: "tasks.steps (set_node_status n st)"
  unfolding set_node_status_def by (rule tasks_modify) simp

lemmas tasks_rules = tasks.steps_intros tasks_set_node_status tasks_modify

lemma rebuild_event_other:
  assumes "ev_type e \<noteq> ''task.completed''" "ev_type e \<noteq> ''task.failed''"
  shows "tasks.steps (rebuild_event e)"
  unfolding rebuild_event_def Let_def rebuild_node_def rebuild_nodes_status_def using assms
  by (auto intro!: tasks_rules)

lemma rebuild_event_tasks:
  assumes "rebuild_event e r = (Inr u, r')"
  shows "rb_completed r' = rb_completed r \<union> nodes_of ''task.completed'' [e] \<and>
    rb_failed r' - rb_completed r' = (rb_failed r \<union> nodes_of ''task.failed'' [e]) - rb_completed r'"
proof -
  consider "ev_type e = ''task.completed''" | "ev_type e = ''task.failed''"
    | "ev_type e \<noteq> ''task.completed'' \<and> ev_type e \<noteq> ''task.failed''" by blast
  then show ?thesis
  proof cases
    case 1
    with assms show ?thesis
      by (auto simp: rebuild_event_def Let_def bind_apply lift_apply modify_apply ok_apply set_node_status_def field_defs
          nodes_of_single split: option.splits)
  next
    case 2
    with assms show ?thesis
      by (auto simp: rebuild_event_def Let_def bind_apply lift_apply modify_apply ok_apply gets_apply set_node_status_def field_defs
          nodes_of_single split: option.splits sum.splits if_splits)
  next
    case 3
    then have "tasks_kept r r'"
      using tasks.stepsD [OF rebuild_event_other, of e r] assms by simp
    with 3 show ?thesis by (auto simp: tasks_kept_def nodes_of_single)
  qed
qed

lemma rebuild_events_tasks:
  assumes "forM rebuild_event es rebuilt_init = (Inr u, r)"
  shows "rb_completed r = nodes_of ''task.completed'' es \<and>
    rb_failed r - rb_completed r = nodes_of ''task.failed'' es - rb_completed r"
  using assms
proof (induction es arbitrary: r u rule: rev_induct)
  case Nil
  then show ?case by (auto simp: ok_apply rebuilt_init_def nodes_of_def)
next
  case (snoc e es)
  then obtain r1 where "forM rebuild_event es rebuilt_init = (Inr (), r1)" "rebuild_event e r1 = (Inr (), r)"
    by (auto simp: forM_append bind_eq_Inr_iff ok_apply)
  with snoc.IH rebuild_event_tasks [of e r1 "()" r] show ?case by auto
qed

lemma nodes_of_set: "set es = set fs \<Longrightarrow> nodes_of ty es = nodes_of ty fs"
  by (simp add: nodes_of_def)

text \<open>
  What a rebuilt workflow says of its tasks is what the log says: the completed tasks, which a
  resumed run skips, are exactly those with a \<^verbatim>\<open>task.completed\<close> event, the failed ones exactly those
  with a \<^verbatim>\<open>task.failed\<close> event and no \<^verbatim>\<open>task.completed\<close> one, whatever the order of the two, and no
  task is in two of the lists of completed, pending and failed tasks.
\<close>

theorem rebuilt_tasks:
  assumes "rebuild_workflow wid es = Inr d"
  shows "\<exists>pending.
    map_of d ''completed_task_ids'' = Some (str_list (sorted_list_of_set (nodes_of ''task.completed'' es))) \<and>
    map_of d ''failed_task_ids'' =
      Some (str_list (sorted_list_of_set (nodes_of ''task.failed'' es - nodes_of ''task.completed'' es))) \<and>
    map_of d ''pending_task_ids'' = Some (str_list (sorted_list_of_set pending)) \<and>
    pending \<inter> (nodes_of ''task.completed'' es \<union> nodes_of ''task.failed'' es) = {}"
proof -
  obtain r where r: "forM rebuild_event (sort_key ev_seq es) rebuilt_init = (Inr (), r)" "d = rebuilt_dict wid r"
    using assms by (auto simp: rebuild_workflow_def rebuild_state_def split: prod.splits sum.splits)
  have "rb_completed r = nodes_of ''task.completed'' es"
    "rb_failed r - rb_completed r = nodes_of ''task.failed'' es - rb_completed r"
    using rebuild_events_tasks [OF r(1)] nodes_of_set [of "sort_key ev_seq es" es] by auto
  then show ?thesis
    unfolding r(2) rebuilt_dict_def by (intro exI [of _ "rb_pending r"]) (auto simp: rb_pending_def)
qed

definition task_event :: "string \<Rightarrow> int \<Rightarrow> event" where
  "task_event ty n = \<lparr>ev_type = ty, ev_aggregate = ''w'', ev_payload = [(''node_id'', JStr ''a'')], ev_id = ''e'',
     ev_time = dt 0, ev_seq = n, ev_prev = [], ev_hash = []\<rparr>"

theorem rebuilt_tasks_witness:
  "\<exists>d. rebuild_workflow ''w'' [task_event ''task.completed'' 1, task_event ''task.failed'' 2] = Inr d \<and>
    map_of d ''failed_task_ids'' = Some (str_list []) \<and> map_of d ''completed_task_ids'' = Some (str_list [''a''])"
proof -
  let ?es = "[task_event ''task.completed'' 1, task_event ''task.failed'' 2]"
  obtain d where d: "rebuild_workflow ''w'' ?es = Inr d"
    by (simp add: task_event_def rebuild_workflow_def rebuild_state_def rebuild_event_def Let_def op_simps field_defs set_node_status_def)
  have n: "nodes_of ''task.completed'' ?es = {''a''}" "nodes_of ''task.failed'' ?es = {''a''}"
    using nodes_of_append [of _ "[task_event ''task.completed'' 1]" "[task_event ''task.failed'' 2]"]
    by (simp_all add: nodes_of_single) (simp_all add: task_event_def)
  have "map_of d ''failed_task_ids'' = Some (str_list (sorted_list_of_set (nodes_of ''task.failed'' ?es - nodes_of ''task.completed'' ?es)))"
    "map_of d ''completed_task_ids'' = Some (str_list (sorted_list_of_set (nodes_of ''task.completed'' ?es)))"
    using rebuilt_tasks [OF d] by blast+
  with d show ?thesis unfolding n by simp
qed

text \<open>
  Recovery fails closed: a log that does not pass \<^verbatim>\<open>validate_integrity\<close> raises \<^verbatim>\<open>RuntimeError\<close>, a
  workflow without events \<^verbatim>\<open>KeyError\<close>, and in every case the event log and every document other than
  the empty collection \<^verbatim>\<open>_meta\<close> are left as they were.
\<close>

theorem recover_workflow_guarded:
  "(\<not> validate_integrity w \<longrightarrow>
      recover_workflow persistence wid w = (Inl (RuntimeError ''event integrity validation failed''), w)) \<and>
   (validate_integrity w \<and> (\<forall>e \<in> set (w_events w). ev_aggregate e \<noteq> wid) \<longrightarrow>
      recover_workflow persistence wid w = (Inl (KeyError (''workflow not found: '' @ wid)), w)) \<and>
   w_events (final (recover_workflow persistence wid) w) = w_events w \<and>
   mem_view (w_store (final (recover_workflow persistence wid) w)) = mem_view (w_store w)"
proof -
  have latest: "snd (cp_latest wid v) = v" for v :: "'a world_scheme"
    by (simp add: cp_latest_def bind_apply on_store_def mem_keys_def mem_get_def gets_apply ok_apply Let_def)
  have "w_events (final (recover_workflow persistence wid) w) = w_events w \<and>
     mem_view (w_store (final (recover_workflow persistence wid) w)) = mem_view (w_store w)"
    using latest [of "w\<lparr>w_store := setdefault ''_meta'' [] (w_store w)\<rparr>"]
    by (auto simp: recover_workflow_def validate_or_raise_def guard_def bind_apply gets_apply ok_apply raise_apply lift_apply Let_def
        es_replay_def on_store_def mem_initialize_def modify_apply mem_view_def coll_setdefault fun_eq_iff
        split: sum.splits prod.splits option.splits)
  then show ?thesis
    by (auto simp: recover_workflow_def validate_or_raise_def bind_apply gets_apply ok_apply raise_apply es_replay_def
        filter_empty_conv)
qed

theorem recover_workflow_guarded_witness:
  "recover_workflow True ''w'' (world0\<lparr>w_events := [task_event ''task.failed'' 7]\<rparr>) =
     (Inl (RuntimeError ''event integrity validation failed''), world0\<lparr>w_events := [task_event ''task.failed'' 7]\<rparr>)"
proof -
  have "\<not> validate_integrity (world0\<lparr>w_events := [task_event ''task.failed'' 7]\<rparr>)"
    by (simp add: validate_integrity_def task_event_def)
  then show ?thesis using recover_workflow_guarded [of "world0\<lparr>w_events := [task_event ''task.failed'' 7]\<rparr>"] by blast
qed

lemma less_append_common: "(xs @ ys < xs @ zs) = (ys < (zs :: string))"
  by (induction xs) auto

text \<open>
  The latest checkpoint is the one whose key is last in the order of strings: of a workflow's
  checkpoints \<^verbatim>\<open>batch-9\<close> and \<^verbatim>\<open>batch-10\<close> it is the older one, \<^verbatim>\<open>batch-9\<close>.
\<close>

theorem latest_checkpoint_by_string_order:
  assumes "fst ` set (coll (w_store w) ''checkpoints'') = {wid @ '':batch-9'', wid @ '':batch-10''}"
    "is_dict (coll (w_store w) ''checkpoints'')"
  shows "outcome (cp_latest wid) w = Inr (map_of (coll (w_store w) ''checkpoints'') (wid @ '':batch-9''))"
proof -
  let ?c = "coll (w_store w) ''checkpoints''"
  have less: "wid @ '':batch-10'' < wid @ '':batch-9''"
    unfolding less_append_common by (simp add: less_char_def)
  have "sort (map fst ?c) = [wid @ '':batch-10'', wid @ '':batch-9'']"
  proof (rule sorted_distinct_set_unique)
    show "distinct (sort (map fst ?c))" using assms(2) by (simp add: is_dict_def)
    show "set (sort (map fst ?c)) = set [wid @ '':batch-10'', wid @ '':batch-9'']" using assms(1) by auto
  qed (use less in auto)
  then show ?thesis
    using less by (simp add: cp_latest_def bind_apply on_store_def mem_keys_def mem_get_def gets_apply Let_def)
qed

theorem latest_checkpoint_by_string_order_witness:
  "outcome (cp_latest ''w'') (world0\<lparr>w_store := [(''checkpoints'', [(''w:batch-9'', [(''n'', JInt 9)]), (''w:batch-10'', [(''n'', JInt 10)])])]\<rparr>) =
     Inr (Some [(''n'', JInt 9)])"
  using latest_checkpoint_by_string_order [of "world0\<lparr>w_store := [(''checkpoints'', [(''w:batch-9'', [(''n'', JInt 9)]), (''w:batch-10'', [(''n'', JInt 10)])])]\<rparr>" "''w''"]
  by (simp add: coll_def)

lemma audit_cp_latest [audit_steps]: "audit.steps (cp_latest wid)"
  unfolding cp_latest_def Let_def by (auto intro!: audit.steps_intros audit_steps)

lemma audit_recover [audit_steps]: "audit.steps (recover_workflow persistence wid)"
  unfolding recover_workflow_def validate_or_raise_def es_replay_def Let_def
  by (auto intro!: audit.steps_intros audit_steps)

end
