(* ===== verification/Documents.thy ===== *)
theory Documents
  imports Events
begin

text \<open>
  How the services' \<^verbatim>\<open>from_dict\<close> methods read the fields of a document and their \<^verbatim>\<open>as_dict\<close> methods write
  them.
\<close>

section \<open>Reading records\<close>

text \<open>\<^verbatim>\<open>datetime.fromisoformat(str(value[k])) if value.get(k) else utc_now()\<close>\<close>

definition time_or_now :: "obj \<Rightarrow> string \<Rightarrow> ('z world_scheme, datetime) op" where
  "time_or_now d k = (let v = get_or d k JNull in
     if truthy v then lift (fromisoformat (py_str v)) else utc_now)"

definition opt_time :: "obj \<Rightarrow> string \<Rightarrow> datetime option result" where
  "opt_time d k = (let v = get_or d k JNull in
     if truthy v then (case fromisoformat (py_str v) of Inl e \<Rightarrow> Inl e | Inr t \<Rightarrow> Inr (Some t)) else Inr None)"

text \<open>\<^verbatim>\<open>{str(k): str(v) for k, v in dict(value.get(key, {})).items()}\<close>\<close>

definition str_dict_or :: "obj \<Rightarrow> string \<Rightarrow> string dict result" where
  "str_dict_or d k = (case dict_or d k of Inl e \<Rightarrow> Inl e | Inr m \<Rightarrow> Inr (map (map_prod id py_str) m))"

definition dicts_or :: "obj \<Rightarrow> string \<Rightarrow> obj list result" where
  "dicts_or d k = (case py_iter (get_or d k (JList [])) of Inl e \<Rightarrow> Inl e | Inr xs \<Rightarrow> map_result py_dict xs)"

definition strs :: "string list \<Rightarrow> json" where
  "strs xs = JList (map JStr xs)"

fun opt_json :: "string option \<Rightarrow> json" where
  "opt_json None = JNull"
| "opt_json (Some s) = JStr s"

fun time_json :: "datetime option \<Rightarrow> json" where
  "time_json None = JNull"
| "time_json (Some t) = JStr (isoformat t)"

lemma map_result_py_dict_JObj: "map_result py_dict (map JObj xs) = Inr xs"
  by (induction xs) auto

lemma map_str_dict: "map (map_prod id py_str) (map (map_prod id JStr) m) = m"
  by (induction m) auto

lemmas record_defs = field_defs time_or_now_def opt_time_def str_dict_or_def dicts_or_def strs_def Let_def
  map_result_py_dict_JObj

lemma truthy_time [simp]: "truthy (JStr (isoformat t))"
  by simp

text \<open>\<^verbatim>\<open>datetime.fromisoformat(str(value[k]))\<close>\<close>

definition req_time :: "obj \<Rightarrow> string \<Rightarrow> datetime result" where
  "req_time d k = (case req d k of Inl e \<Rightarrow> Inl e | Inr v \<Rightarrow> fromisoformat (py_str v))"

text \<open>An optional text as reading gives it: the empty one is \<^verbatim>\<open>None\<close>.\<close>

definition nonempty :: "'a list option \<Rightarrow> 'a list option" where
  "nonempty x = (if x = Some [] then None else x)"

lemma opt_str_opt_json: "(let v = opt_json x in if truthy v then Some (py_str v) else None) = nonempty x"
  by (cases x) (auto simp: nonempty_def)

lemma nonempty_idem [simp]: "nonempty (nonempty x) = nonempty x"
  by (simp add: nonempty_def)

section \<open>Collections an operation leaves alone\<close>

definition keeps_coll :: "string \<Rightarrow> 'z world_scheme \<Rightarrow> 'z world_scheme \<Rightarrow> bool" where
  "keeps_coll c w w' \<longleftrightarrow> coll (w_store w') c = coll (w_store w) c"

interpretation keeps: step_contract "keeps_coll c" for c
  by unfold_locales (auto simp: keeps_coll_def)

named_theorems keeps_steps \<open>operations that leave a collection alone\<close>

lemma keeps_utc_now [keeps_steps]: "keeps.steps c utc_now"
  by (simp add: keeps.steps_def keeps_coll_def utc_now_def)

lemma keeps_uuid [keeps_steps]: "keeps.steps c uuid_hex12"
  by (simp add: keeps.steps_def keeps_coll_def uuid_hex12_def)

lemma keeps_es_append [keeps_steps]: "c \<noteq> ''events'' \<Longrightarrow> keeps.steps c (es_append ty ag p)"
  unfolding keeps.steps_def keeps_coll_def
  by (cases "registered ty") (auto simp: es_append_registered es_append_unregistered events_put_def coll_mem_put)

lemma keeps_on_store:
  assumes "\<And>s. coll (snd (m s)) c = coll s c"
  shows "keeps.steps c (on_store m)"
  using assms unfolding keeps.steps_def keeps_coll_def on_store_def by (auto split: prod.splits) (metis snd_conv)

lemma keeps_mem_put [keeps_steps]: "c \<noteq> c' \<Longrightarrow> keeps.steps c (on_store (mem_put c' k v))"
  by (rule keeps_on_store) (simp add: coll_mem_put)

lemma keeps_reads [keeps_steps]:
  "keeps.steps c (on_store (mem_get c' k))" "keeps.steps c (on_store (mem_list c'))"
  "keeps.steps c (on_store (mem_list_tenant c' t))" "keeps.steps c (on_store (mem_keys c'))"
  by (rule keeps_on_store, simp add: mem_get_def mem_list_def mem_list_tenant_def mem_keys_def gets_apply)+

lemma keeps_time_or_now [keeps_steps]: "keeps.steps c (time_or_now d k)"
  unfolding time_or_now_def Let_def by (intro keeps.steps_intros keeps_steps)

section \<open>Effects of the primitive steps\<close>

definition put_doc :: "string \<Rightarrow> string \<Rightarrow> obj \<Rightarrow> 'z world_scheme \<Rightarrow> 'z world_scheme" where
  "put_doc c k d w = w\<lparr>w_store := snd (mem_put c k d (w_store w))\<rparr>"

definition tick :: "'z world_scheme \<Rightarrow> 'z world_scheme" where
  "tick w = w\<lparr>w_ticks := Suc (w_ticks w)\<rparr>"

abbreviation now :: "'z world_scheme \<Rightarrow> datetime" where
  "now w \<equiv> w_clock w (w_ticks w)"

lemma on_put [op_simps]: "on_store (mem_put c k d) w = (Inr (), put_doc c k d w)"
  by (simp add: on_store_def put_doc_def mem_put_def modify_apply)

lemma on_get [op_simps]: "on_store (mem_get c k) w = (Inr (map_of (coll (w_store w) c) k), w)"
  by (simp add: on_store_def mem_get_def gets_apply)

lemma utc_now_apply [op_simps]: "utc_now w = (Inr (now w), tick w)"
  by (simp add: utc_now_def tick_def)

lemma coll_put_doc [simp]:
  "coll (w_store (put_doc c k d w)) c' = (if c' = c then AList.update k d (coll (w_store w) c) else coll (w_store w) c')"
  by (simp add: put_doc_def coll_mem_put)

lemma tick_simps [simp]: "w_store (tick w) = w_store w" "w_events (tick w) = w_events w" "w_clock (tick w) = w_clock w"
  "w_ticks (tick w) = Suc (w_ticks w)"
  by (simp_all add: tick_def)

end
