(* ===== verification/Governance_Models.thy ===== *)
theory Governance_Models
  imports Documents
begin

text \<open>
  The records of \<^verbatim>\<open>agentfabric/governance\<close> and their document forms: agent organizations, teams,
  charters, proposals, votes, human approvals, decision records and policies. Reading back a
  written record gives the record again; where the reader turns an empty text or an empty
  dictionary into \<^verbatim>\<open>None\<close>, it gives the record with that done.
\<close>

section \<open>Organizations, teams and charters\<close>

record agent_org =
  org_tenant :: string
  org_organization :: string
  org_name :: string
  org_created_by :: string
  org_id :: string
  org_boundaries :: "string list"
  org_workflow_types :: "string list"
  org_budget :: obj
  org_created_at :: datetime
  org_updated_at :: datetime

definition org_as_dict :: "agent_org \<Rightarrow> obj" where
  "org_as_dict g = [
     (''org_id'', JStr (org_id g)),
     (''tenant_id'', JStr (org_tenant g)),
     (''organization_id'', JStr (org_organization g)),
     (''name'', JStr (org_name g)),
     (''authority_boundaries'', strs (org_boundaries g)),
     (''allowed_workflow_types'', strs (org_workflow_types g)),
     (''budget_limits'', JObj (org_budget g)),
     (''created_by'', JStr (org_created_by g)),
     (''created_at'', JStr (isoformat (org_created_at g))),
     (''updated_at'', JStr (isoformat (org_updated_at g)))]"

definition org_from_dict :: "obj \<Rightarrow> ('z world_scheme, agent_org) op" where
  "org_from_dict d =
     bind (lift (req_str d ''org_id'')) (\<lambda>oid.
     bind (lift (req_str d ''tenant_id'')) (\<lambda>tid.
     bind (lift (req_str d ''organization_id'')) (\<lambda>orgn.
     bind (lift (req_str d ''name'')) (\<lambda>nm.
     bind (lift (strs_or d ''authority_boundaries'' [])) (\<lambda>ab.
     bind (lift (strs_or d ''allowed_workflow_types'' [])) (\<lambda>awt.
     bind (lift (dict_or d ''budget_limits'')) (\<lambda>bl.
     bind (time_or_now d ''created_at'') (\<lambda>ca.
     bind (time_or_now d ''updated_at'') (\<lambda>ua.
     ok \<lparr>org_tenant = tid, org_organization = orgn, org_name = nm, org_created_by = str_or d ''created_by'' [],
         org_id = oid, org_boundaries = ab, org_workflow_types = awt, org_budget = bl,
         org_created_at = ca, org_updated_at = ua\<rparr>)))))))))"

lemma org_round_trip [simp]: "org_from_dict (org_as_dict g) w = (Inr g, w)"
  by (simp add: org_from_dict_def org_as_dict_def record_defs op_simps)

record agent_team =
  team_org :: string
  team_tenant :: string
  team_organization :: string
  team_name :: string
  team_roles :: "string dict"
  team_created_by :: string
  team_id :: string
  team_created_at :: datetime
  team_updated_at :: datetime

definition team_as_dict :: "agent_team \<Rightarrow> obj" where
  "team_as_dict g = [
     (''team_id'', JStr (team_id g)),
     (''org_id'', JStr (team_org g)),
     (''tenant_id'', JStr (team_tenant g)),
     (''organization_id'', JStr (team_organization g)),
     (''name'', JStr (team_name g)),
     (''roles'', JObj (map (map_prod id JStr) (team_roles g))),
     (''created_by'', JStr (team_created_by g)),
     (''created_at'', JStr (isoformat (team_created_at g))),
     (''updated_at'', JStr (isoformat (team_updated_at g)))]"

definition team_from_dict :: "obj \<Rightarrow> ('z world_scheme, agent_team) op" where
  "team_from_dict d =
     bind (lift (req_str d ''team_id'')) (\<lambda>i.
     bind (lift (req_str d ''org_id'')) (\<lambda>oid.
     bind (lift (req_str d ''tenant_id'')) (\<lambda>tid.
     bind (lift (req_str d ''organization_id'')) (\<lambda>orgn.
     bind (lift (req_str d ''name'')) (\<lambda>nm.
     bind (lift (str_dict_or d ''roles'')) (\<lambda>rs.
     bind (time_or_now d ''created_at'') (\<lambda>ca.
     bind (time_or_now d ''updated_at'') (\<lambda>ua.
     ok \<lparr>team_org = oid, team_tenant = tid, team_organization = orgn, team_name = nm, team_roles = rs,
         team_created_by = str_or d ''created_by'' [], team_id = i, team_created_at = ca, team_updated_at = ua\<rparr>))))))))"

lemma team_round_trip [simp]: "team_from_dict (team_as_dict g) w = (Inr g, w)"
  by (simp add: team_from_dict_def team_as_dict_def record_defs op_simps map_str_dict del: map_map)

record charter =
  ch_org :: string
  ch_tenant :: string
  ch_organization :: string
  ch_purpose :: string
  ch_boundaries :: "string list"
  ch_workflow_types :: "string list"
  ch_escalations :: "string list"
  ch_budget :: obj
  ch_updated_by :: string
  ch_updated_at :: datetime

definition charter_as_dict :: "charter \<Rightarrow> obj" where
  "charter_as_dict g = [
     (''org_id'', JStr (ch_org g)),
     (''tenant_id'', JStr (ch_tenant g)),
     (''organization_id'', JStr (ch_organization g)),
     (''purpose'', JStr (ch_purpose g)),
     (''authority_boundaries'', strs (ch_boundaries g)),
     (''allowed_workflow_types'', strs (ch_workflow_types g)),
     (''escalation_requirements'', strs (ch_escalations g)),
     (''budget_limits'', JObj (ch_budget g)),
     (''updated_by'', JStr (ch_updated_by g)),
     (''updated_at'', JStr (isoformat (ch_updated_at g)))]"

definition charter_from_dict :: "obj \<Rightarrow> ('z world_scheme, charter) op" where
  "charter_from_dict d =
     bind (lift (req_str d ''org_id'')) (\<lambda>oid.
     bind (lift (req_str d ''tenant_id'')) (\<lambda>tid.
     bind (lift (req_str d ''organization_id'')) (\<lambda>orgn.
     bind (lift (strs_or d ''authority_boundaries'' [])) (\<lambda>ab.
     bind (lift (strs_or d ''allowed_workflow_types'' [])) (\<lambda>awt.
     bind (lift (strs_or d ''escalation_requirements'' [])) (\<lambda>er.
     bind (lift (dict_or d ''budget_limits'')) (\<lambda>bl.
     bind (time_or_now d ''updated_at'') (\<lambda>ua.
     ok \<lparr>ch_org = oid, ch_tenant = tid, ch_organization = orgn, ch_purpose = str_or d ''purpose'' [],
         ch_boundaries = ab, ch_workflow_types = awt, ch_escalations = er, ch_budget = bl,
         ch_updated_by = str_or d ''updated_by'' [], ch_updated_at = ua\<rparr>))))))))"

lemma charter_round_trip [simp]: "charter_from_dict (charter_as_dict g) w = (Inr g, w)"
  by (simp add: charter_from_dict_def charter_as_dict_def record_defs op_simps)

section \<open>Proposals\<close>

record proposal =
  pr_tenant :: string
  pr_organization :: string
  pr_agent :: string
  pr_target_org :: string
  pr_action_type :: string
  pr_risk :: string
  pr_required :: int
  pr_created_by :: string
  pr_target_team :: "string option"
  pr_veil_ref :: "string option"
  pr_mode :: string
  pr_status :: string
  pr_id :: string
  pr_created_at :: datetime
  pr_updated_at :: datetime
  pr_expires_at :: datetime
  pr_executed :: "obj option"

definition pr_expired :: "proposal \<Rightarrow> ('z world_scheme, bool) op" where
  "pr_expired p = bind utc_now (\<lambda>now. ok (now > pr_expires_at p))"

definition with_status :: "proposal \<Rightarrow> string \<Rightarrow> obj option \<Rightarrow> ('z world_scheme, proposal) op" where
  "with_status p st act = bind utc_now (\<lambda>now.
     ok (p\<lparr>pr_status := st, pr_updated_at := now, pr_executed := (if act = None then pr_executed p else act)\<rparr>))"

definition proposal_as_dict :: "proposal \<Rightarrow> obj" where
  "proposal_as_dict p = [
     (''proposal_id'', JStr (pr_id p)),
     (''tenant_id'', JStr (pr_tenant p)),
     (''organization_id'', JStr (pr_organization p)),
     (''proposing_agent_id'', JStr (pr_agent p)),
     (''target_org_id'', JStr (pr_target_org p)),
     (''target_team_id'', opt_json (pr_target_team p)),
     (''action_type'', JStr (pr_action_type p)),
     (''risk_level'', JStr (pr_risk p)),
     (''required_approvals'', JInt (pr_required p)),
     (''veil_trust_metadata_ref'', opt_json (pr_veil_ref p)),
     (''consensus_mode'', JStr (pr_mode p)),
     (''status'', JStr (pr_status p)),
     (''created_by'', JStr (pr_created_by p)),
     (''created_at'', JStr (isoformat (pr_created_at p))),
     (''updated_at'', JStr (isoformat (pr_updated_at p))),
     (''expires_at'', JStr (isoformat (pr_expires_at p))),
     (''executed_action'', JObj (case pr_executed p of None \<Rightarrow> [] | Some d \<Rightarrow> d))]"

definition proposal_from_dict :: "obj \<Rightarrow> ('z world_scheme, proposal) op" where
  "proposal_from_dict d =
     bind (lift (req_str d ''proposal_id'')) (\<lambda>i.
     bind (lift (req_str d ''tenant_id'')) (\<lambda>tid.
     bind (lift (req_str d ''organization_id'')) (\<lambda>orgn.
     bind (lift (req_str d ''proposing_agent_id'')) (\<lambda>ag.
     bind (lift (req_str d ''target_org_id'')) (\<lambda>tg.
     bind (lift (req_str d ''action_type'')) (\<lambda>at.
     bind (lift (int_or d ''required_approvals'' 1)) (\<lambda>ra.
     bind (time_or_now d ''created_at'') (\<lambda>ca.
     bind (time_or_now d ''updated_at'') (\<lambda>ua.
     bind (time_or_now d ''expires_at'') (\<lambda>ea.
     bind (lift (dict_or d ''executed_action'')) (\<lambda>act.
     ok \<lparr>pr_tenant = tid, pr_organization = orgn, pr_agent = ag, pr_target_org = tg, pr_action_type = at,
         pr_risk = str_or d ''risk_level'' ''medium'', pr_required = ra, pr_created_by = str_or d ''created_by'' [],
         pr_target_team = opt_str d ''target_team_id'', pr_veil_ref = opt_str d ''veil_trust_metadata_ref'',
         pr_mode = str_or d ''consensus_mode'' ''majority'', pr_status = str_or d ''status'' ''pending'', pr_id = i,
         pr_created_at = ca, pr_updated_at = ua, pr_expires_at = ea,
         pr_executed = (if act = [] then None else Some act)\<rparr>)))))))))))"

text \<open>A proposal as reading gives it: an empty optional text or action is \<^verbatim>\<open>None\<close>.\<close>

definition pr_norm :: "proposal \<Rightarrow> proposal" where
  "pr_norm p = p\<lparr>pr_target_team := nonempty (pr_target_team p), pr_veil_ref := nonempty (pr_veil_ref p),
     pr_executed := nonempty (pr_executed p)\<rparr>"

lemma proposal_round_trip [simp]: "proposal_from_dict (proposal_as_dict p) w = (Inr (pr_norm p), w)"
proof -
  have "nonempty (pr_executed p) = (let a = (case pr_executed p of None \<Rightarrow> [] | Some d \<Rightarrow> d) in if a = [] then None else Some a)"
    by (auto simp: nonempty_def split: option.splits)
  then show ?thesis
    using opt_str_opt_json [of "pr_target_team p"] opt_str_opt_json [of "pr_veil_ref p"]
    by (simp add: proposal_from_dict_def proposal_as_dict_def record_defs op_simps pr_norm_def)
qed

lemma pr_norm_simps [simp]:
  "pr_id (pr_norm p) = pr_id p" "pr_tenant (pr_norm p) = pr_tenant p" "pr_status (pr_norm p) = pr_status p"
  "pr_risk (pr_norm p) = pr_risk p" "pr_agent (pr_norm p) = pr_agent p" "pr_expires_at (pr_norm p) = pr_expires_at p"
  "pr_required (pr_norm p) = pr_required p" "pr_mode (pr_norm p) = pr_mode p" "pr_action_type (pr_norm p) = pr_action_type p"
  "pr_norm (pr_norm p) = pr_norm p"
  by (simp_all add: pr_norm_def)

section \<open>Votes\<close>

record vote =
  vt_proposal :: string
  vt_tenant :: string
  vt_agent :: string
  vt_role :: string
  vt_vote :: string
  vt_weight :: int
  vt_reason :: string
  vt_id :: string
  vt_created_at :: datetime

definition vote_as_dict :: "vote \<Rightarrow> obj" where
  "vote_as_dict v = [
     (''vote_id'', JStr (vt_id v)),
     (''proposal_id'', JStr (vt_proposal v)),
     (''tenant_id'', JStr (vt_tenant v)),
     (''voter_agent_id'', JStr (vt_agent v)),
     (''voter_role'', JStr (vt_role v)),
     (''vote'', JStr (vt_vote v)),
     (''weight'', JInt (vt_weight v)),
     (''reason'', JStr (vt_reason v)),
     (''created_at'', JStr (isoformat (vt_created_at v)))]"

definition vote_from_dict :: "obj \<Rightarrow> ('z world_scheme, vote) op" where
  "vote_from_dict d =
     bind (lift (req_str d ''vote_id'')) (\<lambda>i.
     bind (lift (req_str d ''proposal_id'')) (\<lambda>pid.
     bind (lift (req_str d ''tenant_id'')) (\<lambda>tid.
     bind (lift (req_str d ''voter_agent_id'')) (\<lambda>ag.
     bind (lift (req_str d ''voter_role'')) (\<lambda>ro.
     bind (lift (req_str d ''vote'')) (\<lambda>vt.
     bind (lift (int_or d ''weight'' 1)) (\<lambda>wt.
     bind (time_or_now d ''created_at'') (\<lambda>ca.
     ok \<lparr>vt_proposal = pid, vt_tenant = tid, vt_agent = ag, vt_role = ro, vt_vote = vt, vt_weight = wt,
         vt_reason = str_or d ''reason'' [], vt_id = i, vt_created_at = ca\<rparr>))))))))"

lemma vote_round_trip [simp]: "vote_from_dict (vote_as_dict v) w = (Inr v, w)"
  by (simp add: vote_from_dict_def vote_as_dict_def record_defs op_simps)

section \<open>Human approvals\<close>

record human_approval =
  ha_proposal :: string
  ha_tenant :: string
  ha_reviewer :: string
  ha_status :: string
  ha_reason :: string
  ha_id :: string
  ha_created_at :: datetime
  ha_expires_at :: datetime
  ha_resolved_at :: "datetime option"

definition ha_expired :: "human_approval \<Rightarrow> ('z world_scheme, bool) op" where
  "ha_expired a = bind utc_now (\<lambda>now. ok (now > ha_expires_at a))"

definition approval_as_dict :: "human_approval \<Rightarrow> obj" where
  "approval_as_dict a = [
     (''approval_id'', JStr (ha_id a)),
     (''proposal_id'', JStr (ha_proposal a)),
     (''tenant_id'', JStr (ha_tenant a)),
     (''assigned_reviewer'', JStr (ha_reviewer a)),
     (''status'', JStr (ha_status a)),
     (''reason'', JStr (ha_reason a)),
     (''created_at'', JStr (isoformat (ha_created_at a))),
     (''expires_at'', JStr (isoformat (ha_expires_at a))),
     (''resolved_at'', time_json (ha_resolved_at a))]"

definition approval_from_dict :: "obj \<Rightarrow> ('z world_scheme, human_approval) op" where
  "approval_from_dict d =
     bind (lift (req_str d ''approval_id'')) (\<lambda>i.
     bind (lift (req_str d ''proposal_id'')) (\<lambda>pid.
     bind (lift (req_str d ''tenant_id'')) (\<lambda>tid.
     bind (time_or_now d ''created_at'') (\<lambda>ca.
     bind (time_or_now d ''expires_at'') (\<lambda>ea.
     bind (lift (opt_time d ''resolved_at'')) (\<lambda>ra.
     ok \<lparr>ha_proposal = pid, ha_tenant = tid, ha_reviewer = str_or d ''assigned_reviewer'' [],
         ha_status = str_or d ''status'' ''pending'', ha_reason = str_or d ''reason'' [], ha_id = i,
         ha_created_at = ca, ha_expires_at = ea, ha_resolved_at = ra\<rparr>))))))"

lemma approval_round_trip [simp]: "approval_from_dict (approval_as_dict a) w = (Inr a, w)"
  by (cases "ha_resolved_at a") (simp_all add: approval_from_dict_def approval_as_dict_def record_defs op_simps)

section \<open>Decision records\<close>

record decision =
  dr_proposal :: string
  dr_tenant :: string
  dr_summary :: obj
  dr_voters :: "string list"
  dr_votes :: "obj list"
  dr_consensus :: obj
  dr_approvals :: "obj list"
  dr_executed :: obj
  dr_risk :: obj
  dr_audit_refs :: "string list"
  dr_event_ids :: "string list"
  dr_final_status :: string
  dr_id :: string
  dr_created_at :: datetime

definition decision_as_dict :: "decision \<Rightarrow> obj" where
  "decision_as_dict r = [
     (''decision_record_id'', JStr (dr_id r)),
     (''proposal_id'', JStr (dr_proposal r)),
     (''tenant_id'', JStr (dr_tenant r)),
     (''proposal_summary'', JObj (dr_summary r)),
     (''voters'', strs (dr_voters r)),
     (''votes'', JList (map JObj (dr_votes r))),
     (''consensus_result'', JObj (dr_consensus r)),
     (''human_approvals'', JList (map JObj (dr_approvals r))),
     (''executed_action'', JObj (dr_executed r)),
     (''risk_summary'', JObj (dr_risk r)),
     (''veil_audit_refs'', strs (dr_audit_refs r)),
     (''event_ids'', strs (dr_event_ids r)),
     (''final_status'', JStr (dr_final_status r)),
     (''created_at'', JStr (isoformat (dr_created_at r)))]"

definition decision_from_dict :: "obj \<Rightarrow> ('z world_scheme, decision) op" where
  "decision_from_dict d =
     bind (lift (req_str d ''decision_record_id'')) (\<lambda>i.
     bind (lift (req_str d ''proposal_id'')) (\<lambda>pid.
     bind (lift (req_str d ''tenant_id'')) (\<lambda>tid.
     bind (lift (dict_or d ''proposal_summary'')) (\<lambda>sm.
     bind (lift (strs_or d ''voters'' [])) (\<lambda>vs.
     bind (lift (dicts_or d ''votes'')) (\<lambda>vts.
     bind (lift (dict_or d ''consensus_result'')) (\<lambda>cr.
     bind (lift (dicts_or d ''human_approvals'')) (\<lambda>ha.
     bind (lift (dict_or d ''executed_action'')) (\<lambda>ea.
     bind (lift (dict_or d ''risk_summary'')) (\<lambda>rs.
     bind (lift (strs_or d ''veil_audit_refs'' [])) (\<lambda>ar.
     bind (lift (strs_or d ''event_ids'' [])) (\<lambda>ei.
     bind (time_or_now d ''created_at'') (\<lambda>ca.
     ok \<lparr>dr_proposal = pid, dr_tenant = tid, dr_summary = sm, dr_voters = vs, dr_votes = vts, dr_consensus = cr,
         dr_approvals = ha, dr_executed = ea, dr_risk = rs, dr_audit_refs = ar, dr_event_ids = ei,
         dr_final_status = str_or d ''final_status'' [], dr_id = i, dr_created_at = ca\<rparr>)))))))))))))"

lemma decision_round_trip [simp]: "decision_from_dict (decision_as_dict r) w = (Inr r, w)"
  by (simp add: decision_from_dict_def decision_as_dict_def record_defs op_simps)

definition decision_build ::
    "proposal \<Rightarrow> vote list \<Rightarrow> obj \<Rightarrow> obj list \<Rightarrow> obj \<Rightarrow> string list \<Rightarrow> string list \<Rightarrow> ('z world_scheme, decision) op" where
  "decision_build p votes consensus approvals action audit_refs event_ids =
     bind uuid_hex12 (\<lambda>hex.
     bind utc_now (\<lambda>now.
     ok \<lparr>dr_proposal = pr_id p, dr_tenant = pr_tenant p,
         dr_summary = [(''action_type'', JStr (pr_action_type p)), (''risk_level'', JStr (pr_risk p)),
           (''target_org_id'', JStr (pr_target_org p)), (''target_team_id'', opt_json (pr_target_team p)),
           (''veil_trust_metadata_ref'', opt_json (pr_veil_ref p))],
         dr_voters = map vt_agent votes,
         dr_votes = map (\<lambda>v. [(''voter_agent_id'', JStr (vt_agent v)), (''voter_role'', JStr (vt_role v)),
           (''vote'', JStr (vt_vote v)), (''weight'', JInt (vt_weight v))]) votes,
         dr_consensus = consensus, dr_approvals = approvals, dr_executed = action,
         dr_risk = [(''risk_level'', JStr (pr_risk p)), (''raw_sensitive_values_persisted'', JBool False)],
         dr_audit_refs = audit_refs, dr_event_ids = event_ids, dr_final_status = pr_status p,
         dr_id = ''decision-'' @ hex, dr_created_at = now\<rparr>))"

section \<open>Policies\<close>

record governance_policy =
  gp_id :: string
  gp_tenant :: string
  gp_organization :: string
  gp_max_risk :: string
  gp_human_risks :: "string list"
  gp_security_actions :: "string list"
  gp_compliance_actions :: "string list"
  gp_self_approval :: bool

definition risk_order :: "string \<Rightarrow> int option" where
  "risk_order = map_of [(''low'', 1), (''medium'', 2), (''high'', 3), (''critical'', 4)]"

definition requires_human :: "governance_policy \<Rightarrow> string \<Rightarrow> bool" where
  "requires_human g risk \<longleftrightarrow> List.member (gp_human_risks g) risk"

definition risk_within_agent_authority :: "governance_policy \<Rightarrow> string \<Rightarrow> bool" where
  "risk_within_agent_authority g risk \<longleftrightarrow>
     (case risk_order risk of None \<Rightarrow> 99 | Some n \<Rightarrow> n) \<le> (case risk_order (gp_max_risk g) of None \<Rightarrow> 0 | Some n \<Rightarrow> n)"

definition policy_as_dict :: "governance_policy \<Rightarrow> obj" where
  "policy_as_dict g = [
     (''policy_id'', JStr (gp_id g)),
     (''tenant_id'', JStr (gp_tenant g)),
     (''organization_id'', JStr (gp_organization g)),
     (''max_agent_authority_risk'', JStr (gp_max_risk g)),
     (''human_required_risks'', strs (gp_human_risks g)),
     (''security_required_actions'', strs (gp_security_actions g)),
     (''compliance_required_actions'', strs (gp_compliance_actions g)),
     (''high_risk_self_approval_allowed'', JBool (gp_self_approval g))]"

definition policy_from_dict :: "obj \<Rightarrow> ('s, governance_policy) op" where
  "policy_from_dict d =
     bind (lift (req_str d ''policy_id'')) (\<lambda>i.
     bind (lift (req_str d ''tenant_id'')) (\<lambda>tid.
     bind (lift (req_str d ''organization_id'')) (\<lambda>orgn.
     bind (lift (strs_or d ''human_required_risks'' [''high'', ''critical''])) (\<lambda>hr.
     bind (lift (strs_or d ''security_required_actions'' [])) (\<lambda>sa.
     bind (lift (strs_or d ''compliance_required_actions'' [])) (\<lambda>ca.
     ok \<lparr>gp_id = i, gp_tenant = tid, gp_organization = orgn, gp_max_risk = str_or d ''max_agent_authority_risk'' ''medium'',
         gp_human_risks = hr, gp_security_actions = sa, gp_compliance_actions = ca,
         gp_self_approval = bool_or d ''high_risk_self_approval_allowed'' False\<rparr>))))))"

lemma policy_round_trip [simp]: "policy_from_dict (policy_as_dict g) w = (Inr g, w)"
  by (simp add: policy_from_dict_def policy_as_dict_def record_defs op_simps)

text \<open>An unknown risk level is above every authority, and an unknown authority is below every risk.\<close>

lemma unknown_risk_refused: "risk_order risk = None \<Longrightarrow> \<not> risk_within_agent_authority g risk"
  by (auto simp: risk_within_agent_authority_def risk_order_def split: option.splits if_splits)

end
