(* ===== verification/Tenancy.thy ===== *)
theory Tenancy
  imports Documents
begin

text \<open>
  Tenants (\<^verbatim>\<open>agentfabric/enterprise\<close>), quotas (\<^verbatim>\<open>agentfabric/quotas\<close>) and usage metering
  (\<^verbatim>\<open>agentfabric/metering\<close>). The quota counters are kept in memory, so they extend the world.
\<close>

section \<open>The tenant context and isolation\<close>

record tenant_context =
  tc_tenant :: string
  tc_organization :: string
  tc_principal :: string
  tc_roles :: "string list"
  tc_global_admin :: bool

definition tc_require :: "tenant_context \<Rightarrow> ('s, tenant_context) op" where
  "tc_require c = (if tc_tenant c = [] \<or> tc_organization c = [] \<or> tc_principal c = []
     then raise (PermissionError ''tenant context is required'') else ok c)"

definition tc_as_metadata :: "tenant_context \<Rightarrow> obj" where
  "tc_as_metadata c = [(''tenant_id'', JStr (tc_tenant c)), (''organization_id'', JStr (tc_organization c)),
     (''created_by'', JStr (tc_principal c))]"

definition require_context :: "tenant_context option \<Rightarrow> ('s, tenant_context) op" where
  "require_context c = (case c of
     None \<Rightarrow> raise (AuthorizationError ''tenant context is required'')
   | Some x \<Rightarrow> catch (tc_require x) (\<lambda>e. case e of
       PermissionError m \<Rightarrow> raise (AuthorizationError m)
     | _ \<Rightarrow> raise e))"

definition assert_tenant :: "tenant_context option \<Rightarrow> obj \<Rightarrow> ('s, unit) op" where
  "assert_tenant c d =
     bind (require_context c) (\<lambda>ctx.
     let t = get_or d ''tenant_id'' JNull in
     if t = JNull then raise (AuthorizationError ''tenant-scoped object is missing tenant_id'')
     else if t \<noteq> JStr (tc_tenant ctx) \<and> \<not> tc_global_admin ctx
     then raise (AuthorizationError ''cross-tenant access denied'')
     else ok ())"

definition scoped_metadata :: "tenant_context option \<Rightarrow> ('s, obj) op" where
  "scoped_metadata c = bind (require_context c) (\<lambda>ctx. ok (tc_as_metadata ctx))"

section \<open>Tenants\<close>

record tenant =
  tn_id :: string
  tn_organization :: string
  tn_name :: string
  tn_created_by :: string
  tn_plan :: string
  tn_created_at :: datetime
  tn_updated_at :: datetime

definition tenant_as_dict :: "tenant \<Rightarrow> obj" where
  "tenant_as_dict t = [
     (''tenant_id'', JStr (tn_id t)),
     (''organization_id'', JStr (tn_organization t)),
     (''name'', JStr (tn_name t)),
     (''billing_plan'', JStr (tn_plan t)),
     (''created_by'', JStr (tn_created_by t)),
     (''created_at'', JStr (isoformat (tn_created_at t))),
     (''updated_at'', JStr (isoformat (tn_updated_at t)))]"

definition tenant_from_dict :: "obj \<Rightarrow> ('s, tenant) op" where
  "tenant_from_dict d =
     bind (lift (req_str d ''tenant_id'')) (\<lambda>tid.
     bind (lift (req_str d ''organization_id'')) (\<lambda>orgn.
     bind (lift (req_str d ''name'')) (\<lambda>nm.
     bind (lift (req_str d ''created_by'')) (\<lambda>cb.
     bind (lift (req_time d ''created_at'')) (\<lambda>ca.
     bind (lift (req_time d ''updated_at'')) (\<lambda>ua.
     ok \<lparr>tn_id = tid, tn_organization = orgn, tn_name = nm, tn_created_by = cb,
         tn_plan = str_or d ''billing_plan'' ''dev'', tn_created_at = ca, tn_updated_at = ua\<rparr>))))))"

lemma tenant_round_trip [simp]: "tenant_from_dict (tenant_as_dict t) w = (Inr t, w)"
  by (simp add: tenant_from_dict_def tenant_as_dict_def record_defs req_time_def op_simps)

definition create_tenant :: "string \<Rightarrow> string \<Rightarrow> string \<Rightarrow> string \<Rightarrow> string \<Rightarrow> ('z world_scheme, tenant) op" where
  "create_tenant tid orgn nm by plan =
     bind (on_store (mem_get ''tenants'' tid)) (\<lambda>old.
     if old \<noteq> None then raise (ValueError ''tenant already exists'')
     else
       bind utc_now (\<lambda>ca.
       bind utc_now (\<lambda>ua.
       let t = \<lparr>tn_id = tid, tn_organization = orgn, tn_name = nm, tn_created_by = by, tn_plan = plan,
                tn_created_at = ca, tn_updated_at = ua\<rparr>
       in bind (on_store (mem_put ''tenants'' tid (tenant_as_dict t))) (\<lambda>_. ok t))))"

definition get_tenant :: "string \<Rightarrow> ('z world_scheme, tenant option) op" where
  "get_tenant tid =
     bind (on_store (mem_get ''tenants'' tid)) (\<lambda>item. case item of
       None \<Rightarrow> ok None
     | Some d \<Rightarrow> if d = [] then ok None else bind (tenant_from_dict d) (\<lambda>t. ok (Some t)))"

definition list_for_principal :: "string \<Rightarrow> bool \<Rightarrow> ('z world_scheme, tenant list) op" where
  "list_for_principal tid global_admin =
     bind (if global_admin then on_store (mem_list ''tenants'') else on_store (mem_list_tenant ''tenants'' tid)) (\<lambda>items.
     bind (if items \<noteq> [] then ok items
           else bind (get_tenant tid) (\<lambda>t.
             if t = None then ok items
             else bind (on_store (mem_get ''tenants'' tid)) (\<lambda>item. case item of
               None \<Rightarrow> ok []
             | Some d \<Rightarrow> ok (if d = [] then [] else [d])))) (\<lambda>ds.
     mapM tenant_from_dict ds))"

definition update_billing_plan :: "string \<Rightarrow> string \<Rightarrow> ('z world_scheme, tenant) op" where
  "update_billing_plan tid plan =
     bind (get_tenant tid) (\<lambda>t. case t of
       None \<Rightarrow> raise (KeyError ''tenant not found'')
     | Some t \<Rightarrow>
         bind utc_now (\<lambda>now.
         let t' = t\<lparr>tn_plan := plan, tn_updated_at := now\<rparr>
         in bind (on_store (mem_put ''tenants'' tid (tenant_as_dict t'))) (\<lambda>_. ok t')))"

section \<open>Organizations and teams\<close>

record organization =
  on_id :: string
  on_name :: string
  on_created_by :: string
  on_created_at :: datetime
  on_updated_at :: datetime

definition organization_as_dict :: "organization \<Rightarrow> obj" where
  "organization_as_dict r = [
     (''organization_id'', JStr (on_id r)),
     (''name'', JStr (on_name r)),
     (''created_by'', JStr (on_created_by r)),
     (''created_at'', JStr (isoformat (on_created_at r))),
     (''updated_at'', JStr (isoformat (on_updated_at r)))]"

record team =
  tm_id :: string
  tm_tenant :: string
  tm_organization :: string
  tm_name :: string
  tm_created_by :: string
  tm_created_at :: datetime
  tm_updated_at :: datetime

definition tm_as_dict :: "team \<Rightarrow> obj" where
  "tm_as_dict t = [
     (''team_id'', JStr (tm_id t)),
     (''tenant_id'', JStr (tm_tenant t)),
     (''organization_id'', JStr (tm_organization t)),
     (''name'', JStr (tm_name t)),
     (''created_by'', JStr (tm_created_by t)),
     (''created_at'', JStr (isoformat (tm_created_at t))),
     (''updated_at'', JStr (isoformat (tm_updated_at t)))]"

definition tm_from_dict :: "obj \<Rightarrow> ('s, team) op" where
  "tm_from_dict d =
     bind (lift (req_str d ''team_id'')) (\<lambda>i.
     bind (lift (req_str d ''tenant_id'')) (\<lambda>tid.
     bind (lift (req_str d ''organization_id'')) (\<lambda>orgn.
     bind (lift (req_str d ''name'')) (\<lambda>nm.
     bind (lift (req_str d ''created_by'')) (\<lambda>cb.
     bind (lift (req_time d ''created_at'')) (\<lambda>ca.
     bind (lift (req_time d ''updated_at'')) (\<lambda>ua.
     ok \<lparr>tm_id = i, tm_tenant = tid, tm_organization = orgn, tm_name = nm, tm_created_by = cb,
         tm_created_at = ca, tm_updated_at = ua\<rparr>)))))))"

lemma tm_round_trip [simp]: "tm_from_dict (tm_as_dict t) w = (Inr t, w)"
  by (simp add: tm_from_dict_def tm_as_dict_def record_defs req_time_def op_simps)

section \<open>Memberships\<close>

record membership =
  mb_principal :: string
  mb_tenant :: string
  mb_organization :: string
  mb_role :: string
  mb_type :: string
  mb_created_by :: string
  mb_team :: "string option"
  mb_created_at :: datetime
  mb_updated_at :: datetime

definition membership_key :: "string \<Rightarrow> string \<Rightarrow> string" where
  "membership_key tid pid = tid @ '':'' @ pid"

definition membership_as_dict :: "membership \<Rightarrow> obj" where
  "membership_as_dict m = [
     (''membership_id'', JStr (membership_key (mb_tenant m) (mb_principal m))),
     (''principal_id'', JStr (mb_principal m)),
     (''tenant_id'', JStr (mb_tenant m)),
     (''organization_id'', JStr (mb_organization m)),
     (''role'', JStr (mb_role m)),
     (''member_type'', JStr (mb_type m)),
     (''team_id'', opt_json (mb_team m)),
     (''created_by'', JStr (mb_created_by m)),
     (''created_at'', JStr (isoformat (mb_created_at m))),
     (''updated_at'', JStr (isoformat (mb_updated_at m)))]"

definition membership_from_dict :: "obj \<Rightarrow> ('s, membership) op" where
  "membership_from_dict d =
     bind (lift (req_str d ''principal_id'')) (\<lambda>pid.
     bind (lift (req_str d ''tenant_id'')) (\<lambda>tid.
     bind (lift (req_str d ''organization_id'')) (\<lambda>orgn.
     bind (lift (req_str d ''role'')) (\<lambda>ro.
     bind (lift (req_str d ''created_by'')) (\<lambda>cb.
     bind (lift (req_time d ''created_at'')) (\<lambda>ca.
     bind (lift (req_time d ''updated_at'')) (\<lambda>ua.
     ok \<lparr>mb_principal = pid, mb_tenant = tid, mb_organization = orgn, mb_role = ro,
         mb_type = str_or d ''member_type'' ''user'', mb_created_by = cb, mb_team = opt_str d ''team_id'',
         mb_created_at = ca, mb_updated_at = ua\<rparr>)))))))"

lemma membership_round_trip [simp]:
  "membership_from_dict (membership_as_dict m) w = (Inr (m\<lparr>mb_team := nonempty (mb_team m)\<rparr>), w)"
  using opt_str_opt_json [of "mb_team m"]
  by (simp add: membership_from_dict_def membership_as_dict_def record_defs req_time_def op_simps)

definition add_membership :: "membership \<Rightarrow> string \<Rightarrow> string \<Rightarrow> ('z world_scheme, membership) op" where
  "add_membership m actor_type actor_role =
     (if actor_type = ''service_account'' \<and> List.member [''owner'', ''admin''] (mb_role m)
      then raise (PermissionError ''service accounts cannot escalate roles'')
      else if \<not> List.member [''owner'', ''admin''] actor_role
      then raise (PermissionError ''insufficient tenant role'')
      else bind (on_store (mem_put ''memberships'' (membership_key (mb_tenant m) (mb_principal m)) (membership_as_dict m))) (\<lambda>_.
           ok m))"

definition list_memberships :: "string \<Rightarrow> ('z world_scheme, membership list) op" where
  "list_memberships tid = bind (on_store (mem_list_tenant ''memberships'' tid)) (mapM membership_from_dict)"

definition get_membership :: "string \<Rightarrow> string \<Rightarrow> ('z world_scheme, membership option) op" where
  "get_membership tid pid =
     bind (on_store (mem_get ''memberships'' (membership_key tid pid))) (\<lambda>item. case item of
       None \<Rightarrow> ok None
     | Some d \<Rightarrow> if d = [] then ok None else bind (membership_from_dict d) (\<lambda>m. ok (Some m)))"

section \<open>Quotas\<close>

record quota_policy =
  qp_agents_per_tenant :: int
  qp_workflow_runs_per_day :: int
  qp_concurrent_workflows :: int
  qp_mesh_messages_per_minute :: int
  qp_memory_records :: int
  qp_event_retention :: int
  qp_marketplace_installs :: int
  qp_api_calls :: int
  qp_storage_bytes :: int
  qp_compute_seconds :: int

definition quota_default :: quota_policy where
  "quota_default = \<lparr>qp_agents_per_tenant = 10, qp_workflow_runs_per_day = 100, qp_concurrent_workflows = 5,
     qp_mesh_messages_per_minute = 1000, qp_memory_records = 1000, qp_event_retention = 100000,
     qp_marketplace_installs = 100, qp_api_calls = 10000, qp_storage_bytes = 10000000, qp_compute_seconds = 3600\<rparr>"

definition quota_as_dict :: "quota_policy \<Rightarrow> int dict" where
  "quota_as_dict p = [
     (''agents_per_tenant'', qp_agents_per_tenant p),
     (''workflow_runs_per_day'', qp_workflow_runs_per_day p),
     (''concurrent_workflows'', qp_concurrent_workflows p),
     (''mesh_messages_per_minute'', qp_mesh_messages_per_minute p),
     (''memory_records'', qp_memory_records p),
     (''event_retention'', qp_event_retention p),
     (''marketplace_installs'', qp_marketplace_installs p),
     (''api_calls'', qp_api_calls p),
     (''storage_bytes'', qp_storage_bytes p),
     (''compute_seconds'', qp_compute_seconds p)]"

definition quota_field :: "int dict \<Rightarrow> string \<Rightarrow> int" where
  "quota_field d k = (case map_of d k of None \<Rightarrow> 0 | Some n \<Rightarrow> n)"

definition quota_of_dict :: "int dict \<Rightarrow> quota_policy" where
  "quota_of_dict d = \<lparr>qp_agents_per_tenant = quota_field d ''agents_per_tenant'',
     qp_workflow_runs_per_day = quota_field d ''workflow_runs_per_day'',
     qp_concurrent_workflows = quota_field d ''concurrent_workflows'',
     qp_mesh_messages_per_minute = quota_field d ''mesh_messages_per_minute'',
     qp_memory_records = quota_field d ''memory_records'', qp_event_retention = quota_field d ''event_retention'',
     qp_marketplace_installs = quota_field d ''marketplace_installs'', qp_api_calls = quota_field d ''api_calls'',
     qp_storage_bytes = quota_field d ''storage_bytes'', qp_compute_seconds = quota_field d ''compute_seconds''\<rparr>"

definition quota_from_dict :: "obj \<Rightarrow> quota_policy result" where
  "quota_from_dict value =
     (let defaults = quota_as_dict quota_default in
      case map_result (\<lambda>(k, v). case py_int v of Inl e \<Rightarrow> Inl e | Inr n \<Rightarrow> Inr (k, n))
             (filter (\<lambda>(k, v). map_of defaults k \<noteq> None) value) of
        Inl e \<Rightarrow> Inl e
      | Inr kvs \<Rightarrow> Inr (quota_of_dict (foldl (\<lambda>d (k, n). AList.update k n d) defaults kvs)))"

text \<open>\<^verbatim>\<open>getattr(policy, counter)\<close> for the names of the policy's fields; other names are refused.\<close>

definition quota_limit :: "quota_policy \<Rightarrow> string \<Rightarrow> int result" where
  "quota_limit p c = (case map_of (quota_as_dict p) c of
     None \<Rightarrow> Inl (AttributeError c) | Some n \<Rightarrow> Inr n)"

record tworld = world +
  w_usage :: "int dict dict"

definition tracker_usage :: "string \<Rightarrow> ('z tworld_scheme, int dict) op" where
  "tracker_usage t =
     bind (modify (\<lambda>w. w\<lparr>w_usage := setdefault t [] (w_usage w)\<rparr>)) (\<lambda>_.
     gets (\<lambda>w. case map_of (w_usage w) t of None \<Rightarrow> [] | Some d \<Rightarrow> d))"

definition usage_get :: "int dict \<Rightarrow> string \<Rightarrow> int" where
  "usage_get d c = (case map_of d c of None \<Rightarrow> 0 | Some n \<Rightarrow> n)"

definition usage_increment :: "string \<Rightarrow> int \<Rightarrow> int dict \<Rightarrow> int dict" where
  "usage_increment c amount d = AList.update c (usage_get d c + amount) d"

definition tracker_increment :: "string \<Rightarrow> string \<Rightarrow> int \<Rightarrow> ('z tworld_scheme, int) op" where
  "tracker_increment t c amount =
     bind (tracker_usage t) (\<lambda>d.
     let d' = usage_increment c amount d in
     bind (modify (\<lambda>w. w\<lparr>w_usage := AList.update t d' (w_usage w)\<rparr>)) (\<lambda>_. ok (usage_get d' c)))"

definition quota_check :: "string \<Rightarrow> quota_policy \<Rightarrow> string \<Rightarrow> int \<Rightarrow> ('z tworld_scheme, unit) op" where
  "quota_check t p c amount =
     bind (lift (quota_limit p c)) (\<lambda>limit.
     bind (tracker_usage t) (\<lambda>d.
     if usage_get d c + amount > limit then raise (ConflictError (''quota exceeded: '' @ c)) else ok ()))"

definition quota_consume :: "string \<Rightarrow> quota_policy \<Rightarrow> string \<Rightarrow> int \<Rightarrow> ('z tworld_scheme, int) op" where
  "quota_consume t p c amount = bind (quota_check t p c amount) (\<lambda>_. tracker_increment t c amount)"

section \<open>Metering\<close>

record usage_event =
  us_tenant :: string
  us_type :: string
  us_quantity :: int
  us_metadata :: obj
  us_id :: string
  us_time :: datetime

definition usage_as_dict :: "usage_event \<Rightarrow> obj" where
  "usage_as_dict u = [
     (''usage_id'', JStr (us_id u)),
     (''tenant_id'', JStr (us_tenant u)),
     (''event_type'', JStr (us_type u)),
     (''quantity'', JInt (us_quantity u)),
     (''metadata'', JObj (us_metadata u)),
     (''timestamp'', JStr (isoformat (us_time u)))]"

definition usage_from_dict :: "obj \<Rightarrow> ('s, usage_event) op" where
  "usage_from_dict d =
     bind (lift (req_str d ''usage_id'')) (\<lambda>i.
     bind (lift (req_str d ''tenant_id'')) (\<lambda>tid.
     bind (lift (req_str d ''event_type'')) (\<lambda>ty.
     bind (lift (int_or d ''quantity'' 1)) (\<lambda>q.
     bind (lift (dict_or d ''metadata'')) (\<lambda>md.
     bind (lift (req_time d ''timestamp'')) (\<lambda>ts.
     ok \<lparr>us_tenant = tid, us_type = ty, us_quantity = q, us_metadata = md, us_id = i, us_time = ts\<rparr>))))))"

lemma usage_round_trip [simp]: "usage_from_dict (usage_as_dict u) w = (Inr u, w)"
  by (simp add: usage_from_dict_def usage_as_dict_def record_defs req_time_def op_simps)

definition meter_record :: "string \<Rightarrow> string \<Rightarrow> int \<Rightarrow> obj \<Rightarrow> ('z world_scheme, usage_event) op" where
  "meter_record t ty q md =
     bind uuid_hex12 (\<lambda>hex.
     bind utc_now (\<lambda>now.
     let u = \<lparr>us_tenant = t, us_type = ty, us_quantity = q, us_metadata = md, us_id = ''use-'' @ hex, us_time = now\<rparr>
     in bind (on_store (mem_put ''usage_events'' (us_id u) (usage_as_dict u))) (\<lambda>_. ok u)))"

definition meter_list :: "string \<Rightarrow> ('z world_scheme, usage_event list) op" where
  "meter_list t = bind (on_store (mem_list_tenant ''usage_events'' t)) (mapM usage_from_dict)"

definition aggregate_usage :: "usage_event list \<Rightarrow> int dict" where
  "aggregate_usage us = foldl (\<lambda>d u. usage_increment (us_type u) (us_quantity u) d) [] us"

definition meter_aggregate :: "string \<Rightarrow> ('z world_scheme, int dict) op" where
  "meter_aggregate t = bind (meter_list t) (\<lambda>us. ok (aggregate_usage us))"

definition usage_type_of :: "string \<Rightarrow> string option" where
  "usage_type_of = map_of [(''workflow.started'', ''workflow_runs''), (''task.completed'', ''task_executions''),
     (''task.failed'', ''task_executions''), (''message'', ''message_sends''), (''memory.recorded'', ''memory_writes''),
     (''memory.deleted'', ''memory_deletes'')]"

definition reconstruct_from_events :: "string \<Rightarrow> ('z world_scheme, int dict) op" where
  "reconstruct_from_events t =
     bind (es_replay None) (\<lambda>es.
     ok (foldl (\<lambda>d e. if map_of (ev_payload e) ''tenant_id'' \<noteq> Some (JStr t) then d
           else case usage_type_of (ev_type e) of None \<Rightarrow> d | Some u \<Rightarrow> usage_increment u 1 d) [] es))"

section \<open>Lemmas\<close>

lemma usage_get_increment: "usage_get (usage_increment c n d) c' = (if c' = c then usage_get d c + n else usage_get d c')"
  by (simp add: usage_get_def usage_increment_def)

definition used :: "'z tworld_scheme \<Rightarrow> string \<Rightarrow> string \<Rightarrow> int" where
  "used w t c = usage_get (case map_of (w_usage w) t of None \<Rightarrow> [] | Some d \<Rightarrow> d) c"

lemma tracker_usage_apply:
  "tracker_usage t w = (Inr (case map_of (w_usage w) t of None \<Rightarrow> [] | Some d \<Rightarrow> d), w\<lparr>w_usage := setdefault t [] (w_usage w)\<rparr>)"
  by (auto simp: tracker_usage_def op_simps setdefault_def split: option.splits)

lemma used_setdefault [simp]: "used (w\<lparr>w_usage := setdefault t [] (w_usage w)\<rparr>) t' c = used w t' c"
  by (auto simp: used_def setdefault_def usage_get_def split: option.splits)

lemma setdefault_twice: "setdefault t [] (setdefault t [] d) = setdefault t [] d"
  by (auto simp: setdefault_def split: option.splits)

lemma quota_consume_cases:
  "quota_consume t p c n w =
     (case quota_limit p c of
        Inl e \<Rightarrow> (Inl e, w)
      | Inr limit \<Rightarrow>
          if used w t c + n > limit
          then (Inl (ConflictError (''quota exceeded: '' @ c)), w\<lparr>w_usage := setdefault t [] (w_usage w)\<rparr>)
          else (Inr (used w t c + n), snd (tracker_increment t c n (w\<lparr>w_usage := setdefault t [] (w_usage w)\<rparr>))))"
proof (cases "quota_limit p c")
  case (Inr limit)
  have "fst (tracker_increment t c n (w\<lparr>w_usage := setdefault t [] (w_usage w)\<rparr>)) = Inr (used w t c + n)"
    using used_setdefault [where w = w and t = t and t' = t and c = c]
    by (simp add: tracker_increment_def bind_apply tracker_usage_apply Let_def modify_apply ok_apply usage_get_increment used_def)
  then show ?thesis
    using Inr by (auto simp: quota_consume_def quota_check_def bind_apply tracker_usage_apply raise_apply ok_apply lift_apply
        used_def prod_eq_iff)
qed (simp add: quota_consume_def quota_check_def op_simps)

lemma used_increment:
  "used (snd (tracker_increment t c n w)) t' c' = (if t' = t \<and> c' = c then used w t c + n else used w t' c')"
  by (auto simp: tracker_increment_def bind_apply tracker_usage_apply Let_def modify_apply ok_apply used_def
      setdefault_def usage_get_increment usage_get_def [of "[]"] split: option.splits)

lemma used_consume:
  "used (final (quota_consume t p c n) w) t' c' =
     (if t' = t \<and> c' = c \<and> outcome (quota_consume t p c n) w = Inr (used w t c + n) then used w t c + n else used w t' c')"
  by (auto simp: quota_consume_cases used_increment split: sum.splits)

lemma audit_usage: "audit.steps (modify (\<lambda>w. w\<lparr>w_usage := f w\<rparr>))"
  by (auto simp: audit.steps_def modify_apply intro!: audit_local)

lemma audit_quota_consume [audit_steps]: "audit.steps (quota_consume t p c n)"
  unfolding quota_consume_def quota_check_def tracker_increment_def tracker_usage_def Let_def
  by (intro audit.steps_intros audit_usage)

lemma audit_meter_record [audit_steps]: "audit.steps (meter_record t ty q md)"
  unfolding meter_record_def Let_def by (intro audit.steps_intros audit_steps) simp

section \<open>Properties\<close>

text \<open>
  Access across tenants fails closed: the check passes exactly when the context names a tenant,
  an organization and a principal, the object carries a tenant, and that tenant is the context's
  own or the caller is a global admin; every other call raises \<^verbatim>\<open>AuthorizationError\<close>.
\<close>

theorem assert_tenant_fail_closed:
  "(fst (assert_tenant c d w) = Inr () \<longleftrightarrow>
     (\<exists>x t. c = Some x \<and> tc_tenant x \<noteq> [] \<and> tc_organization x \<noteq> [] \<and> tc_principal x \<noteq> [] \<and>
        get_or d ''tenant_id'' JNull = t \<and> t \<noteq> JNull \<and> (t = JStr (tc_tenant x) \<or> tc_global_admin x))) \<and>
   (fst (assert_tenant c d w) = Inr () \<or> (\<exists>m. fst (assert_tenant c d w) = Inl (AuthorizationError m))) \<and>
   snd (assert_tenant c d w) = w"
  by (cases c) (auto simp: assert_tenant_def require_context_def tc_require_def bind_apply catch_apply
      ok_apply raise_apply Let_def)

definition consume_all :: "quota_policy \<Rightarrow> (string \<times> string \<times> int) list \<Rightarrow> ('z tworld_scheme, unit) op" where
  "consume_all p calls =
     forM (\<lambda>(t, c, n). catch (bind (quota_consume t p c n) (\<lambda>_. ok ())) (\<lambda>_. ok ())) calls"

definition within_quota :: "quota_policy \<Rightarrow> 'z tworld_scheme \<Rightarrow> 'z tworld_scheme \<Rightarrow> bool" where
  "within_quota p w w' \<longleftrightarrow> (\<forall>t c limit. quota_limit p c = Inr limit \<and> used w t c \<le> limit \<longrightarrow> used w' t c \<le> limit)"

interpretation quota: step_contract "within_quota p" for p
  by unfold_locales (auto simp: within_quota_def)

lemma quota_consume_within: "quota.steps p (quota_consume t p c n)"
  unfolding quota.steps_def within_quota_def
  by (auto simp: quota_consume_cases used_increment split: sum.splits)

text \<open>
  C18. A quota is never exceeded: with a policy whose limit for the counter is \<open>limit\<close>, a usage that
  starts within it is within it after any sequence of consumptions of any amounts, allowed and
  refused, by any tenant and of any counter.
\<close>

theorem quota_never_exceeded:
  assumes "quota_limit p c = Inr limit" "used w t c \<le> limit"
  shows "used (final (consume_all p calls) w) t c \<le> limit"
proof -
  have "quota.steps p (consume_all p calls)"
    unfolding consume_all_def by (intro quota.steps_intros quota_consume_within)
  from quota.stepsD [OF this, of w] assms show ?thesis by (auto simp: within_quota_def)
qed

definition tworld0 :: tworld where
  "tworld0 = world.extend world0 (tworld.fields [])"

theorem quota_never_exceeded_witness:
  "used (final (consume_all quota_default [(''t'', ''api_calls'', 9999), (''t'', ''api_calls'', 2), (''t'', ''nope'', 1)]) tworld0) ''t'' ''api_calls'' \<le> 10000"
proof -
  have "quota_limit quota_default ''api_calls'' = Inr 10000" by code_simp
  moreover have "used tworld0 ''t'' ''api_calls'' \<le> 10000"
    by (simp add: used_def tworld0_def world.defs tworld.defs usage_get_def)
  ultimately show ?thesis by (rule quota_never_exceeded)
qed

text \<open>
  \<^verbatim>\<open>consume\<close> on every branch: an unknown counter raises and changes nothing; an amount that would
  pass the limit raises \<^verbatim>\<open>ConflictError\<close> and changes no usage; any other amount is added to the
  counter of that tenant, and to no other, and the new usage is returned.
\<close>

theorem quota_consume_behaviour:
  "quota_consume t p c n w =
     (case quota_limit p c of
        Inl e \<Rightarrow> (Inl e, w)
      | Inr limit \<Rightarrow>
          if used w t c + n > limit then (Inl (ConflictError (''quota exceeded: '' @ c)), final (quota_consume t p c n) w)
          else (Inr (used w t c + n), final (quota_consume t p c n) w)) \<and>
   used (final (quota_consume t p c n) w) t' c' =
     (if t' = t \<and> c' = c \<and> (\<exists>limit. quota_limit p c = Inr limit \<and> used w t c + n \<le> limit) then used w t c + n
      else used w t' c')"
  by (auto simp: quota_consume_cases used_increment split: sum.splits)

text \<open>
  A service account never grants an owner or admin role and only owners and admins add members:
  a membership is stored exactly when the actor's role is owner or admin and the actor is not a
  service account granting one of these roles; otherwise \<^verbatim>\<open>PermissionError\<close> and nothing changes.
\<close>

theorem add_membership_guarded:
  "add_membership m actor_type actor_role w =
     (if actor_type = ''service_account'' \<and> (mb_role m = ''owner'' \<or> mb_role m = ''admin'')
      then (Inl (PermissionError ''service accounts cannot escalate roles''), w)
      else if actor_role \<noteq> ''owner'' \<and> actor_role \<noteq> ''admin'' then (Inl (PermissionError ''insufficient tenant role''), w)
      else (Inr m, w\<lparr>w_store := final (mem_put ''memberships'' (membership_key (mb_tenant m) (mb_principal m)) (membership_as_dict m)) (w_store w)\<rparr>))"
  by (auto simp: add_membership_def raise_apply ok_apply bind_apply on_store_def mem_put_def modify_apply)

text \<open>
  The key of a membership does not separate tenant and principal: after adding a member \<open>c\<close> to the
  tenant \<open>a:b\<close>, asking for the member \<open>b:c\<close> of the tenant \<open>a\<close> gives that member of the other tenant.
\<close>

theorem membership_key_collision:
  assumes "mb_tenant m = a @ '':'' @ b" "mb_principal m = c" "mb_team m = None"
  shows "outcome (bind (add_membership m ''user'' ''admin'') (\<lambda>_. get_membership a (b @ '':'' @ c))) w = Inr (Some m)"
proof -
  have "membership_key a (b @ '':'' @ c) = membership_key (mb_tenant m) (mb_principal m)"
    by (simp add: membership_key_def assms)
  moreover have "membership_as_dict m \<noteq> []" by (simp add: membership_as_dict_def)
  ultimately show ?thesis
    using assms(3)
    by (simp add: add_membership_def get_membership_def bind_apply ok_apply on_store_def mem_put_def mem_get_def
        modify_apply gets_apply setdefault_update coll_update nonempty_def)
qed

theorem membership_key_collision_witness:
  "outcome (bind (add_membership \<lparr>mb_principal = ''c'', mb_tenant = ''a:b'', mb_organization = ''o'', mb_role = ''owner'',
       mb_type = ''user'', mb_created_by = ''u'', mb_team = None, mb_created_at = dt 0, mb_updated_at = dt 0\<rparr> ''user'' ''admin'')
     (\<lambda>_. get_membership ''a'' ''b:c'')) world0 =
   Inr (Some \<lparr>mb_principal = ''c'', mb_tenant = ''a:b'', mb_organization = ''o'', mb_role = ''owner'',
       mb_type = ''user'', mb_created_by = ''u'', mb_team = None, mb_created_at = dt 0, mb_updated_at = dt 0\<rparr>)"
  using membership_key_collision [of "\<lparr>mb_principal = ''c'', mb_tenant = ''a:b'', mb_organization = ''o'', mb_role = ''owner'',
       mb_type = ''user'', mb_created_by = ''u'', mb_team = None, mb_created_at = dt 0, mb_updated_at = dt 0\<rparr>" "''a''" "''b''" "''c''" world0]
  by simp

lemma aggregate_usage_snoc: "aggregate_usage (us @ [u]) = usage_increment (us_type u) (us_quantity u) (aggregate_usage us)"
  by (simp add: aggregate_usage_def)

text \<open>
  The aggregate of a list of usage events gives for every type the sum of the quantities of its
  events, and lists exactly the types that occur.
\<close>

theorem aggregate_usage_sums:
  "usage_get (aggregate_usage us) ty = (\<Sum>u\<leftarrow>filter (\<lambda>u. us_type u = ty) us. us_quantity u) \<and>
   fst ` set (aggregate_usage us) = us_type ` set us"
proof (induction us rule: rev_induct)
  case Nil
  then show ?case by (simp add: aggregate_usage_def usage_get_def)
next
  case (snoc u us)
  have "fst ` set (usage_increment c n d) = insert c (fst ` set d)" for c n d
    by (simp add: usage_increment_def AList.dom_update)
  with snoc show ?case by (auto simp: aggregate_usage_snoc usage_get_increment)
qed

end
