(* ===== verification/Py_Float.thy ===== *)
theory Py_Float
  imports Complex_Main Fabric_Prelude
begin

text \<open>
  Python's division of integers: the exact quotient rounded to the nearest double, ties to even. A
  float is the rational number it stands for. Quotients of integers are all the float arithmetic
  the modelled code does; a quotient too large for a double raises.
\<close>

fun bits :: "nat \<Rightarrow> nat" where
  "bits n = (if n = 0 then 0 else Suc (bits (n div 2)))"

declare bits.simps [simp del]

definition pow2 :: "int \<Rightarrow> rat" where
  "pow2 e = (if 0 \<le> e then 2 ^ nat e else 1 / 2 ^ nat (- e))"

definition half_even :: "rat \<Rightarrow> int" where
  "half_even x = (let f = \<lfloor>x\<rfloor>; r = x - of_int f in
     if r < 1 / 2 then f else if r > 1 / 2 then f + 1 else if even f then f else f + 1)"

text \<open>The exponent \<open>e\<close> with \<open>2^52 \<le> x / 2^e < 2^53\<close>, from the lengths of numerator and denominator.\<close>

definition fl_exp :: "rat \<Rightarrow> int" where
  "fl_exp x = (let (n, d) = quotient_of x; e = int (bits (nat n)) - int (bits (nat d)) - 53
     in max (-1074) (if x / pow2 e < 2 ^ 53 then e else e + 1))"

definition fl :: "rat \<Rightarrow> rat" where
  "fl x = (if x = 0 then 0 else
     let a = \<bar>x\<bar>; e = fl_exp a in sgn x * (of_int (half_even (a / pow2 e)) * pow2 e))"

definition py_truediv :: "int \<Rightarrow> int \<Rightarrow> rat result" where
  "py_truediv a b =
     (if b = 0 then Inl (ZeroDivisionError ''division by zero'')
      else let q = fl (of_int a / of_int b) in
        if \<bar>q\<bar> < 2 ^ 1024 then Inr q else Inl (OverflowError ''integer division result too large for a float''))"

lemma half_even_error: "\<bar>x - of_int (half_even x)\<bar> \<le> 1 / 2"
  unfolding half_even_def Let_def by (simp add: abs_if) linarith

lemma bits_mono: "m \<le> n \<Longrightarrow> bits m \<le> bits n"
proof (induction n arbitrary: m rule: bits.induct)
  case (1 n)
  then show ?case by (cases "m = 0"; cases "n = 0") (simp_all add: bits.simps [of m] bits.simps [of n] bits.simps [of 0] div_le_mono)
qed

text \<open>Below one, the last place is worth at most \<open>2^-53\<close>, so the rounding error is at most half of that.\<close>

lemma fl_exp_below_one:
  assumes "0 < x" "x < 1"
  shows "fl_exp x \<le> - 53"
proof -
  obtain n d where q: "quotient_of x = (n, d)" by fastforce
  have d: "0 < d" "x = of_int n / of_int d" using quotient_of_denom_pos [OF q] quotient_of_div [OF q] by auto
  with assms have "of_int n < (of_int d :: rat)" by (simp add: field_simps)
  then have "nat n \<le> nat d" by simp
  then have "bits (nat n) \<le> bits (nat d)" by (rule bits_mono)
  moreover have "x / pow2 (- 53) < 2 ^ 53" using assms(2) by (simp add: pow2_def)
  ultimately show ?thesis by (cases "bits (nat n) = bits (nat d)") (simp_all add: fl_exp_def q Let_def)
qed

lemma pow2_below:
  assumes "e \<le> - 53"
  shows "0 < pow2 e" "pow2 e \<le> 1 / 2 ^ 53"
proof -
  have "(2 :: rat) ^ 53 \<le> 2 ^ nat (- e)" using assms by (intro power_increasing) auto
  then have "1 / 2 ^ nat (- e) \<le> (1 / 2 ^ 53 :: rat)" by (intro divide_left_mono) simp_all
  with assms show "pow2 e \<le> 1 / 2 ^ 53" by (simp add: pow2_def)
qed (simp add: pow2_def)

lemma fl_error:
  assumes "0 < x" "x < 1"
  shows "\<bar>fl x - x\<bar> \<le> 1 / 2 ^ 54"
proof -
  let ?p = "pow2 (fl_exp x)"
  have p: "0 < ?p" "?p \<le> 1 / 2 ^ 53" using pow2_below [OF fl_exp_below_one [OF assms]] by auto
  have "fl x = of_int (half_even (x / ?p)) * ?p" using assms(1) by (simp add: fl_def Let_def sgn_if)
  moreover have "x = x / ?p * ?p" using p(1) by simp
  ultimately have "\<bar>fl x - x\<bar> = \<bar>x / ?p - of_int (half_even (x / ?p))\<bar> * ?p"
    using p(1) by (metis (no_types, opaque_lifting) abs_minus_commute abs_mult abs_of_pos left_diff_distrib)
  also have "\<dots> \<le> 1 / 2 * ?p" using half_even_error p(1) by (intro mult_right_mono) auto
  also have "\<dots> \<le> 1 / 2 ^ 54" using p(2) by simp
  finally show ?thesis .
qed

text \<open>Rounded, a quotient of a small denominator is at least two thirds only when the exact one is.\<close>

lemma fl_two_thirds:
  assumes "0 < n" "n < 2 ^ 51" "0 \<le> a" "fl (2 / 3) \<le> fl (of_int a / of_int n)"
  shows "2 * n \<le> 3 * a"
proof (rule ccontr)
  let ?x = "of_int a / of_int n :: rat"
  assume "\<not> 2 * n \<le> 3 * a"
  then have gap: "of_int (3 * a + 1) \<le> (of_int (2 * n) :: rat)" by (subst of_int_le_iff) simp
  have n: "0 < (of_int n :: rat)" "of_int n < (2 ^ 51 :: rat)" using assms(1,2) by (simp_all add: of_int_less_iff [of _ "2 ^ 51", simplified])
  from gap n(1) have "?x + 1 / (3 * of_int n) \<le> 2 / 3" by (simp add: field_simps)
  moreover have "1 / (3 * 2 ^ 51) < (1 / (3 * of_int n) :: rat)" using n by (simp add: field_simps)
  ultimately have far: "?x + 1 / (3 * 2 ^ 51) < 2 / 3" by linarith
  have "\<bar>fl ?x - ?x\<bar> \<le> 1 / 2 ^ 54"
  proof (cases "a = 0")
    case False
    then have "0 < ?x" using assms(3) n(1) by simp
    moreover have "0 < (1 / (3 * 2 ^ 51) :: rat)" by simp
    then have "?x < 1" using far by linarith
    ultimately show ?thesis by (rule fl_error)
  qed (simp add: fl_def)
  moreover have "\<bar>fl (2 / 3) - 2 / 3\<bar> \<le> 1 / 2 ^ 54" by (rule fl_error) simp_all
  ultimately have "fl ?x \<le> ?x + 1 / 2 ^ 54" "2 / 3 \<le> fl (2 / 3) + 1 / 2 ^ 54" by (simp_all only: abs_le_iff) linarith+
  with far assms(4) have "1 / (3 * 2 ^ 51) < (1 / 2 ^ 54 + 1 / 2 ^ 54 :: rat)" by linarith
  then show False by simp
qed

end
