(* ===== verification/Governance.thy ===== *)
theory Governance
  imports Governance_Models Tenancy Py_Float
begin

text \<open>
  Governed actions (\<^verbatim>\<open>agentfabric/governance\<close>): the consensus engine, the queue of human approvals, the
  governance service and the handlers of \<^verbatim>\<open>server/app.py\<close> that vote on, approve and execute
  proposals. The VEIL policy service is outside the repository: its two calls are functions given
  to the operations.
\<close>

section \<open>The VEIL client\<close>

record veil =
  v_check :: "string \<Rightarrow> string \<Rightarrow> obj \<Rightarrow> (bool \<times> string) result"
  v_audit :: "string \<Rightarrow> string \<Rightarrow> obj \<Rightarrow> (string \<times> bool) result"

definition mock_veil :: veil where
  "mock_veil = \<lparr>v_check = (\<lambda>agent action payload. Inr (True, [])),
     v_audit = (\<lambda>agent ty payload. Inr (''audit:'' @ agent @ '':'' @ ty, True))\<rparr>"

section \<open>The consensus engine\<close>

record consensus_policy =
  cp_mode :: string
  cp_threshold :: rat
  cp_roles :: "string list"
  cp_required :: int

record consensus_result =
  cr_reached :: bool
  cr_status :: string
  cr_reason :: string
  cr_approvals :: int
  cr_rejections :: int
  cr_abstentions :: int

definition result_as_dict :: "consensus_result \<Rightarrow> obj" where
  "result_as_dict r = [
     (''reached'', JBool (cr_reached r)),
     (''status'', JStr (cr_status r)),
     (''reason'', JStr (cr_reason r)),
     (''approvals'', JInt (cr_approvals r)),
     (''rejections'', JInt (cr_rejections r)),
     (''abstentions'', JInt (cr_abstentions r))]"

definition authorized_voting_roles :: "string list" where
  "authorized_voting_roles = [''planner'', ''executor'', ''reviewer'', ''compliance_reviewer'', ''security_reviewer'',
     ''human_approver'']"

definition vote_kinds :: "string list" where
  "vote_kinds = [''approve'', ''reject'', ''abstain'', ''escalate'']"

definition check_vote :: "vote \<Rightarrow> ('s, unit) op" where
  "check_vote v =
     (if \<not> List.member authorized_voting_roles (vt_role v)
      then raise (AuthorizationError ''agent cannot vote outside authorized role'')
      else if \<not> List.member vote_kinds (vt_vote v)
      then raise (ValidationError (''unsupported vote: '' @ vt_vote v))
      else ok ())"

definition votes_of :: "string \<Rightarrow> vote list \<Rightarrow> vote list" where
  "votes_of kind vs = filter (\<lambda>v. vt_vote v = kind) vs"

definition missing_roles :: "consensus_policy \<Rightarrow> vote list \<Rightarrow> string list" where
  "missing_roles pol vs = filter (\<lambda>r. \<not> List.member (map vt_role (votes_of ''approve'' vs)) r) (cp_roles pol)"

definition verdict :: "vote list \<Rightarrow> bool \<Rightarrow> string \<Rightarrow> string \<Rightarrow> consensus_result" where
  "verdict vs reached st reason = \<lparr>cr_reached = reached, cr_status = st, cr_reason = reason,
     cr_approvals = int (length (votes_of ''approve'' vs)), cr_rejections = int (length (votes_of ''reject'' vs)),
     cr_abstentions = int (length (votes_of ''abstain'' vs))\<rparr>"

definition judged :: "vote list \<Rightarrow> bool \<Rightarrow> string \<Rightarrow> consensus_result" where
  "judged vs reached reason = verdict vs reached (if reached then ''approved'' else ''pending'') reason"

text \<open>
  The chain of modes. \<open>again\<close> is the recursive call of the modes that require a role: it evaluates a
  majority policy, so it recurs at most once. The comparison with half of the votes is exact for
  fewer than \<open>2^53\<close> votes.
\<close>

definition by_mode ::
    "(consensus_policy \<Rightarrow> ('s, consensus_result) op) \<Rightarrow> vote list \<Rightarrow> consensus_policy \<Rightarrow> int \<Rightarrow> ('s, consensus_result) op" where
  "by_mode again vs pol required =
     (let approved = votes_of ''approve'' vs; rejected = votes_of ''reject'' vs; counted = approved @ rejected;
          n = int (length approved); total = max (int (length counted)) required; mode = cp_mode pol in
      if mode = ''single_approver'' then ok (verdict vs True ''approved'' ''single approver consensus reached'')
      else if mode = ''majority'' then ok (judged vs (2 * n > total) ''majority evaluated'')
      else if mode = ''supermajority'' then
        bind (lift (py_truediv n total)) (\<lambda>q.
        ok (judged vs (q \<ge> max (cp_threshold pol) (fl (2 / 3))) ''supermajority evaluated''))
      else if mode = ''unanimous'' then
        ok (judged vs (rejected = [] \<and> n \<ge> required \<and> length counted = length approved) ''unanimous evaluated'')
      else if mode = ''weighted'' then
        (let total_weight = sum_list (map vt_weight counted); weight = sum_list (map vt_weight approved) in
         if total_weight > 0
         then bind (lift (py_truediv weight total_weight)) (\<lambda>q.
              ok (judged vs (q \<ge> cp_threshold pol) ''weighted consensus evaluated''))
         else ok (judged vs False ''weighted consensus evaluated''))
      else if mode = ''human_required'' then ok (verdict vs True ''awaiting_human'' ''human approval required'')
      else if mode = ''security_required''
      then again \<lparr>cp_mode = ''majority'', cp_threshold = 1 / 2, cp_roles = [''security_reviewer''], cp_required = required\<rparr>
      else if mode = ''compliance_required''
      then again \<lparr>cp_mode = ''majority'', cp_threshold = 1 / 2, cp_roles = [''compliance_reviewer''], cp_required = required\<rparr>
      else raise (ValidationError (''unsupported consensus mode: '' @ mode)))"

text \<open>The verdict on votes that are all valid.\<close>

definition tally ::
    "(consensus_policy \<Rightarrow> ('s, consensus_result) op) \<Rightarrow> proposal \<Rightarrow> vote list \<Rightarrow> consensus_policy \<Rightarrow> ('s, consensus_result) op" where
  "tally again p vs pol =
     (let required = max (cp_required pol) (pr_required p) in
      if votes_of ''escalate'' vs \<noteq> [] then ok (verdict vs False ''escalated'' ''proposal escalated'')
      else if votes_of ''reject'' vs \<noteq> [] \<and> (cp_mode pol = ''single_approver'' \<or> cp_mode pol = ''unanimous'')
      then ok (verdict vs False ''rejected'' ''proposal rejected'')
      else if missing_roles pol vs \<noteq> []
      then ok (verdict vs False ''pending'' (''missing required approver roles: '' @ join '', '' (missing_roles pol vs)))
      else if int (length (votes_of ''approve'' vs)) < required then ok (verdict vs False ''pending'' ''not enough approvals'')
      else by_mode again vs pol required)"

definition early :: "string \<Rightarrow> string \<Rightarrow> consensus_result" where
  "early st reason = \<lparr>cr_reached = False, cr_status = st, cr_reason = reason, cr_approvals = 0, cr_rejections = 0,
     cr_abstentions = 0\<rparr>"

definition evaluate_with ::
    "(consensus_policy \<Rightarrow> ('z world_scheme, consensus_result) op) \<Rightarrow> proposal \<Rightarrow> vote list \<Rightarrow> consensus_policy \<Rightarrow>
     governance_policy \<Rightarrow> ('z world_scheme, consensus_result) op" where
  "evaluate_with again p vs pol g =
     bind (pr_expired p) (\<lambda>expired.
     if expired then ok (early ''expired'' ''proposal expired'')
     else if \<not> risk_within_agent_authority g (pr_risk p) \<and> cp_mode pol \<noteq> ''human_required''
     then ok (early ''blocked'' ''proposal risk exceeds agent authority'')
     else if vs = [] then ok (early ''pending'' ''required voters are missing'')
     else bind (forM check_vote vs) (\<lambda>_. tally again p vs pol))"

definition evaluate ::
    "proposal \<Rightarrow> vote list \<Rightarrow> consensus_policy \<Rightarrow> governance_policy \<Rightarrow> ('z world_scheme, consensus_result) op" where
  "evaluate p vs pol g =
     evaluate_with (\<lambda>pol'. evaluate_with (\<lambda>_. raise (OtherError ''RecursionError'')) p vs pol' g) p vs pol g"

section \<open>The queue of human approvals\<close>

definition approval_request :: "string \<Rightarrow> string \<Rightarrow> string \<Rightarrow> ('z world_scheme, human_approval) op" where
  "approval_request pid tid reviewer =
     bind uuid_hex12 (\<lambda>hex.
     bind utc_now (\<lambda>created.
     bind utc_now (\<lambda>now.
     bind (lift (dt_add now (hours 24))) (\<lambda>expires.
     let a = \<lparr>ha_proposal = pid, ha_tenant = tid, ha_reviewer = reviewer, ha_status = ''pending'', ha_reason = [],
              ha_id = ''approval-'' @ hex, ha_created_at = created, ha_expires_at = expires, ha_resolved_at = None\<rparr>
     in bind (on_store (mem_put ''governance_approvals'' (ha_id a) (approval_as_dict a))) (\<lambda>_. ok a)))))"

definition approval_list :: "string \<Rightarrow> ('z world_scheme, human_approval list) op" where
  "approval_list tid = bind (on_store (mem_list_tenant ''governance_approvals'' tid)) (mapM approval_from_dict)"

definition approval_get :: "string \<Rightarrow> ('z world_scheme, human_approval option) op" where
  "approval_get aid =
     bind (on_store (mem_get ''governance_approvals'' aid)) (\<lambda>item. case item of
       None \<Rightarrow> ok None
     | Some d \<Rightarrow> if d = [] then ok None else bind (approval_from_dict d) (\<lambda>a. ok (Some a)))"

definition approval_resolve :: "string \<Rightarrow> string \<Rightarrow> string \<Rightarrow> ('z world_scheme, human_approval) op" where
  "approval_resolve aid st reason =
     bind (approval_get aid) (\<lambda>found. case found of
       None \<Rightarrow> raise (KeyError aid)
     | Some a \<Rightarrow>
         bind (ha_expired a) (\<lambda>expired.
         if expired then raise (ConflictError ''approval expired'')
         else if ha_status a \<noteq> ''pending'' \<and> ha_status a \<noteq> ''escalated''
         then raise (ConflictError ''approval already resolved'')
         else
           bind utc_now (\<lambda>now.
           let r = a\<lparr>ha_status := st, ha_reason := reason, ha_resolved_at := Some now\<rparr>
           in bind (on_store (mem_put ''governance_approvals'' (ha_id r) (approval_as_dict r))) (\<lambda>_. ok r))))"

definition approved_for_proposal :: "string \<Rightarrow> string \<Rightarrow> ('z world_scheme, bool) op" where
  "approved_for_proposal tid pid =
     bind (approval_list tid) (\<lambda>as. ok (list_ex (\<lambda>a. ha_proposal a = pid \<and> ha_status a = ''approved'') as))"

section \<open>The governance service\<close>

definition create_org :: "agent_org \<Rightarrow> ('z world_scheme, agent_org) op" where
  "create_org g =
     bind (on_store (mem_put ''governance_orgs'' (org_id g) (org_as_dict g))) (\<lambda>_.
     bind (es_append ''governance.agent_org.created'' (org_id g) (org_as_dict g)) (\<lambda>_. ok g))"

definition list_orgs :: "string \<Rightarrow> ('z world_scheme, agent_org list) op" where
  "list_orgs tid = bind (on_store (mem_list_tenant ''governance_orgs'' tid)) (mapM org_from_dict)"

definition get_org :: "string \<Rightarrow> ('z world_scheme, agent_org) op" where
  "get_org oid =
     bind (on_store (mem_get ''governance_orgs'' oid)) (\<lambda>item. case item of
       None \<Rightarrow> raise (NotFoundError ''governance org not found'')
     | Some d \<Rightarrow> org_from_dict d)"

definition create_team :: "agent_team \<Rightarrow> ('z world_scheme, agent_team) op" where
  "create_team t = bind (on_store (mem_put ''governance_teams'' (team_id t) (team_as_dict t))) (\<lambda>_. ok t)"

definition update_charter :: "charter \<Rightarrow> ('z world_scheme, charter) op" where
  "update_charter c =
     bind (on_store (mem_put ''governance_charters'' (ch_org c) (charter_as_dict c))) (\<lambda>_.
     bind (es_append ''governance.charter.updated'' (ch_org c) (charter_as_dict c)) (\<lambda>_. ok c))"

definition blocked_payload :: "proposal \<Rightarrow> string \<Rightarrow> obj" where
  "blocked_payload p reason = [(''tenant_id'', JStr (pr_tenant p)), (''proposal_id'', JStr (pr_id p)), (''reason'', JStr reason)]"

definition or_default :: "string \<Rightarrow> string \<Rightarrow> string" where
  "or_default s dflt = (if s = [] then dflt else s)"

definition create_proposal :: "veil \<Rightarrow> proposal \<Rightarrow> string option \<Rightarrow> ('z world_scheme, proposal) op" where
  "create_proposal v p reviewer =
     bind (lift (v_check v (pr_agent p) (''governance.propose.'' @ pr_action_type p) (proposal_as_dict p))) (\<lambda>(allowed, reason).
     if \<not> allowed
     then bind (es_append ''governance.action.blocked'' (pr_id p) (blocked_payload p reason)) (\<lambda>_.
          raise (AuthorizationError (or_default reason ''VEIL policy denied proposal'')))
     else
       bind (on_store (mem_put ''governance_proposals'' (pr_id p) (proposal_as_dict p))) (\<lambda>_.
       bind (es_append ''governance.proposal.created'' (pr_id p) (proposal_as_dict p)) (\<lambda>_.
       bind (if pr_mode p = ''human_required'' \<or> pr_risk p = ''high'' \<or> pr_risk p = ''critical''
             then bind (approval_request (pr_id p) (pr_tenant p)
                          (case nonempty reviewer of None \<Rightarrow> pr_created_by p | Some r \<Rightarrow> r)) (\<lambda>a.
                  bind (es_append ''governance.human_approval.requested'' (ha_id a) (approval_as_dict a)) (\<lambda>_. ok ()))
             else ok ()) (\<lambda>_.
       ok p))))"

definition list_proposals :: "string \<Rightarrow> ('z world_scheme, proposal list) op" where
  "list_proposals tid = bind (on_store (mem_list_tenant ''governance_proposals'' tid)) (mapM proposal_from_dict)"

definition get_proposal :: "string \<Rightarrow> ('z world_scheme, proposal) op" where
  "get_proposal pid =
     bind (on_store (mem_get ''governance_proposals'' pid)) (\<lambda>item. case item of
       None \<Rightarrow> raise (NotFoundError ''proposal not found'')
     | Some d \<Rightarrow>
         bind (proposal_from_dict d) (\<lambda>p.
         bind (pr_expired p) (\<lambda>expired.
         if expired \<and> pr_status p \<noteq> ''executed'' \<and> pr_status p \<noteq> ''rejected''
         then bind (with_status p ''expired'' None) (\<lambda>p'.
              bind (on_store (mem_put ''governance_proposals'' pid (proposal_as_dict p'))) (\<lambda>_. ok p'))
         else ok p)))"

definition votes_for :: "string \<Rightarrow> string \<Rightarrow> ('z world_scheme, vote list) op" where
  "votes_for tid pid =
     bind (on_store (mem_list_tenant ''governance_votes'' tid)) (\<lambda>ds.
     mapM vote_from_dict (filter (\<lambda>d. map_of d ''proposal_id'' = Some (JStr pid)) ds))"

definition cast_vote ::
    "vote \<Rightarrow> consensus_policy \<Rightarrow> governance_policy \<Rightarrow> ('z world_scheme, vote \<times> consensus_result \<times> proposal) op" where
  "cast_vote v pol g =
     bind (get_proposal (vt_proposal v)) (\<lambda>p.
     if pr_status p = ''executed'' \<or> pr_status p = ''rejected'' \<or> pr_status p = ''expired''
     then raise (ConflictError ''proposal is closed'')
     else if (pr_risk p = ''high'' \<or> pr_risk p = ''critical'') \<and> vt_agent v = pr_agent p \<and> \<not> gp_self_approval g
     then raise (AuthorizationError ''self-approval is not allowed for high-risk proposals'')
     else
       bind (on_store (mem_put ''governance_votes'' (vt_id v) (vote_as_dict v))) (\<lambda>_.
       bind (es_append ''governance.vote.cast'' (pr_id p) (vote_as_dict v)) (\<lambda>_.
       bind (votes_for (pr_tenant p) (pr_id p)) (\<lambda>vs.
       bind (evaluate p vs pol g) (\<lambda>r.
       bind (if cr_status r = ''approved''
             then bind (es_append ''governance.consensus.reached'' (pr_id p) ((''tenant_id'', JStr (pr_tenant p)) # result_as_dict r)) (\<lambda>_.
                  ok ''approved'')
             else if List.member [''rejected'', ''blocked'', ''expired'', ''escalated''] (cr_status r)
             then bind (es_append ''governance.consensus.failed'' (pr_id p) ((''tenant_id'', JStr (pr_tenant p)) # result_as_dict r)) (\<lambda>_.
                  ok (cr_status r))
             else if cr_status r = ''awaiting_human'' then ok ''awaiting_human''
             else ok (pr_status p)) (\<lambda>st.
       bind (with_status p st None) (\<lambda>p'.
       bind (on_store (mem_put ''governance_proposals'' (pr_id p') (proposal_as_dict p'))) (\<lambda>_.
       ok (v, r, p')))))))))"

text \<open>The end of \<^verbatim>\<open>execute\<close>, once every guard has passed.\<close>

definition execute_action :: "veil \<Rightarrow> proposal \<Rightarrow> obj \<Rightarrow> ('z world_scheme, decision) op" where
  "execute_action v p action =
     bind (lift (v_audit v (pr_agent p) ''governance.action.executed''
             [(''tenant_id'', JStr (pr_tenant p)), (''proposal_id'', JStr (pr_id p))])) (\<lambda>(audit, _).
     bind (es_append ''governance.action.executed'' (pr_id p)
             [(''tenant_id'', JStr (pr_tenant p)), (''proposal_id'', JStr (pr_id p)),
              (''action_type'', JStr (pr_action_type p))]) (\<lambda>e.
     bind (with_status p ''executed'' (Some action)) (\<lambda>p'.
     bind (on_store (mem_put ''governance_proposals'' (pr_id p') (proposal_as_dict p'))) (\<lambda>_.
     bind (votes_for (pr_tenant p) (pr_id p)) (\<lambda>vs.
     bind (approval_list (pr_tenant p)) (\<lambda>as.
     bind (decision_build p' vs [(''status'', JStr ''approved'')]
             (map approval_as_dict (filter (\<lambda>a. ha_proposal a = pr_id p) as)) action [audit] [ev_id e]) (\<lambda>r.
     bind (on_store (mem_put ''governance_decision_records'' (pr_id p) (decision_as_dict r))) (\<lambda>_.
     ok r))))))))"

definition execute_proposal :: "veil \<Rightarrow> string \<Rightarrow> obj \<Rightarrow> bool \<Rightarrow> ('z world_scheme, decision) op" where
  "execute_proposal v pid action require_human =
     bind (get_proposal pid) (\<lambda>p.
     if pr_status p \<noteq> ''approved'' then raise (ConflictError ''proposal consensus is not finalized'')
     else
       bind (if require_human
             then bind (approved_for_proposal (pr_tenant p) pid) (\<lambda>b. guard b (ConflictError ''human approval is required''))
             else ok ()) (\<lambda>_.
       bind (lift (v_check v (pr_agent p) (''governance.execute.'' @ pr_action_type p)
               (proposal_as_dict p @ [(''action_payload'', JObj action)]))) (\<lambda>(allowed, reason).
       if \<not> allowed
       then bind (es_append ''governance.action.blocked'' (pr_id p) (blocked_payload p reason)) (\<lambda>_.
            raise (AuthorizationError (or_default reason ''VEIL policy denied execution'')))
       else execute_action v p action)))"

definition decision_record :: "string \<Rightarrow> ('z world_scheme, decision) op" where
  "decision_record pid =
     bind (on_store (mem_get ''governance_decision_records'' pid)) (\<lambda>item. case item of
       None \<Rightarrow> raise (NotFoundError ''decision record not found'')
     | Some d \<Rightarrow> decision_from_dict d)"

section \<open>The handlers of the server\<close>

text \<open>
  The caller is authenticated and has the scope of the endpoint; the body of the request is given
  with its fields parsed. \<^verbatim>\<open>HTTPException\<close> is the error with its status code and detail.
\<close>

definition http_error :: "nat \<Rightarrow> string \<Rightarrow> py_error" where
  "http_error code detail = OtherError (dec_nat code @ '' '' @ detail)"

definition assert_governance_tenant :: "tenant_context \<Rightarrow> obj \<Rightarrow> ('s, unit) op" where
  "assert_governance_tenant ctx d = catch (assert_tenant (Some ctx) d) (\<lambda>e. case e of
     PermissionError m \<Rightarrow> raise (http_error 403 m) | _ \<Rightarrow> raise e)"

definition default_policy :: "tenant_context \<Rightarrow> governance_policy" where
  "default_policy ctx = \<lparr>gp_id = ''default'', gp_tenant = tc_tenant ctx, gp_organization = tc_organization ctx,
     gp_max_risk = ''medium'', gp_human_risks = [''high'', ''critical''],
     gp_security_actions = [''tool_permission_escalation'', ''external_api_call''],
     gp_compliance_actions = [''tenant_configuration_change'', ''marketplace_publish''], gp_self_approval = False\<rparr>"

definition governance_policy_for :: "tenant_context \<Rightarrow> ('z world_scheme, governance_policy) op" where
  "governance_policy_for ctx =
     bind (on_store (mem_get ''governance_policies'' (tc_tenant ctx @ '':default''))) (\<lambda>stored. case stored of
       None \<Rightarrow> ok (default_policy ctx)
     | Some d \<Rightarrow> if d = [] then ok (default_policy ctx) else policy_from_dict d)"

record vote_request =
  vq_agent :: string
  vq_role :: string
  vq_vote :: string
  vq_weight :: int
  vq_reason :: string
  vq_threshold :: "rat option"
  vq_roles :: "string list"

definition add_role :: "bool \<Rightarrow> string \<Rightarrow> string list \<Rightarrow> string list" where
  "add_role needed r rs = (if needed \<and> \<not> List.member rs r then rs @ [r] else rs)"

definition vote_http :: "py_error \<Rightarrow> py_error" where
  "vote_http e = (case e of AuthorizationError m \<Rightarrow> http_error 403 m | ConflictError m \<Rightarrow> http_error 409 m
     | ValidationError m \<Rightarrow> http_error 409 m | _ \<Rightarrow> e)"

definition governance_proposal_vote ::
    "tenant_context \<Rightarrow> string \<Rightarrow> vote_request \<Rightarrow> ('z world_scheme, vote \<times> consensus_result \<times> proposal) op" where
  "governance_proposal_vote ctx pid q =
     bind (get_proposal pid) (\<lambda>p.
     bind (assert_governance_tenant ctx (proposal_as_dict p)) (\<lambda>_.
     bind (governance_policy_for ctx) (\<lambda>g.
     let roles = add_role (List.member (gp_compliance_actions g) (pr_action_type p)) ''compliance_reviewer''
                   (add_role (List.member (gp_security_actions g) (pr_action_type p)) ''security_reviewer'' (vq_roles q))
     in
     bind uuid_hex12 (\<lambda>hex.
     bind utc_now (\<lambda>now.
     let v = \<lparr>vt_proposal = pid, vt_tenant = tc_tenant ctx, vt_agent = vq_agent q, vt_role = vq_role q, vt_vote = vq_vote q,
              vt_weight = vq_weight q, vt_reason = vq_reason q, vt_id = ''vote-'' @ hex, vt_created_at = now\<rparr>;
         pol = \<lparr>cp_mode = pr_mode p,
                cp_threshold = (case vq_threshold q of Some x \<Rightarrow> x
                  | None \<Rightarrow> if pr_mode p = ''supermajority'' then fl (2 / 3) else 1 / 2),
                cp_roles = roles, cp_required = pr_required p\<rparr>
     in catch (cast_vote v pol g) (\<lambda>e. raise (vote_http e)))))))"

definition governance_proposal_execute ::
    "veil \<Rightarrow> tenant_context \<Rightarrow> string \<Rightarrow> json \<Rightarrow> json \<Rightarrow> ('z world_scheme, decision) op" where
  "governance_proposal_execute v ctx pid result target =
     bind (get_proposal pid) (\<lambda>p.
     bind (assert_governance_tenant ctx (proposal_as_dict p)) (\<lambda>_.
     bind (governance_policy_for ctx) (\<lambda>g.
     let require_human = pr_mode p = ''human_required'' \<or> requires_human g (pr_risk p) in
     bind (catch (execute_proposal v pid
             [(''action_type'', JStr (pr_action_type p)), (''approved_by'', JStr (tc_principal ctx)),
              (''result'', result), (''target_ref'', target)] require_human)
           (\<lambda>e. case e of AuthorizationError m \<Rightarrow> raise (http_error 403 m) | ConflictError m \<Rightarrow> raise (http_error 409 m)
              | _ \<Rightarrow> raise e)) (\<lambda>r.
     bind (meter_record (tc_tenant ctx) ''governed_actions'' 1 [(''proposal_id'', JStr pid)]) (\<lambda>_. ok r)))))"

definition approval_event_type :: "string \<Rightarrow> string result" where
  "approval_event_type st = (case map_of [(''approved'', ''governance.human_approval.granted''),
     (''rejected'', ''governance.human_approval.rejected''), (''escalated'', ''governance.human_approval.escalated'')] st of
     None \<Rightarrow> Inl (KeyError st) | Some t \<Rightarrow> Inr t)"

definition resolve_governance_approval ::
    "tenant_context \<Rightarrow> string \<Rightarrow> string \<Rightarrow> string \<Rightarrow> ('z world_scheme, human_approval) op" where
  "resolve_governance_approval ctx aid st reason =
     bind (approval_get aid) (\<lambda>found. case found of
       None \<Rightarrow> raise (http_error 404 ''approval not found'')
     | Some a \<Rightarrow>
         bind (assert_governance_tenant ctx (approval_as_dict a)) (\<lambda>_.
         bind (catch (approval_resolve aid st reason) (\<lambda>e. case e of ConflictError m \<Rightarrow> raise (http_error 409 m) | _ \<Rightarrow> raise e)) (\<lambda>r.
         bind (lift (approval_event_type st)) (\<lambda>ty.
         bind (es_append ty (ha_proposal a) (approval_as_dict r)) (\<lambda>_.
         bind (get_proposal (ha_proposal a)) (\<lambda>p.
         bind (with_status p (if st = ''approved'' then ''approved'' else if st = ''rejected'' then ''rejected'' else ''escalated'') None) (\<lambda>p'.
         bind (on_store (mem_put ''governance_proposals'' (pr_id p') (proposal_as_dict p'))) (\<lambda>_. ok r))))))))"

section \<open>The audit log\<close>

lemma audit_time_or_now [audit_steps]: "audit.steps (time_or_now d k)"
  unfolding time_or_now_def Let_def by (intro audit.steps_intros audit_steps)

lemma audit_readers [audit_steps]:
  "audit.steps (org_from_dict d)" "audit.steps (proposal_from_dict d)" "audit.steps (vote_from_dict d)"
  "audit.steps (approval_from_dict d)" "audit.steps (decision_from_dict d)" "audit.steps (policy_from_dict d)"
  unfolding org_from_dict_def proposal_from_dict_def vote_from_dict_def approval_from_dict_def decision_from_dict_def
    policy_from_dict_def
  by (intro audit.steps_intros audit_steps)+

lemma audit_assert_tenant [audit_steps]: "audit.steps (assert_tenant c d)"
  unfolding assert_tenant_def require_context_def tc_require_def Let_def
  by (auto intro!: audit.steps_intros split: option.splits py_error.splits)

lemma audit_assert_governance_tenant [audit_steps]: "audit.steps (assert_governance_tenant c d)"
  unfolding assert_governance_tenant_def
  by (auto intro!: audit.steps_intros audit_steps split: py_error.splits)

lemma audit_proposals [audit_steps]:
  "audit.steps (pr_expired p)" "audit.steps (with_status p st act)" "audit.steps (get_proposal pid)"
  "audit.steps (list_proposals t)" "audit.steps (votes_for t pid)"
  unfolding pr_expired_def with_status_def get_proposal_def list_proposals_def votes_for_def
  by ((intro audit.steps_intros audit_steps; simp)+)

lemma audit_evaluate [audit_steps]: "audit.steps (evaluate p vs pol g)"
  unfolding evaluate_def evaluate_with_def tally_def by_mode_def check_vote_def Let_def pr_expired_def
  by (intro audit.steps_intros audit_steps)

lemma audit_approvals [audit_steps]:
  "audit.steps (approval_request pid t r)" "audit.steps (approval_list t)" "audit.steps (approval_get a)"
  "audit.steps (approval_resolve a st r)" "audit.steps (approved_for_proposal t pid)"
  unfolding approval_request_def approval_list_def approval_get_def approval_resolve_def approved_for_proposal_def
    ha_expired_def Let_def
  by ((intro audit.steps_intros audit_steps; simp)+)

lemma audit_governance [audit_steps]:
  "audit.steps (create_org g)" "audit.steps (get_org i)" "audit.steps (create_team t)" "audit.steps (update_charter c)"
  "audit.steps (create_proposal v p r)" "audit.steps (cast_vote vt pol gp)" "audit.steps (execute_proposal v pid act h)"
  "audit.steps (decision_record pid)"
  unfolding create_org_def get_org_def create_team_def update_charter_def create_proposal_def cast_vote_def
    execute_proposal_def execute_action_def decision_record_def decision_build_def
  by ((intro audit.steps_intros audit_steps; simp)+)

lemma audit_handlers [audit_steps]:
  "audit.steps (governance_proposal_vote ctx pid q)" "audit.steps (governance_proposal_execute v ctx pid res tgt)"
  "audit.steps (resolve_governance_approval ctx aid st r)"
  unfolding governance_proposal_vote_def governance_proposal_execute_def resolve_governance_approval_def
    governance_policy_for_def Let_def
  by ((auto intro!: audit.steps_intros audit_steps split: py_error.splits)+)

section \<open>Consensus\<close>

definition valid_vote :: "vote \<Rightarrow> bool" where
  "valid_vote v \<longleftrightarrow> vt_role v \<in> set authorized_voting_roles \<and> vt_vote v \<in> set vote_kinds"

lemma check_vote_cases: "check_vote v w = (if valid_vote v then (Inr (), w) else (fst (check_vote v w), w))"
  by (simp add: check_vote_def valid_vote_def ok_apply raise_apply)

lemma check_vote_invalid: "\<not> valid_vote v \<Longrightarrow> \<exists>e. check_vote v w = (Inl e, w)"
  by (auto simp: check_vote_def valid_vote_def raise_apply)

lemma check_votes_cases:
  "(\<forall>v \<in> set vs. valid_vote v) \<and> forM check_vote vs w = (Inr (), w) \<or>
   \<not> (\<forall>v \<in> set vs. valid_vote v) \<and> (\<exists>e. forM check_vote vs w = (Inl e, w))"
proof (induction vs)
  case (Cons v vs)
  show ?case
  proof (cases "valid_vote v")
    case True
    then have "check_vote v w = (Inr (), w)" by (simp add: check_vote_cases)
    with Cons.IH True show ?thesis by (auto simp: bind_apply)
  next
    case False
    with check_vote_invalid [OF False, of w] show ?thesis by (auto simp: bind_apply)
  qed
qed (simp add: ok_apply)

lemma check_votes_Inr:
  assumes "\<forall>v \<in> set vs. valid_vote v"
  shows "bind (forM check_vote vs) f w = f () w"
  using check_votes_cases [of vs w] assms by (auto simp: bind_apply)

lemma check_votes_Inl:
  assumes "v \<in> set vs" "\<not> valid_vote v"
  shows "\<exists>e. bind (forM check_vote vs) f w = (Inl e, w)"
  using check_votes_cases [of vs w] assms by (auto simp: bind_apply)

definition approvals :: "vote list \<Rightarrow> nat" where
  "approvals vs = length (votes_of ''approve'' vs)"

definition rejections :: "vote list \<Rightarrow> nat" where
  "rejections vs = length (votes_of ''reject'' vs)"

text \<open>What an approving verdict rests on, in every mode.\<close>

definition approval_grounds :: "proposal \<Rightarrow> vote list \<Rightarrow> consensus_policy \<Rightarrow> governance_policy \<Rightarrow> bool" where
  "approval_grounds p vs pol g \<longleftrightarrow> risk_within_agent_authority g (pr_risk p) \<and> (\<forall>v \<in> set vs. valid_vote v) \<and>
     (\<forall>v \<in> set vs. vt_vote v \<noteq> ''escalate'') \<and>
     (\<forall>r \<in> set (cp_roles pol). \<exists>v \<in> set vs. vt_vote v = ''approve'' \<and> vt_role v = r) \<and>
     cp_required pol \<le> int (approvals vs) \<and> pr_required p \<le> int (approvals vs)"

definition weight_of :: "string \<Rightarrow> vote list \<Rightarrow> int" where
  "weight_of kind vs = sum_list (map vt_weight (votes_of kind vs))"

text \<open>
  What the mode of the policy adds: the rule of each of the modes that can approve. A share of votes or of weight
  is the float Python computes; for the supermajority the rule is also given in whole numbers of
  votes, for fewer than \<open>2^51\<close> of them.
\<close>

definition mode_grounds :: "consensus_policy \<Rightarrow> vote list \<Rightarrow> bool" where
  "mode_grounds pol vs \<longleftrightarrow>
     cp_mode pol \<in> {''single_approver'', ''majority'', ''supermajority'', ''unanimous'', ''weighted'', ''security_required'',
       ''compliance_required''} \<and>
     (cp_mode pol \<in> {''single_approver'', ''unanimous''} \<longrightarrow> rejections vs = 0) \<and>
     (cp_mode pol \<in> {''majority'', ''security_required'', ''compliance_required''} \<longrightarrow> approvals vs > rejections vs) \<and>
     (cp_mode pol = ''security_required'' \<longrightarrow> (\<exists>v \<in> set vs. vt_vote v = ''approve'' \<and> vt_role v = ''security_reviewer'')) \<and>
     (cp_mode pol = ''compliance_required'' \<longrightarrow> (\<exists>v \<in> set vs. vt_vote v = ''approve'' \<and> vt_role v = ''compliance_reviewer'')) \<and>
     (cp_mode pol = ''supermajority'' \<longrightarrow>
        fl (of_nat (approvals vs) / of_nat (approvals vs + rejections vs)) \<ge> max (cp_threshold pol) (fl (2 / 3)) \<and>
        (length vs < 2 ^ 51 \<longrightarrow> approvals vs \<ge> 2 * rejections vs \<and> approvals vs > 0)) \<and>
     (cp_mode pol = ''weighted'' \<longrightarrow>
        weight_of ''approve'' vs + weight_of ''reject'' vs > 0 \<and>
        fl (of_int (weight_of ''approve'' vs) / of_int (weight_of ''approve'' vs + weight_of ''reject'' vs)) \<ge> cp_threshold pol)"

lemma votes_of_empty: "votes_of k vs = [] \<longleftrightarrow> (\<forall>v \<in> set vs. vt_vote v \<noteq> k)"
  by (auto simp: votes_of_def filter_empty_conv)

lemma missing_roles_empty:
  "missing_roles pol vs = [] \<longleftrightarrow> (\<forall>r \<in> set (cp_roles pol). \<exists>v \<in> set vs. vt_vote v = ''approve'' \<and> vt_role v = r)"
  by (auto simp: missing_roles_def filter_empty_conv votes_of_def image_iff)

lemma status_verdict [simp]: "cr_status (verdict vs b st r) = st" "cr_status (early st r) = st"
  "cr_status (judged vs b r) = (if b then ''approved'' else ''pending'')"
  by (simp_all add: verdict_def early_def judged_def)

lemma py_truediv_Inr: "py_truediv a b = Inr q \<longleftrightarrow> b \<noteq> 0 \<and> q = fl (of_int a / of_int b) \<and> \<bar>q\<bar> < 2 ^ 1024"
  by (auto simp: py_truediv_def Let_def)

lemma votes_counted: "approvals vs + rejections vs \<le> length vs"
  unfolding approvals_def rejections_def votes_of_def by (induction vs) auto

lemma supermajority_approved:
  assumes "by_mode again vs pol required w = (Inr r, w')" "cr_status r = ''approved''" "cp_mode pol = ''supermajority''"
    "required \<le> int (approvals vs)"
  shows "fl (of_nat (approvals vs) / of_nat (approvals vs + rejections vs)) \<ge> max (cp_threshold pol) (fl (2 / 3))"
    "length vs < 2 ^ 51 \<longrightarrow> approvals vs \<ge> 2 * rejections vs \<and> approvals vs > 0"
proof -
  let ?n = "approvals vs + rejections vs"
  have "max (int ?n) required = int ?n" using assms(4) by simp
  then have q: "0 < ?n" "fl (of_int (int (approvals vs)) / of_int (int ?n)) \<ge> max (cp_threshold pol) (fl (2 / 3))"
    using assms(1-3)
    by (auto simp: by_mode_def Let_def bind_eq_Inr_iff lift_apply ok_apply py_truediv_Inr approvals_def rejections_def split: if_splits)
  then show "fl (of_nat (approvals vs) / of_nat ?n) \<ge> max (cp_threshold pol) (fl (2 / 3))" by simp
  show "length vs < 2 ^ 51 \<longrightarrow> approvals vs \<ge> 2 * rejections vs \<and> approvals vs > 0"
  proof
    assume "length vs < 2 ^ 51"
    then have "int ?n < 2 ^ 51" using votes_counted [of vs] by simp
    from fl_two_thirds [OF _ this, of "int (approvals vs)"] q show "approvals vs \<ge> 2 * rejections vs \<and> approvals vs > 0" by auto
  qed
qed

lemma weighted_approved:
  assumes "by_mode again vs pol required w = (Inr r, w')" "cr_status r = ''approved''" "cp_mode pol = ''weighted''"
  shows "weight_of ''approve'' vs + weight_of ''reject'' vs > 0 \<and>
    fl (of_int (weight_of ''approve'' vs) / of_int (weight_of ''approve'' vs + weight_of ''reject'' vs)) \<ge> cp_threshold pol"
  using assms
  by (auto simp: by_mode_def Let_def bind_eq_Inr_iff lift_apply ok_apply py_truediv_Inr weight_of_def split: if_splits)

lemma by_mode_known:
  assumes "by_mode again vs pol required w = (Inr r, w')" "cr_status r = ''approved''"
  shows "cp_mode pol \<in> {''single_approver'', ''majority'', ''supermajority'', ''unanimous'', ''weighted'', ''security_required'',
    ''compliance_required''}"
  using assms by (auto simp: by_mode_def Let_def ok_apply raise_apply split: if_splits)

lemma by_mode_approved:
  assumes "by_mode again vs pol required w = (Inr r, w')" "cr_status r = ''approved''"
  shows "cp_mode pol \<noteq> ''human_required'' \<and>
    (cp_mode pol = ''majority'' \<longrightarrow> approvals vs > rejections vs) \<and>
    (cp_mode pol = ''security_required'' \<longrightarrow> again \<lparr>cp_mode = ''majority'', cp_threshold = 1 / 2,
        cp_roles = [''security_reviewer''], cp_required = required\<rparr> w = (Inr r, w')) \<and>
    (cp_mode pol = ''compliance_required'' \<longrightarrow> again \<lparr>cp_mode = ''majority'', cp_threshold = 1 / 2,
        cp_roles = [''compliance_reviewer''], cp_required = required\<rparr> w = (Inr r, w'))"
proof (intro conjI impI notI)
  assume "cp_mode pol = ''human_required''"
  with assms show False by (auto simp: by_mode_def ok_apply)
next
  assume "cp_mode pol = ''majority''"
  with assms show "approvals vs > rejections vs"
    by (auto simp: by_mode_def ok_apply approvals_def rejections_def Let_def split: if_splits)
next
  assume "cp_mode pol = ''security_required''"
  with assms show "again \<lparr>cp_mode = ''majority'', cp_threshold = 1 / 2,
        cp_roles = [''security_reviewer''], cp_required = required\<rparr> w = (Inr r, w')"
    by (simp add: by_mode_def Let_def)
next
  assume "cp_mode pol = ''compliance_required''"
  with assms show "again \<lparr>cp_mode = ''majority'', cp_threshold = 1 / 2,
        cp_roles = [''compliance_reviewer''], cp_required = required\<rparr> w = (Inr r, w')"
    by (simp add: by_mode_def Let_def)
qed

lemma tally_approved:
  assumes "tally again p vs pol w = (Inr r, w')" "cr_status r = ''approved''"
  shows "votes_of ''escalate'' vs = []" "cp_mode pol = ''single_approver'' \<or> cp_mode pol = ''unanimous'' \<Longrightarrow> rejections vs = 0"
    "missing_roles pol vs = []" "max (cp_required pol) (pr_required p) \<le> int (approvals vs)"
    "by_mode again vs pol (max (cp_required pol) (pr_required p)) w = (Inr r, w')"
  using assms by (auto simp: tally_def Let_def ok_apply approvals_def rejections_def split: if_splits)

lemma evaluate_with_approved:
  assumes "evaluate_with again p vs pol g w = (Inr r, w')" "cr_status r = ''approved''"
  shows "w_clock w (w_ticks w) \<le> pr_expires_at p" "\<forall>v \<in> set vs. valid_vote v"
    "risk_within_agent_authority g (pr_risk p) \<or> cp_mode pol = ''human_required''"
    "tally again p vs pol (w\<lparr>w_ticks := Suc (w_ticks w)\<rparr>) = (Inr r, w')"
proof -
  have go: "w_clock w (w_ticks w) \<le> pr_expires_at p \<and>
      (risk_within_agent_authority g (pr_risk p) \<or> cp_mode pol = ''human_required'') \<and>
      bind (forM check_vote vs) (\<lambda>_. tally again p vs pol) (w\<lparr>w_ticks := Suc (w_ticks w)\<rparr>) = (Inr r, w')"
    using assms unfolding evaluate_with_def pr_expired_def utc_now_def
    by (auto simp: bind_apply [of _ _ w] ok_apply bind_apply [of _ ok] not_less split: if_splits)
  then show "w_clock w (w_ticks w) \<le> pr_expires_at p"
    "risk_within_agent_authority g (pr_risk p) \<or> cp_mode pol = ''human_required''" by blast+
  show valid: "\<forall>v \<in> set vs. valid_vote v"
  proof (rule ccontr)
    assume "\<not> (\<forall>v \<in> set vs. valid_vote v)"
    then obtain v where "v \<in> set vs" "\<not> valid_vote v" by blast
    from check_votes_Inl [OF this, of "\<lambda>_. tally again p vs pol" "w\<lparr>w_ticks := Suc (w_ticks w)\<rparr>"] go
    show False by auto
  qed
  show "tally again p vs pol (w\<lparr>w_ticks := Suc (w_ticks w)\<rparr>) = (Inr r, w')"
    using go by (simp only: check_votes_Inr [OF valid])
qed


section \<open>Properties\<close>

text \<open>
  C11. Consensus is sound: when the engine approves, the proposal had not expired at the clock reading
  of the evaluation, its risk is within the agents' authority, every vote has an authorized role and
  a known kind, none escalates, every required role has an approving voter, and the approvals
  reach both the policy's and the proposal's required number; by mode, moreover, there is no
  rejection (single approver, unanimous), or more approvals than rejections (majority), with an
  approval of a security or a compliance reviewer where the mode asks for one; or the share of
  approvals among the counted votes reaches the policy's threshold and two thirds (supermajority), so
  that there are at least twice as many approvals as rejections; or the counted votes have a positive
  weight and the approvals' share of it reaches the threshold (weighted). No other mode approves.
\<close>

theorem consensus_sound:
  assumes "outcome (evaluate p vs pol g) w = Inr r" "cr_status r = ''approved''"
  shows "approval_grounds p vs pol g \<and> mode_grounds pol vs \<and> w_clock w (w_ticks w) \<le> pr_expires_at p"
proof -
  let ?again = "\<lambda>pol'. evaluate_with (\<lambda>_. raise (OtherError ''RecursionError'')) p vs pol' g"
  obtain w' where ev: "evaluate_with ?again p vs pol g w = (Inr r, w')"
    using assms(1) unfolding evaluate_def by (metis prod.collapse)
  note outer = evaluate_with_approved [OF ev assms(2)]
  note tl = tally_approved [OF outer(4) assms(2)]
  note bm = by_mode_approved [OF tl(5) assms(2)]
  have inner: "approvals vs > rejections vs \<and> (\<exists>v \<in> set vs. vt_vote v = ''approve'' \<and> vt_role v = role)"
    if "?again \<lparr>cp_mode = ''majority'', cp_threshold = 1 / 2, cp_roles = [role],
      cp_required = max (cp_required pol) (pr_required p)\<rparr> (w\<lparr>w_ticks := Suc (w_ticks w)\<rparr>) = (Inr r, w')" for role
  proof -
    note i1 = evaluate_with_approved [OF that assms(2)]
    note i2 = tally_approved [OF i1(4) assms(2)]
    show ?thesis using by_mode_approved [OF i2(5) assms(2)] i2(3) by (simp add: missing_roles_empty)
  qed
  have "mode_grounds pol vs"
    unfolding mode_grounds_def
    using tl(2) bm inner [of "''security_reviewer''"] inner [of "''compliance_reviewer''"] by_mode_known [OF tl(5) assms(2)]
      supermajority_approved [OF tl(5) assms(2) _ tl(4)] weighted_approved [OF tl(5) assms(2)]
    by blast
  then show ?thesis
    using outer(1-3) tl(1,3,4) bm
    by (auto simp: approval_grounds_def votes_of_empty missing_roles_empty)
qed

definition proposal0 :: proposal where
  "proposal0 = \<lparr>pr_tenant = ''t'', pr_organization = ''o'', pr_agent = ''a'', pr_target_org = ''g'', pr_action_type = ''deploy'',
     pr_risk = ''low'', pr_required = 2, pr_created_by = ''u'', pr_target_team = None, pr_veil_ref = None,
     pr_mode = ''majority'', pr_status = ''pending'', pr_id = ''p'', pr_created_at = dt 0, pr_updated_at = dt 0,
     pr_expires_at = dt 1000, pr_executed = None\<rparr>"

definition vote0 :: "string \<Rightarrow> string \<Rightarrow> string \<Rightarrow> vote" where
  "vote0 i role kind = \<lparr>vt_proposal = ''p'', vt_tenant = ''t'', vt_agent = ''x'', vt_role = role, vt_vote = kind,
     vt_weight = 1, vt_reason = [], vt_id = i, vt_created_at = dt 0\<rparr>"

definition policy0 :: consensus_policy where
  "policy0 = \<lparr>cp_mode = ''majority'', cp_threshold = 1 / 2, cp_roles = [], cp_required = 1\<rparr>"

definition context0 :: tenant_context where
  "context0 = \<lparr>tc_tenant = ''t'', tc_organization = ''o'', tc_principal = ''u'', tc_roles = [], tc_global_admin = False\<rparr>"

lemma max_us_big [simp]: "n mod max_us = n" if "0 \<le> n" "n < 1000000" for n
  using that by (simp add: max_us_def day_us_def)

lemma evaluate_example:
  "outcome (evaluate proposal0 [vote0 ''1'' ''planner'' ''approve'', vote0 ''2'' ''executor'' ''approve''] policy0
     (default_policy context0)) world0 = Inr (verdict [vote0 ''1'' ''planner'' ''approve'', vote0 ''2'' ''executor'' ''approve'']
       True ''approved'' ''majority evaluated'')"
proof -
  have auth: "risk_within_agent_authority (default_policy context0) ''low''" by code_simp
  have "\<not> dt 0 > dt 1000" by (simp add: less_datetime_def)
  then show ?thesis
    using auth
    by (simp add: evaluate_def evaluate_with_def pr_expired_def utc_now_def bind_apply ok_apply proposal0_def world0_def
        check_vote_def authorized_voting_roles_def vote_kinds_def vote0_def tally_def by_mode_def policy0_def Let_def
        missing_roles_def judged_def votes_of_def)
qed

theorem consensus_sound_witness:
  "approval_grounds proposal0 [vote0 ''1'' ''planner'' ''approve'', vote0 ''2'' ''executor'' ''approve''] policy0
     (default_policy context0) \<and> mode_grounds policy0 [vote0 ''1'' ''planner'' ''approve'', vote0 ''2'' ''executor'' ''approve'']"
  using consensus_sound [OF evaluate_example] by simp

text \<open>
  The engine does not look at who votes: replacing the voters of all votes by one and the same
  agent changes nothing of the evaluation, so an agent that votes repeatedly reaches any number
  of required approvals alone.
\<close>

theorem consensus_ignores_voters:
  fixes w :: "'z world_scheme"
  shows "evaluate p (map (\<lambda>v. v\<lparr>vt_agent := a\<rparr>) vs) pol g w = evaluate p vs pol g w"
proof -
  let ?f = "\<lambda>v. v\<lparr>vt_agent := a\<rparr>"
  have votes: "votes_of k (map ?f vs) = map ?f (votes_of k vs)" for k
    by (induction vs) (simp_all add: votes_of_def)
  have check: "forM check_vote (map ?f vs) = (forM check_vote vs :: ('z world_scheme, unit) op)"
    by (induction vs) (simp_all add: check_vote_def)
  have weights: "map vt_weight (map ?f us) = map vt_weight us" "map vt_role (map ?f us) = map vt_role us" for us
    by (simp_all add: comp_def)
  have verdict: "verdict (map ?f vs) = verdict vs"
    by (simp add: fun_eq_iff verdict_def votes)
  have missing: "missing_roles pol (map ?f vs) = missing_roles pol vs" for pol
    by (simp add: missing_roles_def votes weights del: map_map)
  have by_mode: "by_mode again (map ?f vs) = by_mode again vs" for again :: "consensus_policy \<Rightarrow> ('z world_scheme, consensus_result) op"
    by (simp add: fun_eq_iff by_mode_def Let_def votes judged_def verdict weights flip: map_append del: map_map)
  have tally: "tally again p (map ?f vs) = tally again p vs" for again :: "consensus_policy \<Rightarrow> ('z world_scheme, consensus_result) op"
    by (simp add: fun_eq_iff tally_def Let_def votes verdict missing by_mode)
  have empty: "map ?f vs = [] \<longleftrightarrow> vs = []" by simp
  show ?thesis unfolding evaluate_def evaluate_with_def check tally empty ..
qed

section \<open>Proposals in the store\<close>

definition stored_proposal :: "'z world_scheme \<Rightarrow> string \<Rightarrow> proposal \<Rightarrow> bool" where
  "stored_proposal w pid p \<longleftrightarrow> map_of (coll (w_store w) ''governance_proposals'') pid = Some (proposal_as_dict p) \<and> pr_id p = pid"

definition closed_status :: "string \<Rightarrow> bool" where
  "closed_status st \<longleftrightarrow> st = ''executed'' \<or> st = ''rejected''"

definition expire :: "proposal \<Rightarrow> 'z world_scheme \<Rightarrow> proposal" where
  "expire p w = (pr_norm p)\<lparr>pr_status := ''expired'', pr_updated_at := now (tick w)\<rparr>"

lemma get_proposal_stored:
  assumes "stored_proposal w pid p"
  shows "get_proposal pid w =
    (if now w > pr_expires_at p \<and> \<not> closed_status (pr_status p)
     then (Inr (expire p w), put_doc ''governance_proposals'' pid (proposal_as_dict (expire p w)) (tick (tick w)))
     else (Inr (pr_norm p), tick w))"
  using assms
  by (auto simp: stored_proposal_def get_proposal_def bind_apply on_get on_put pr_expired_def with_status_def
      utc_now_apply ok_apply expire_def closed_status_def)

lemma get_proposal_missing:
  "map_of (coll (w_store w) ''governance_proposals'') pid = None \<Longrightarrow>
   get_proposal pid w = (Inl (NotFoundError ''proposal not found''), w)"
  by (simp add: get_proposal_def bind_apply on_get raise_apply)

lemma cast_vote_closed:
  assumes "stored_proposal w (vt_proposal v) p" "closed_status (pr_status p)"
  shows "cast_vote v pol g w = (Inl (ConflictError ''proposal is closed''), tick w)"
  using assms by (auto simp: cast_vote_def bind_apply get_proposal_stored raise_apply closed_status_def)

lemma execute_not_approved:
  assumes "stored_proposal w pid p" "pr_status p \<noteq> ''approved''"
  shows "outcome (execute_proposal v pid act h) w = Inl (ConflictError ''proposal consensus is not finalized'')"
  using assms by (auto simp: execute_proposal_def bind_apply get_proposal_stored raise_apply expire_def)

lemma keeps_votes_for: "keeps.steps c (votes_for t pid)"
  unfolding votes_for_def vote_from_dict_def by (intro keeps.steps_intros keeps_steps)

lemma keeps_approval_list: "keeps.steps c (approval_list t)"
  unfolding approval_list_def approval_from_dict_def by (intro keeps.steps_intros keeps_steps)

lemma keeps_decision_build: "keeps.steps c (decision_build p vs cr has act ar ei)"
  unfolding decision_build_def by (intro keeps.steps_intros keeps_steps)

lemma execute_action_Inr:
  assumes "execute_action v p act w = (Inr r, w')"
  shows "\<exists>p'. map_of (coll (w_store w') ''governance_proposals'') (pr_id p) = Some (proposal_as_dict p') \<and> pr_id p' = pr_id p \<and>
      pr_status p' = ''executed'' \<and> pr_executed p' = Some act"
    "map_of (coll (w_store w') ''governance_decision_records'') (pr_id p) = Some (decision_as_dict r)"
proof -
  obtain e :: event and w1 p' w3 vs w4 as w5 w6 audit where
    p': "p' = p\<lparr>pr_status := ''executed'', pr_updated_at := now w1, pr_executed := Some act\<rparr>" and
    w3: "w3 = put_doc ''governance_proposals'' (pr_id p) (proposal_as_dict p') (tick w1)" and
    w4: "votes_for (pr_tenant p) (pr_id p) w3 = (Inr vs, w4)" and
    w5: "approval_list (pr_tenant p) w4 = (Inr as, w5)" and
    w6: "decision_build p' vs [(''status'', JStr ''approved'')]
             (map approval_as_dict (filter (\<lambda>a. ha_proposal a = pr_id p) as)) act [audit] [ev_id e] w5 = (Inr r, w6)" and
    w': "w' = put_doc ''governance_decision_records'' (pr_id p) (decision_as_dict r) w6"
    using assms unfolding execute_action_def
    by (clarsimp simp: bind_eq_Inr_iff with_status_def utc_now_apply on_put ok_apply split: prod.splits)
  have "coll (w_store w6) ''governance_proposals'' = coll (w_store w3) ''governance_proposals''"
    using keeps.stepsD [OF keeps_votes_for, of "''governance_proposals''" w3 "pr_tenant p" "pr_id p"] w4
      keeps.stepsD [OF keeps_approval_list, of "''governance_proposals''" w4 "pr_tenant p"] w5
      keeps.stepsD [OF keeps_decision_build, of "''governance_proposals''" w5] w6
    unfolding keeps_coll_def by (metis snd_conv)
  then show "\<exists>p'. map_of (coll (w_store w') ''governance_proposals'') (pr_id p) = Some (proposal_as_dict p') \<and> pr_id p' = pr_id p \<and>
      pr_status p' = ''executed'' \<and> pr_executed p' = Some act"
    by (intro exI [of _ p']) (simp add: w' w3 p')
  show "map_of (coll (w_store w') ''governance_decision_records'') (pr_id p) = Some (decision_as_dict r)"
    by (simp add: w')
qed

lemma execute_proposal_Inr:
  assumes st: "stored_proposal w pid p" and ex: "execute_proposal v pid act h w = (Inr r, w')"
  shows "pr_status p = ''approved'' \<and> now w \<le> pr_expires_at p \<and>
    (h \<longrightarrow> outcome (approved_for_proposal (pr_tenant p) pid) (tick w) = Inr True) \<and>
    (\<exists>m. v_check v (pr_agent p) (''governance.execute.'' @ pr_action_type p)
       (proposal_as_dict (pr_norm p) @ [(''action_payload'', JObj act)]) = Inr (True, m)) \<and>
    (\<exists>p'. stored_proposal w' pid p' \<and> pr_status p' = ''executed'' \<and> pr_executed p' = Some act) \<and>
    map_of (coll (w_store w') ''governance_decision_records'') pid = Some (decision_as_dict r)"
proof -
  have pid: "pr_id p = pid" using st by (simp add: stored_proposal_def)
  have g: "get_proposal pid w = (Inr (pr_norm p), tick w)" and ap: "pr_status p = ''approved''" and
      fresh: "now w \<le> pr_expires_at p"
    using ex get_proposal_stored [OF st]
    by (auto simp: execute_proposal_def bind_apply raise_apply expire_def closed_status_def not_less split: if_splits)
  obtain w1 m where human: "(if h then bind (approved_for_proposal (pr_tenant p) pid) (\<lambda>b. guard b (ConflictError ''human approval is required''))
        else ok ()) (tick w) = (Inr (), w1)"
    and veil: "v_check v (pr_agent p) (''governance.execute.'' @ pr_action_type p)
       (proposal_as_dict (pr_norm p) @ [(''action_payload'', JObj act)]) = Inr (True, m)"
    and act: "execute_action v (pr_norm p) act w1 = (Inr r, w')"
    using ex ap unfolding execute_proposal_def
    by (auto simp: bind_eq_Inr_iff g lift_apply raise_apply split: if_splits)
  have "h \<longrightarrow> outcome (approved_for_proposal (pr_tenant p) pid) (tick w) = Inr True"
    using human by (auto simp: bind_eq_Inr_iff guard_def raise_apply split: if_splits)
  with ap fresh veil execute_action_Inr [OF act] show ?thesis by (auto simp: stored_proposal_def pid)
qed

definition approved_world :: world where
  "approved_world = put_doc ''governance_proposals'' ''p'' (proposal_as_dict (proposal0\<lparr>pr_status := ''approved''\<rparr>)) world0"

lemma approved_world_stored: "stored_proposal approved_world ''p'' (proposal0\<lparr>pr_status := ''approved''\<rparr>)"
  by (simp add: stored_proposal_def approved_world_def proposal0_def)

lemma registered_governance:
  "registered ''governance.action.executed''" "registered ''governance.action.blocked''"
  "registered ''governance.vote.cast''" "registered ''governance.consensus.reached''" "registered ''governance.consensus.failed''"
  "registered ''governance.proposal.created''" "registered ''governance.human_approval.granted''"
  "registered ''governance.human_approval.rejected''" "registered ''governance.human_approval.escalated''"
  by code_simp+

lemma no_votes: "coll (w_store w) ''governance_votes'' = [] \<Longrightarrow> votes_for t pid w = (Inr [], w)"
  by (simp add: votes_for_def bind_apply on_store_def mem_list_tenant_def gets_apply sorted_items_def ok_apply)

lemma no_approvals: "coll (w_store w) ''governance_approvals'' = [] \<Longrightarrow> approval_list t w = (Inr [], w)"
  by (simp add: approval_list_def bind_apply on_store_def mem_list_tenant_def gets_apply sorted_items_def ok_apply)

lemma execute_action_ok:
  assumes "coll (w_store w) ''governance_votes'' = []" "coll (w_store w) ''governance_approvals'' = []"
  shows "\<exists>r w'. execute_action mock_veil p act w = (Inr r, w')"
  using assms
  by (simp add: execute_action_def bind_apply lift_apply mock_veil_def with_status_def es_append_registered registered_governance
      utc_now_apply on_put ok_apply no_votes no_approvals decision_build_def uuid_hex12_def events_put_def coll_mem_put)

lemma execute_example: "\<exists>r w'. execute_proposal mock_veil ''p'' [] False approved_world = (Inr r, w')"
proof -
  have le: "\<not> dt 0 > dt 1000" by (simp add: less_datetime_def)
  have now: "w_clock approved_world (w_ticks approved_world) = dt 0"
    by (simp add: approved_world_def put_doc_def world0_def)
  have g: "get_proposal ''p'' approved_world = (Inr (pr_norm (proposal0\<lparr>pr_status := ''approved''\<rparr>)), tick approved_world)"
    using le unfolding get_proposal_stored [OF approved_world_stored] now by (simp add: proposal0_def)
  have "\<exists>r w'. execute_action mock_veil (pr_norm (proposal0\<lparr>pr_status := ''approved''\<rparr>)) [] (tick approved_world) = (Inr r, w')"
    by (rule execute_action_ok) (simp_all add: approved_world_def world0_def coll_def [of "[]"])
  moreover have "v_check mock_veil a b c = Inr (True, [])" for a b c by (simp add: mock_veil_def)
  ultimately show ?thesis by (simp add: execute_proposal_def bind_apply g ok_apply lift_apply)
qed

section \<open>Approvals\<close>

definition stored_approval :: "'z world_scheme \<Rightarrow> string \<Rightarrow> human_approval \<Rightarrow> bool" where
  "stored_approval w aid a \<longleftrightarrow> map_of (coll (w_store w) ''governance_approvals'') aid = Some (approval_as_dict a) \<and> ha_id a = aid"

lemma approval_get_stored:
  assumes "stored_approval w aid a"
  shows "approval_get aid w = (Inr (Some a), w)"
proof -
  have "approval_as_dict a \<noteq> []" by (simp add: approval_as_dict_def)
  with assms show ?thesis by (simp add: stored_approval_def approval_get_def bind_apply on_get ok_apply)
qed

lemma approval_resolve_cases:
  assumes "stored_approval w aid a"
  shows "approval_resolve aid st reason w =
    (if now w > ha_expires_at a then (Inl (ConflictError ''approval expired''), tick w)
     else if ha_status a \<noteq> ''pending'' \<and> ha_status a \<noteq> ''escalated'' then (Inl (ConflictError ''approval already resolved''), tick w)
     else let r = a\<lparr>ha_status := st, ha_reason := reason, ha_resolved_at := Some (now (tick w))\<rparr>
          in (Inr r, put_doc ''governance_approvals'' aid (approval_as_dict r) (tick (tick w))))"
  using assms
  by (auto simp: approval_resolve_def bind_apply approval_get_stored ha_expired_def utc_now_apply ok_apply raise_apply on_put
      stored_approval_def Let_def)

text \<open>
  C19. A human approval is resolved at most once and only in time: resolving a stored approval raises
  \<^verbatim>\<open>ConflictError\<close> after its expiry or once it is neither pending nor escalated, and changes no
  document; otherwise it stores the new status, and after a status other than these two every
  later attempt is refused.
\<close>

theorem approval_resolved_once:
  assumes "stored_approval w aid a"
  shows "(now w > ha_expires_at a \<or> ha_status a \<notin> {''pending'', ''escalated''} \<longrightarrow>
      (\<exists>m. outcome (approval_resolve aid st reason) w = Inl (ConflictError m)) \<and>
      w_store (final (approval_resolve aid st reason) w) = w_store w) \<and>
    (now w \<le> ha_expires_at a \<and> ha_status a \<in> {''pending'', ''escalated''} \<longrightarrow>
      (\<exists>r. outcome (approval_resolve aid st reason) w = Inr r \<and> ha_status r = st \<and>
         stored_approval (final (approval_resolve aid st reason) w) aid r \<and>
         (st \<notin> {''pending'', ''escalated''} \<longrightarrow>
           (\<exists>m. outcome (approval_resolve aid st' reason') (final (approval_resolve aid st reason) w) = Inl (ConflictError m)))))"
proof (cases "now w > ha_expires_at a \<or> ha_status a \<notin> {''pending'', ''escalated''}")
  case True
  then show ?thesis by (auto simp: approval_resolve_cases [OF assms])
next
  case False
  define r where "r = a\<lparr>ha_status := st, ha_reason := reason, ha_resolved_at := Some (now (tick w))\<rparr>"
  define w' where "w' = put_doc ''governance_approvals'' aid (approval_as_dict r) (tick (tick w))"
  have res: "approval_resolve aid st reason w = (Inr r, w')"
    using False by (auto simp: approval_resolve_cases [OF assms] Let_def r_def w'_def)
  have st: "stored_approval w' aid r" using assms by (simp add: stored_approval_def r_def w'_def)
  have "ha_status r = st" by (simp add: r_def)
  then show ?thesis
    using False unfolding res by (auto simp: st approval_resolve_cases [OF st])
qed

definition approval0 :: human_approval where
  "approval0 = \<lparr>ha_proposal = ''p'', ha_tenant = ''t'', ha_reviewer = ''u'', ha_status = ''pending'', ha_reason = [], ha_id = ''h'',
     ha_created_at = dt 0, ha_expires_at = dt 1000, ha_resolved_at = None\<rparr>"

theorem approval_resolved_once_witness:
  "\<exists>r. outcome (approval_resolve ''h'' ''approved'' ''fine'') (put_doc ''governance_approvals'' ''h'' (approval_as_dict approval0) world0) = Inr r \<and>
     ha_status r = ''approved''"
proof -
  let ?w = "put_doc ''governance_approvals'' ''h'' (approval_as_dict approval0) world0"
  have "stored_approval ?w ''h'' approval0" by (simp add: stored_approval_def approval0_def)
  moreover have "now ?w \<le> ha_expires_at approval0"
    by (simp add: put_doc_def world0_def approval0_def less_eq_datetime_def)
  moreover have "ha_status approval0 = ''pending''" by (simp add: approval0_def)
  ultimately show ?thesis using approval_resolved_once [of ?w "''h''" approval0 "''approved''" "''fine''"] by auto
qed

section \<open>Histories of governance\<close>

text \<open>
  The calls that write the documents of governance: those of the services and of their endpoints. An
  error ends a call and the history goes on.
\<close>

datatype governance_cmd =
    CreateProposal proposal "string option"
  | ReadProposal string
  | ServiceVote vote consensus_policy governance_policy
  | ServiceExecute string obj bool
  | EndpointVote tenant_context string vote_request
  | EndpointExecute tenant_context string json json
  | ServiceResolve string string string
  | EndpointResolve tenant_context string string string
  | CreateOrg agent_org
  | CreateTeam agent_team
  | UpdateCharter charter

fun governance_call :: "veil \<Rightarrow> governance_cmd \<Rightarrow> ('z world_scheme, unit) op" where
  "governance_call v (CreateProposal p r) = bind (create_proposal v p r) (\<lambda>_. ok ())"
| "governance_call v (ReadProposal pid) = bind (get_proposal pid) (\<lambda>_. ok ())"
| "governance_call v (ServiceVote vote pol g) = bind (cast_vote vote pol g) (\<lambda>_. ok ())"
| "governance_call v (ServiceExecute pid act h) = bind (execute_proposal v pid act h) (\<lambda>_. ok ())"
| "governance_call v (EndpointVote ctx pid q) = bind (governance_proposal_vote ctx pid q) (\<lambda>_. ok ())"
| "governance_call v (EndpointExecute ctx pid res tgt) = bind (governance_proposal_execute v ctx pid res tgt) (\<lambda>_. ok ())"
| "governance_call v (ServiceResolve aid st reason) = bind (approval_resolve aid st reason) (\<lambda>_. ok ())"
| "governance_call v (EndpointResolve ctx aid st reason) = bind (resolve_governance_approval ctx aid st reason) (\<lambda>_. ok ())"
| "governance_call v (CreateOrg g) = bind (create_org g) (\<lambda>_. ok ())"
| "governance_call v (CreateTeam t) = bind (create_team t) (\<lambda>_. ok ())"
| "governance_call v (UpdateCharter c) = bind (update_charter c) (\<lambda>_. ok ())"

definition run_governance :: "veil \<Rightarrow> governance_cmd list \<Rightarrow> ('z world_scheme, unit) op" where
  "run_governance v cmds = forM (\<lambda>c. catch (governance_call v c) (\<lambda>_. ok ())) cmds"

text \<open>
  How the services file their documents: a proposal under its id and an approval under its own, both
  as the model classes write them. With \<open>Some pid\<close>, moreover, the proposal \<open>pid\<close> is there as executed
  and none of its approvals is open.
\<close>

definition open_status :: "string \<Rightarrow> bool" where
  "open_status st \<longleftrightarrow> st = ''pending'' \<or> st = ''escalated''"

definition proposals_filed :: "string option \<Rightarrow> obj dict \<Rightarrow> bool" where
  "proposals_filed x ps \<longleftrightarrow> (\<forall>k d. map_of ps k = Some d \<longrightarrow>
     (\<exists>p. d = proposal_as_dict p \<and> pr_id p = k \<and> (x = Some k \<longrightarrow> pr_status p = ''executed''))) \<and>
     (\<forall>k. x = Some k \<longrightarrow> map_of ps k \<noteq> None)"

definition approvals_filed :: "string option \<Rightarrow> obj dict \<Rightarrow> bool" where
  "approvals_filed x as \<longleftrightarrow> (\<forall>k d. map_of as k = Some d \<longrightarrow>
     (\<exists>a. d = approval_as_dict a \<and> ha_id a = k \<and> (x = Some (ha_proposal a) \<longrightarrow> \<not> open_status (ha_status a))))"

definition no_open_approval :: "string \<Rightarrow> 'z world_scheme \<Rightarrow> bool" where
  "no_open_approval pid w \<longleftrightarrow> (\<forall>aid a. stored_approval w aid a \<and> ha_proposal a = pid \<longrightarrow> \<not> open_status (ha_status a))"

definition filed :: "string option \<Rightarrow> 'z world_scheme \<Rightarrow> bool" where
  "filed x w \<longleftrightarrow> proposals_filed x (coll (w_store w) ''governance_proposals'') \<and>
     approvals_filed x (coll (w_store w) ''governance_approvals'')"

lemma proposals_filedD:
  assumes "proposals_filed x ps" "map_of ps k = Some d"
  obtains p where "d = proposal_as_dict p" "pr_id p = k" "x = Some k \<longrightarrow> pr_status p = ''executed''"
  using assms unfolding proposals_filed_def by blast

lemma approvals_filedD:
  assumes "approvals_filed x as" "map_of as k = Some d"
  obtains a where "d = approval_as_dict a" "ha_id a = k" "x = Some (ha_proposal a) \<longrightarrow> \<not> open_status (ha_status a)"
  using assms unfolding approvals_filed_def by blast

lemma proposals_filed_update:
  "proposals_filed x ps \<Longrightarrow> x \<noteq> Some (pr_id p) \<Longrightarrow> proposals_filed x (AList.update (pr_id p) (proposal_as_dict p) ps)"
  unfolding proposals_filed_def by (auto simp: update_conv')

lemma approvals_filed_update:
  "approvals_filed x as \<Longrightarrow> x \<noteq> Some (ha_proposal a) \<Longrightarrow> approvals_filed x (AList.update (ha_id a) (approval_as_dict a) as)"
  unfolding approvals_filed_def by (auto simp: update_conv')

text \<open>Every call keeps this, but for one that creates a proposal under the id \<open>pid\<close>.\<close>

definition stays_filed :: "string option \<Rightarrow> 'z world_scheme \<Rightarrow> 'z world_scheme \<Rightarrow> bool" where
  "stays_filed x w w' \<longleftrightarrow> (filed x w \<longrightarrow> filed x w')"

interpretation filed: step_contract "stays_filed x" for x
  by unfold_locales (auto simp: stays_filed_def)

named_theorems filed_steps \<open>operations that keep the documents of governance filed\<close>

lemma filed_keeps:
  assumes "keeps.steps ''governance_proposals'' m" "keeps.steps ''governance_approvals'' m"
  shows "filed.steps x m"
  using keeps.stepsD [OF assms(1)] keeps.stepsD [OF assms(2)] by (simp add: filed.steps_def stays_filed_def filed_def keeps_coll_def)

text \<open>An operation that keeps the documents and whose result the rest may rely on.\<close>

lemma filed_bind:
  fixes m :: "('z world_scheme, 'a) op"
  assumes "\<And>w. filed x w \<Longrightarrow> filed x (final m w)" "\<And>w a w'. m w = (Inr a, w') \<Longrightarrow> filed x w \<Longrightarrow> P a" "\<And>a. P a \<Longrightarrow> filed.steps x (f a)"
  shows "filed.steps x (bind m f)"
  unfolding filed.steps_def stays_filed_def
proof (intro allI impI)
  fix w :: "'z world_scheme" assume s: "filed x w"
  show "filed x (final (bind m f) w)"
  proof (cases "m w")
    case (Pair r w')
    have s': "filed x w'" using assms(1) [OF s] Pair by simp
    show ?thesis
    proof (cases r)
      case (Inr a)
      with filed.stepsD [OF assms(3) [OF assms(2) [of w a w', OF _ s]], of w'] Pair s' show ?thesis
        by (simp add: bind_apply stays_filed_def)
    qed (use Pair s' in \<open>simp add: bind_apply\<close>)
  qed
qed

lemma filed_put_proposal:
  "filed x w \<Longrightarrow> x \<noteq> Some (pr_id p) \<Longrightarrow> filed x (put_doc ''governance_proposals'' (pr_id p) (proposal_as_dict p) w)"
  by (simp add: filed_def proposals_filed_update)

lemma filed_put_approval:
  "filed x w \<Longrightarrow> x \<noteq> Some (ha_proposal a) \<Longrightarrow> filed x (put_doc ''governance_approvals'' (ha_id a) (approval_as_dict a) w)"
  by (simp add: filed_def approvals_filed_update)

lemma filed_tick: "filed x w \<Longrightarrow> filed x (tick w)"
  by (simp add: filed_def)

lemma filed_get_proposal_cases:
  assumes "filed x w"
  shows "filed x (final (get_proposal k) w)"
    "get_proposal k w = (Inr p, w') \<Longrightarrow> pr_id p = k \<and> (x = Some k \<longrightarrow> pr_status p = ''executed'')"
proof -
  have "filed x (final (get_proposal k) w) \<and>
      (\<forall>p w'. get_proposal k w = (Inr p, w') \<longrightarrow> pr_id p = k \<and> (x = Some k \<longrightarrow> pr_status p = ''executed''))"
  proof (cases "map_of (coll (w_store w) ''governance_proposals'') k")
    case None
    with assms show ?thesis by (simp add: get_proposal_missing)
  next
    case (Some d)
    with assms obtain p where p: "d = proposal_as_dict p" "pr_id p = k" "x = Some k \<longrightarrow> pr_status p = ''executed''"
      unfolding filed_def by (metis proposals_filedD)
    then have st: "stored_proposal w k p" using Some by (simp add: stored_proposal_def)
    have "filed x (put_doc ''governance_proposals'' k (proposal_as_dict (expire p w)) (tick (tick w)))" if "\<not> closed_status (pr_status p)"
      using filed_put_proposal [of x "tick (tick w)" "expire p w"] assms filed_tick p that
      by (auto simp: expire_def closed_status_def)
    with p assms show ?thesis unfolding get_proposal_stored [OF st]
      by (auto simp: filed_tick closed_status_def expire_def)
  qed
  then show "filed x (final (get_proposal k) w)"
    "get_proposal k w = (Inr p, w') \<Longrightarrow> pr_id p = k \<and> (x = Some k \<longrightarrow> pr_status p = ''executed'')" by blast+
qed

lemma filed_bind_get_proposal:
  assumes "\<And>p. pr_id p = k \<Longrightarrow> (x = Some k \<Longrightarrow> pr_status p = ''executed'') \<Longrightarrow> filed.steps x (f p)"
  shows "filed.steps x (bind (get_proposal k) f)"
  by (rule filed_bind [where P = "\<lambda>p. pr_id p = k \<and> (x = Some k \<longrightarrow> pr_status p = ''executed'')"])
    (use filed_get_proposal_cases assms in blast)+

lemma filed_bind_with_status:
  assumes "\<And>q. pr_id q = pr_id p \<Longrightarrow> filed.steps x (f q)"
  shows "filed.steps x (bind (with_status p st act) f)"
  by (rule filed_bind [where P = "\<lambda>q. pr_id q = pr_id p"])
    (auto simp: with_status_def bind_apply utc_now_apply ok_apply filed_tick assms)

lemma filed_bind_approval_get:
  fixes f :: "human_approval option \<Rightarrow> ('z world_scheme, 'a) op"
  assumes "filed.steps x (f None)"
    "\<And>a. ha_id a = k \<Longrightarrow> (x = Some (ha_proposal a) \<Longrightarrow> \<not> open_status (ha_status a)) \<Longrightarrow> filed.steps x (f (Some a))"
  shows "filed.steps x (bind (approval_get k) f)"
proof (rule filed_bind [where P = "\<lambda>r. r = None \<or> (\<exists>a. r = Some a \<and> ha_id a = k \<and> (x = Some (ha_proposal a) \<longrightarrow> \<not> open_status (ha_status a)))"])
  have get: "final (approval_get k) w = w \<and> (\<forall>r w'. approval_get k w = (Inr r, w') \<longrightarrow>
      r = None \<or> (\<exists>a. r = Some a \<and> ha_id a = k \<and> (x = Some (ha_proposal a) \<longrightarrow> \<not> open_status (ha_status a))))"
    if "filed x w" for w :: "'z world_scheme"
  proof (cases "map_of (coll (w_store w) ''governance_approvals'') k")
    case (Some d)
    with that obtain a where a: "d = approval_as_dict a" "ha_id a = k" "x = Some (ha_proposal a) \<longrightarrow> \<not> open_status (ha_status a)"
      unfolding filed_def by (metis approvals_filedD)
    with Some approval_get_stored [of w k a] show ?thesis by (auto simp: stored_approval_def)
  qed (auto simp: approval_get_def bind_apply on_get ok_apply)
  show "filed x (final (approval_get k) w)" if "filed x w" for w :: "'z world_scheme" using get [OF that] that by simp
  show "r = None \<or> (\<exists>a. r = Some a \<and> ha_id a = k \<and> (x = Some (ha_proposal a) \<longrightarrow> \<not> open_status (ha_status a)))"
    if "approval_get k w = (Inr r, w')" "filed x w" for r and w w' :: "'z world_scheme" using get [OF that(2)] that(1) by blast
qed (use assms in blast)

lemma filed_on_put [filed_steps]:
  "x \<noteq> Some (pr_id p) \<Longrightarrow> filed.steps x (on_store (mem_put ''governance_proposals'' (pr_id p) (proposal_as_dict p)))"
  "x \<noteq> Some (ha_proposal a) \<Longrightarrow> filed.steps x (on_store (mem_put ''governance_approvals'' (ha_id a) (approval_as_dict a)))"
  "c \<noteq> ''governance_proposals'' \<Longrightarrow> c \<noteq> ''governance_approvals'' \<Longrightarrow> filed.steps x (on_store (mem_put c k d))"
  by (simp_all add: filed.steps_def stays_filed_def on_put filed_put_proposal filed_put_approval) (simp add: filed_def)

lemma keeps_evaluate: "keeps.steps c (evaluate p vs pol g)"
  unfolding evaluate_def evaluate_with_def tally_def by_mode_def check_vote_def Let_def pr_expired_def
  by (intro keeps.steps_intros keeps_steps)

lemma keeps_governance_policy: "keeps.steps c (governance_policy_for ctx)"
  unfolding governance_policy_for_def policy_from_dict_def by (intro keeps.steps_intros keeps_steps)

lemma keeps_assert_tenant: "keeps.steps c (assert_governance_tenant ctx d)"
  unfolding assert_governance_tenant_def assert_tenant_def require_context_def tc_require_def Let_def
  by (auto intro!: keeps.steps_intros split: option.splits py_error.splits)

lemma filed_aside [filed_steps]:
  "filed.steps x (votes_for t pid)" "filed.steps x (evaluate p vs pol g)" "filed.steps x (es_append ty ag pay)"
  "filed.steps x (decision_build p vs cr has act ar ei)" "filed.steps x (approval_list t)" "filed.steps x utc_now" "filed.steps x uuid_hex12"
  "filed.steps x (governance_policy_for ctx)" "filed.steps x (assert_governance_tenant ctx d)"
  by (rule filed_keeps; simp add: keeps_votes_for keeps_evaluate keeps_es_append keeps_decision_build keeps_approval_list keeps_utc_now
      keeps_uuid keeps_governance_policy keeps_assert_tenant)+

lemma filed_cast_vote [filed_steps]: "filed.steps x (cast_vote v pol g)"
  unfolding cast_vote_def
  by (intro filed_bind_get_proposal filed_bind_with_status filed.steps_intros filed_steps) auto

lemma filed_execute [filed_steps]: "filed.steps x (execute_proposal v k act h)"
  unfolding execute_proposal_def execute_action_def approved_for_proposal_def
  by (intro filed_bind_get_proposal filed_bind_with_status filed.steps_intros filed_steps) auto

lemma filed_create [filed_steps]: "x \<noteq> Some (pr_id p) \<Longrightarrow> filed.steps x (create_proposal v p r)"
  unfolding create_proposal_def approval_request_def Let_def
  by (intro filed.steps_intros filed_steps) auto

lemma filed_resolve [filed_steps]: "filed.steps x (approval_resolve k st reason)"
  unfolding approval_resolve_def ha_expired_def Let_def
  by (rule filed_bind_approval_get; (intro filed.steps_intros filed_steps)?; auto simp: open_status_def intro!: filed.steps_intros filed_steps)

lemma filed_meter [filed_steps]: "filed.steps x (meter_record t k n d)"
  unfolding meter_record_def Let_def by (intro filed.steps_intros filed_steps) simp_all

lemma filed_get_proposal [filed_steps]: "filed.steps x (get_proposal k)"
  using filed_get_proposal_cases(1) by (auto simp: filed.steps_def stays_filed_def)

lemma filed_endpoints [filed_steps]:
  "filed.steps x (governance_proposal_vote ctx k q)" "filed.steps x (governance_proposal_execute v ctx k res tgt)"
  unfolding governance_proposal_vote_def governance_proposal_execute_def Let_def
  by ((auto intro!: filed.steps_intros filed_steps split: py_error.splits)+)

lemma approval_resolve_Inr:
  assumes "filed (Some (ha_proposal a)) w" "stored_approval w k a"
  shows "\<exists>m. outcome (approval_resolve k st reason) w = Inl m"
proof -
  obtain b where "approval_as_dict a = approval_as_dict b" "ha_proposal a = ha_proposal b \<longrightarrow> \<not> open_status (ha_status b)"
    using assms approvals_filedD [of "Some (ha_proposal a)"] unfolding filed_def stored_approval_def by (metis option.inject)
  then have "\<not> open_status (ha_status a)" by (simp add: approval_as_dict_def)
  then show ?thesis by (auto simp: approval_resolve_cases [OF assms(2)] open_status_def)
qed

lemma assert_governance_tenant_state: "final (assert_governance_tenant ctx d) w = w"
  by (auto simp: assert_governance_tenant_def assert_tenant_def require_context_def tc_require_def catch_apply bind_apply ok_apply
      raise_apply Let_def split: py_error.splits)

lemma filed_resolve_other:
  assumes "x \<noteq> Some (ha_proposal a)"
  shows "filed.steps x (bind (assert_governance_tenant ctx (approval_as_dict a)) (\<lambda>_.
    bind (catch (approval_resolve aid st reason) (\<lambda>e. case e of ConflictError m \<Rightarrow> raise (http_error 409 m) | _ \<Rightarrow> raise e)) (\<lambda>r.
    bind (lift (approval_event_type st)) (\<lambda>ty.
    bind (es_append ty (ha_proposal a) (approval_as_dict r)) (\<lambda>_.
    bind (get_proposal (ha_proposal a)) (\<lambda>p.
    bind (with_status p (if st = ''approved'' then ''approved'' else if st = ''rejected'' then ''rejected'' else ''escalated'') None) (\<lambda>p'.
    bind (on_store (mem_put ''governance_proposals'' (pr_id p') (proposal_as_dict p'))) (\<lambda>_. ok r))))))))"
  using assms
  by (auto intro!: filed_bind_get_proposal filed_bind_with_status filed.steps_intros filed_steps split: py_error.splits)

lemma filed_resolve_endpoint [filed_steps]: "filed.steps x (resolve_governance_approval ctx aid st reason)"
  unfolding filed.steps_def stays_filed_def
proof (intro allI impI)
  fix w :: "'z world_scheme" assume s: "filed x w"
  show "filed x (final (resolve_governance_approval ctx aid st reason) w)"
  proof (cases "map_of (coll (w_store w) ''governance_approvals'') aid")
    case None
    then show ?thesis using s by (simp add: resolve_governance_approval_def bind_apply approval_get_def on_get ok_apply raise_apply)
  next
    case (Some d)
    with s obtain a where a: "d = approval_as_dict a" "ha_id a = aid" unfolding filed_def by (metis approvals_filedD)
    then have st: "stored_approval w aid a" using Some by (simp add: stored_approval_def)
    show ?thesis
    proof (cases "x = Some (ha_proposal a)")
      case True
      then obtain m where m: "outcome (approval_resolve aid st reason) w = Inl m" using approval_resolve_Inr [of a w aid] s st by blast
      have "filed x (final (approval_resolve aid st reason) w)" using filed.stepsD [OF filed_resolve, of x w] s by (simp add: stays_filed_def)
      moreover have "\<exists>e. catch (approval_resolve aid st reason) (\<lambda>e. case e of ConflictError m \<Rightarrow> raise (http_error 409 m) | _ \<Rightarrow> raise e) w =
          (Inl e, final (approval_resolve aid st reason) w)"
        using m by (auto simp: catch_apply raise_apply split: prod.split py_error.split)
      moreover obtain t where "assert_governance_tenant ctx (approval_as_dict a) w = (t, w)"
        using assert_governance_tenant_state by (metis prod.collapse)
      ultimately show ?thesis
        using s by (cases t) (auto simp: resolve_governance_approval_def bind_apply approval_get_stored [OF st])
    next
      case False
      from filed.stepsD [OF filed_resolve_other [OF False], of w] s show ?thesis
        by (simp add: resolve_governance_approval_def bind_apply [of "approval_get aid"] approval_get_stored [OF st] stays_filed_def)
    qed
  qed
qed

lemma filed_others [filed_steps]: "filed.steps x (create_org g)" "filed.steps x (create_team t)" "filed.steps x (update_charter c)"
  unfolding create_org_def create_team_def update_charter_def by (auto intro!: filed.steps_intros filed_steps)

fun creates :: "string \<Rightarrow> governance_cmd \<Rightarrow> bool" where
  "creates pid (CreateProposal p r) \<longleftrightarrow> pr_id p = pid"
| "creates pid _ \<longleftrightarrow> False"

lemma filed_call: "(\<And>pid. x = Some pid \<Longrightarrow> \<not> creates pid c) \<Longrightarrow> filed.steps x (governance_call v c)"
  by (cases c) (auto intro!: filed.steps_intros filed_steps)

lemma filed_run: "(\<And>pid c. x = Some pid \<Longrightarrow> c \<in> set cmds \<Longrightarrow> \<not> creates pid c) \<Longrightarrow> filed.steps x (run_governance v cmds)"
  unfolding run_governance_def by (intro filed.steps_forM filed.steps_catch filed_call filed.steps_ok) auto

text \<open>The documents of governance stay filed as the services file them, whatever is called.\<close>

lemma governance_documents_run: "filed None w \<Longrightarrow> filed None (final (run_governance v cmds) w)"
  using filed.stepsD [OF filed_run, of None cmds w v] by (simp add: stays_filed_def)

lemma keeps_execute_action: "c \<noteq> ''governance_proposals'' \<Longrightarrow> c \<noteq> ''governance_decision_records'' \<Longrightarrow> c \<noteq> ''events'' \<Longrightarrow> keeps.steps c (execute_action v p act)"
  unfolding execute_action_def with_status_def
  by (auto intro!: keeps.steps_intros keeps_steps keeps_votes_for keeps_approval_list keeps_decision_build)

lemma keeps_execute: "c \<noteq> ''governance_proposals'' \<Longrightarrow> c \<noteq> ''governance_decision_records'' \<Longrightarrow> c \<noteq> ''events'' \<Longrightarrow> keeps.steps c (execute_proposal v pid act h)"
  unfolding execute_proposal_def approved_for_proposal_def get_proposal_def proposal_from_dict_def pr_expired_def with_status_def
  by (auto intro!: keeps.steps_intros keeps_steps keeps_execute_action keeps_approval_list)

lemma filed_refuses:
  assumes "filed (Some pid) w"
  shows "outcome (execute_proposal v pid act h) w = Inl (ConflictError ''proposal consensus is not finalized'')"
    "vt_proposal vote = pid \<Longrightarrow> outcome (cast_vote vote pol g) w = Inl (ConflictError ''proposal is closed'')"
proof -
  obtain d where "map_of (coll (w_store w) ''governance_proposals'') pid = Some d"
    using assms unfolding filed_def proposals_filed_def by auto
  with assms obtain p where p: "stored_proposal w pid p" "pr_status p = ''executed''"
    unfolding filed_def stored_proposal_def by (metis proposals_filedD)
  show "outcome (execute_proposal v pid act h) w = Inl (ConflictError ''proposal consensus is not finalized'')"
    by (rule execute_not_approved [OF p(1)]) (simp add: p)
  show "outcome (cast_vote vote pol g) w = Inl (ConflictError ''proposal is closed'')" if "vt_proposal vote = pid"
    using cast_vote_closed [of w vote p pol g] that p by (simp add: closed_status_def)
qed

lemma executed_filed:
  assumes "filed None w" "no_open_approval pid w" "stored_proposal w pid p" "execute_proposal v pid act h w = (Inr r, w')"
  shows "filed (Some pid) w'"
proof -
  obtain p' where p': "map_of (coll (w_store w') ''governance_proposals'') pid = Some (proposal_as_dict p')" "pr_id p' = pid" "pr_status p' = ''executed''"
    using execute_proposal_Inr [OF assms(3,4)] by (auto simp: stored_proposal_def)
  have "filed None w'"
    using filed.stepsD [OF filed_execute, of None w] assms(1,4) by (simp add: stays_filed_def) (metis snd_conv)
  then have "proposals_filed None (coll (w_store w') ''governance_proposals'')" by (simp add: filed_def)
  with p' have "proposals_filed (Some pid) (coll (w_store w') ''governance_proposals'')"
    unfolding proposals_filed_def by (metis not_None_eq option.inject)
  moreover have "coll (w_store w') ''governance_approvals'' = coll (w_store w) ''governance_approvals''"
    using keeps.stepsD [OF keeps_execute, of "''governance_approvals''" w] assms(4) by (simp add: keeps_coll_def) (metis snd_conv)
  moreover have "approvals_filed (Some pid) (coll (w_store w) ''governance_approvals'')"
    using assms(1,2) unfolding filed_def approvals_filed_def no_open_approval_def stored_approval_def by (metis option.inject)
  ultimately show ?thesis by (simp add: filed_def)
qed

text \<open>
  C10. A proposal is executed only with its approvals, and once: an execution that returns found the
  stored proposal approved and not expired, a granted human approval where one is required, and
  VEIL's consent; it leaves the proposal executed with the action and a decision record, and the
  next execution of it and the next vote on it are refused. When the documents are filed as the
  services file them and no human approval of the proposal is still open, they are refused for good:
  after any history of calls of the services and endpoints, failing ones included, that creates no
  proposal under the same id. An open approval can reopen the proposal.
\<close>

theorem executed_with_approval_and_once:
  assumes "stored_proposal w pid p" "execute_proposal v pid act h w = (Inr r, w')"
  shows "pr_status p = ''approved'' \<and> now w \<le> pr_expires_at p \<and>
    (h \<longrightarrow> outcome (approved_for_proposal (pr_tenant p) pid) (tick w) = Inr True) \<and>
    (\<exists>m. v_check v (pr_agent p) (''governance.execute.'' @ pr_action_type p)
       (proposal_as_dict (pr_norm p) @ [(''action_payload'', JObj act)]) = Inr (True, m)) \<and>
    (\<exists>p'. stored_proposal w' pid p' \<and> pr_status p' = ''executed'' \<and> pr_executed p' = Some act) \<and>
    map_of (coll (w_store w') ''governance_decision_records'') pid = Some (decision_as_dict r) \<and>
    outcome (execute_proposal v' pid act' h') w' = Inl (ConflictError ''proposal consensus is not finalized'') \<and>
    (vt_proposal vote = pid \<longrightarrow> outcome (cast_vote vote pol g) w' = Inl (ConflictError ''proposal is closed'')) \<and>
    (filed None w \<and> no_open_approval pid w \<and> (\<forall>c \<in> set cmds. \<not> creates pid c) \<longrightarrow>
       outcome (execute_proposal v' pid act' h') (final (run_governance v' cmds) w') =
         Inl (ConflictError ''proposal consensus is not finalized'') \<and>
       (vt_proposal vote = pid \<longrightarrow>
         outcome (cast_vote vote pol g) (final (run_governance v' cmds) w') = Inl (ConflictError ''proposal is closed'')))"
proof -
  note ok = execute_proposal_Inr [OF assms]
  then obtain p' where p': "stored_proposal w' pid p'" "pr_status p' = ''executed''" by blast
  have now: "outcome (execute_proposal v' pid act' h') w' = Inl (ConflictError ''proposal consensus is not finalized'')"
    "vt_proposal vote = pid \<longrightarrow> outcome (cast_vote vote pol g) w' = Inl (ConflictError ''proposal is closed'')"
    using execute_not_approved [OF p'(1)] cast_vote_closed [of w' vote p' pol g] p' by (simp_all add: closed_status_def)
  have "filed (Some pid) (final (run_governance v' cmds) w')"
    if "filed None w \<and> no_open_approval pid w \<and> (\<forall>c \<in> set cmds. \<not> creates pid c)"
    using filed.stepsD [OF filed_run, of "Some pid" cmds w' v'] executed_filed [OF _ _ assms] that by (auto simp: stays_filed_def)
  note later = filed_refuses [OF this]
  show ?thesis by (intro conjI impI) (use ok now later in blast)+
qed

lemma approved_world_filed: "filed None approved_world" "no_open_approval ''p'' approved_world"
proof -
  have c: "coll (w_store approved_world) ''governance_proposals'' = [(''p'', proposal_as_dict (proposal0\<lparr>pr_status := ''approved''\<rparr>))]"
    "coll (w_store approved_world) ''governance_approvals'' = []"
    by (simp_all add: approved_world_def world0_def) (simp_all add: coll_def)
  have "pr_id (proposal0\<lparr>pr_status := ''approved''\<rparr>) = ''p''" by (simp add: proposal0_def)
  then show "filed None approved_world" by (auto simp: filed_def c proposals_filed_def approvals_filed_def split: if_splits)
  show "no_open_approval ''p'' approved_world" by (simp add: no_open_approval_def stored_approval_def c)
qed

theorem executed_with_approval_and_once_witness:
  "\<exists>r w'. execute_proposal mock_veil ''p'' [] False approved_world = (Inr r, w') \<and>
     outcome (execute_proposal mock_veil ''p'' [] False) w' = Inl (ConflictError ''proposal consensus is not finalized'') \<and>
     outcome (execute_proposal mock_veil ''p'' [] False)
       (final (run_governance mock_veil [ReadProposal ''p'', CreateProposal (proposal0\<lparr>pr_id := ''q''\<rparr>) None, EndpointResolve context0 ''h'' ''approved'' []]) w')
       = Inl (ConflictError ''proposal consensus is not finalized'')"
proof -
  obtain r w' where ex: "execute_proposal mock_veil ''p'' [] False approved_world = (Inr r, w')"
    using execute_example by blast
  let ?cmds = "[ReadProposal ''p'', CreateProposal (proposal0\<lparr>pr_id := ''q''\<rparr>) None, EndpointResolve context0 ''h'' ''approved'' []]"
  have "\<forall>c \<in> set ?cmds. \<not> creates ''p'' c" by simp
  with ex show ?thesis
    using executed_with_approval_and_once [OF approved_world_stored ex, of mock_veil "[]" False _ _ _ ?cmds] approved_world_filed by blast
qed

section \<open>Votes in the store\<close>

definition votes_ok :: "'z world_scheme \<Rightarrow> bool" where
  "votes_ok w \<longleftrightarrow> is_dict (coll (w_store w) ''governance_votes'') \<and>
     (\<forall>d \<in> snd ` set (coll (w_store w) ''governance_votes''). \<exists>v. d = vote_as_dict v)"

lemma mapM_round_trip: "(\<And>x s. f (h x) s = (Inr x, s)) \<Longrightarrow> mapM f (map h xs) s = (Inr xs, s)"
  by (induction xs) (simp_all add: op_simps)

lemma votes_for_ok:
  assumes "votes_ok w"
  shows "\<exists>vs. votes_for t pid w = (Inr vs, w) \<and>
    (\<forall>u. u \<in> set vs \<longleftrightarrow> vt_tenant u = t \<and> vt_proposal u = pid \<and>
       vote_as_dict u \<in> snd ` set (coll (w_store w) ''governance_votes''))"
proof -
  let ?docs = "map snd (sorted_items (coll (w_store w) ''governance_votes''))"
  have "\<forall>d \<in> set ?docs. \<exists>v. d = vote_as_dict v" using assms by (auto simp: votes_ok_def)
  then obtain us where us: "?docs = map vote_as_dict us" unfolding ex_map_conv [symmetric] by metis
  have inj: "a = b" if "vote_as_dict a = vote_as_dict b" for a b
    using vote_round_trip [of a w] vote_round_trip [of b w] unfolding that by simp
  have doc: "doc_tenant t (vote_as_dict u) \<longleftrightarrow> vt_tenant u = t" "map_of (vote_as_dict u) ''proposal_id'' = Some (JStr (vt_proposal u))" for u
    by (simp_all add: doc_tenant_def vote_as_dict_def)
  let ?vs = "filter (\<lambda>u. vt_proposal u = pid) (filter (\<lambda>u. vt_tenant u = t) us)"
  have listed: "map snd (filter (\<lambda>(k, v). doc_tenant t v) (sorted_items (coll (w_store w) ''governance_votes''))) =
      filter (doc_tenant t) ?docs"
    by (simp add: filter_map comp_def case_prod_unfold)
  have "votes_for t pid w = mapM vote_from_dict (map vote_as_dict ?vs) w"
    unfolding votes_for_def bind_apply on_store_def mem_list_tenant_def gets_apply prod.case sum.case listed us
    by (simp add: filter_map comp_def doc)
  then have "votes_for t pid w = (Inr ?vs, w)" by (simp add: mapM_round_trip)
  moreover have "vote_as_dict u \<in> snd ` set (coll (w_store w) ''governance_votes'') \<longleftrightarrow> u \<in> set us" for u
  proof -
    have "snd ` set (coll (w_store w) ''governance_votes'') = set ?docs" by simp
    then show ?thesis unfolding us using inj by auto
  qed
  ultimately show ?thesis by auto
qed

lemma votes_ok_put:
  assumes "votes_ok w"
  shows "votes_ok (put_doc ''governance_votes'' k (vote_as_dict v) w)"
  using assms by (fastforce simp: votes_ok_def mem_update_dict split: if_splits)

definition poisoned :: "'z world_scheme \<Rightarrow> proposal \<Rightarrow> bool" where
  "poisoned w p \<longleftrightarrow> (\<exists>k u. map_of (coll (w_store w) ''governance_votes'') k = Some (vote_as_dict u) \<and>
     vt_tenant u = pr_tenant p \<and> vt_proposal u = pr_id p \<and> \<not> valid_vote u)"

definition open_for_votes :: "'z world_scheme \<Rightarrow> proposal \<Rightarrow> governance_policy \<Rightarrow> bool" where
  "open_for_votes w p g \<longleftrightarrow> stored_proposal w (pr_id p) p \<and> votes_ok w \<and> (\<forall>n. w_clock w n \<le> pr_expires_at p) \<and>
     pr_status p \<notin> {''executed'', ''rejected'', ''expired''} \<and> risk_within_agent_authority g (pr_risk p)"

text \<open>The state in which \<^verbatim>\<open>cast_vote\<close> evaluates: the vote is stored and recorded.\<close>

definition vote_cast :: "vote \<Rightarrow> string \<Rightarrow> 'z world_scheme \<Rightarrow> 'z world_scheme" where
  "vote_cast v pid w = final (es_append ''governance.vote.cast'' pid (vote_as_dict v)) (put_doc ''governance_votes'' (vt_id v) (vote_as_dict v) (tick w))"

lemma vote_cast_simps [simp]:
  "coll (w_store (vote_cast v pid w)) ''governance_votes'' = AList.update (vt_id v) (vote_as_dict v) (coll (w_store w) ''governance_votes'')"
  "coll (w_store (vote_cast v pid w)) ''governance_proposals'' = coll (w_store w) ''governance_proposals''"
  "w_clock (vote_cast v pid w) = w_clock w"
  by (simp_all add: vote_cast_def es_append_registered registered_governance events_put_def coll_mem_put put_doc_def tick_def)

lemma evaluate_poisoned:
  assumes "\<forall>n. w_clock w n \<le> pr_expires_at p" "risk_within_agent_authority g (pr_risk p)" "u \<in> set vs" "\<not> valid_vote u"
  shows "\<exists>e. evaluate p vs pol g w = (Inl e, tick w)"
proof -
  have "\<not> now w > pr_expires_at p" using assms(1) by (simp add: not_less)
  moreover have "vs \<noteq> []" using assms(3) by auto
  moreover have "pr_expired p w = (Inr (now w > pr_expires_at p), tick w)"
    by (simp add: pr_expired_def bind_apply utc_now_apply ok_apply)
  ultimately have "\<exists>f. evaluate p vs pol g w = bind (forM check_vote vs) f (tick w)"
    unfolding evaluate_def using assms(2) by (subst evaluate_with_def) (auto simp: bind_apply [of "pr_expired p"])
  then show ?thesis using check_votes_Inl [OF assms(3,4)] by metis
qed

lemma cast_vote_poisoned:
  assumes "open_for_votes w p g" "vt_proposal v = pr_id p" "pr_risk p \<notin> {''high'', ''critical''} \<or> gp_self_approval g"
    "poisoned (vote_cast v (pr_id p) w) p"
  shows "\<exists>e. cast_vote v pol g w = (Inl e, tick (vote_cast v (pr_id p) w))"
proof -
  have st: "stored_proposal w (vt_proposal v) p" using assms(1,2) by (simp add: open_for_votes_def)
  have early: "\<not> now w > pr_expires_at p" using assms(1) by (auto simp: open_for_votes_def not_less)
  have g: "get_proposal (vt_proposal v) w = (Inr (pr_norm p), tick w)"
    unfolding get_proposal_stored [OF st] using early by simp
  let ?w = "vote_cast v (pr_id p) w"
  have "votes_ok ?w"
    using votes_ok_put [of w "vt_id v" v] assms(1) by (simp add: votes_ok_def open_for_votes_def)
  then obtain vs where vs: "votes_for (pr_tenant p) (pr_id p) ?w = (Inr vs, ?w)"
    "\<And>u. u \<in> set vs \<longleftrightarrow> vt_tenant u = pr_tenant p \<and> vt_proposal u = pr_id p \<and>
       vote_as_dict u \<in> snd ` set (coll (w_store ?w) ''governance_votes'')"
    using votes_for_ok by blast
  obtain k u where u: "map_of (coll (w_store ?w) ''governance_votes'') k = Some (vote_as_dict u)"
      "vt_tenant u = pr_tenant p" "vt_proposal u = pr_id p" "\<not> valid_vote u"
    using assms(4) unfolding poisoned_def by blast
  have "vote_as_dict u \<in> snd ` set (coll (w_store ?w) ''governance_votes'')"
    using map_of_SomeD [OF u(1)] by (metis image_eqI snd_conv)
  then have "u \<in> set vs" "\<not> valid_vote u" using u vs(2) by blast+
  then obtain e where e: "evaluate (pr_norm p) vs pol g ?w = (Inl e, tick ?w)"
    using evaluate_poisoned [of ?w "pr_norm p" g u vs pol] assms(1) by (auto simp: open_for_votes_def)
  obtain ev where ev: "es_append ''governance.vote.cast'' (pr_id p) (vote_as_dict v)
      (put_doc ''governance_votes'' (vt_id v) (vote_as_dict v) (tick w)) = (Inr ev, ?w)"
    by (simp add: vote_cast_def es_append_registered registered_governance)
  show ?thesis
    using assms(1,3)
    by (simp add: cast_vote_def bind_apply g on_put ev vs(1) e open_for_votes_def) blast
qed

text \<open>
  One unauthorized vote blocks a proposal for good: \<^verbatim>\<open>cast_vote\<close> stores a vote before it checks the
  voter's role, so on an open proposal of low or medium risk a vote with an unauthorized role raises
  and stays stored, and from then on every vote on the proposal raises.
\<close>

theorem unauthorized_vote_blocks_proposal:
  assumes "open_for_votes w p g" "pr_risk p \<notin> {''high'', ''critical''}"
    "vt_proposal u = pr_id p" "vt_tenant u = pr_tenant p" "vt_role u \<notin> set authorized_voting_roles"
    "vt_proposal v = pr_id p" "vt_id v \<noteq> vt_id u"
  shows "(\<exists>e. outcome (cast_vote u pol g) w = Inl e) \<and>
    (\<exists>e. outcome (cast_vote v pol' g) (final (cast_vote u pol g) w) = Inl e)"
proof -
  let ?w1 = "tick (vote_cast u (pr_id p) w)"
  have bad: "\<not> valid_vote u" using assms(5) by (simp add: valid_vote_def)
  have "poisoned (vote_cast u (pr_id p) w) p" using assms(3,4) bad by (auto simp: poisoned_def)
  with cast_vote_poisoned [OF assms(1,3)] assms(2) obtain e where 1: "cast_vote u pol g w = (Inl e, ?w1)" by blast
  have "open_for_votes ?w1 p g"
    using assms(1) votes_ok_put [of w "vt_id u" u] by (simp add: open_for_votes_def stored_proposal_def votes_ok_def)
  moreover have "poisoned (vote_cast v (pr_id p) ?w1) p"
    using assms(3,4,7) bad by (auto simp: poisoned_def)
  ultimately obtain e' where "cast_vote v pol' g ?w1 = (Inl e', tick (vote_cast v (pr_id p) ?w1))"
    using cast_vote_poisoned [of ?w1 p g v pol'] assms(2,6) by blast
  with 1 show ?thesis by simp
qed

definition voting_world :: world where
  "voting_world = put_doc ''governance_proposals'' ''p'' (proposal_as_dict proposal0) (world0\<lparr>w_clock := \<lambda>_. dt 0\<rparr>)"

lemma voting_world_open: "open_for_votes voting_world proposal0 (default_policy context0)"
proof -
  have "risk_within_agent_authority (default_policy context0) ''low''" by code_simp
  then show ?thesis
    by (simp add: open_for_votes_def voting_world_def stored_proposal_def votes_ok_def proposal0_def put_doc_def coll_mem_put
        world0_def coll_def [of "[]"] less_eq_datetime_def)
qed

theorem unauthorized_vote_blocks_proposal_witness:
  "\<exists>e. outcome (cast_vote (vote0 ''2'' ''planner'' ''approve'') policy0 (default_policy context0))
     (final (cast_vote (vote0 ''1'' ''observer'' ''approve'') policy0 (default_policy context0)) voting_world) = Inl e"
  using unauthorized_vote_blocks_proposal [OF voting_world_open, of "vote0 ''1'' ''observer'' ''approve''" "vote0 ''2'' ''planner'' ''approve''" policy0 policy0]
  by (simp add: proposal0_def vote0_def authorized_voting_roles_def)

text \<open>
  The guards of \<^verbatim>\<open>cast_vote\<close>: on an unknown proposal it raises \<^verbatim>\<open>NotFoundError\<close>, on an executed,
  rejected or expired one \<^verbatim>\<open>ConflictError\<close>, and on the proposer's own proposal of high or critical
  risk \<^verbatim>\<open>AuthorizationError\<close> unless the policy allows self-approval; in each case no vote is stored.
\<close>

theorem cast_vote_guarded:
  assumes "map_of (coll (w_store w) ''governance_proposals'') (vt_proposal v) = None \<or>
    stored_proposal w (vt_proposal v) p \<and>
      (pr_status p \<in> {''executed'', ''rejected'', ''expired''} \<or> now w > pr_expires_at p \<or>
       pr_risk p \<in> {''high'', ''critical''} \<and> vt_agent v = pr_agent p \<and> \<not> gp_self_approval g)"
  shows "(\<exists>m. outcome (cast_vote v pol g) w \<in> {Inl (NotFoundError m), Inl (ConflictError m), Inl (AuthorizationError m)}) \<and>
    coll (w_store (final (cast_vote v pol g) w)) ''governance_votes'' = coll (w_store w) ''governance_votes''"
proof (cases "map_of (coll (w_store w) ''governance_proposals'') (vt_proposal v)")
  case None
  then show ?thesis by (auto simp: cast_vote_def bind_apply get_proposal_missing)
next
  case (Some d)
  then have st: "stored_proposal w (vt_proposal v) p" using assms by auto
  show ?thesis
    using assms Some
    by (auto simp: cast_vote_def bind_apply get_proposal_stored [OF st] raise_apply expire_def closed_status_def)
qed

theorem cast_vote_guarded_witness:
  "\<exists>m. outcome (cast_vote (vote0 ''1'' ''planner'' ''approve'') policy0 (default_policy context0)) world0
     \<in> {Inl (NotFoundError m), Inl (ConflictError m), Inl (AuthorizationError m)}"
  using cast_vote_guarded [of world0 "vote0 ''1'' ''planner'' ''approve''" proposal0 "default_policy context0" policy0]
  by (simp add: world0_def coll_def)

lemma assert_tenant_own:
  assumes "tc_tenant ctx \<noteq> []" "tc_organization ctx \<noteq> []" "tc_principal ctx \<noteq> []"
    "map_of d ''tenant_id'' = Some (JStr (tc_tenant ctx))"
  shows "assert_governance_tenant ctx d w = (Inr (), w)"
  using assms
  by (simp add: assert_governance_tenant_def assert_tenant_def require_context_def tc_require_def catch_apply bind_apply ok_apply
      get_or_def)

text \<open>
  C20. A human approval reopens a closed proposal: resolving a pending approval of an executed or
  rejected proposal as approved returns and stores the proposal as approved again.
\<close>

theorem approval_reopens_closed_proposal:
  assumes "stored_approval w aid a" "ha_status a = ''pending''" "now w \<le> ha_expires_at a"
    "stored_proposal w (ha_proposal a) p" "pr_status p = ''executed'' \<or> pr_status p = ''rejected''"
    "ha_tenant a = tc_tenant ctx" "tc_tenant ctx \<noteq> []" "tc_organization ctx \<noteq> []" "tc_principal ctx \<noteq> []"
  shows "\<exists>r p'. outcome (resolve_governance_approval ctx aid ''approved'' reason) w = Inr r \<and>
    stored_proposal (final (resolve_governance_approval ctx aid ''approved'' reason) w) (ha_proposal a) p' \<and>
    pr_status p' = ''approved''"
proof -
  have tenant: "map_of (approval_as_dict a) ''tenant_id'' = Some (JStr (tc_tenant ctx))"
    using assms(6) by (simp add: approval_as_dict_def)
  define r where "r = a\<lparr>ha_status := ''approved'', ha_reason := reason, ha_resolved_at := Some (now (tick w))\<rparr>"
  define w1 where "w1 = put_doc ''governance_approvals'' aid (approval_as_dict r) (tick (tick w))"
  have r: "approval_resolve aid ''approved'' reason w = (Inr r, w1)"
      "coll (w_store w1) ''governance_proposals'' = coll (w_store w) ''governance_proposals''"
    using assms(2,3) by (auto simp: approval_resolve_cases [OF assms(1)] Let_def r_def w1_def)
  define w2 where "w2 = final (es_append ''governance.human_approval.granted'' (ha_proposal a) (approval_as_dict r)) w1"
  obtain e where e: "es_append ''governance.human_approval.granted'' (ha_proposal a) (approval_as_dict r) w1 = (Inr e, w2)"
    unfolding w2_def by (simp add: es_append_registered registered_governance)
  have "coll (w_store w2) ''governance_proposals'' = coll (w_store w) ''governance_proposals''"
    using keeps.stepsD [OF keeps_es_append, of "''governance_proposals''" w1 "''governance.human_approval.granted''" "ha_proposal a" "approval_as_dict r"] r(2)
    by (simp add: keeps_coll_def w2_def)
  then have st2: "stored_proposal w2 (ha_proposal a) p" using assms(4) by (simp add: stored_proposal_def)
  have g: "get_proposal (ha_proposal a) w2 = (Inr (pr_norm p), tick w2)"
    using assms(5) by (auto simp: get_proposal_stored [OF st2] closed_status_def)
  define p' where "p' = (pr_norm p)\<lparr>pr_status := ''approved'', pr_updated_at := now (tick w2)\<rparr>"
  have "pr_id p = ha_proposal a" using assms(4) by (simp add: stored_proposal_def)
  moreover have "resolve_governance_approval ctx aid ''approved'' reason w =
      (Inr r, put_doc ''governance_proposals'' (pr_id p') (proposal_as_dict p') (tick (tick w2)))"
    by (simp add: resolve_governance_approval_def bind_apply approval_get_stored [OF assms(1)] assert_tenant_own [OF assms(7-9) tenant]
        catch_apply r(1) approval_event_type_def lift_apply e g with_status_def utc_now_apply ok_apply on_put p'_def)
  ultimately show ?thesis
    by (intro exI [of _ r] exI [of _ p']) (simp add: stored_proposal_def p'_def)
qed

definition rejected_world :: world where
  "rejected_world = put_doc ''governance_approvals'' ''h'' (approval_as_dict approval0)
     (put_doc ''governance_proposals'' ''p'' (proposal_as_dict (proposal0\<lparr>pr_status := ''rejected''\<rparr>)) world0)"

theorem approval_reopens_closed_proposal_witness:
  "\<exists>r p'. outcome (resolve_governance_approval context0 ''h'' ''approved'' ''ok'') rejected_world = Inr r \<and>
    stored_proposal (final (resolve_governance_approval context0 ''h'' ''approved'' ''ok'') rejected_world) ''p'' p' \<and>
    pr_status p' = ''approved''"
proof -
  have "stored_approval rejected_world ''h'' approval0" "stored_proposal rejected_world ''p'' (proposal0\<lparr>pr_status := ''rejected''\<rparr>)"
    by (simp_all add: rejected_world_def stored_approval_def stored_proposal_def approval0_def proposal0_def)
  moreover have "now rejected_world \<le> ha_expires_at approval0"
    by (simp add: rejected_world_def put_doc_def world0_def approval0_def less_eq_datetime_def)
  ultimately show ?thesis
    using approval_reopens_closed_proposal [of rejected_world "''h''" approval0 "proposal0\<lparr>pr_status := ''rejected''\<rparr>" context0 "''ok''"]
    by (simp add: approval0_def proposal0_def context0_def)
qed

end
