(* ===== verification/Cloud_Queue.thy ===== *)
theory Cloud_Queue
  imports Tenancy
begin

text \<open>
  The jobs of the cloud runtime and their queues (\<^verbatim>\<open>agentfabric/cloud/job.py\<close>, \<^verbatim>\<open>job_queue.py\<close> and
  \<^verbatim>\<open>queue_backends\<close>): the in-memory queue, the queue that also writes its jobs to an SQLite store, and
  the contract both meet. The queue over a Redis server is not modelled: its state is the server's.
\<close>

section \<open>Jobs\<close>

definition runtime_job_types :: "string list" where
  "runtime_job_types = [
    ''agent_run'', ''workflow_step'', ''mesh_message_delivery'', ''governance_action'', ''marketplace_package'',
    ''recovery'', ''memory_retention'', ''audit_export'', ''reputation_recalculation'', ''remote_discovery_sync'',
    ''federated_message_send'', ''federated_message_receipt'', ''remote_delegation'', ''revocation_propagation'',
    ''federation_reputation_recalculation'', ''connector_sync'', ''connector_search'', ''connector_document_fetch'',
    ''connector_event_ingestion'', ''connector_webhook_handling'', ''connector_credential_rotation_check'',
    ''tool_execution'', ''tool_retry'', ''tool_approval_pause'', ''tool_result_persistence'', ''tool_audit_export'',
    ''tool_reputation_update'', ''evaluation_run'', ''evaluation_gate_check'', ''feedback_ingestion'',
    ''quality_score_recalculation'']"

record runtime_job =
  jb_tenant :: string
  jb_organization :: string
  jb_created_by :: string
  jb_type :: string
  jb_payload :: obj
  jb_queue :: string
  jb_max_attempts :: int
  jb_id :: string
  jb_status :: string
  jb_attempts :: int
  jb_worker :: "string option"
  jb_error :: string
  jb_created_at :: datetime
  jb_updated_at :: datetime
  jb_started_at :: "datetime option"
  jb_completed_at :: "datetime option"

text \<open>\<^verbatim>\<open>str.lower\<close> on the characters of the model: the letters of ASCII and of Latin-1.\<close>

definition lower_char :: "char \<Rightarrow> char" where
  "lower_char c = (let n = of_char c :: nat in
     if 65 \<le> n \<and> n \<le> 90 \<or> 192 \<le> n \<and> n \<le> 222 \<and> n \<noteq> 215 then char_of (n + 32) else c)"

definition lower :: "string \<Rightarrow> string" where
  "lower s = map lower_char s"

definition sensitive_keys :: "string list" where
  "sensitive_keys = [''secret'', ''raw'', ''password'', ''token_value'']"

definition job_validate :: "runtime_job \<Rightarrow> ('s, unit) op" where
  "job_validate j =
     (if jb_tenant j = [] \<or> jb_organization j = [] then raise (ValueError ''tenant context is required'')
      else if \<not> List.member runtime_job_types (jb_type j) then raise (ValueError (''unsupported job type: '' @ jb_type j))
      else if list_ex (\<lambda>(k, _). List.member sensitive_keys (lower k)) (jb_payload j)
      then raise (ValueError ''raw sensitive job payload values are not allowed'')
      else ok ())"

definition job_as_dict :: "runtime_job \<Rightarrow> obj" where
  "job_as_dict j = [
     (''job_id'', JStr (jb_id j)),
     (''tenant_id'', JStr (jb_tenant j)),
     (''organization_id'', JStr (jb_organization j)),
     (''created_by'', JStr (jb_created_by j)),
     (''job_type'', JStr (jb_type j)),
     (''payload'', JObj (jb_payload j)),
     (''queue_name'', JStr (jb_queue j)),
     (''max_attempts'', JInt (jb_max_attempts j)),
     (''status'', JStr (jb_status j)),
     (''attempts'', JInt (jb_attempts j)),
     (''assigned_worker_id'', opt_json (jb_worker j)),
     (''last_error'', JStr (jb_error j)),
     (''created_at'', JStr (isoformat (jb_created_at j))),
     (''updated_at'', JStr (isoformat (jb_updated_at j))),
     (''started_at'', time_json (jb_started_at j)),
     (''completed_at'', time_json (jb_completed_at j))]"

definition job_from_dict :: "obj \<Rightarrow> ('z world_scheme, runtime_job) op" where
  "job_from_dict d =
     bind (lift (req_str d ''job_id'')) (\<lambda>i.
     bind (lift (req_str d ''tenant_id'')) (\<lambda>t.
     bind (lift (req_str d ''organization_id'')) (\<lambda>orgn.
     bind (lift (req_str d ''job_type'')) (\<lambda>ty.
     bind (lift (dict_or d ''payload'')) (\<lambda>p.
     bind (lift (int_or d ''max_attempts'' 3)) (\<lambda>mx.
     bind (lift (int_or d ''attempts'' 0)) (\<lambda>at.
     bind (time_or_now d ''created_at'') (\<lambda>ca.
     bind (time_or_now d ''updated_at'') (\<lambda>ua.
     bind (lift (opt_time d ''started_at'')) (\<lambda>sa.
     bind (lift (opt_time d ''completed_at'')) (\<lambda>co.
     ok \<lparr>jb_tenant = t, jb_organization = orgn, jb_created_by = str_or d ''created_by'' [], jb_type = ty, jb_payload = p,
         jb_queue = str_or d ''queue_name'' ''default'', jb_max_attempts = mx, jb_id = i,
         jb_status = str_or d ''status'' ''queued'', jb_attempts = at, jb_worker = opt_str d ''assigned_worker_id'',
         jb_error = str_or d ''last_error'' [], jb_created_at = ca, jb_updated_at = ua, jb_started_at = sa,
         jb_completed_at = co\<rparr>)))))))))))"

text \<open>\<^verbatim>\<open>with_update(**updates)\<close> goes through the dictionary form of the job.\<close>

definition with_update :: "obj \<Rightarrow> runtime_job \<Rightarrow> ('z world_scheme, runtime_job) op" where
  "with_update updates j =
     bind utc_now (\<lambda>now.
     job_from_dict (AList.update ''updated_at'' (JStr (isoformat now))
       (foldl (\<lambda>d (k, v). AList.update k v d) (job_as_dict j) updates)))"

section \<open>The queue in memory\<close>

record memory_job_queue =
  q_jobs :: "runtime_job dict"
  q_queues :: "string list dict"
  q_dead :: "runtime_job dict"

record cworld = tworld +
  w_queue :: memory_job_queue
  w_queue_db :: sqlite_db

definition q_update :: "(memory_job_queue \<Rightarrow> memory_job_queue) \<Rightarrow> ('z cworld_scheme, unit) op" where
  "q_update f = modify (\<lambda>w. w\<lparr>w_queue := f (w_queue w)\<rparr>)"

definition set_job :: "runtime_job \<Rightarrow> memory_job_queue \<Rightarrow> memory_job_queue" where
  "set_job j q = q\<lparr>q_jobs := AList.update (jb_id j) j (q_jobs q)\<rparr>"

definition queue_ids :: "string \<Rightarrow> memory_job_queue \<Rightarrow> string list" where
  "queue_ids name q = (case map_of (q_queues q) name of None \<Rightarrow> [] | Some ids \<Rightarrow> ids)"

definition set_queue :: "string \<Rightarrow> string list \<Rightarrow> memory_job_queue \<Rightarrow> memory_job_queue" where
  "set_queue name ids q = q\<lparr>q_queues := AList.update name ids (q_queues q)\<rparr>"

definition new_queue :: "memory_job_queue" where
  "new_queue = \<lparr>q_jobs = [], q_queues = [], q_dead = []\<rparr>"

definition mq_enqueue :: "runtime_job \<Rightarrow> ('z cworld_scheme, runtime_job) op" where
  "mq_enqueue j =
     bind (job_validate j) (\<lambda>_.
     bind (with_update [(''status'', JStr ''queued'')] j) (\<lambda>queued.
     bind (q_update (set_job queued)) (\<lambda>_.
     bind (q_update (\<lambda>q. set_queue (jb_queue queued) (queue_ids (jb_queue queued) q @ [jb_id queued]) q)) (\<lambda>_.
     ok queued))))"

fun mq_dequeue_loop :: "nat \<Rightarrow> string option \<Rightarrow> string \<Rightarrow> ('z cworld_scheme, runtime_job option) op" where
  "mq_dequeue_loop 0 tenant name = ok None"
| "mq_dequeue_loop (Suc n) tenant name =
     bind (gets w_queue) (\<lambda>q. case queue_ids name q of
       [] \<Rightarrow> raise (OtherError ''pop from an empty deque'')
     | i # rest \<Rightarrow>
         bind (q_update (set_queue name rest)) (\<lambda>_.
         case map_of (q_jobs q) i of
           None \<Rightarrow> mq_dequeue_loop n tenant name
         | Some j \<Rightarrow>
             if jb_status j \<noteq> ''queued'' then mq_dequeue_loop n tenant name
             else if tenant \<noteq> None \<and> tenant \<noteq> Some (jb_tenant j)
             then bind (q_update (\<lambda>q. set_queue name (queue_ids name q @ [i]) q)) (\<lambda>_. mq_dequeue_loop n tenant name)
             else
               bind (with_update [(''status'', JStr ''assigned''), (''attempts'', JInt (jb_attempts j + 1))] j) (\<lambda>leased.
               bind (q_update (\<lambda>q. q\<lparr>q_jobs := AList.update i leased (q_jobs q)\<rparr>)) (\<lambda>_.
               ok (Some leased)))))"

definition mq_dequeue :: "string option \<Rightarrow> string \<Rightarrow> ('z cworld_scheme, runtime_job option) op" where
  "mq_dequeue tenant name =
     bind (q_update (\<lambda>q. q\<lparr>q_queues := setdefault name [] (q_queues q)\<rparr>)) (\<lambda>_.
     bind (gets w_queue) (\<lambda>q. mq_dequeue_loop (length (queue_ids name q)) tenant name))"

definition enlist :: "runtime_job \<Rightarrow> memory_job_queue \<Rightarrow> memory_job_queue" where
  "enlist j q = (if List.member (queue_ids (jb_queue j) q) (jb_id j) then q\<lparr>q_queues := setdefault (jb_queue j) [] (q_queues q)\<rparr>
     else set_queue (jb_queue j) (queue_ids (jb_queue j) q @ [jb_id j]) q)"

definition mq_put :: "runtime_job \<Rightarrow> ('z cworld_scheme, runtime_job) op" where
  "mq_put j =
     bind (q_update (set_job j)) (\<lambda>_.
     bind (if jb_status j = ''queued'' then q_update (enlist j) else ok ()) (\<lambda>_.
     ok j))"

definition mq_get :: "string \<Rightarrow> ('z cworld_scheme, runtime_job option) op" where
  "mq_get i = gets (\<lambda>w. case map_of (q_jobs (w_queue w)) i of Some j \<Rightarrow> Some j | None \<Rightarrow> map_of (q_dead (w_queue w)) i)"

definition of_tenant :: "string option \<Rightarrow> runtime_job list \<Rightarrow> runtime_job list" where
  "of_tenant tenant js = (case tenant of None \<Rightarrow> js | Some t \<Rightarrow> filter (\<lambda>j. jb_tenant j = t) js)"

definition mq_list :: "string option \<Rightarrow> ('z cworld_scheme, runtime_job list) op" where
  "mq_list tenant = gets (\<lambda>w. of_tenant tenant (sort_key jb_created_at (map snd (q_jobs (w_queue w)))))"

definition mq_dead_letter :: "runtime_job \<Rightarrow> ('z cworld_scheme, runtime_job) op" where
  "mq_dead_letter j =
     bind (with_update [(''status'', JStr ''dead_lettered'')] j) (\<lambda>dead.
     bind (q_update (set_job dead)) (\<lambda>_.
     bind (q_update (\<lambda>q. q\<lparr>q_dead := AList.update (jb_id dead) dead (q_dead q)\<rparr>)) (\<lambda>_.
     ok dead)))"

definition mq_dead_letters :: "string option \<Rightarrow> ('z cworld_scheme, runtime_job list) op" where
  "mq_dead_letters tenant = gets (\<lambda>w. of_tenant tenant (sort_key jb_updated_at (map snd (q_dead (w_queue w)))))"

definition mq_health :: "('z cworld_scheme, obj) op" where
  "mq_health = gets (\<lambda>w. [(''status'', JStr ''ok''), (''backend'', JStr ''memory''),
     (''queued_jobs'', JInt (int (length (filter (\<lambda>(_, j). jb_status j = ''queued'') (q_jobs (w_queue w)))))),
     (''dead_letter_jobs'', JInt (int (length (q_dead (w_queue w)))))])"

section \<open>The queue over SQLite\<close>

definition on_queue_db :: "(sqlite_db, 'a) op \<Rightarrow> ('z cworld_scheme, 'a) op" where
  "on_queue_db m = (\<lambda>w. case m (w_queue_db w) of (r, s) \<Rightarrow> (r, w\<lparr>w_queue_db := s\<rparr>))"

definition save_job :: "string \<Rightarrow> runtime_job \<Rightarrow> ('z cworld_scheme, unit) op" where
  "save_job c j = on_queue_db (sql_put c (jb_id j) (job_as_dict j))"

text \<open>The constructor: the jobs and the dead letters are read back; the queues start empty.\<close>

definition sq_open :: "('z cworld_scheme, unit) op" where
  "sq_open =
     bind (q_update (\<lambda>_. new_queue)) (\<lambda>_.
     bind (on_queue_db (sql_list ''runtime_jobs'')) (\<lambda>items.
     bind (forM (\<lambda>d. bind (job_from_dict d) (\<lambda>j. q_update (set_job j))) items) (\<lambda>_.
     bind (on_queue_db (sql_list ''runtime_dead_letters'')) (\<lambda>items.
     forM (\<lambda>d. bind (job_from_dict d) (\<lambda>j. q_update (\<lambda>q. q\<lparr>q_dead := AList.update (jb_id j) j (q_dead q)\<rparr>))) items))))"

definition sq_enqueue :: "runtime_job \<Rightarrow> ('z cworld_scheme, runtime_job) op" where
  "sq_enqueue j = bind (mq_enqueue j) (\<lambda>queued. bind (save_job ''runtime_jobs'' queued) (\<lambda>_. ok queued))"

definition sq_dequeue :: "string option \<Rightarrow> string \<Rightarrow> ('z cworld_scheme, runtime_job option) op" where
  "sq_dequeue tenant name =
     bind (mq_dequeue tenant name) (\<lambda>job.
     bind (case job of None \<Rightarrow> ok () | Some j \<Rightarrow> save_job ''runtime_jobs'' j) (\<lambda>_. ok job))"

definition sq_put :: "runtime_job \<Rightarrow> ('z cworld_scheme, runtime_job) op" where
  "sq_put j = bind (mq_put j) (\<lambda>saved. bind (save_job ''runtime_jobs'' saved) (\<lambda>_. ok saved))"

definition sq_dead_letter :: "runtime_job \<Rightarrow> ('z cworld_scheme, runtime_job) op" where
  "sq_dead_letter j =
     bind (mq_dead_letter j) (\<lambda>dead.
     bind (save_job ''runtime_jobs'' dead) (\<lambda>_.
     bind (save_job ''runtime_dead_letters'' dead) (\<lambda>_.
     ok dead)))"

definition sq_health :: "('z cworld_scheme, obj) op" where
  "sq_health =
     bind mq_health (\<lambda>base.
     bind (on_queue_db sql_health) (\<lambda>h.
     ok (AList.update ''sqlite'' (JObj h) (AList.update ''backend'' (JStr ''sqlite'') base))))"

section \<open>The interface\<close>

text \<open>The protocol \<^verbatim>\<open>JobQueue\<close>: what the dispatcher and the runtime call.\<close>

record 'w job_queue =
  jq_enqueue :: "runtime_job \<Rightarrow> ('w, runtime_job) op"
  jq_dequeue :: "string option \<Rightarrow> string \<Rightarrow> ('w, runtime_job option) op"
  jq_put :: "runtime_job \<Rightarrow> ('w, runtime_job) op"
  jq_get :: "string \<Rightarrow> ('w, runtime_job option) op"
  jq_list :: "string option \<Rightarrow> ('w, runtime_job list) op"
  jq_dead_letter :: "runtime_job \<Rightarrow> ('w, runtime_job) op"
  jq_dead_letters :: "string option \<Rightarrow> ('w, runtime_job list) op"
  jq_health :: "('w, obj) op"

definition memory_queue :: "('z cworld_scheme) job_queue" where
  "memory_queue = \<lparr>jq_enqueue = mq_enqueue, jq_dequeue = mq_dequeue, jq_put = mq_put, jq_get = mq_get, jq_list = mq_list,
     jq_dead_letter = mq_dead_letter, jq_dead_letters = mq_dead_letters, jq_health = mq_health\<rparr>"

definition sqlite_queue :: "('z cworld_scheme) job_queue" where
  "sqlite_queue = \<lparr>jq_enqueue = sq_enqueue, jq_dequeue = sq_dequeue, jq_put = sq_put, jq_get = mq_get, jq_list = mq_list,
     jq_dead_letter = sq_dead_letter, jq_dead_letters = mq_dead_letters, jq_health = sq_health\<rparr>"

section \<open>What the operations compute\<close>

text \<open>A job as reading it from its dictionary gives it, and the jobs \<^verbatim>\<open>with_update\<close> returns.\<close>

definition jnorm :: "runtime_job \<Rightarrow> runtime_job" where
  "jnorm j = j\<lparr>jb_worker := nonempty (jb_worker j)\<rparr>"

lemma jnorm_simps [simp]: "jb_id (jnorm j) = jb_id j" "jb_tenant (jnorm j) = jb_tenant j" "jb_status (jnorm j) = jb_status j"
  "jb_queue (jnorm j) = jb_queue j" "jb_attempts (jnorm j) = jb_attempts j" "jb_max_attempts (jnorm j) = jb_max_attempts j"
  "jb_type (jnorm j) = jb_type j" "jb_payload (jnorm j) = jb_payload j" "jb_organization (jnorm j) = jb_organization j"
  "jb_error (jnorm j) = jb_error j" "jb_started_at (jnorm j) = jb_started_at j" "jnorm (jnorm j) = jnorm j"
  by (simp_all add: jnorm_def)

lemma opt_time_json: "(let v = time_json x in if truthy v then
    case fromisoformat (py_str v) of Inl e \<Rightarrow> Inl e | Inr t \<Rightarrow> Inr (Some t) else Inr None) = Inr x"
  by (cases x) simp_all

lemma job_round_trip [simp]: "job_from_dict (job_as_dict j) w = (Inr (jnorm j), w)"
  using opt_str_opt_json [of "jb_worker j"] opt_time_json [of "jb_started_at j"] opt_time_json [of "jb_completed_at j"]
  by (simp add: job_from_dict_def job_as_dict_def record_defs op_simps jnorm_def)

lemma update_job_dict [simp]:
  "AList.update ''status'' (JStr s) (job_as_dict j) = job_as_dict (j\<lparr>jb_status := s\<rparr>)"
  "AList.update ''updated_at'' (JStr (isoformat t)) (job_as_dict j) = job_as_dict (j\<lparr>jb_updated_at := t\<rparr>)"
  "AList.update ''attempts'' (JInt n) (job_as_dict j) = job_as_dict (j\<lparr>jb_attempts := n\<rparr>)"
  "AList.update ''last_error'' (JStr s) (job_as_dict j) = job_as_dict (j\<lparr>jb_error := s\<rparr>)"
  "AList.update ''assigned_worker_id'' (JStr s) (job_as_dict j) = job_as_dict (j\<lparr>jb_worker := Some s\<rparr>)"
  "AList.update ''started_at'' (JStr (isoformat t)) (job_as_dict j) = job_as_dict (j\<lparr>jb_started_at := Some t\<rparr>)"
  "AList.update ''completed_at'' (JStr (isoformat t)) (job_as_dict j) = job_as_dict (j\<lparr>jb_completed_at := Some t\<rparr>)"
  "AList.update ''payload'' (JObj d) (job_as_dict j) = job_as_dict (j\<lparr>jb_payload := d\<rparr>)"
  by (simp_all add: job_as_dict_def)

definition stamp :: "datetime \<Rightarrow> runtime_job \<Rightarrow> runtime_job" where
  "stamp t j = jnorm (j\<lparr>jb_updated_at := t\<rparr>)"

lemma with_update_apply:
  assumes "foldl (\<lambda>d (k, v). AList.update k v d) (job_as_dict j) us = job_as_dict j'"
  shows "with_update us j w = (Inr (stamp (now w) j'), tick w)"
  by (simp add: with_update_def bind_apply utc_now_apply assms stamp_def)

lemma with_status: "with_update [(''status'', JStr s)] j w = (Inr (stamp (now w) (j\<lparr>jb_status := s\<rparr>)), tick w)"
  by (rule with_update_apply) simp

lemma stamp_simps [simp]: "jb_id (stamp t j) = jb_id j" "jb_tenant (stamp t j) = jb_tenant j" "jb_status (stamp t j) = jb_status j"
  "jb_queue (stamp t j) = jb_queue j" "jb_attempts (stamp t j) = jb_attempts j" "jb_max_attempts (stamp t j) = jb_max_attempts j"
  "jb_type (stamp t j) = jb_type j" "jb_payload (stamp t j) = jb_payload j" "jb_organization (stamp t j) = jb_organization j"
  "jb_error (stamp t j) = jb_error j" "jb_started_at (stamp t j) = jb_started_at j"
  by (simp_all add: stamp_def)

definition valid_job :: "runtime_job \<Rightarrow> bool" where
  "valid_job j \<longleftrightarrow> jb_tenant j \<noteq> [] \<and> jb_organization j \<noteq> [] \<and> List.member runtime_job_types (jb_type j) \<and>
     (\<forall>(k, _) \<in> set (jb_payload j). \<not> List.member sensitive_keys (lower k))"

lemma job_validate_valid: "valid_job j \<Longrightarrow> job_validate j w = (Inr (), w)"
  by (auto simp: job_validate_def valid_job_def ok_apply list_ex_iff)

lemma job_validate_invalid: "\<not> valid_job j \<Longrightarrow> \<exists>m. job_validate j w = (Inl (ValueError m), w)"
  by (auto simp: job_validate_def valid_job_def raise_apply list_ex_iff)

text \<open>
  The effect of the operations on the queue as pure functions. \<open>dequeue_spec\<close> takes the first job of
  the queue that is still queued and belongs to the tenant; the queued jobs of other tenants before
  it are moved behind the rest, the entries that are no longer queued are dropped.
\<close>

definition waiting :: "memory_job_queue \<Rightarrow> string \<Rightarrow> bool" where
  "waiting q i \<longleftrightarrow> (case map_of (q_jobs q) i of None \<Rightarrow> False | Some j \<Rightarrow> jb_status j = ''queued'')"

definition wanted :: "memory_job_queue \<Rightarrow> string option \<Rightarrow> string \<Rightarrow> bool" where
  "wanted q tenant i \<longleftrightarrow> (case map_of (q_jobs q) i of None \<Rightarrow> False
     | Some j \<Rightarrow> jb_status j = ''queued'' \<and> (tenant = None \<or> tenant = Some (jb_tenant j)))"

definition lease :: "datetime \<Rightarrow> runtime_job \<Rightarrow> runtime_job" where
  "lease t j = stamp t (j\<lparr>jb_status := ''assigned'', jb_attempts := jb_attempts j + 1\<rparr>)"

definition skipped :: "memory_job_queue \<Rightarrow> string option \<Rightarrow> string list \<Rightarrow> string list" where
  "skipped q tenant ids = filter (waiting q) (takeWhile (\<lambda>i. \<not> wanted q tenant i) ids)"

definition dequeue_spec :: "datetime \<Rightarrow> string option \<Rightarrow> string \<Rightarrow> memory_job_queue \<Rightarrow> runtime_job option \<times> memory_job_queue" where
  "dequeue_spec t tenant name q =
     (let ids = queue_ids name q; kept = skipped q tenant ids in
      case dropWhile (\<lambda>i. \<not> wanted q tenant i) ids of
        [] \<Rightarrow> (None, set_queue name kept q)
      | i # rest \<Rightarrow>
          let j = lease t (the (map_of (q_jobs q) i)) in
          (Some j, (set_queue name (rest @ kept) q)\<lparr>q_jobs := AList.update i j (q_jobs q)\<rparr>))"

definition put_spec :: "runtime_job \<Rightarrow> memory_job_queue \<Rightarrow> memory_job_queue" where
  "put_spec j q = (let q' = set_job j q in if jb_status j = ''queued'' then enlist j q' else q')"

definition enqueue_spec :: "runtime_job \<Rightarrow> memory_job_queue \<Rightarrow> memory_job_queue" where
  "enqueue_spec j q = (let q' = set_job j q in set_queue (jb_queue j) (queue_ids (jb_queue j) q' @ [jb_id j]) q')"

definition dead_letter_spec :: "runtime_job \<Rightarrow> memory_job_queue \<Rightarrow> memory_job_queue" where
  "dead_letter_spec j q = (set_job j q)\<lparr>q_dead := AList.update (jb_id j) j (q_dead q)\<rparr>"

definition find_job :: "string \<Rightarrow> memory_job_queue \<Rightarrow> runtime_job option" where
  "find_job i q = (case map_of (q_jobs q) i of Some j \<Rightarrow> Some j | None \<Rightarrow> map_of (q_dead q) i)"

lemma q_update_apply [op_simps]: "q_update f w = (Inr (), w\<lparr>w_queue := f (w_queue w)\<rparr>)"
  by (simp add: q_update_def modify_apply)

lemma queue_ids_set_queue [simp]: "queue_ids n (set_queue n' ids q) = (if n = n' then ids else queue_ids n q)"
  by (simp add: queue_ids_def set_queue_def)

lemma set_queue_simps [simp]: "q_jobs (set_queue n ids q) = q_jobs q" "q_dead (set_queue n ids q) = q_dead q"
  "set_queue n ids (set_queue n ids' q) = set_queue n ids q"
  by (simp_all add: set_queue_def)

lemma set_job_simps [simp]: "q_jobs (set_job j q) = AList.update (jb_id j) j (q_jobs q)" "q_queues (set_job j q) = q_queues q"
  "q_dead (set_job j q) = q_dead q" "queue_ids n (set_job j q) = queue_ids n q"
  by (simp_all add: set_job_def queue_ids_def)

lemma waiting_queues [simp]: "waiting (q\<lparr>q_queues := d\<rparr>) = waiting q" "wanted (q\<lparr>q_queues := d\<rparr>) = wanted q"
  "waiting (set_queue n ids q) = waiting q" "wanted (set_queue n ids q) = wanted q"
  by (simp_all add: fun_eq_iff waiting_def wanted_def)

lemma set_queue_same: "map_of (q_queues q) n = Some ids \<Longrightarrow> set_queue n ids q = q"
  by (simp add: set_queue_def update_triv)

lemma dequeue_loop_spec:
  assumes "map_of (q_queues (w_queue w)) name = Some (ids @ kept)"
  shows "mq_dequeue_loop (length ids) tenant name w =
     (let q = w_queue w; kept' = kept @ skipped q tenant ids in
      case dropWhile (\<lambda>i. \<not> wanted q tenant i) ids of
        [] \<Rightarrow> (Inr None, w\<lparr>w_queue := set_queue name kept' q\<rparr>)
      | i # rest \<Rightarrow>
          let j = lease (now w) (the (map_of (q_jobs q) i)) in
          (Inr (Some j), w\<lparr>w_ticks := Suc (w_ticks w),
             w_queue := (set_queue name (rest @ kept') q)\<lparr>q_jobs := AList.update i j (q_jobs q)\<rparr>\<rparr>))"
  using assms
proof (induction ids arbitrary: w kept)
  case Nil
  then show ?case by (simp add: ok_apply skipped_def set_queue_same)
next
  case (Cons i ids)
  let ?q = "w_queue w" and ?w = "\<lambda>ids. w\<lparr>w_queue := set_queue name ids (w_queue w)\<rparr>"
  have ids: "queue_ids name ?q = i # ids @ kept" using Cons.prems by (simp add: queue_ids_def)
  have q: "map_of (q_queues (w_queue (?w ks))) name = Some ks" for ks by (simp add: set_queue_def)
  note step = ids bind_apply gets_apply q_update_apply skipped_def Let_def
  show ?case
  proof (cases "map_of (q_jobs ?q) i")
    case None
    then have "\<not> wanted ?q tenant i" "\<not> waiting ?q i" by (simp_all add: wanted_def waiting_def)
    with None show ?thesis using Cons.IH [OF q, of kept] by (simp add: step cong: list.case_cong)
  next
    case (Some j)
    consider (gone) "jb_status j \<noteq> ''queued''" | (other) "jb_status j = ''queued''" "tenant \<noteq> None" "tenant \<noteq> Some (jb_tenant j)"
      | (ours) "jb_status j = ''queued''" "tenant = None \<or> tenant = Some (jb_tenant j)"
      by (cases "jb_status j = ''queued''"; cases "tenant = None \<or> tenant = Some (jb_tenant j)") (simp_all only: de_Morgan_disj simp_thms)
    then show ?thesis
    proof cases
      case gone
      with Some have "\<not> wanted ?q tenant i" "\<not> waiting ?q i" by (simp_all add: wanted_def waiting_def)
      with Some gone show ?thesis using Cons.IH [OF q, of kept] by (simp add: step cong: list.case_cong)
    next
      case other
      with Some have "\<not> wanted ?q tenant i" "waiting ?q i" by (simp_all add: wanted_def waiting_def)
      with Some other show ?thesis using Cons.IH [OF q, of "kept @ [i]"] by (simp add: step cong: list.case_cong)
    next
      case ours
      with Some have "wanted ?q tenant i" by (simp add: wanted_def)
      moreover have "with_update [(''status'', JStr ''assigned''), (''attempts'', JInt (jb_attempts j + 1))] j v = (Inr (lease (now v) j), tick v)"
        for v :: "'a cworld_scheme"
        unfolding lease_def by (rule with_update_apply) simp
      ultimately show ?thesis
        using ours Some by (auto simp: step ok_apply tick_def)
    qed
  qed
qed

lemma mq_dequeue_apply:
  "mq_dequeue tenant name w = (case dequeue_spec (now w) tenant name (w_queue w) of
     (r, q) \<Rightarrow> (Inr r, w\<lparr>w_ticks := (if r = None then w_ticks w else Suc (w_ticks w)), w_queue := q\<rparr>))"
proof -
  let ?ids = "queue_ids name (w_queue w)" and ?q = "(w_queue w)\<lparr>q_queues := setdefault name [] (q_queues (w_queue w))\<rparr>"
  have q: "queue_ids name ?q = ?ids" "set_queue name ids ?q = set_queue name ids (w_queue w)"
    "skipped ?q = skipped (w_queue w)" for ids
    by (simp_all add: queue_ids_def setdefault_def set_queue_def fun_eq_iff skipped_def split: option.split)
  have "map_of (q_queues ?q) name = Some (?ids @ [])"
    by (simp add: queue_ids_def setdefault_def split: option.split)
  then show ?thesis
    using dequeue_loop_spec [of "w\<lparr>w_queue := ?q\<rparr>" name ?ids "[]" tenant]
    by (simp add: mq_dequeue_def bind_apply q_update_apply gets_apply q dequeue_spec_def Let_def cong: list.case_cong split: list.split
        del: dropWhile_eq_Nil_conv)
qed

lemma mq_put_apply: "mq_put j w = (Inr j, w\<lparr>w_queue := put_spec j (w_queue w)\<rparr>)"
  by (simp add: mq_put_def op_simps put_spec_def Let_def)

lemma mq_enqueue_valid:
  assumes "valid_job j" "j' = stamp (now w) (j\<lparr>jb_status := ''queued''\<rparr>)"
  shows "mq_enqueue j w = (Inr j', w\<lparr>w_ticks := Suc (w_ticks w), w_queue := enqueue_spec j' (w_queue w)\<rparr>)"
  using assms
  by (simp add: mq_enqueue_def bind_apply job_validate_valid with_status q_update_apply ok_apply enqueue_spec_def Let_def tick_def)

lemma mq_enqueue_invalid: "\<not> valid_job j \<Longrightarrow> \<exists>m. mq_enqueue j w = (Inl (ValueError m), w)"
  using job_validate_invalid [of j w] by (auto simp: mq_enqueue_def bind_apply)

lemma mq_dead_letter_apply:
  "mq_dead_letter j w = (let j' = stamp (now w) (j\<lparr>jb_status := ''dead_lettered''\<rparr>) in
     (Inr j', w\<lparr>w_ticks := Suc (w_ticks w), w_queue := dead_letter_spec j' (w_queue w)\<rparr>))"
  by (simp add: mq_dead_letter_def bind_apply with_status q_update_apply ok_apply dead_letter_spec_def Let_def tick_def)

lemma mq_get_apply: "mq_get i w = (Inr (find_job i (w_queue w)), w)"
  by (simp add: mq_get_def gets_apply find_job_def)

lemma audit_queue:
  "audit_step w (w\<lparr>w_ticks := n, w_queue := q, w_queue_db := db\<rparr>)" "audit_step w (w\<lparr>w_queue := q, w_queue_db := db\<rparr>)"
  by (rule audit_local; simp)+

section \<open>The contract of a queue\<close>

text \<open>
  What the dispatcher and the runtime rely on: the result of every call and its effect on the
  jobs and queues. A queue may also write to a database of its own.
\<close>

locale queue_contract =
  fixes Q :: "('z cworld_scheme) job_queue"
  assumes put: "\<exists>db. jq_put Q j w = (Inr j, w\<lparr>w_queue := put_spec j (w_queue w), w_queue_db := db\<rparr>)"
    and enqueue: "valid_job j \<Longrightarrow> j' = stamp (now w) (j\<lparr>jb_status := ''queued''\<rparr>) \<Longrightarrow> \<exists>db. jq_enqueue Q j w =
      (Inr j', w\<lparr>w_ticks := Suc (w_ticks w), w_queue := enqueue_spec j' (w_queue w), w_queue_db := db\<rparr>)"
    and enqueue_invalid: "\<not> valid_job j \<Longrightarrow> \<exists>m. jq_enqueue Q j w = (Inl (ValueError m), w)"
    and dequeue: "\<exists>db. jq_dequeue Q tenant name w = (case dequeue_spec (now w) tenant name (w_queue w) of
      (r, q) \<Rightarrow> (Inr r, w\<lparr>w_ticks := (if r = None then w_ticks w else Suc (w_ticks w)), w_queue := q, w_queue_db := db\<rparr>))"
    and dead_letter: "j' = stamp (now w) (j\<lparr>jb_status := ''dead_lettered''\<rparr>) \<Longrightarrow> \<exists>db. jq_dead_letter Q j w =
      (Inr j', w\<lparr>w_ticks := Suc (w_ticks w), w_queue := dead_letter_spec j' (w_queue w), w_queue_db := db\<rparr>)"
    and get: "jq_get Q i w = (Inr (find_job i (w_queue w)), w)"
begin

lemma audit_Q [audit_steps]:
  "audit.steps (jq_put Q j)" "audit.steps (jq_enqueue Q j)" "audit.steps (jq_dequeue Q tenant name)"
  "audit.steps (jq_dead_letter Q j)" "audit.steps (jq_get Q i)"
proof -
  show "audit.steps (jq_put Q j)"
    unfolding audit.steps_def by (rule allI) (use put [of j] audit_queue(2) in \<open>metis snd_conv\<close>)
  show "audit.steps (jq_enqueue Q j)"
    unfolding audit.steps_def
    by (rule allI) (use enqueue [OF _ HOL.refl] enqueue_invalid audit_queue(1) audit.refl in \<open>metis snd_conv\<close>)
  show "audit.steps (jq_dequeue Q tenant name)"
    unfolding audit.steps_def
  proof
    fix w
    obtain db where db: "jq_dequeue Q tenant name w = (case dequeue_spec (now w) tenant name (w_queue w) of
      (r, q) \<Rightarrow> (Inr r, w\<lparr>w_ticks := (if r = None then w_ticks w else Suc (w_ticks w)), w_queue := q, w_queue_db := db\<rparr>))"
      using dequeue by blast
    show "audit_step w (final (jq_dequeue Q tenant name) w)"
      unfolding db by (simp only: case_prod_unfold snd_conv) (rule audit_queue(1))
  qed
  show "audit.steps (jq_dead_letter Q j)"
    unfolding audit.steps_def
    by (rule allI) (use dead_letter [OF HOL.refl] audit_queue(1) in \<open>metis snd_conv\<close>)
  show "audit.steps (jq_get Q i)"
    by (simp add: audit.steps_def get audit.refl)
qed

end

lemma same_queue_db:
  "\<exists>db. w\<lparr>w_queue := q\<rparr> = w\<lparr>w_queue := q, w_queue_db := db\<rparr>"
  "\<exists>db. w\<lparr>w_ticks := n, w_queue := q\<rparr> = w\<lparr>w_ticks := n, w_queue := q, w_queue_db := db\<rparr>"
  by (rule exI [of _ "w_queue_db w"], simp)+

interpretation memory_jobs: queue_contract memory_queue
  by unfold_locales (auto simp: memory_queue_def mq_put_apply mq_enqueue_valid mq_enqueue_invalid mq_dequeue_apply
      mq_dead_letter_apply mq_get_apply same_queue_db Let_def split: prod.split)

lemma save_job_apply: "save_job c j w = (Inr (), w\<lparr>w_queue_db := final (sql_put c (jb_id j) (job_as_dict j)) (w_queue_db w)\<rparr>)"
  by (simp add: save_job_def on_queue_db_def sql_put_def modify_apply)

interpretation sqlite_jobs: queue_contract sqlite_queue
proof unfold_locales
  show "\<exists>db. jq_put sqlite_queue j w = (Inr j, w\<lparr>w_queue := put_spec j (w_queue w), w_queue_db := db\<rparr>)" for j w
    by (simp add: sqlite_queue_def sq_put_def bind_apply mq_put_apply save_job_apply ok_apply) blast
  show "\<exists>db. jq_enqueue sqlite_queue j w = (Inr j', w\<lparr>w_ticks := Suc (w_ticks w), w_queue := enqueue_spec j' (w_queue w), w_queue_db := db\<rparr>)"
    if "valid_job j" "j' = stamp (now w) (j\<lparr>jb_status := ''queued''\<rparr>)" for j j' w
    using mq_enqueue_valid [OF that] by (simp add: sqlite_queue_def sq_enqueue_def bind_apply save_job_apply ok_apply) blast
  show "\<exists>m. jq_enqueue sqlite_queue j w = (Inl (ValueError m), w)" if "\<not> valid_job j" for j w
    using mq_enqueue_invalid [OF that, of w] by (auto simp: sqlite_queue_def sq_enqueue_def bind_apply)
  show "\<exists>db. jq_dequeue sqlite_queue tenant name w = (case dequeue_spec (now w) tenant name (w_queue w) of
      (r, q) \<Rightarrow> (Inr r, w\<lparr>w_ticks := (if r = None then w_ticks w else Suc (w_ticks w)), w_queue := q, w_queue_db := db\<rparr>))"
    for tenant name w
    by (auto simp: sqlite_queue_def sq_dequeue_def bind_apply mq_dequeue_apply save_job_apply ok_apply split: prod.split option.split
        intro: exI [of _ "w_queue_db w"])
  show "\<exists>db. jq_dead_letter sqlite_queue j w =
      (Inr j', w\<lparr>w_ticks := Suc (w_ticks w), w_queue := dead_letter_spec j' (w_queue w), w_queue_db := db\<rparr>)"
    if "j' = stamp (now w) (j\<lparr>jb_status := ''dead_lettered''\<rparr>)" for j j' w
    using that by (simp add: sqlite_queue_def sq_dead_letter_def bind_apply mq_dead_letter_apply save_job_apply ok_apply Let_def) blast
  show "jq_get sqlite_queue i w = (Inr (find_job i (w_queue w)), w)" for i w
    by (simp add: sqlite_queue_def mq_get_apply)
qed

section \<open>No queued job is stranded\<close>

definition queue_inv :: "memory_job_queue \<Rightarrow> bool" where
  "queue_inv q \<longleftrightarrow> (\<forall>i j. map_of (q_jobs q) i = Some j \<longrightarrow>
     jb_id j = i \<and> (jb_status j = ''queued'' \<longrightarrow> i \<in> set (queue_ids (jb_queue j) q)))"

lemma queue_ids_enlist: "queue_ids n (enlist j q) =
    (if n = jb_queue j \<and> jb_id j \<notin> set (queue_ids n q) then queue_ids n q @ [jb_id j] else queue_ids n q)"
  by (auto simp: enlist_def queue_ids_def set_queue_def setdefault_def split: option.split)

lemma q_jobs_enlist [simp]: "q_jobs (enlist j q) = q_jobs q"
  by (simp add: enlist_def set_queue_def)

lemma queue_inv_put: "queue_inv q \<Longrightarrow> queue_inv (put_spec j q)"
  by (auto simp: queue_inv_def put_spec_def Let_def queue_ids_enlist) metis

lemma queue_inv_enqueue: "queue_inv q \<Longrightarrow> queue_inv (enqueue_spec j q)"
  by (auto simp: queue_inv_def enqueue_spec_def Let_def) metis

lemma queue_ids_dead [simp]: "queue_ids n (q\<lparr>q_dead := d\<rparr>) = queue_ids n q" "queue_ids n (q\<lparr>q_jobs := js\<rparr>) = queue_ids n q"
  by (simp_all add: queue_ids_def)

lemma queue_inv_dead_letter: "queue_inv q \<Longrightarrow> jb_status j \<noteq> ''queued'' \<Longrightarrow> queue_inv (dead_letter_spec j q)"
  by (auto simp: queue_inv_def dead_letter_spec_def)

lemma lease_simps [simp]: "jb_id (lease t j) = jb_id j" "jb_status (lease t j) = ''assigned''" "jb_tenant (lease t j) = jb_tenant j"
  "jb_queue (lease t j) = jb_queue j" "jb_attempts (lease t j) = jb_attempts j + 1" "jb_max_attempts (lease t j) = jb_max_attempts j"
  "jb_type (lease t j) = jb_type j" "jb_payload (lease t j) = jb_payload j" "jb_organization (lease t j) = jb_organization j"
  by (simp_all add: lease_def)

lemma wanted_waiting: "wanted q tenant i \<Longrightarrow> waiting q i"
  by (auto simp: wanted_def waiting_def split: option.splits)

lemma mem_dropWhile_skipped:
  assumes "waiting q i" "i \<in> set ids"
  shows "i \<in> set (dropWhile (\<lambda>i. \<not> wanted q tenant i) ids @ skipped q tenant ids)"
proof -
  have "i \<in> set (takeWhile (\<lambda>i. \<not> wanted q tenant i) ids @ dropWhile (\<lambda>i. \<not> wanted q tenant i) ids)"
    using assms(2) by simp
  with assms(1) show ?thesis by (auto simp only: skipped_def set_append Un_iff set_filter mem_Collect_eq)
qed

lemma dequeue_spec_cases:
  obtains (none) "dequeue_spec t tenant name q = (None, set_queue name (skipped q tenant (queue_ids name q)) q)"
      "\<forall>i \<in> set (queue_ids name q). \<not> wanted q tenant i"
    | (some) i rest j where "dropWhile (\<lambda>i. \<not> wanted q tenant i) (queue_ids name q) = i # rest" "map_of (q_jobs q) i = Some j"
      "jb_status j = ''queued''" "tenant = None \<or> tenant = Some (jb_tenant j)" "i \<in> set (queue_ids name q)"
      "dequeue_spec t tenant name q = (Some (lease t j),
         (set_queue name (rest @ skipped q tenant (queue_ids name q)) q)\<lparr>q_jobs := AList.update i (lease t j) (q_jobs q)\<rparr>)"
proof (cases "dropWhile (\<lambda>i. \<not> wanted q tenant i) (queue_ids name q)")
  case Nil
  then have "\<forall>i \<in> set (queue_ids name q). \<not> wanted q tenant i" by simp
  moreover have "dequeue_spec t tenant name q = (None, set_queue name (skipped q tenant (queue_ids name q)) q)"
    by (simp only: dequeue_spec_def Let_def Nil list.case)
  ultimately show ?thesis by (rule none [rotated])
next
  case (Cons i rest)
  then have "wanted q tenant i" "i \<in> set (queue_ids name q)"
    by (metis hd_dropWhile list.discI list.sel(1), metis list.set_intros(1) set_dropWhileD)
  then obtain j where j: "map_of (q_jobs q) i = Some j" "jb_status j = ''queued''" "tenant = None \<or> tenant = Some (jb_tenant j)"
    by (auto simp: wanted_def split: option.splits)
  show ?thesis
    by (rule some [OF Cons j \<open>i \<in> _\<close>]) (simp only: dequeue_spec_def Let_def Cons list.case j option.sel)
qed

lemma queue_inv_dequeue:
  assumes "queue_inv q"
  shows "queue_inv (snd (dequeue_spec t tenant name q))"
proof (cases rule: dequeue_spec_cases [of t tenant name q])
  case none
  have "i \<in> set (queue_ids (jb_queue j) (set_queue name (skipped q tenant (queue_ids name q)) q))"
    if "map_of (q_jobs q) i = Some j" "jb_status j = ''queued''" for i j
  proof -
    have w: "waiting q i" "i \<in> set (queue_ids (jb_queue j) q)"
      using that assms by (auto simp: waiting_def queue_inv_def)
    have "dropWhile (\<lambda>i. \<not> wanted q tenant i) (queue_ids name q) = []" using none(2) by simp
    with mem_dropWhile_skipped [OF w(1), of "queue_ids name q" tenant] w(2) show ?thesis by auto
  qed
  then show ?thesis using assms by (simp add: none(1)) (simp add: queue_inv_def)
next
  case (some i rest j)
  have mem: "k \<in> set (queue_ids (jb_queue l) (set_queue name (rest @ skipped q tenant (queue_ids name q)) q))"
    if "map_of (q_jobs q) k = Some l" "jb_status l = ''queued''" "k \<noteq> i" for k l
  proof -
    have w: "waiting q k" "k \<in> set (queue_ids (jb_queue l) q)"
      using that assms by (auto simp: waiting_def queue_inv_def)
    with mem_dropWhile_skipped [OF w(1), of "queue_ids name q" tenant] \<open>k \<noteq> i\<close> show ?thesis by (auto simp: some(1))
  qed
  have "jb_id j = i" using some(2) assms by (simp add: queue_inv_def)
  then show ?thesis using assms mem by (simp add: some(6)) (simp add: queue_inv_def)
qed

text \<open>What clients may do to a queue, in any order.\<close>

inductive queue_step :: "('z cworld_scheme) job_queue \<Rightarrow> 'z cworld_scheme \<Rightarrow> 'z cworld_scheme \<Rightarrow> bool" for Q where
  enqueue: "queue_step Q w (final (jq_enqueue Q j) w)"
| dequeue: "queue_step Q w (final (jq_dequeue Q tenant name) w)"
| put: "queue_step Q w (final (jq_put Q j) w)"
| dead_letter: "queue_step Q w (final (jq_dead_letter Q j) w)"
| elsewhere: "w_queue w' = w_queue w \<Longrightarrow> queue_step Q w w'"

context queue_contract
begin

lemma queue_after:
  "w_queue (final (jq_put Q j) w) = put_spec j (w_queue w)"
  "w_queue (final (jq_dequeue Q tenant name) w) = snd (dequeue_spec (now w) tenant name (w_queue w))"
  "outcome (jq_dequeue Q tenant name) w = Inr (fst (dequeue_spec (now w) tenant name (w_queue w)))"
  "w_queue (final (jq_dead_letter Q j) w) = dead_letter_spec (stamp (now w) (j\<lparr>jb_status := ''dead_lettered''\<rparr>)) (w_queue w)"
  using put [of j w] dequeue [of tenant name w] dead_letter [of _ w j, OF HOL.refl]
  by (auto simp: case_prod_unfold)

lemma queue_after_enqueue:
  "w_queue (final (jq_enqueue Q j) w) = (if valid_job j
     then enqueue_spec (stamp (now w) (j\<lparr>jb_status := ''queued''\<rparr>)) (w_queue w) else w_queue w)"
  using enqueue [of j _ w, OF _ HOL.refl] enqueue_invalid [of j w] by auto

lemma queue_step_inv: "queue_step Q w w' \<Longrightarrow> queue_inv (w_queue w) \<Longrightarrow> queue_inv (w_queue w')"
  by (induction rule: queue_step.induct)
    (simp_all add: queue_after queue_after_enqueue queue_inv_put queue_inv_enqueue queue_inv_dequeue queue_inv_dead_letter)

lemma queue_runs_inv: "(queue_step Q)\<^sup>*\<^sup>* w w' \<Longrightarrow> queue_inv (w_queue w) \<Longrightarrow> queue_inv (w_queue w')"
  by (induction rule: rtranclp_induct) (auto intro: queue_step_inv)

lemma dequeue_finds:
  assumes "queue_inv (w_queue w)" "map_of (q_jobs (w_queue w)) i = Some j" "jb_status j = ''queued''"
    "tenant = None \<or> tenant = Some (jb_tenant j)"
  shows "\<exists>k. outcome (jq_dequeue Q tenant (jb_queue j)) w = Inr (Some k)"
proof (cases rule: dequeue_spec_cases [of "now w" tenant "jb_queue j" "w_queue w"])
  case none
  have "i \<in> set (queue_ids (jb_queue j) (w_queue w))" "wanted (w_queue w) tenant i"
    using assms by (auto simp: queue_inv_def wanted_def)
  with none show ?thesis by blast
qed (simp add: queue_after)

end

text \<open>
  C21. No job is stranded while the process runs: from an empty queue, after any sequence of
  enqueues, leases, updates and dead-letterings, by any clients and on the memory or the SQLite
  queue, every job that is marked queued is in the queue it names, and the next dequeue of that
  queue, for its tenant or for all, leases a job.
\<close>

theorem queued_jobs_are_served:
  fixes Q :: "'z cworld_scheme job_queue"
  assumes "Q = memory_queue \<or> Q = sqlite_queue" "w_queue w = new_queue" "(queue_step Q)\<^sup>*\<^sup>* w w'"
    "map_of (q_jobs (w_queue w')) i = Some j" "jb_status j = ''queued''" "tenant = None \<or> tenant = Some (jb_tenant j)"
  shows "i \<in> set (queue_ids (jb_queue j) (w_queue w')) \<and> (\<exists>k. outcome (jq_dequeue Q tenant (jb_queue j)) w' = Inr (Some k))"
proof -
  have "queue_inv (w_queue w)" by (simp add: assms(2) new_queue_def queue_inv_def)
  then have inv: "queue_inv (w_queue w')"
    using assms(1,3) memory_jobs.queue_runs_inv sqlite_jobs.queue_runs_inv by metis
  then have "i \<in> set (queue_ids (jb_queue j) (w_queue w'))"
    using assms(4,5) by (auto simp: queue_inv_def)
  with inv assms(1,4-6) show ?thesis
    using memory_jobs.dequeue_finds sqlite_jobs.dequeue_finds by metis
qed


definition job0 :: runtime_job where
  "job0 = \<lparr>jb_tenant = ''t'', jb_organization = ''o'', jb_created_by = ''u'', jb_type = ''agent_run'', jb_payload = [],
     jb_queue = ''default'', jb_max_attempts = 3, jb_id = ''job-1'', jb_status = ''queued'', jb_attempts = 0, jb_worker = None,
     jb_error = [], jb_created_at = dt 0, jb_updated_at = dt 0, jb_started_at = None, jb_completed_at = None\<rparr>"

definition cworld0 :: cworld where
  "cworld0 = tworld.extend tworld0 (cworld.fields new_queue empty_db)"

lemma job0_simps [simp]: "jb_id job0 = ''job-1''" "jb_tenant job0 = ''t''" "jb_queue job0 = ''default''" "jb_status job0 = ''queued''"
  "jb_attempts job0 = 0" "jb_max_attempts job0 = 3" "jb_payload job0 = []" "jb_type job0 = ''agent_run''" "jb_organization job0 = ''o''"
  by (simp_all add: job0_def)

lemma valid_job0: "valid_job job0" "valid_job (job0\<lparr>jb_id := i, jb_tenant := ''s''\<rparr>)"
  by (simp_all add: valid_job_def runtime_job_types_def)

lemma cworld0_simps [simp]: "w_queue cworld0 = new_queue" "w_queue_db cworld0 = empty_db" "w_events cworld0 = []"
  "w_ticks cworld0 = 0" "w_clock cworld0 = (\<lambda>n. dt (int n))" "w_store cworld0 = []"
  by (simp_all add: cworld0_def tworld0_def world0_def world.defs tworld.defs cworld.defs)

theorem queued_jobs_are_served_witness:
  "\<exists>k. outcome (jq_dequeue sqlite_queue (Some ''t'') ''default'') (final (jq_enqueue sqlite_queue job0) cworld0) = Inr (Some k)"
proof -
  let ?w = "final (jq_enqueue sqlite_queue job0) cworld0"
  have "map_of (q_jobs (w_queue ?w)) ''job-1'' = Some (stamp (dt 0) (job0\<lparr>jb_status := ''queued''\<rparr>))"
    using sqlite_jobs.queue_after_enqueue [of job0 cworld0]
    by (simp add: valid_job0 enqueue_spec_def Let_def)
  moreover have "(queue_step sqlite_queue)\<^sup>*\<^sup>* cworld0 ?w"
    by (rule r_into_rtranclp) (rule queue_step.enqueue)
  ultimately show ?thesis
    using queued_jobs_are_served [of sqlite_queue cworld0 ?w "''job-1''" _ "Some ''t''"] by simp
qed

text \<open>
  C26. The loop of \<^verbatim>\<open>dequeue\<close> is the reference \<^const>\<open>dequeue_spec\<close>: it leases the first job of the queue that is
  queued and of the tenant, never pops an empty queue, moves the queued jobs of other tenants it
  passes behind the rest and drops the entries it passes that are no longer queued; it changes
  nothing else.
\<close>

theorem dequeue_is_spec:
  "mq_dequeue tenant name w = (case dequeue_spec (now w) tenant name (w_queue w) of
     (r, q) \<Rightarrow> (Inr r, w\<lparr>w_ticks := (if r = None then w_ticks w else Suc (w_ticks w)), w_queue := q\<rparr>))"
  by (rule mq_dequeue_apply)

text \<open>
  A tenant's dequeue is isolated: the job it leases belongs to the tenant, was queued and has now
  one attempt more, and no job of another tenant changes.
\<close>

theorem dequeue_isolated:
  assumes "mq_dequeue (Some t) name w = (Inr r, w')"
  shows "(\<forall>k. r = Some k \<longrightarrow> jb_tenant k = t \<and> jb_status k = ''assigned'' \<and>
       (\<exists>i j. map_of (q_jobs (w_queue w)) i = Some j \<and> i \<in> set (queue_ids name (w_queue w)) \<and> jb_status j = ''queued'' \<and>
          k = lease (now w) j \<and> map_of (q_jobs (w_queue w')) i = Some k)) \<and>
     (\<forall>i j. map_of (q_jobs (w_queue w)) i = Some j \<and> jb_tenant j \<noteq> t \<longrightarrow> map_of (q_jobs (w_queue w')) i = Some j)"
proof (cases rule: dequeue_spec_cases [of "now w" "Some t" name "w_queue w"])
  case none
  with assms show ?thesis by (auto simp: mq_dequeue_apply)
next
  case (some i rest j)
  have "r = Some (lease (now w) j)" "q_jobs (w_queue w') = AList.update i (lease (now w) j) (q_jobs (w_queue w))"
    using assms by (auto simp: mq_dequeue_apply some(6))
  with some(2-5) show ?thesis by auto
qed

theorem dequeue_isolated_witness:
  "let w = final (mq_enqueue job0) (final (mq_enqueue (job0\<lparr>jb_id := ''job-2'', jb_tenant := ''s''\<rparr>)) cworld0) in
   \<exists>r w'. mq_dequeue (Some ''t'') ''default'' w = (Inr r, w') \<and>
     (\<forall>i j. map_of (q_jobs (w_queue w)) i = Some j \<and> jb_tenant j \<noteq> ''t'' \<longrightarrow> map_of (q_jobs (w_queue w')) i = Some j)"
proof -
  let ?w = "final (mq_enqueue job0) (final (mq_enqueue (job0\<lparr>jb_id := ''job-2'', jb_tenant := ''s''\<rparr>)) cworld0)"
  obtain r w' where rw: "mq_dequeue (Some ''t'') ''default'' ?w = (Inr r, w')"
    by (simp add: mq_dequeue_apply case_prod_unfold)
  from dequeue_isolated [OF this] rw show ?thesis unfolding Let_def by blast
qed

text \<open>
  A lease for one tenant changes the order of another tenant's jobs: when the queue holds a job of
  tenant \<open>s\<close>, one of tenant \<open>t\<close> and a second one of \<open>s\<close>, a lease for \<open>t\<close> leaves the second job of \<open>s\<close>
  before the first, so the next lease for \<open>s\<close> takes the younger job.
\<close>

theorem lease_reorders_other_tenants:
  assumes "queue_ids name (w_queue w) = [a, b, c]" "distinct [a, b, c]"
    "map_of (q_jobs (w_queue w)) a = Some ja" "map_of (q_jobs (w_queue w)) b = Some jb" "map_of (q_jobs (w_queue w)) c = Some jc"
    "jb_status ja = ''queued''" "jb_status jb = ''queued''" "jb_status jc = ''queued''"
    "jb_tenant ja = s" "jb_tenant jb = t" "jb_tenant jc = s" "s \<noteq> t"
  shows "\<exists>w' k. mq_dequeue (Some t) name w = (Inr (Some k), w') \<and> queue_ids name (w_queue w') = [c, a] \<and>
    outcome (mq_dequeue (Some s) name) w' = Inr (Some (lease (now w') jc))"
proof -
  let ?q = "w_queue w"
  have w: "\<not> wanted ?q (Some t) a" "wanted ?q (Some t) b" "waiting ?q a"
    using assms by (simp_all add: wanted_def waiting_def)
  have d: "dequeue_spec (now w) (Some t) name ?q = (Some (lease (now w) jb),
      (set_queue name [c, a] ?q)\<lparr>q_jobs := AList.update b (lease (now w) jb) (q_jobs ?q)\<rparr>)" (is "_ = (_, ?q')")
    by (simp add: dequeue_spec_def Let_def assms(1,4) w skipped_def)
  have w': "wanted ?q' (Some s) c" "queue_ids name ?q' = [c, a]" "map_of (q_jobs ?q') c = Some jc"
    using assms by (auto simp: wanted_def)
  have "fst (dequeue_spec t' (Some s) name ?q') = Some (lease t' jc)" for t'
    unfolding dequeue_spec_def Let_def w'(2) using w'(1,3) by simp
  then show ?thesis
    by (simp add: mq_dequeue_apply d case_prod_unfold)
qed

definition mixed_queue :: cworld where
  "mixed_queue = final (forM (\<lambda>j. bind (mq_put j) (\<lambda>_. ok ())) [job0\<lparr>jb_id := ''a'', jb_tenant := ''s''\<rparr>, job0\<lparr>jb_id := ''b''\<rparr>,
     job0\<lparr>jb_id := ''c'', jb_tenant := ''s''\<rparr>]) cworld0"

lemma mixed_queue_facts:
  "queue_ids ''default'' (w_queue mixed_queue) = [''a'', ''b'', ''c'']"
  "map_of (q_jobs (w_queue mixed_queue)) ''a'' = Some (job0\<lparr>jb_id := ''a'', jb_tenant := ''s''\<rparr>)"
  "map_of (q_jobs (w_queue mixed_queue)) ''b'' = Some (job0\<lparr>jb_id := ''b''\<rparr>)"
  "map_of (q_jobs (w_queue mixed_queue)) ''c'' = Some (job0\<lparr>jb_id := ''c'', jb_tenant := ''s''\<rparr>)"
  by (simp_all add: mixed_queue_def bind_apply ok_apply mq_put_apply put_spec_def Let_def job0_def new_queue_def
      set_job_def enlist_def queue_ids_def set_queue_def)

theorem lease_reorders_other_tenants_witness:
  "\<exists>w' k. mq_dequeue (Some ''t'') ''default'' mixed_queue = (Inr (Some k), w') \<and> queue_ids ''default'' (w_queue w') = [''c'', ''a'']"
  using lease_reorders_other_tenants [OF mixed_queue_facts(1) _ mixed_queue_facts(2-4), of "''s''" "''t''"]
  by auto

definition keeps_queues :: "'z cworld_scheme \<Rightarrow> 'z cworld_scheme \<Rightarrow> bool" where
  "keeps_queues w w' \<longleftrightarrow> q_queues (w_queue w') = q_queues (w_queue w)"

interpretation same_queues: step_contract keeps_queues
  by unfold_locales (auto simp: keeps_queues_def)

lemma same_queues_local:
  "(\<And>w. w_queue (final m w) = w_queue w) \<Longrightarrow> same_queues.steps m"
  "(\<And>q. q_queues (f q) = q_queues q) \<Longrightarrow> same_queues.steps (q_update f)"
  by (simp_all add: same_queues.steps_def keeps_queues_def q_update_apply)

lemma same_queues_from_dict: "same_queues.steps (job_from_dict d)"
  unfolding job_from_dict_def time_or_now_def Let_def
  by (intro same_queues.steps_intros same_queues_local(1)) (simp_all add: utc_now_def)

lemma sq_open_empty_queues:
  assumes "sq_open w = (Inr (), w')"
  shows "q_queues (w_queue w') = []"
proof -
  let ?w = "w\<lparr>w_queue := new_queue\<rparr>"
  have "same_queues.steps (bind (on_queue_db (sql_list ''runtime_jobs'')) (\<lambda>items.
     bind (forM (\<lambda>d. bind (job_from_dict d) (\<lambda>j. q_update (set_job j))) items) (\<lambda>_.
     bind (on_queue_db (sql_list ''runtime_dead_letters'')) (\<lambda>items.
     forM (\<lambda>d. bind (job_from_dict d) (\<lambda>j. q_update (\<lambda>q. q\<lparr>q_dead := AList.update (jb_id j) j (q_dead q)\<rparr>))) items))))"
    (is "same_queues.steps ?m")
    by (intro same_queues.steps_intros same_queues_from_dict same_queues_local(2) same_queues_local(1))
      (simp_all add: on_queue_db_def split: prod.split)
  then have "keeps_queues ?w (final ?m ?w)" by (rule same_queues.stepsD)
  moreover have "?m ?w = (Inr (), w')" using assms by (simp add: sq_open_def bind_apply q_update_apply)
  ultimately show ?thesis by (simp add: keeps_queues_def new_queue_def)
qed

text \<open>
  A restart strands the queued jobs: a queue opened anew over the database of the old one has all its
  queues empty, so no dequeue, for any tenant and of any queue, leases a job, whatever jobs marked
  queued were read back.
\<close>

theorem restart_strands_queued_jobs:
  assumes "sq_open w = (Inr (), w')"
  shows "outcome (sq_dequeue tenant name) w' = Inr None"
  using sq_open_empty_queues [OF assms]
  by (simp add: sq_dequeue_def bind_apply mq_dequeue_apply dequeue_spec_def queue_ids_def skipped_def ok_apply)

lemma map_of_norm_doc: "is_dict d \<Longrightarrow> map_of (norm_doc d) k = map_option canon (map_of d k)"
  by (simp add: norm_doc_def sorted_items_map_prod map_of_map_prod map_of_sorted_items)

lemma wf_job_as_dict: "wf_obj (jb_payload j) \<Longrightarrow> wf_obj (job_as_dict j)"
  by (cases "jb_worker j"; cases "jb_started_at j"; cases "jb_completed_at j") (simp_all add: job_as_dict_def wf_obj_def)

lemma canon_opt [simp]: "canon (opt_json x) = opt_json x" "canon (time_json y) = time_json y"
  by (cases x; simp) (cases y; simp)

lemma job_round_trip_norm:
  assumes "wf_obj (jb_payload j)"
  shows "job_from_dict (norm_doc (job_as_dict j)) w = (Inr (jnorm (j\<lparr>jb_payload := norm_doc (jb_payload j)\<rparr>)), w)"
proof -
  define d where "d = norm_doc (job_as_dict j)"
  have "is_dict (job_as_dict j)" by (simp add: job_as_dict_def)
  then have m: "map_of d k = map_option canon (map_of (job_as_dict j) k)" for k
    unfolding d_def by (rule map_of_norm_doc)
  have "job_from_dict d w = (Inr (jnorm (j\<lparr>jb_payload := norm_doc (jb_payload j)\<rparr>)), w)"
    using opt_str_opt_json [of "jb_worker j"] opt_time_json [of "jb_started_at j"] opt_time_json [of "jb_completed_at j"]
    by (simp add: job_from_dict_def record_defs op_simps jnorm_def m job_as_dict_def canon_JObj del: canon.simps(6))
  then show ?thesis by (simp add: d_def)
qed

lemma norm_doc_Nil [simp]: "norm_doc [] = []"
  by (simp add: norm_doc_def sorted_items_def)

definition requeued_world :: cworld where
  "requeued_world = final (sq_enqueue job0) cworld0"

lemma reload_example:
  "\<exists>w'. sq_open requeued_world = (Inr (), w') \<and> map_of (q_jobs (w_queue w')) ''job-1'' = Some (stamp (dt 0) (job0\<lparr>jb_status := ''queued''\<rparr>))"
proof -
  let ?j = "stamp (dt 0) (job0\<lparr>jb_status := ''queued''\<rparr>)"
  have wf: "wf_obj (job_as_dict ?j)" by (rule wf_job_as_dict) simp
  have j: "job_from_dict (norm_doc (job_as_dict ?j)) w = (Inr ?j, w)" for w :: cworld
    using job_round_trip_norm [of ?j w] by (simp add: stamp_def jnorm_def job0_def)
  have "db_rows (w_queue_db requeued_world) = [((''runtime_jobs'', ''job-1''), dumps (JObj (job_as_dict ?j)))]"
    "db_active (w_queue_db requeued_world) = None"
    by (simp_all add: requeued_world_def sq_enqueue_def bind_apply mq_enqueue_valid [OF valid_job0(1) HOL.refl] save_job_apply
        ok_apply sql_put_def modify_apply empty_db_def db_set_def db_view_def)
  then show ?thesis
    by (auto simp: sq_open_def bind_apply q_update_apply on_queue_db_def sql_list_def db_view_def coll_rows_def
        sorted_items_def load_doc_dumps [OF wf] j set_job_def new_queue_def ok_apply)
qed

theorem restart_strands_queued_jobs_witness:
  "\<exists>w'. sq_open requeued_world = (Inr (), w') \<and> map_of (q_jobs (w_queue w')) ''job-1'' = Some (stamp (dt 0) (job0\<lparr>jb_status := ''queued''\<rparr>)) \<and>
     outcome (sq_dequeue None ''default'') w' = Inr None"
  using reload_example restart_strands_queued_jobs by blast

end
