(* ===== verification/Server_Access.thy ===== *)
theory Server_Access
  imports Governance
begin

text \<open>
  What the endpoints of \<^verbatim>\<open>agentfabric/server/app.py\<close> do before they call a service: scopes of the caller
  (\<^verbatim>\<open>server/auth.py\<close>), the tenant context, the quota policy of a tenant by its billing plan
  (\<^verbatim>\<open>server/payments.py\<close>). A request is the principal its token was resolved to, if any.
\<close>

section \<open>Principals and scopes\<close>

record principal =
  pc_id :: string
  pc_tenant :: string
  pc_scopes :: "string list"
  pc_type :: string
  pc_token :: string

type_synonym request = "principal option"

definition require_scopes :: "request \<Rightarrow> string list \<Rightarrow> string option \<Rightarrow> ('s, principal) op" where
  "require_scopes rq scopes tid = (case rq of
     None \<Rightarrow> raise (http_error 401 ''missing authenticated principal'')
   | Some p \<Rightarrow>
       if scopes \<noteq> [] \<and> \<not> list_all (List.member (pc_scopes p)) scopes then raise (http_error 403 ''insufficient scope'')
       else if tid \<noteq> None \<and> tid \<noteq> Some [] \<and> tid \<noteq> Some (pc_tenant p) then raise (http_error 403 ''cross-tenant access denied'')
       else ok p)"

definition tenant_context_of :: "request \<Rightarrow> ('z world_scheme, tenant_context) op" where
  "tenant_context_of rq =
     bind (require_scopes rq [] None) (\<lambda>p.
     bind (get_tenant (pc_tenant p)) (\<lambda>t.
     require_context (Some \<lparr>tc_tenant = pc_tenant p,
       tc_organization = (case t of Some x \<Rightarrow> tn_organization x | None \<Rightarrow> pc_tenant p),
       tc_principal = pc_id p, tc_roles = pc_scopes p, tc_global_admin = List.member (pc_scopes p) ''tenant.global''\<rparr>)))"

definition assert_tenant_access :: "request \<Rightarrow> string \<Rightarrow> string list \<Rightarrow> ('s, principal) op" where
  "assert_tenant_access rq tid scopes =
     bind (require_scopes rq scopes None) (\<lambda>p.
     if pc_tenant p \<noteq> tid \<and> \<not> List.member (pc_scopes p) ''tenant.global''
     then raise (http_error 403 ''cross-tenant access denied'') else ok p)"

text \<open>The two first lines of most handlers: the context, then the scope.\<close>

definition scoped :: "request \<Rightarrow> string \<Rightarrow> (tenant_context \<Rightarrow> ('z world_scheme, 'a) op) \<Rightarrow> ('z world_scheme, 'a) op" where
  "scoped rq scope f =
     bind (tenant_context_of rq) (\<lambda>ctx.
     bind (require_scopes rq [scope] None) (\<lambda>_. f ctx))"

section \<open>Billing plans\<close>

record billing_plan =
  bp_id :: string
  bp_quota :: quota_policy
  bp_features :: "string list"
  bp_retention_days :: int
  bp_support :: string
  bp_marketplace :: "string list"
  bp_max_users :: int
  bp_max_agents :: int
  bp_max_workflows :: int

definition plan_as_dict :: "billing_plan \<Rightarrow> obj" where
  "plan_as_dict b = [
     (''plan_id'', JStr (bp_id b)),
     (''quota_limits'', JObj (map (map_prod id JInt) (quota_as_dict (bp_quota b)))),
     (''features'', strs (bp_features b)),
     (''retention_days'', JInt (bp_retention_days b)),
     (''support_level'', JStr (bp_support b)),
     (''marketplace_permissions'', strs (bp_marketplace b)),
     (''max_users'', JInt (bp_max_users b)),
     (''max_agents'', JInt (bp_max_agents b)),
     (''max_workflows'', JInt (bp_max_workflows b))]"

definition billing_plans :: "billing_plan dict" where
  "billing_plans = [
    (''dev'', \<lparr>bp_id = ''dev'',
       bp_quota = quota_default\<lparr>qp_agents_per_tenant := 3, qp_workflow_runs_per_day := 25, qp_memory_records := 100,
         qp_marketplace_installs := 10\<rparr>,
       bp_features = [''runtime'', ''mesh'', ''memory''], bp_retention_days = 14, bp_support = ''community'',
       bp_marketplace = [''install''], bp_max_users = 3, bp_max_agents = 3, bp_max_workflows = 25\<rparr>),
    (''team'', \<lparr>bp_id = ''team'',
       bp_quota = quota_default\<lparr>qp_agents_per_tenant := 25, qp_workflow_runs_per_day := 1000, qp_memory_records := 10000,
         qp_marketplace_installs := 250\<rparr>,
       bp_features = [''runtime'', ''mesh'', ''memory'', ''recovery'', ''marketplace''], bp_retention_days = 90,
       bp_support = ''standard'', bp_marketplace = [''install'', ''publish''], bp_max_users = 50, bp_max_agents = 25,
       bp_max_workflows = 1000\<rparr>),
    (''enterprise'', \<lparr>bp_id = ''enterprise'',
       bp_quota = quota_default\<lparr>qp_agents_per_tenant := 1000, qp_workflow_runs_per_day := 100000, qp_concurrent_workflows := 500,
         qp_memory_records := 1000000, qp_marketplace_installs := 10000\<rparr>,
       bp_features = [''runtime'', ''mesh'', ''memory'', ''recovery'', ''marketplace'', ''audit_export'', ''sso''],
       bp_retention_days = 365, bp_support = ''premium'', bp_marketplace = [''install'', ''publish'', ''private''],
       bp_max_users = 10000, bp_max_agents = 1000, bp_max_workflows = 100000\<rparr>),
    (''internal'', \<lparr>bp_id = ''internal'',
       bp_quota = quota_default\<lparr>qp_agents_per_tenant := 100000, qp_workflow_runs_per_day := 1000000,
         qp_concurrent_workflows := 10000, qp_memory_records := 10000000, qp_marketplace_installs := 100000\<rparr>,
       bp_features = [''all''], bp_retention_days = 3650, bp_support = ''internal'',
       bp_marketplace = [''install'', ''publish'', ''private'', ''admin''], bp_max_users = 100000, bp_max_agents = 100000,
       bp_max_workflows = 1000000\<rparr>)]"

definition get_billing_plan :: "string \<Rightarrow> billing_plan result" where
  "get_billing_plan i = (case map_of billing_plans i of
     None \<Rightarrow> Inl (ValidationError (''unknown billing plan: '' @ i)) | Some b \<Rightarrow> Inr b)"

definition tenant_policy :: "string \<Rightarrow> ('z world_scheme, quota_policy) op" where
  "tenant_policy tid =
     bind (on_store (mem_get ''quota_policies'' tid)) (\<lambda>stored.
     if stored \<noteq> None \<and> stored \<noteq> Some [] then lift (quota_from_dict (the stored))
     else
       bind (get_tenant tid) (\<lambda>t.
       bind (lift (get_billing_plan (case t of Some x \<Rightarrow> tn_plan x | None \<Rightarrow> ''dev''))) (\<lambda>b.
       ok (bp_quota b))))"

text \<open>\<^verbatim>\<open>limit_enforcer.consume(ctx.tenant_id, _tenant_policy(ctx.tenant_id), counter)\<close>\<close>

definition consume_for :: "string \<Rightarrow> string \<Rightarrow> ('z tworld_scheme, unit) op" where
  "consume_for tid counter =
     bind (tenant_policy tid) (\<lambda>p. bind (quota_consume tid p counter 1) (\<lambda>_. ok ()))"

section \<open>The audit log\<close>

lemma audit_require_scopes [audit_steps]: "audit.steps (require_scopes rq scopes tid)"
  unfolding require_scopes_def by (intro audit.steps_intros)

lemma audit_get_tenant [audit_steps]: "audit.steps (get_tenant tid)"
  unfolding get_tenant_def tenant_from_dict_def by (intro audit.steps_intros audit_steps)

lemma audit_require_context [audit_steps]: "audit.steps (require_context c)"
  unfolding require_context_def tc_require_def
  by (intro audit.steps_intros) (auto split: py_error.split intro: audit.steps_raise)

lemma audit_access [audit_steps]:
  "audit.steps (tenant_context_of rq)" "audit.steps (assert_tenant_access rq tid scopes)" "audit.steps (tenant_policy tid)"
  "audit.steps (consume_for tid counter)"
  unfolding tenant_context_of_def assert_tenant_access_def tenant_policy_def consume_for_def
  by (intro audit.steps_intros audit_steps)+

lemma audit_scoped [audit_steps]: "(\<And>ctx. audit.steps (f ctx)) \<Longrightarrow> audit.steps (scoped rq scope f)"
  unfolding scoped_def by (intro audit.steps_intros audit_steps)

section \<open>Lemmas\<close>

lemma require_scopes_Inr:
  "require_scopes rq scopes tid w = (Inr p, w') \<longleftrightarrow>
     rq = Some p \<and> w' = w \<and> set scopes \<subseteq> set (pc_scopes p) \<and> (tid = None \<or> tid = Some [] \<or> tid = Some (pc_tenant p))"
  by (auto simp: require_scopes_def ok_apply raise_apply list_all_iff split: option.splits)

lemma tenant_context_of_Inr:
  assumes "tenant_context_of rq w = (Inr ctx, w')"
  shows "\<exists>p. rq = Some p \<and> tc_tenant ctx = pc_tenant p \<and> tc_principal ctx = pc_id p \<and> tc_roles ctx = pc_scopes p \<and>
    (tc_global_admin ctx \<longleftrightarrow> ''tenant.global'' \<in> set (pc_scopes p)) \<and>
    tc_tenant ctx \<noteq> [] \<and> tc_organization ctx \<noteq> [] \<and> tc_principal ctx \<noteq> []"
  using assms
  by (auto simp: tenant_context_of_def bind_eq_Inr_iff require_scopes_Inr require_context_def tc_require_def catch_apply
      ok_apply raise_apply split: if_splits)

end
