(* ===== verification/Cloud_Runtime.thy ===== *)
theory Cloud_Runtime
  imports Cloud_Queue Server_Access
begin

text \<open>
  The cloud runtime (\<^verbatim>\<open>agentfabric/cloud\<close>): workers and their heartbeats, the dispatcher that leases,
  checks and runs jobs, the runtime's facade, and the endpoints of \<^verbatim>\<open>server/app.py\<close> on jobs and workers.
  The queue is any implementation of the interface; the handlers of the job types and the checks of
  other services are functions given to the dispatcher. The latencies the dispatcher collects for its
  metrics are not modelled: nothing reads them to decide.
\<close>

section \<open>Workers\<close>

record worker =
  wk_tenant :: string
  wk_id :: string
  wk_queues :: "string list"
  wk_capabilities :: "string list"
  wk_status :: string
  wk_lease_until :: "datetime option"
  wk_registered_at :: datetime
  wk_heartbeat_at :: datetime

definition worker_heartbeat :: "int \<Rightarrow> worker \<Rightarrow> ('z world_scheme, worker) op" where
  "worker_heartbeat lease_seconds k =
     bind utc_now (\<lambda>now.
     bind (lift (dt_add now (seconds lease_seconds))) (\<lambda>until.
     ok (k\<lparr>wk_status := ''healthy'', wk_lease_until := Some until, wk_heartbeat_at := now\<rparr>)))"

definition is_stale :: "int \<Rightarrow> worker \<Rightarrow> ('z world_scheme, bool) op" where
  "is_stale timeout_seconds k =
     bind utc_now (\<lambda>now. ok (us_of now - us_of (wk_heartbeat_at k) > seconds timeout_seconds))"

definition worker_as_dict :: "worker \<Rightarrow> obj" where
  "worker_as_dict k = [
     (''worker_id'', JStr (wk_id k)),
     (''tenant_id'', JStr (wk_tenant k)),
     (''queue_names'', strs (wk_queues k)),
     (''capabilities'', strs (wk_capabilities k)),
     (''status'', JStr (wk_status k)),
     (''lease_until'', time_json (wk_lease_until k)),
     (''registered_at'', JStr (isoformat (wk_registered_at k))),
     (''last_heartbeat_at'', JStr (isoformat (wk_heartbeat_at k)))]"

definition worker_from_dict :: "obj \<Rightarrow> ('z world_scheme, worker) op" where
  "worker_from_dict d =
     bind (lift (req_str d ''worker_id'')) (\<lambda>i.
     bind (lift (req_str d ''tenant_id'')) (\<lambda>t.
     bind (lift (strs_or d ''queue_names'' [''default''])) (\<lambda>qs.
     bind (lift (strs_or d ''capabilities'' [])) (\<lambda>cs.
     bind (lift (opt_time d ''lease_until'')) (\<lambda>lu.
     bind (time_or_now d ''registered_at'') (\<lambda>ra.
     bind (time_or_now d ''last_heartbeat_at'') (\<lambda>ha.
     ok \<lparr>wk_tenant = t, wk_id = i, wk_queues = qs, wk_capabilities = cs, wk_status = str_or d ''status'' ''registered'',
         wk_lease_until = lu, wk_registered_at = ra, wk_heartbeat_at = ha\<rparr>)))))))"

lemma worker_round_trip [simp]: "worker_from_dict (worker_as_dict k) w = (Inr k, w)"
  using opt_time_json [of "wk_lease_until k"]
  by (simp add: worker_from_dict_def worker_as_dict_def record_defs op_simps)

section \<open>The pool of workers\<close>

definition worker_register :: "worker \<Rightarrow> ('z world_scheme, worker) op" where
  "worker_register k =
     bind (on_store (mem_put ''runtime_workers'' (wk_id k) (worker_as_dict k))) (\<lambda>_.
     bind (es_append ''runtime.worker.registered'' (wk_id k) (worker_as_dict k)) (\<lambda>_. ok k))"

definition worker_get :: "string \<Rightarrow> ('z world_scheme, worker option) op" where
  "worker_get i =
     bind (on_store (mem_get ''runtime_workers'' i)) (\<lambda>item. case item of
       None \<Rightarrow> ok None
     | Some d \<Rightarrow> if d = [] then ok None else bind (worker_from_dict d) (\<lambda>k. ok (Some k)))"

definition pool_heartbeat :: "string \<Rightarrow> int \<Rightarrow> ('z world_scheme, worker) op" where
  "pool_heartbeat i lease_seconds =
     bind (worker_get i) (\<lambda>found. case found of
       None \<Rightarrow> raise (KeyError i)
     | Some k \<Rightarrow>
         bind (worker_heartbeat lease_seconds k) (\<lambda>k'.
         bind (on_store (mem_put ''runtime_workers'' i (worker_as_dict k'))) (\<lambda>_. ok k')))"

definition worker_list :: "string option \<Rightarrow> ('z world_scheme, worker list) op" where
  "worker_list tenant =
     bind (if tenant \<noteq> None \<and> tenant \<noteq> Some [] then on_store (mem_list_tenant ''runtime_workers'' (the tenant))
           else on_store (mem_list ''runtime_workers'')) (\<lambda>items.
     mapM worker_from_dict items)"

definition mark_stale :: "int \<Rightarrow> worker \<Rightarrow> ('z world_scheme, worker list) op" where
  "mark_stale timeout k =
     bind (is_stale timeout k) (\<lambda>stale.
     if stale \<and> wk_status k \<noteq> ''stale''
     then let k' = k\<lparr>wk_status := ''stale''\<rparr> in
          bind (on_store (mem_put ''runtime_workers'' (wk_id k) (worker_as_dict k'))) (\<lambda>_.
          bind (es_append ''runtime.worker.heartbeat_missed'' (wk_id k) (worker_as_dict k')) (\<lambda>_. ok [k']))
     else ok [])"

definition mark_stale_workers :: "int \<Rightarrow> ('z world_scheme, worker list) op" where
  "mark_stale_workers timeout =
     bind (worker_list None) (\<lambda>ks.
     bind (mapM (mark_stale timeout) ks) (\<lambda>kss. ok (concat kss)))"

section \<open>The dispatcher\<close>

record 'w dispatcher =
  dp_veil :: veil
  dp_quota :: "(string \<Rightarrow> ('w, quota_policy) op) option"
  dp_entitlement :: "(runtime_job \<Rightarrow> ('w, unit) op) option"
  dp_governance :: "(runtime_job \<Rightarrow> ('w, unit) op) option"
  dp_federation :: "(runtime_job \<Rightarrow> ('w, unit) op) option"
  dp_spend :: "(runtime_job \<Rightarrow> ('w, unit) op) option"
  dp_handlers :: "(runtime_job \<Rightarrow> ('w, obj) op) dict"

definition register_handler :: "string \<Rightarrow> (runtime_job \<Rightarrow> ('w, obj) op) \<Rightarrow> 'w dispatcher \<Rightarrow> 'w dispatcher" where
  "register_handler ty h D = D\<lparr>dp_handlers := AList.update ty h (dp_handlers D)\<rparr>"

definition federation_job_types :: "string list" where
  "federation_job_types = [''remote_discovery_sync'', ''federated_message_send'', ''federated_message_receipt'',
     ''remote_delegation'', ''revocation_propagation'', ''federation_reputation_recalculation'']"

definition run_check :: "(runtime_job \<Rightarrow> ('w, unit) op) option \<Rightarrow> runtime_job \<Rightarrow> ('w, unit) op" where
  "run_check c j = (case c of None \<Rightarrow> ok () | Some f \<Rightarrow> f j)"

definition enforce :: "('z tworld_scheme) dispatcher \<Rightarrow> runtime_job \<Rightarrow> ('z tworld_scheme, unit) op" where
  "enforce D j =
     (if jb_tenant j = [] then raise (AuthorizationError ''job execution requires tenant context'')
      else
        bind (case dp_quota D of None \<Rightarrow> ok ()
              | Some policy \<Rightarrow> bind (policy (jb_tenant j)) (\<lambda>p.
                  bind (quota_consume (jb_tenant j) p ''compute_seconds'' 1) (\<lambda>_. ok ()))) (\<lambda>_.
        bind (run_check (dp_spend D) j) (\<lambda>_.
        bind (if jb_type j = ''governance_action'' then run_check (dp_governance D) j else ok ()) (\<lambda>_.
        bind (if List.member [''agent_run'', ''marketplace_package''] (jb_type j) then run_check (dp_entitlement D) j else ok ()) (\<lambda>_.
        bind (if List.member federation_job_types (jb_type j) then run_check (dp_federation D) j else ok ()) (\<lambda>_.
        bind (lift (v_check (dp_veil D) (py_str (get_or (jb_payload j) ''agent_id'' (JStr (jb_created_by j))))
                (''runtime.execute.'' @ jb_type j) (job_as_dict j))) (\<lambda>(allowed, reason).
        if \<not> allowed then raise (AuthorizationError (or_default reason ''VEIL policy denied job execution'')) else ok ())))))))"

definition default_handler :: "runtime_job \<Rightarrow> ('s, obj) op" where
  "default_handler j =
     (if truthy (get_or (jb_payload j) ''force_fail'' JNull) then raise (ConflictError ''forced job failure'')
      else ok [(''job_id'', JStr (jb_id j)), (''job_type'', JStr (jb_type j)), (''status'', JStr ''ok'')])"

definition handler_for :: "'w dispatcher \<Rightarrow> string \<Rightarrow> runtime_job \<Rightarrow> ('w, obj) op" where
  "handler_for D ty = (case map_of (dp_handlers D) ty of None \<Rightarrow> default_handler | Some h \<Rightarrow> h)"

text \<open>The body of the \<^verbatim>\<open>try\<close> block and of its \<^verbatim>\<open>except Exception\<close>.\<close>

definition run_handler ::
    "('z cworld_scheme) job_queue \<Rightarrow> ('z cworld_scheme) dispatcher \<Rightarrow> runtime_job \<Rightarrow> ('z cworld_scheme, runtime_job) op" where
  "run_handler Q D running =
     bind (handler_for D (jb_type running) running) (\<lambda>result.
     bind utc_now (\<lambda>now.
     bind (with_update [(''status'', JStr ''completed''), (''completed_at'', JStr (isoformat now)),
             (''payload'', JObj (AList.update ''result'' (JObj result) (jb_payload running))), (''last_error'', JStr [])] running) (\<lambda>completed.
     bind (jq_put Q completed) (\<lambda>_.
     bind (es_append ''runtime.job.completed'' (jb_id completed) (job_as_dict completed)) (\<lambda>_.
     ok completed)))))"

definition handle_failure ::
    "('z cworld_scheme) job_queue \<Rightarrow> runtime_job \<Rightarrow> py_error \<Rightarrow> ('z cworld_scheme, runtime_job) op" where
  "handle_failure Q running exc =
     bind (with_update [(''status'', JStr ''failed''), (''last_error'', JStr (err_str exc))] running) (\<lambda>failed.
     bind (es_append ''runtime.job.failed'' (jb_id failed) (job_as_dict failed)) (\<lambda>_.
     if jb_attempts failed \<ge> jb_max_attempts failed
     then
       bind (jq_dead_letter Q failed) (\<lambda>dead.
       bind (es_append ''runtime.job.dead_lettered'' (jb_id dead) (job_as_dict dead)) (\<lambda>_. ok dead))
     else
       bind (with_update [(''status'', JStr ''queued'')] failed) (\<lambda>queued.
       bind (jq_put Q queued) (\<lambda>_.
       bind (es_append ''runtime.job.retried'' (jb_id failed) (job_as_dict failed)) (\<lambda>_. ok failed)))))"

definition execute ::
    "('z cworld_scheme) job_queue \<Rightarrow> ('z cworld_scheme) dispatcher \<Rightarrow> runtime_job \<Rightarrow> ('z cworld_scheme, runtime_job) op" where
  "execute Q D j =
     bind (job_validate j) (\<lambda>_.
     bind (enforce D j) (\<lambda>_.
     bind utc_now (\<lambda>now.
     bind (with_update [(''status'', JStr ''running''), (''started_at'', JStr (isoformat now))] j) (\<lambda>running.
     bind (jq_put Q running) (\<lambda>_.
     bind (es_append ''runtime.job.started'' (jb_id running) (job_as_dict running)) (\<lambda>_.
     catch (run_handler Q D running) (handle_failure Q running)))))))"

definition dispatch_one ::
    "('z cworld_scheme) job_queue \<Rightarrow> ('z cworld_scheme) dispatcher \<Rightarrow> string option \<Rightarrow> string \<Rightarrow> string
     \<Rightarrow> ('z cworld_scheme, runtime_job option) op" where
  "dispatch_one Q D tenant name worker_id =
     bind (jq_dequeue Q tenant name) (\<lambda>job. case job of
       None \<Rightarrow> ok None
     | Some j \<Rightarrow>
         bind (with_update [(''assigned_worker_id'', JStr worker_id)] j) (\<lambda>assigned.
         bind (jq_put Q assigned) (\<lambda>_.
         bind (es_append ''runtime.job.assigned'' (jb_id assigned) (job_as_dict assigned)) (\<lambda>_.
         bind (execute Q D assigned) (\<lambda>r. ok (Some r))))))"

section \<open>The runtime\<close>

record runtime_config =
  rc_queue_backend :: string
  rc_sqlite_path :: string
  rc_redis_url :: string
  rc_max_attempts :: int
  rc_worker_lease_seconds :: int
  rc_heartbeat_timeout_seconds :: int
  rc_production_fail_closed :: bool

definition runtime_config_default :: runtime_config where
  "runtime_config_default = \<lparr>rc_queue_backend = ''memory'', rc_sqlite_path = ''agentfabric_runtime_queue.db'',
     rc_redis_url = ''redis://localhost:6379/0'', rc_max_attempts = 3, rc_worker_lease_seconds = 60,
     rc_heartbeat_timeout_seconds = 90, rc_production_fail_closed = False\<rparr>"

definition submit :: "('z cworld_scheme) job_queue \<Rightarrow> runtime_job \<Rightarrow> ('z cworld_scheme, runtime_job) op" where
  "submit Q j =
     bind (job_validate j) (\<lambda>_.
     bind (jq_enqueue Q j) (\<lambda>queued.
     bind (es_append ''runtime.job.created'' (jb_id queued) (job_as_dict queued)) (\<lambda>_. ok queued)))"

definition cancel_job :: "('z cworld_scheme) job_queue \<Rightarrow> string \<Rightarrow> ('z cworld_scheme, runtime_job) op" where
  "cancel_job Q i =
     bind (jq_get Q i) (\<lambda>found. case found of
       None \<Rightarrow> raise (KeyError i)
     | Some j \<Rightarrow>
         bind (with_update [(''status'', JStr ''cancelled'')] j) (\<lambda>cancelled.
         bind (jq_put Q cancelled) (\<lambda>_.
         bind (es_append ''runtime.job.cancelled'' (jb_id cancelled) (job_as_dict cancelled)) (\<lambda>_. ok cancelled))))"

definition retry_job :: "('z cworld_scheme) job_queue \<Rightarrow> string \<Rightarrow> ('z cworld_scheme, runtime_job) op" where
  "retry_job Q i =
     bind (jq_get Q i) (\<lambda>found. case found of
       None \<Rightarrow> raise (KeyError i)
     | Some j \<Rightarrow>
         bind (with_update [(''status'', JStr ''queued''), (''last_error'', JStr [])] j) (\<lambda>retried.
         bind (jq_put Q retried) (\<lambda>_.
         bind (es_append ''runtime.job.retried'' (jb_id retried) (job_as_dict retried)) (\<lambda>_. ok retried))))"

definition requeue_dead_letter :: "('z cworld_scheme) job_queue \<Rightarrow> string \<Rightarrow> ('z cworld_scheme, runtime_job) op" where
  "requeue_dead_letter Q i =
     bind (jq_get Q i) (\<lambda>found. case found of
       None \<Rightarrow> raise (KeyError i)
     | Some j \<Rightarrow>
         bind (with_update [(''status'', JStr ''queued''), (''last_error'', JStr [])] j) (\<lambda>requeued.
         bind (jq_enqueue Q requeued) (\<lambda>_.
         bind (es_append ''runtime.job.retried'' (jb_id requeued) (job_as_dict requeued)) (\<lambda>_. ok requeued))))"

definition runtime_heartbeat :: "runtime_config \<Rightarrow> string \<Rightarrow> ('z world_scheme, worker) op" where
  "runtime_heartbeat cfg i = pool_heartbeat i (rc_worker_lease_seconds cfg)"

definition runtime_health :: "('z cworld_scheme) job_queue \<Rightarrow> runtime_config \<Rightarrow> ('z cworld_scheme, obj) op" where
  "runtime_health Q cfg =
     bind (mark_stale_workers (rc_heartbeat_timeout_seconds cfg)) (\<lambda>_.
     bind (jq_health Q) (\<lambda>h.
     bind (worker_list None) (\<lambda>ks.
     bind (gets validate_integrity) (\<lambda>intact.
     ok [(''status'', JStr (if get_or h ''status'' JNull = JStr ''ok'' then ''ok'' else ''degraded'')),
         (''queue'', JObj h),
         (''workers'', JObj [(''count'', JInt (int (length ks))),
            (''healthy'', JInt (int (length (filter (\<lambda>k. wk_status k = ''healthy'') ks))))]),
         (''event_integrity'', JBool intact)]))))"

section \<open>The checks and endpoints of the server\<close>

definition runtime_governance_check :: "runtime_job \<Rightarrow> ('z world_scheme, unit) op" where
  "runtime_governance_check j =
     (let pid = get_or (jb_payload j) ''proposal_id'' JNull in
      if \<not> truthy pid then raise (AuthorizationError ''governance action jobs require proposal_id'')
      else
        bind (get_proposal (py_str pid)) (\<lambda>p.
        if pr_tenant p \<noteq> jb_tenant j then raise (AuthorizationError ''cross-tenant governance job denied'')
        else if \<not> List.member [''approved'', ''executed''] (pr_status p)
        then raise (AuthorizationError ''governance action is not approved'')
        else ok ()))"



text \<open>A handler that first finds the job and checks that it belongs to the caller's tenant.\<close>

definition with_job ::
    "('z cworld_scheme) job_queue \<Rightarrow> string \<Rightarrow> tenant_context \<Rightarrow> ('z cworld_scheme, 'a) op \<Rightarrow> ('z cworld_scheme, 'a) op" where
  "with_job Q i ctx f =
     bind (jq_get Q i) (\<lambda>found. case found of
       None \<Rightarrow> raise (http_error 404 ''job not found'')
     | Some j \<Rightarrow> bind (assert_governance_tenant ctx (job_as_dict j)) (\<lambda>_. f))"

definition visible_tenant :: "tenant_context \<Rightarrow> string option" where
  "visible_tenant ctx = (if tc_global_admin ctx then None else Some (tc_tenant ctx))"

definition runtime_jobs_list :: "('z cworld_scheme) job_queue \<Rightarrow> request \<Rightarrow> ('z cworld_scheme, runtime_job list) op" where
  "runtime_jobs_list Q rq = scoped rq ''runtime.jobs.read'' (\<lambda>ctx. jq_list Q (visible_tenant ctx))"

definition runtime_job_get :: "('z cworld_scheme) job_queue \<Rightarrow> string \<Rightarrow> request \<Rightarrow> ('z cworld_scheme, runtime_job) op" where
  "runtime_job_get Q i rq = scoped rq ''runtime.jobs.read'' (\<lambda>ctx.
     bind (jq_get Q i) (\<lambda>found. case found of
       None \<Rightarrow> raise (http_error 404 ''job not found'')
     | Some j \<Rightarrow> bind (assert_governance_tenant ctx (job_as_dict j)) (\<lambda>_. ok j)))"

definition runtime_job_cancel :: "('z cworld_scheme) job_queue \<Rightarrow> string \<Rightarrow> request \<Rightarrow> ('z cworld_scheme, runtime_job) op" where
  "runtime_job_cancel Q i rq = scoped rq ''runtime.jobs.manage'' (\<lambda>ctx. with_job Q i ctx (cancel_job Q i))"

definition runtime_job_retry :: "('z cworld_scheme) job_queue \<Rightarrow> string \<Rightarrow> request \<Rightarrow> ('z cworld_scheme, runtime_job) op" where
  "runtime_job_retry Q i rq = scoped rq ''runtime.jobs.manage'' (\<lambda>ctx.
     bind (consume_for (tc_tenant ctx) ''api_calls'') (\<lambda>_. with_job Q i ctx (retry_job Q i)))"

definition runtime_dead_letter :: "('z cworld_scheme) job_queue \<Rightarrow> request \<Rightarrow> ('z cworld_scheme, runtime_job list) op" where
  "runtime_dead_letter Q rq = scoped rq ''runtime.jobs.read'' (\<lambda>ctx. jq_dead_letters Q (visible_tenant ctx))"

definition runtime_dead_letter_requeue ::
    "('z cworld_scheme) job_queue \<Rightarrow> string \<Rightarrow> request \<Rightarrow> ('z cworld_scheme, runtime_job) op" where
  "runtime_dead_letter_requeue Q i rq = scoped rq ''runtime.jobs.manage'' (\<lambda>ctx.
     bind (consume_for (tc_tenant ctx) ''api_calls'') (\<lambda>_. with_job Q i ctx (requeue_dead_letter Q i)))"

definition runtime_worker_heartbeat :: "runtime_config \<Rightarrow> string \<Rightarrow> request \<Rightarrow> ('z cworld_scheme, worker) op" where
  "runtime_worker_heartbeat cfg i rq = scoped rq ''runtime.workers.manage'' (\<lambda>ctx.
     bind (worker_get i) (\<lambda>found. case found of
       None \<Rightarrow> raise (http_error 404 ''worker not found'')
     | Some k \<Rightarrow>
         bind (assert_governance_tenant ctx (worker_as_dict k)) (\<lambda>_. runtime_heartbeat cfg i)))"

definition runtime_workers_list :: "request \<Rightarrow> ('z cworld_scheme, worker list) op" where
  "runtime_workers_list rq = scoped rq ''runtime.jobs.read'' (\<lambda>ctx. worker_list (visible_tenant ctx))"

section \<open>The audit log\<close>

lemma audit_with_update [audit_steps]: "audit.steps (with_update us j)"
  unfolding with_update_def job_from_dict_def by (intro audit.steps_intros audit_steps)

lemma audit_job_validate [audit_steps]: "audit.steps (job_validate j)"
  unfolding job_validate_def by (intro audit.steps_intros)

lemma audit_workers [audit_steps]:
  "audit.steps (worker_from_dict d)" "audit.steps (worker_heartbeat n k)" "audit.steps (is_stale n k)"
  unfolding worker_from_dict_def worker_heartbeat_def is_stale_def by (intro audit.steps_intros audit_steps)+

lemma audit_pool [audit_steps]:
  "audit.steps (worker_register k)" "audit.steps (worker_get i)" "audit.steps (pool_heartbeat i n)" "audit.steps (worker_list tenant)"
  "audit.steps (mark_stale_workers n)"
  unfolding worker_register_def worker_get_def pool_heartbeat_def worker_list_def mark_stale_workers_def mark_stale_def Let_def
  by (intro audit.steps_intros audit_steps; simp)+

lemma audit_governance_check [audit_steps]: "audit.steps (runtime_governance_check j)"
  unfolding runtime_governance_check_def Let_def by (intro audit.steps_intros audit_steps)

text \<open>A dispatcher whose checks and handlers meet a contract.\<close>

definition all_checks :: "(('w, unit) op \<Rightarrow> bool) \<Rightarrow> 'w dispatcher \<Rightarrow> bool" where
  "all_checks P D \<longleftrightarrow> (\<forall>c \<in> {dp_entitlement D, dp_governance D, dp_federation D, dp_spend D}. \<forall>f j. c = Some f \<longrightarrow> P (f j))"

definition all_handlers :: "(('w, obj) op \<Rightarrow> bool) \<Rightarrow> 'w dispatcher \<Rightarrow> bool" where
  "all_handlers P D \<longleftrightarrow> (\<forall>ty h j. map_of (dp_handlers D) ty = Some h \<longrightarrow> P (h j))"

definition all_policies :: "(('w, quota_policy) op \<Rightarrow> bool) \<Rightarrow> 'w dispatcher \<Rightarrow> bool" where
  "all_policies P D \<longleftrightarrow> (\<forall>f t. dp_quota D = Some f \<longrightarrow> P (f t))"

definition audited :: "('z world_scheme) dispatcher \<Rightarrow> bool" where
  "audited D \<longleftrightarrow> all_checks audit.steps D \<and> all_handlers audit.steps D \<and> all_policies audit.steps D"

lemma audit_run_check [audit_steps]:
  "audited D \<Longrightarrow> audit.steps (run_check (dp_entitlement D) j)" "audited D \<Longrightarrow> audit.steps (run_check (dp_governance D) j)"
  "audited D \<Longrightarrow> audit.steps (run_check (dp_federation D) j)" "audited D \<Longrightarrow> audit.steps (run_check (dp_spend D) j)"
  by (auto simp: audited_def all_checks_def run_check_def split: option.split intro: audit.steps_ok)

lemma audit_enforce [audit_steps]: "audited D \<Longrightarrow> audit.steps (enforce D j)"
  unfolding enforce_def
  by (intro audit.steps_intros audit_steps) (auto simp: audited_def all_policies_def)

lemma audit_handler [audit_steps]: "audited D \<Longrightarrow> audit.steps (handler_for D ty j)"
  by (auto simp: handler_for_def audited_def all_handlers_def default_handler_def split: option.split
      intro!: audit.steps_intros)

context queue_contract
begin

lemma audit_failure [audit_steps]: "audit.steps (handle_failure Q running exc)"
  unfolding handle_failure_def by (intro audit.steps_intros audit_steps audit_Q)

lemma audit_runtime [audit_steps]:
  "audit.steps (submit Q j)" "audit.steps (cancel_job Q i)" "audit.steps (retry_job Q i)" "audit.steps (requeue_dead_letter Q i)"
  unfolding submit_def cancel_job_def retry_job_def requeue_dead_letter_def
  by (intro audit.steps_intros audit_steps audit_Q)+

lemma audit_dispatch [audit_steps]:
  assumes "audited D"
  shows "audit.steps (execute Q D j)" "audit.steps (dispatch_one Q D tenant name worker_id)"
proof -
  show *: "audit.steps (execute Q D j)" for j
    unfolding execute_def run_handler_def using assms
    by (intro audit.steps_intros audit_steps audit_Q audit_failure)
  show "audit.steps (dispatch_one Q D tenant name worker_id)"
    unfolding dispatch_one_def by (intro audit.steps_intros audit_steps audit_Q *)
qed

lemma audit_endpoints [audit_steps]:
  "audit.steps (runtime_job_get Q i rq)" "audit.steps (runtime_job_cancel Q i rq)" "audit.steps (runtime_job_retry Q i rq)"
  "audit.steps (runtime_dead_letter_requeue Q i rq)"
  unfolding runtime_job_get_def runtime_job_cancel_def runtime_job_retry_def runtime_dead_letter_requeue_def with_job_def
  by (intro audit.steps_intros audit_steps audit_Q audit_runtime)+

end

lemma audit_worker_endpoints [audit_steps]:
  "audit.steps (runtime_worker_heartbeat cfg i rq)" "audit.steps (runtime_workers_list rq)"
  unfolding runtime_worker_heartbeat_def runtime_heartbeat_def runtime_workers_list_def
  by (intro audit.steps_intros audit_steps)+

section \<open>Steps that leave the queue alone\<close>

definition keeps_queue :: "'z cworld_scheme \<Rightarrow> 'z cworld_scheme \<Rightarrow> bool" where
  "keeps_queue w w' \<longleftrightarrow> w_queue w' = w_queue w"

interpretation same_queue: step_contract keeps_queue
  by unfold_locales (auto simp: keeps_queue_def)

named_theorems queue_steps \<open>operations that leave the queue alone\<close>

lemma same_queue_world [queue_steps]:
  "same_queue.steps utc_now" "same_queue.steps uuid_hex12" "same_queue.steps (on_store m)" "same_queue.steps (modify (\<lambda>w. w\<lparr>w_usage := f w\<rparr>))"
  by (auto simp: same_queue.steps_def keeps_queue_def utc_now_def uuid_hex12_def on_store_def modify_apply split: prod.split)

lemma same_queue_es_append [queue_steps]: "same_queue.steps (es_append ty ag p)"
  unfolding same_queue.steps_def keeps_queue_def
  by (cases "registered ty") (auto simp: es_append_registered es_append_unregistered)

lemma same_queue_with_update [queue_steps]: "same_queue.steps (with_update us j)"
  unfolding with_update_def job_from_dict_def time_or_now_def Let_def by (intro same_queue.steps_intros queue_steps)

lemma same_queue_consume [queue_steps]: "same_queue.steps (quota_consume t p c n)"
  unfolding quota_consume_def quota_check_def tracker_increment_def tracker_usage_def Let_def
  by (intro same_queue.steps_intros queue_steps)

lemma same_queue_job_validate [queue_steps]: "same_queue.steps (job_validate j)"
  unfolding job_validate_def by (intro same_queue.steps_intros)

text \<open>A dispatcher whose checks and handlers do not touch the queue they are run from.\<close>

definition queue_safe :: "('z cworld_scheme) dispatcher \<Rightarrow> bool" where
  "queue_safe D \<longleftrightarrow> all_checks same_queue.steps D \<and> all_handlers same_queue.steps D \<and> all_policies same_queue.steps D"

lemma same_queue_run_check [queue_steps]:
  "queue_safe D \<Longrightarrow> same_queue.steps (run_check (dp_entitlement D) j)" "queue_safe D \<Longrightarrow> same_queue.steps (run_check (dp_governance D) j)"
  "queue_safe D \<Longrightarrow> same_queue.steps (run_check (dp_federation D) j)" "queue_safe D \<Longrightarrow> same_queue.steps (run_check (dp_spend D) j)"
  by (auto simp: queue_safe_def all_checks_def run_check_def split: option.split intro: same_queue.steps_ok)

lemma same_queue_enforce [queue_steps]: "queue_safe D \<Longrightarrow> same_queue.steps (enforce D j)"
  unfolding enforce_def
  by (intro same_queue.steps_intros queue_steps) (auto simp: queue_safe_def all_policies_def)

lemma same_queue_handler [queue_steps]: "queue_safe D \<Longrightarrow> same_queue.steps (handler_for D ty j)"
  by (auto simp: handler_for_def queue_safe_def all_handlers_def default_handler_def split: option.split
      intro!: same_queue.steps_intros)

section \<open>A worker comes to an end of its queue\<close>

text \<open>
  How often a job may still be leased: a queued job has its remaining attempts and the lease that
  finds them used up.
\<close>

definition weight :: "runtime_job \<Rightarrow> nat" where
  "weight j = (if jb_status j = ''queued'' then nat (jb_max_attempts j - jb_attempts j) + 1 else 0)"

definition work :: "memory_job_queue \<Rightarrow> nat" where
  "work q = (\<Sum>(i, j) \<leftarrow> q_jobs q. weight j)"

lemma sum_list_update:
  assumes "map_of d k = Some v"
  shows "(\<Sum>(i, j) \<leftarrow> AList.update k v' d. f j) + f v = (\<Sum>(i, j) \<leftarrow> d. f j) + (f v' :: nat)"
  using assms by (induction d) (auto split: if_splits)

text \<open>The job \<open>i\<close>, and no other, changes, to one that weighs less than \<open>c\<close>.\<close>

definition lighter :: "string \<Rightarrow> nat \<Rightarrow> 'z cworld_scheme \<Rightarrow> 'z cworld_scheme \<Rightarrow> bool" where
  "lighter i c w w' \<longleftrightarrow> q_jobs (w_queue w') = q_jobs (w_queue w) \<or>
     (\<exists>j. jb_id j = i \<and> weight j < c \<and> q_jobs (w_queue w') = AList.update i j (q_jobs (w_queue w)))"

interpretation lightens: step_contract "lighter i c" for i c
  by unfold_locales (auto simp: lighter_def)

lemma lightens_same: "same_queue.steps m \<Longrightarrow> lightens.steps i c m"
  by (auto simp: same_queue.steps_def lightens.steps_def keeps_queue_def lighter_def)

lemma lightens_with_update:
  assumes "foldl (\<lambda>d (k, v). AList.update k v d) (job_as_dict j) us = job_as_dict j'" "\<And>t. lightens.steps i c (f (stamp t j'))"
  shows "lightens.steps i c (bind (with_update us j) f)"
proof (rule lightens.steps_bind_val)
  show "lightens.steps i c (with_update us j)" by (rule lightens_same) (rule queue_steps)
  show "lightens.steps i c (f a)" if "outcome (with_update us j) w = Inr a" for w a
    using that assms(2) by (auto simp: with_update_apply [OF assms(1)])
qed

lemma weight_stamp [simp]: "weight (stamp t j) = weight j"
  by (simp add: weight_def)

lemma q_jobs_spec [simp]: "q_jobs (put_spec j q) = AList.update (jb_id j) j (q_jobs q)"
  "q_jobs (dead_letter_spec j q) = AList.update (jb_id j) j (q_jobs q)"
  "q_jobs (enqueue_spec j q) = AList.update (jb_id j) j (q_jobs q)"
  by (simp_all add: put_spec_def dead_letter_spec_def enqueue_spec_def Let_def)

definition orderly_step :: "'z cworld_scheme \<Rightarrow> 'z cworld_scheme \<Rightarrow> bool" where
  "orderly_step w w' \<longleftrightarrow> (queue_inv (w_queue w) \<longrightarrow> queue_inv (w_queue w'))"

interpretation orderly: step_contract orderly_step
  by unfold_locales (auto simp: orderly_step_def)

lemma orderly_same: "same_queue.steps m \<Longrightarrow> orderly.steps m"
  by (simp add: same_queue.steps_def orderly.steps_def keeps_queue_def orderly_step_def)

context queue_contract
begin

lemma lightens_put: "weight j < c \<Longrightarrow> jb_id j = i \<Longrightarrow> lightens.steps i c (jq_put Q j)"
  by (auto simp: lightens.steps_def lighter_def queue_after)

lemma lightens_dead_letter: "0 < c \<Longrightarrow> jb_id j = i \<Longrightarrow> lightens.steps i c (jq_dead_letter Q j)"
  unfolding lightens.steps_def lighter_def queue_after q_jobs_spec
  by (rule allI, rule disjI2, rule exI [of _ "stamp _ (j\<lparr>jb_status := ''dead_lettered''\<rparr>)"]) (simp add: weight_def)

lemma lightens_run_handler:
  assumes "queue_safe D" "jb_id r = i" "0 < c"
  shows "lightens.steps i c (run_handler Q D r)"
  unfolding run_handler_def
  apply (rule lightens.steps_bind, rule lightens_same, rule same_queue_handler [OF assms(1)])
  apply (rule lightens.steps_bind, rule lightens_same, rule queue_steps)
  apply (rule lightens_with_update, simp)
  apply (rule lightens.steps_bind, rule lightens_put)
    apply (use assms in \<open>simp_all add: weight_def\<close>)
  apply (intro lightens.steps_intros lightens_same queue_steps)
  done

lemma lightens_failure:
  assumes "jb_id r = i" "0 < c" "jb_attempts r < jb_max_attempts r \<Longrightarrow> nat (jb_max_attempts r - jb_attempts r) + 1 < c"
  shows "lightens.steps i c (handle_failure Q r e)"
  unfolding handle_failure_def
  apply (rule lightens_with_update, simp)
  apply (rule lightens.steps_bind, rule lightens_same, rule queue_steps)
  apply (rule lightens.steps_if)
   apply (rule lightens.steps_bind, rule lightens_dead_letter)
     apply (use assms in simp_all)[2]
   apply (intro lightens.steps_intros lightens_same queue_steps)
  apply (rule lightens_with_update, simp)
  apply (rule lightens.steps_bind, rule lightens_put)
    apply (use assms in \<open>simp_all add: weight_def\<close>)[2]
  apply (intro lightens.steps_intros lightens_same queue_steps)
  done

lemma lightens_execute:
  assumes "queue_safe D" "jb_id j = i" "0 < c" "jb_attempts j < jb_max_attempts j \<Longrightarrow> nat (jb_max_attempts j - jb_attempts j) + 1 < c"
  shows "lightens.steps i c (execute Q D j)"
  unfolding execute_def
  apply (rule lightens.steps_bind, rule lightens_same, rule queue_steps)
  apply (rule lightens.steps_bind, rule lightens_same, rule same_queue_enforce [OF assms(1)])
  apply (rule lightens.steps_bind, rule lightens_same, rule queue_steps)
  apply (rule lightens_with_update, simp)
  apply (rule lightens.steps_bind, rule lightens_put)
    apply (use assms in \<open>simp_all add: weight_def\<close>)[2]
  apply (rule lightens.steps_bind, rule lightens_same, rule queue_steps)
  apply (rule lightens.steps_catch)
   apply (rule lightens_run_handler, use assms in simp_all)
  apply (rule lightens_failure, use assms in simp_all)
  done

lemma dispatch_lightens:
  assumes "queue_safe D" "queue_inv (w_queue w)" "outcome (dispatch_one Q D tenant name worker_id) w \<noteq> Inr None"
  shows "work (w_queue (final (dispatch_one Q D tenant name worker_id) w)) < work (w_queue w)"
proof (cases rule: dequeue_spec_cases [of "now w" tenant name "w_queue w"])
  case none
  then have "outcome (jq_dequeue Q tenant name) w = Inr None" by (simp add: queue_after)
  then have "outcome (dispatch_one Q D tenant name worker_id) w = Inr None"
    by (cases "jq_dequeue Q tenant name w") (simp add: dispatch_one_def bind_apply ok_apply)
  with assms(3) show ?thesis by simp
next
  case (some i rest j)
  define c where "c = weight j"
  define w1 where "w1 = final (jq_dequeue Q tenant name) w"
  define rest_op where "rest_op = bind (with_update [(''assigned_worker_id'', JStr worker_id)] (lease (now w) j)) (\<lambda>assigned.
         bind (jq_put Q assigned) (\<lambda>_.
         bind (es_append ''runtime.job.assigned'' (jb_id assigned) (job_as_dict assigned)) (\<lambda>_.
         bind (execute Q D assigned) (\<lambda>r. ok (Some r)))))"
  have id: "jb_id j = i" using some(2) assms(2) by (simp add: queue_inv_def)
  have c: "0 < c" "jb_attempts j + 1 < jb_max_attempts j \<Longrightarrow> nat (jb_max_attempts j - (jb_attempts j + 1)) + 1 < c"
    using some(3) by (simp_all add: c_def weight_def)
  have "lightens.steps i c rest_op"
    unfolding rest_op_def
    apply (rule lightens_with_update, simp)
    apply (rule lightens.steps_bind, rule lightens_put)
      apply (use c id in \<open>simp_all add: weight_def\<close>)[2]
    apply (rule lightens.steps_bind, rule lightens_same, rule queue_steps)
    apply (rule lightens.steps_bind, rule lightens_execute [OF assms(1)])
       apply (use c id in simp_all)[3]
    apply (rule lightens.steps_ok)
    done
  then have "lighter i c w1 (final rest_op w1)" by (rule lightens.stepsD)
  moreover have "jq_dequeue Q tenant name w = (Inr (Some (lease (now w) j)), w1)"
    using queue_after(3) [of tenant name w] some(6) by (simp add: w1_def prod_eq_iff)
  then have "dispatch_one Q D tenant name worker_id w = rest_op w1"
    by (simp add: dispatch_one_def bind_apply rest_op_def)
  moreover have "q_jobs (w_queue w1) = AList.update i (lease (now w) j) (q_jobs (w_queue w))"
    unfolding w1_def queue_after some(6) by simp
  ultimately obtain j' where "q_jobs (w_queue (final (dispatch_one Q D tenant name worker_id) w)) = AList.update i j' (q_jobs (w_queue w))"
      "weight j' < c"
    using c(1) by (auto simp: lighter_def weight_def)
  with sum_list_update [OF some(2), of weight j'] show ?thesis by (simp add: work_def c_def)
qed

lemma orderly_Q:
  "orderly.steps (jq_put Q j)" "orderly.steps (jq_dequeue Q tenant name)" "orderly.steps (jq_dead_letter Q j)"
  by (simp_all add: orderly.steps_def orderly_step_def queue_after queue_inv_put queue_inv_dequeue queue_inv_dead_letter)

lemma orderly_dispatch:
  assumes "queue_safe D"
  shows "orderly.steps (dispatch_one Q D tenant name worker_id)"
proof -
  note same = orderly_same [OF same_queue_job_validate] orderly_same [OF same_queue_enforce [OF assms]]
    orderly_same [OF same_queue_world(1)] orderly_same [OF same_queue_es_append] orderly_same [OF same_queue_handler [OF assms]]
    orderly_same [OF same_queue_with_update]
  show ?thesis
    unfolding dispatch_one_def execute_def run_handler_def handle_failure_def
    by (intro orderly.steps_intros orderly_Q same)
qed

lemma dispatch_drains:
  assumes "queue_safe D" "queue_inv (w_queue w)" and d_def: "d = dispatch_one Q D tenant name worker_id"
  shows "\<exists>n \<le> work (w_queue w). outcome d ((final d ^^ n) w) = Inr None \<and> queue_inv (w_queue ((final d ^^ n) w))"
  using assms(2)
proof (induction "work (w_queue w)" arbitrary: w rule: less_induct)
  case less
  show ?case
  proof (cases "outcome d w = Inr None")
    case True
    with less.prems show ?thesis by (intro exI [of _ 0]) simp
  next
    case False
    let ?w = "final d w"
    have lt: "work (w_queue ?w) < work (w_queue w)"
      using dispatch_lightens [OF assms(1) less.prems] False unfolding d_def by blast
    have "queue_inv (w_queue ?w)"
      using orderly.stepsD [OF orderly_dispatch [OF assms(1)]] less.prems unfolding d_def orderly_step_def by blast
    from less.hyps [OF lt this] obtain n where "n \<le> work (w_queue ?w)" "outcome d ((final d ^^ n) ?w) = Inr None"
      "queue_inv (w_queue ((final d ^^ n) ?w))" by blast
    with lt show ?thesis by (intro exI [of _ "Suc n"]) (simp add: funpow_Suc_right del: funpow.simps)
  qed
qed

lemma never_None: "(\<And>a s. fst (f a s) \<noteq> Inr None) \<Longrightarrow> outcome (bind m f) s \<noteq> Inr None"
  by (auto simp: bind_apply split: prod.split sum.split)

lemma empty_dispatch:
  assumes "queue_inv (w_queue w)" "outcome (dispatch_one Q D tenant name worker_id) w = Inr None"
    "map_of (q_jobs (w_queue w)) i = Some j" "jb_queue j = name" "tenant = None \<or> tenant = Some (jb_tenant j)"
  shows "jb_status j \<noteq> ''queued''"
proof
  assume "jb_status j = ''queued''"
  with dequeue_finds [OF assms(1,3) _ assms(5)] assms(4) obtain k w' where
    k: "jq_dequeue Q tenant name w = (Inr (Some k), w')" by (metis prod.collapse)
  have "outcome (dispatch_one Q D tenant name worker_id) w \<noteq> Inr None"
    using k by (simp add: dispatch_one_def bind_Inr) (intro never_None, simp add: ok_apply)
  with assms(2) show False by simp
qed

end

text \<open>
  C22. A worker comes to the end of its queue: with checks and handlers that do not touch the queue,
  whatever they return or raise, repeated calls of \<^verbatim>\<open>dispatch_one\<close> on a memory or SQLite queue in a
  consistent state return \<^verbatim>\<open>None\<close> after at most \<open>work\<close> calls, the sum over the queued jobs of their
  remaining attempts and one; at that point no job of the tenant is queued under that name.
\<close>

theorem worker_drains_queue:
  fixes Q :: "'z cworld_scheme job_queue"
  assumes "Q = memory_queue \<or> Q = sqlite_queue" "queue_safe D" "queue_inv (w_queue w)"
    "d = dispatch_one Q D tenant name worker_id"
  shows "\<exists>n \<le> work (w_queue w). outcome d ((final d ^^ n) w) = Inr None \<and>
    (\<forall>i j. map_of (q_jobs (w_queue ((final d ^^ n) w))) i = Some j \<and> jb_queue j = name \<and>
       (tenant = None \<or> tenant = Some (jb_tenant j)) \<longrightarrow> jb_status j \<noteq> ''queued'')"
  using assms(1)
proof
  assume [simp]: "Q = memory_queue"
  show ?thesis
    using memory_jobs.dispatch_drains [OF assms(2,3), of d tenant name worker_id] memory_jobs.empty_dispatch [of _ D tenant name worker_id]
    by (simp add: assms(4)) blast
next
  assume [simp]: "Q = sqlite_queue"
  show ?thesis
    using sqlite_jobs.dispatch_drains [OF assms(2,3), of d tenant name worker_id] sqlite_jobs.empty_dispatch [of _ D tenant name worker_id]
    by (simp add: assms(4)) blast
qed

definition dispatcher0 :: "cworld dispatcher" where
  "dispatcher0 = \<lparr>dp_veil = mock_veil, dp_quota = Some tenant_policy, dp_entitlement = None,
     dp_governance = Some runtime_governance_check, dp_federation = None, dp_spend = None, dp_handlers = []\<rparr>"

lemma same_queue_time_or_now [queue_steps]: "same_queue.steps (time_or_now d k)"
  unfolding time_or_now_def Let_def by (intro same_queue.steps_intros queue_steps)

lemma same_queue_readers [queue_steps]:
  "same_queue.steps (get_proposal i)" "same_queue.steps (get_tenant i)"
  unfolding get_proposal_def proposal_from_dict_def pr_expired_def with_status_def get_tenant_def tenant_from_dict_def Let_def
  by (intro same_queue.steps_intros queue_steps)+

lemma same_queue_policy [queue_steps]: "same_queue.steps (tenant_policy i)"
  unfolding tenant_policy_def by (intro same_queue.steps_intros queue_steps)

lemma queue_safe_dispatcher0: "queue_safe dispatcher0"
  by (auto simp: queue_safe_def all_checks_def all_handlers_def all_policies_def dispatcher0_def runtime_governance_check_def Let_def
      intro!: same_queue.steps_intros queue_steps)

theorem worker_drains_queue_witness:
  "let w = final (mq_enqueue (job0\<lparr>jb_payload := [(''force_fail'', JBool True)]\<rparr>)) cworld0;
       d = dispatch_one memory_queue dispatcher0 None ''default'' ''k'' in
   \<exists>n \<le> work (w_queue w). outcome d ((final d ^^ n) w) = Inr None"
proof -
  let ?j = "job0\<lparr>jb_payload := [(''force_fail'', JBool True)]\<rparr>"
  have "queue_inv new_queue" by (simp add: queue_inv_def new_queue_def)
  moreover have "valid_job ?j"
    by (simp add: valid_job_def runtime_job_types_def lower_def lower_char_def sensitive_keys_def)
  ultimately have "queue_inv (w_queue (final (mq_enqueue ?j) cworld0))"
    by (simp add: mq_enqueue_valid [OF _ HOL.refl] queue_inv_enqueue)
  from worker_drains_queue [OF disjI1 [OF HOL.refl] queue_safe_dispatcher0 this HOL.refl]
  show ?thesis unfolding Let_def by blast
qed

section \<open>Leases that end\<close>

lemma registered_runtime:
  "registered ''runtime.job.assigned''" "registered ''runtime.job.started''" "registered ''runtime.job.completed''"
  "registered ''runtime.job.failed''" "registered ''runtime.job.dead_lettered''" "registered ''runtime.job.retried''"
  "registered ''runtime.job.created''" "registered ''runtime.job.cancelled''"
  by code_simp+

lemma es_append_queue: "registered ty \<Longrightarrow> \<exists>e w'. es_append ty ag p w = (Inr e, w') \<and> w_queue w' = w_queue w"
  by (simp add: es_append_registered)

lemma with_update_fails: "with_update [(''status'', JStr ''failed''), (''last_error'', JStr m)] j w =
    (Inr (stamp (now w) (j\<lparr>jb_status := ''failed'', jb_error := m\<rparr>)), tick w)"
  by (rule with_update_apply) simp

text \<open>
  What a failed attempt \<open>j\<close> leaves behind: when its attempts are used up it is a dead letter, otherwise it
  is queued again; the error is kept in both cases.
\<close>

definition failure_recorded :: "runtime_job \<Rightarrow> py_error \<Rightarrow> runtime_job \<Rightarrow> memory_job_queue \<Rightarrow> bool" where
  "failure_recorded j e r q \<longleftrightarrow> jb_id r = jb_id j \<and> jb_attempts r = jb_attempts j \<and> jb_error r = err_str e \<and>
     (if jb_attempts j \<ge> jb_max_attempts j
      then jb_status r = ''dead_lettered'' \<and> map_of (q_jobs q) (jb_id j) = Some r \<and> map_of (q_dead q) (jb_id j) = Some r
      else jb_status r = ''failed'' \<and>
        (\<exists>k. map_of (q_jobs q) (jb_id j) = Some k \<and> jb_status k = ''queued'' \<and> jb_attempts k = jb_attempts j \<and>
           jb_error k = err_str e \<and> jb_id j \<in> set (queue_ids (jb_queue j) q)))"

lemma failure_recorded_running [simp]:
  "failure_recorded (stamp t (j\<lparr>jb_status := s, jb_started_at := u\<rparr>)) e r q = failure_recorded j e r q"
  by (simp add: failure_recorded_def)

context queue_contract
begin

lemma Q_put: "\<exists>w'. jq_put Q j w = (Inr j, w') \<and> w_queue w' = put_spec j (w_queue w)"
  using put [of j w] by auto

lemma Q_dead_letter:
  "\<exists>t w'. jq_dead_letter Q j w = (Inr (stamp t (j\<lparr>jb_status := ''dead_lettered''\<rparr>)), w') \<and>
     w_queue w' = dead_letter_spec (stamp t (j\<lparr>jb_status := ''dead_lettered''\<rparr>)) (w_queue w)"
  using dead_letter [of _ w j, OF HOL.refl] by auto

lemma handle_failure_cases:
  "\<exists>r w'. handle_failure Q j e w = (Inr r, w') \<and> failure_recorded j e r (w_queue w')"
proof -
  let ?f = "stamp (now w) (j\<lparr>jb_status := ''failed'', jb_error := err_str e\<rparr>)"
  obtain e1 w1 where w1: "es_append ''runtime.job.failed'' (jb_id ?f) (job_as_dict ?f) (tick w) = (Inr e1, w1)"
    using es_append_queue registered_runtime(4) by blast
  show ?thesis
  proof (cases "jb_attempts j \<ge> jb_max_attempts j")
    case True
    obtain t w2 where w2: "jq_dead_letter Q ?f w1 = (Inr (stamp t (?f\<lparr>jb_status := ''dead_lettered''\<rparr>)), w2)"
      "w_queue w2 = dead_letter_spec (stamp t (?f\<lparr>jb_status := ''dead_lettered''\<rparr>)) (w_queue w1)"
      using Q_dead_letter by blast
    obtain e3 w3 where "es_append ''runtime.job.dead_lettered'' (jb_id ?f) (job_as_dict (stamp t (?f\<lparr>jb_status := ''dead_lettered''\<rparr>))) w2 = (Inr e3, w3)"
      "w_queue w3 = w_queue w2"
      using es_append_queue registered_runtime(5) by blast
    with True w1 w2 show ?thesis
      by (simp add: handle_failure_def bind_Inr with_update_fails ok_apply) (simp add: dead_letter_spec_def failure_recorded_def)
  next
    case False
    let ?k = "stamp (now w1) (?f\<lparr>jb_status := ''queued''\<rparr>)"
    obtain w2 where w2: "jq_put Q ?k (tick w1) = (Inr ?k, w2)" "w_queue w2 = put_spec ?k (w_queue w1)"
      using Q_put [of ?k "tick w1"] by (auto simp: tick_def)
    obtain e3 w3 where w3: "es_append ''runtime.job.retried'' (jb_id ?f) (job_as_dict ?f) w2 = (Inr e3, w3)" "w_queue w3 = w_queue w2"
      using es_append_queue registered_runtime(6) by blast
    have "handle_failure Q j e w = (Inr ?f, w3)"
      using False w1 w2(1) w3(1) by (simp add: handle_failure_def bind_Inr with_update_fails with_status ok_apply)
    with False w2(2) w3(2) show ?thesis
      by (simp add: put_spec_def Let_def queue_ids_enlist failure_recorded_def)
  qed
qed

lemma execute_started:
  assumes "valid_job j" "enforce D j w = (Inr (), w1)" "w_queue w1 = w_queue w"
  shows "\<exists>t u w2. execute Q D j w =
      catch (run_handler Q D (stamp t (j\<lparr>jb_status := ''running'', jb_started_at := Some u\<rparr>)))
        (handle_failure Q (stamp t (j\<lparr>jb_status := ''running'', jb_started_at := Some u\<rparr>))) w2 \<and>
      w_queue w2 = put_spec (stamp t (j\<lparr>jb_status := ''running'', jb_started_at := Some u\<rparr>)) (w_queue w)"
proof -
  have up: "with_update [(''status'', JStr ''running''), (''started_at'', JStr (isoformat u))] j v =
      (Inr (stamp (now v) (j\<lparr>jb_status := ''running'', jb_started_at := Some u\<rparr>)), tick v)" for u and v :: "'z cworld_scheme"
    by (rule with_update_apply) simp
  let ?r = "stamp (now (tick w1)) (j\<lparr>jb_status := ''running'', jb_started_at := Some (now w1)\<rparr>)"
  obtain w2 where w2: "jq_put Q ?r (tick (tick w1)) = (Inr ?r, w2)" "w_queue w2 = put_spec ?r (w_queue w1)"
    using Q_put [of ?r "tick (tick w1)"] by (auto simp: tick_def)
  obtain e3 w3 where w3: "es_append ''runtime.job.started'' (jb_id ?r) (job_as_dict ?r) w2 = (Inr e3, w3)" "w_queue w3 = w_queue w2"
    using es_append_queue registered_runtime(2) by blast
  have "execute Q D j w = catch (run_handler Q D ?r) (handle_failure Q ?r) w3"
    using w2(1) w3(1)
    by (simp add: execute_def bind_Inr [where m = "job_validate j", OF job_validate_valid [OF assms(1)]]
        bind_Inr [where m = "enforce D j", OF assms(2)] bind_Inr [where m = utc_now, OF utc_now_apply] up bind_Inr)
  with w2(2) w3(2) assms(3) show ?thesis by metis
qed

lemma execute_fails:
  assumes "valid_job j" "enforce D j w = (Inr (), w1)" "w_queue w1 = w_queue w"
    "\<And>r v. jb_id r = jb_id j \<Longrightarrow> \<exists>v'. handler_for D (jb_type j) r v = (Inl e, v')"
  shows "\<exists>r w'. execute Q D j w = (Inr r, w') \<and> failure_recorded j e r (w_queue w')"
proof -
  obtain t u w2 where ex: "execute Q D j w =
      catch (run_handler Q D (stamp t (j\<lparr>jb_status := ''running'', jb_started_at := Some u\<rparr>)))
        (handle_failure Q (stamp t (j\<lparr>jb_status := ''running'', jb_started_at := Some u\<rparr>))) w2" (is "_ = catch (run_handler Q D ?r) _ _")
    using execute_started [OF assms(1-3)] by blast
  obtain v where "handler_for D (jb_type j) ?r w2 = (Inl e, v)" using assms(4) [of ?r w2] by auto
  then have "execute Q D j w = handle_failure Q ?r e v"
    by (simp add: ex catch_apply run_handler_def bind_Inl)
  with handle_failure_cases [of ?r e v] show ?thesis by simp
qed

lemma dispatch_refused:
  assumes "queue_safe D" "queue_inv (w_queue w)" "fst (dequeue_spec (now w) tenant name (w_queue w)) = Some k"
    "\<And>t v. \<exists>v'. enforce D (stamp t (k\<lparr>jb_worker := Some worker_id\<rparr>)) v = (Inl e, v')" "valid_job k"
  shows "\<exists>w' k'. dispatch_one Q D tenant name worker_id w = (Inl e, w') \<and> map_of (q_jobs (w_queue w')) (jb_id k) = Some k' \<and>
    jb_status k' = ''assigned'' \<and> jb_attempts k' = jb_attempts k"
proof (cases rule: dequeue_spec_cases [of "now w" tenant name "w_queue w"])
  case none
  with assms(3) show ?thesis by simp
next
  case (some i rest j)
  have k: "k = lease (now w) j" using assms(3) some(6) by simp
  obtain w1 where w1: "jq_dequeue Q tenant name w = (Inr (Some k), w1)"
    using queue_after(3) [of tenant name w] assms(3) by (metis prod.collapse)
  let ?a = "stamp (now w1) (k\<lparr>jb_worker := Some worker_id\<rparr>)"
  have up: "with_update [(''assigned_worker_id'', JStr worker_id)] k w1 = (Inr ?a, tick w1)"
    by (rule with_update_apply) simp
  obtain w2 where w2: "jq_put Q ?a (tick w1) = (Inr ?a, w2)" "w_queue w2 = put_spec ?a (w_queue w1)"
    using Q_put [of ?a "tick w1"] by (auto simp: tick_def)
  obtain e3 w3 where w3: "es_append ''runtime.job.assigned'' (jb_id ?a) (job_as_dict ?a) w2 = (Inr e3, w3)" "w_queue w3 = w_queue w2"
    using es_append_queue registered_runtime(1) by blast
  obtain w4 where w4: "enforce D ?a w3 = (Inl e, w4)" using assms(4) by blast
  have same: "w_queue w4 = w_queue w3"
    using same_queue.stepsD [OF same_queue_enforce [OF assms(1)], of w3 ?a] w4 by (simp add: keeps_queue_def)
  have "valid_job ?a" using assms(5) by (simp add: valid_job_def)
  then have "execute Q D ?a w3 = (Inl e, w4)"
    using w4 by (simp add: execute_def bind_apply job_validate_valid)
  with w1 up w2(1) w3(1) have "dispatch_one Q D tenant name worker_id w = (Inl e, w4)"
    by (simp add: dispatch_one_def bind_Inr bind_Inl)
  with same w2(2) w3(2) k show ?thesis by simp
qed

end

lemma dequeue_never_assigned:
  assumes "queue_inv q" "map_of (q_jobs q) i = Some j" "jb_status j \<noteq> ''queued''" "fst (dequeue_spec t tenant name q) = Some k"
  shows "jb_id k \<noteq> i"
proof (cases rule: dequeue_spec_cases [of t tenant name q])
  case (some i' rest j')
  have "jb_id j' = i'" using some(2) assms(1) by (simp add: queue_inv_def)
  with some assms show ?thesis by auto
qed (use assms(4) in simp)

section \<open>Properties of dispatch\<close>

text \<open>
  C23. A failing job is retried until its attempts are used up: when the checks pass and the handler
  raises, \<^verbatim>\<open>execute\<close> returns normally; a job that has used its attempts is in the dead letters with the
  error, any other is queued again under its queue with its attempts and the error.
\<close>

theorem failed_job_retried_or_dead_lettered:
  fixes Q :: "'z cworld_scheme job_queue"
  assumes "Q = memory_queue \<or> Q = sqlite_queue" "valid_job j" "enforce D j w = (Inr (), w1)" "w_queue w1 = w_queue w"
    "\<And>r v. jb_id r = jb_id j \<Longrightarrow> \<exists>v'. handler_for D (jb_type j) r v = (Inl e, v')"
  shows "\<exists>r w'. execute Q D j w = (Inr r, w') \<and> failure_recorded j e r (w_queue w')"
  using assms(1) memory_jobs.execute_fails [OF assms(2-5)] sqlite_jobs.execute_fails [OF assms(2-5)] by blast

definition failing_dispatcher :: "cworld dispatcher" where
  "failing_dispatcher = dispatcher0\<lparr>dp_quota := None, dp_handlers := [(''agent_run'', \<lambda>j. raise (ConflictError ''down''))]\<rparr>"

theorem failed_job_retried_or_dead_lettered_witness:
  "\<exists>r w'. execute sqlite_queue failing_dispatcher (job0\<lparr>jb_attempts := 3\<rparr>) cworld0 = (Inr r, w') \<and> jb_status r = ''dead_lettered''"
proof -
  let ?j = "job0\<lparr>jb_attempts := 3\<rparr>"
  have v: "valid_job ?j" by (simp add: valid_job_def runtime_job_types_def)
  have e: "enforce failing_dispatcher ?j cworld0 = (Inr (), cworld0)"
    by (simp add: enforce_def failing_dispatcher_def dispatcher0_def bind_apply ok_apply lift_apply run_check_def mock_veil_def
        federation_job_types_def)
  have h: "\<exists>v'. handler_for failing_dispatcher (jb_type ?j) r v = (Inl (ConflictError ''down''), v')" for r v
    by (simp add: handler_for_def failing_dispatcher_def raise_apply)
  from failed_job_retried_or_dead_lettered [OF disjI2 [OF HOL.refl] v e HOL.refl h]
  show ?thesis by (auto simp: failure_recorded_def)
qed

text \<open>
  A job whose checks fail is lost to the workers: when the enforcement of quota, spend, governance,
  entitlement, federation or policy raises for a leased job, \<^verbatim>\<open>dispatch_one\<close> raises that error, the job
  stays marked assigned with the attempt counted, and no later dequeue of any queue, for any tenant,
  leases it again.
\<close>

theorem refused_job_is_lost:
  fixes Q :: "'z cworld_scheme job_queue"
  assumes "Q = memory_queue \<or> Q = sqlite_queue" "queue_safe D" "queue_inv (w_queue w)"
    "fst (dequeue_spec (now w) tenant name (w_queue w)) = Some k"
    "\<And>t v. \<exists>v'. enforce D (stamp t (k\<lparr>jb_worker := Some worker_id\<rparr>)) v = (Inl e, v')" "valid_job k"
  shows "\<exists>w'. dispatch_one Q D tenant name worker_id w = (Inl e, w') \<and>
    (\<exists>k'. map_of (q_jobs (w_queue w')) (jb_id k) = Some k' \<and> jb_status k' = ''assigned'' \<and> jb_attempts k' = jb_attempts k) \<and>
    (\<forall>t tenant name l. fst (dequeue_spec t tenant name (w_queue w')) = Some l \<longrightarrow> jb_id l \<noteq> jb_id k)"
proof -
  have "\<exists>w' k'. dispatch_one Q D tenant name worker_id w = (Inl e, w') \<and> map_of (q_jobs (w_queue w')) (jb_id k) = Some k' \<and>
      jb_status k' = ''assigned'' \<and> jb_attempts k' = jb_attempts k"
    using assms(1) memory_jobs.dispatch_refused [OF assms(2-6)] sqlite_jobs.dispatch_refused [OF assms(2-6)]
    by blast
  then obtain w' k' where w': "dispatch_one Q D tenant name worker_id w = (Inl e, w')" "map_of (q_jobs (w_queue w')) (jb_id k) = Some k'"
    "jb_status k' = ''assigned''" "jb_attempts k' = jb_attempts k" by blast
  have "orderly.steps (dispatch_one Q D tenant name worker_id)"
    using assms(1) memory_jobs.orderly_dispatch [OF assms(2)] sqlite_jobs.orderly_dispatch [OF assms(2)] by blast
  from orderly.stepsD [OF this, of w] assms(3) w'(1) have "queue_inv (w_queue w')" by (simp add: orderly_step_def)
  with w' dequeue_never_assigned [of "w_queue w'" "jb_id k" k'] show ?thesis by auto
qed

definition denying_dispatcher :: "cworld dispatcher" where
  "denying_dispatcher = dispatcher0\<lparr>dp_quota := None, dp_governance := None,
     dp_veil := mock_veil\<lparr>v_check := (\<lambda>agent action payload. Inr (False, []))\<rparr>\<rparr>"

theorem refused_job_is_lost_witness:
  "let w = final (mq_put job0) cworld0 in
   \<exists>w'. dispatch_one memory_queue denying_dispatcher
     None ''default'' ''k'' w = (Inl (AuthorizationError ''VEIL policy denied job execution''), w') \<and>
     (\<forall>t tenant name l. fst (dequeue_spec t tenant name (w_queue w')) = Some l \<longrightarrow> jb_id l \<noteq> ''job-1'')"
proof -
  let ?D = denying_dispatcher
  let ?w = "final (mq_put job0) cworld0" and ?k = "lease (dt 0) job0"
  have q: "w_queue ?w = \<lparr>q_jobs = [(''job-1'', job0)], q_queues = [(''default'', [''job-1''])], q_dead = []\<rparr>"
    by (simp add: mq_put_apply put_spec_def set_job_def enlist_def set_queue_def new_queue_def queue_ids_def Let_def)
  have safe: "queue_safe ?D"
    by (simp add: queue_safe_def all_checks_def all_handlers_def all_policies_def denying_dispatcher_def dispatcher0_def)
  have inv: "queue_inv (w_queue ?w)" by (simp add: q queue_inv_def queue_ids_def)
  have d: "fst (dequeue_spec (now ?w) None ''default'' (w_queue ?w)) = Some ?k"
    by (simp add: q dequeue_spec_def queue_ids_def wanted_def Let_def) (simp add: mq_put_apply)
  have e: "\<exists>v'. enforce ?D (stamp t (?k\<lparr>jb_worker := Some ''k''\<rparr>)) v = (Inl (AuthorizationError ''VEIL policy denied job execution''), v')"
    for t v
    by (simp add: enforce_def denying_dispatcher_def dispatcher0_def bind_apply ok_apply lift_apply raise_apply run_check_def
        federation_job_types_def or_default_def)
  have v: "valid_job ?k" by (simp add: valid_job_def runtime_job_types_def)
  from refused_job_is_lost [OF disjI1 [OF HOL.refl] safe inv d e v] show ?thesis by auto
qed

section \<open>Endpoints and tenants\<close>

text \<open>
  A step that changes no job, queue, row of the queue's database, event or document, and of the usage
  counters at most the API calls of the tenant \<open>t\<close>.
\<close>

definition quiet_step :: "string \<Rightarrow> 'z cworld_scheme \<Rightarrow> 'z cworld_scheme \<Rightarrow> bool" where
  "quiet_step t w w' \<longleftrightarrow> w_queue w' = w_queue w \<and> w_queue_db w' = w_queue_db w \<and> w_events w' = w_events w \<and>
     w_store w' = w_store w \<and> cworld.more w' = cworld.more w \<and>
     (\<forall>t' c. (t', c) \<noteq> (t, ''api_calls'') \<longrightarrow> used w' t' c = used w t' c)"

interpretation quiet: step_contract "quiet_step t" for t
  by unfold_locales (auto simp: quiet_step_def)

named_theorems quiet_steps \<open>operations that change no job, event or document and no counter of another tenant\<close>

lemma quiet_world [quiet_steps]: "quiet.steps t utc_now" "quiet.steps t (on_store (mem_get c k))"
  by (simp_all add: quiet.steps_def quiet_step_def utc_now_def on_store_def mem_get_def gets_apply used_def)

lemma quiet_quota [quiet_steps]: "quiet.steps t (quota_consume t p ''api_calls'' n)"
  by (auto simp: quiet.steps_def quiet_step_def used_consume)
    (auto simp: quota_consume_cases tracker_increment_def bind_apply tracker_usage_apply modify_apply ok_apply Let_def split: sum.splits)

lemma quiet_access [quiet_steps]: "quiet.steps t (require_scopes rq scopes tid)" "quiet.steps t (get_tenant i)"
  unfolding require_scopes_def get_tenant_def tenant_from_dict_def Let_def
  by (intro quiet.steps_intros quiet_steps)+

lemma quiet_require_context [quiet_steps]: "quiet.steps t (require_context c)"
  unfolding require_context_def tc_require_def
  by (intro quiet.steps_intros) (auto split: py_error.split intro: quiet.steps_raise)

lemma quiet_server [quiet_steps]: "quiet.steps t (tenant_context_of rq)" "quiet.steps t (tenant_policy i)"
  unfolding tenant_context_of_def tenant_policy_def by (intro quiet.steps_intros quiet_steps)+

lemma quiet_consume_for [quiet_steps]: "quiet.steps t (consume_for t ''api_calls'')"
  unfolding consume_for_def by (intro quiet.steps_intros quiet_steps)

text \<open>An operation that ends in an error and is quiet but for the API calls of the tenant \<open>t\<close>.\<close>

definition denied :: "string \<Rightarrow> ('z cworld_scheme, 'a) op \<Rightarrow> 'z cworld_scheme \<Rightarrow> bool" where
  "denied t m w \<longleftrightarrow> (\<exists>e w'. m w = (Inl e, w') \<and> quiet_step t w w')"

lemma denied_bind:
  assumes "quiet.steps t m" "\<And>a w'. m w = (Inr a, w') \<Longrightarrow> quiet_step t w w' \<Longrightarrow> denied t (f a) w'"
  shows "denied t (bind m f) w"
proof (cases "m w")
  case (Pair r w')
  with quiet.stepsD [OF assms(1), of w] have q: "quiet_step t w w'" by simp
  show ?thesis
  proof (cases r)
    case (Inl e)
    with Pair q show ?thesis by (simp add: denied_def bind_apply)
  next
    case (Inr a)
    with assms(2) [of a w'] Pair q quiet.trans [OF q] show ?thesis by (auto simp: denied_def bind_apply)
  qed
qed

lemma denied_scoped:
  assumes "rq = Some p" "''tenant.global'' \<notin> set (pc_scopes p)"
    "\<And>ctx v. tc_tenant ctx = pc_tenant p \<Longrightarrow> \<not> tc_global_admin ctx \<Longrightarrow> quiet_step (pc_tenant p) w v \<Longrightarrow> denied (pc_tenant p) (f ctx) v"
  shows "denied (pc_tenant p) (scoped rq scope f) w"
  unfolding scoped_def
proof (intro denied_bind quiet_steps)
  fix ctx w1 a w2
  assume "tenant_context_of rq w = (Inr ctx, w1)" "quiet_step (pc_tenant p) w w1" "require_scopes rq [scope] None w1 = (Inr a, w2)" "quiet_step (pc_tenant p) w1 w2"
  with tenant_context_of_Inr [of rq w ctx w1] assms show "denied (pc_tenant p) (f ctx) w2"
    by (auto intro: quiet.trans)
qed

lemma other_tenant_refused:
  assumes "tc_tenant ctx \<noteq> jb_tenant j" "\<not> tc_global_admin ctx"
  shows "\<exists>e. assert_governance_tenant ctx (job_as_dict j) v = (Inl e, v)"
  using assms
  by (auto simp: assert_governance_tenant_def catch_apply assert_tenant_def bind_apply require_context_def tc_require_def
      ok_apply raise_apply Let_def job_as_dict_def get_or_def)

context queue_contract
begin

lemma with_job_denied:
  assumes "find_job i (w_queue v) = Some j" "tc_tenant ctx \<noteq> jb_tenant j" "\<not> tc_global_admin ctx"
  shows "denied t (with_job Q i ctx f) v"
  using other_tenant_refused [OF assms(2,3), of v] assms(1)
  by (auto simp: denied_def with_job_def bind_apply get quiet.refl)

lemma endpoints_denied:
  assumes "rq = Some p" "''tenant.global'' \<notin> set (pc_scopes p)" "find_job i (w_queue w) = Some j" "jb_tenant j \<noteq> pc_tenant p"
  shows "denied (pc_tenant p) (runtime_job_cancel Q i rq) w" "denied (pc_tenant p) (runtime_job_retry Q i rq) w" "denied (pc_tenant p) (runtime_dead_letter_requeue Q i rq) w"
    "denied (pc_tenant p) (runtime_job_get Q i rq) w"
proof -
  have found: "find_job i (w_queue v) = Some j" if "quiet_step (pc_tenant p) w v" for v
    using that assms(3) by (simp add: quiet_step_def)
  have other: "denied (pc_tenant p) (with_job Q i ctx f) v" if "tc_tenant ctx = pc_tenant p" "\<not> tc_global_admin ctx" "quiet_step (pc_tenant p) w v"
    for f :: "('z cworld_scheme, 'b) op" and ctx v
    using that assms(4) by (intro with_job_denied [OF found]) auto
  show "denied (pc_tenant p) (runtime_job_cancel Q i rq) w"
    unfolding runtime_job_cancel_def by (rule denied_scoped [OF assms(1,2)]) (rule other)
  show "denied (pc_tenant p) (runtime_job_retry Q i rq) w" "denied (pc_tenant p) (runtime_dead_letter_requeue Q i rq) w"
    unfolding runtime_job_retry_def runtime_dead_letter_requeue_def
    by (rule denied_scoped [OF assms(1,2)], rule denied_bind, simp add: quiet_consume_for, rule other, auto intro: quiet.trans)+
  show "denied (pc_tenant p) (runtime_job_get Q i rq) w"
    unfolding runtime_job_get_def
  proof (rule denied_scoped [OF assms(1,2)])
    fix ctx :: tenant_context and v assume "tc_tenant ctx = pc_tenant p" "\<not> tc_global_admin ctx" "quiet_step (pc_tenant p) w v"
    then show "denied (pc_tenant p) (bind (jq_get Q i) (\<lambda>found. case found of None \<Rightarrow> raise (http_error 404 ''job not found'')
        | Some j \<Rightarrow> bind (assert_governance_tenant ctx (job_as_dict j)) (\<lambda>_. ok j))) v"
      using other_tenant_refused [of ctx j v] found [of v] assms(4) by (auto simp: denied_def bind_apply get quiet.refl)
  qed
qed

end

text \<open>
  C24. The endpoints on a job fail closed across tenants: a caller of another tenant without the global
  scope can neither read, cancel, retry nor requeue a job; each request ends in an error and changes
  no job, queue, row of the queue's database, event or document, no usage counter of another tenant,
  and of the caller's own counters at most its API calls, which a retry and a requeue count before
  they look at the job.
\<close>

theorem job_endpoints_isolated:
  fixes Q :: "'z cworld_scheme job_queue"
  assumes "Q = memory_queue \<or> Q = sqlite_queue" "''tenant.global'' \<notin> set (pc_scopes p)"
    "find_job i (w_queue w) = Some j" "jb_tenant j \<noteq> pc_tenant p"
  shows "denied (pc_tenant p) (runtime_job_get Q i (Some p)) w \<and> denied (pc_tenant p) (runtime_job_cancel Q i (Some p)) w \<and>
    denied (pc_tenant p) (runtime_job_retry Q i (Some p)) w \<and> denied (pc_tenant p) (runtime_dead_letter_requeue Q i (Some p)) w"
  using assms(1) memory_jobs.endpoints_denied [OF HOL.refl assms(2-4)] sqlite_jobs.endpoints_denied [OF HOL.refl assms(2-4)] by blast

theorem job_endpoints_isolated_witness:
  "denied ''s'' (runtime_job_cancel memory_queue ''job-1'' (Some \<lparr>pc_id = ''u'', pc_tenant = ''s'', pc_scopes = [''runtime.jobs.manage''],
     pc_type = ''user'', pc_token = ''x''\<rparr>)) (final (mq_put job0) cworld0)"
  using job_endpoints_isolated [of memory_queue "\<lparr>pc_id = ''u'', pc_tenant = ''s'', pc_scopes = [''runtime.jobs.manage''],
     pc_type = ''user'', pc_token = ''x''\<rparr>" "''job-1''" "final (mq_put job0) cworld0" job0]
  by (simp add: mq_put_apply find_job_def)



lemma keeps_quota [keeps_steps]: "keeps.steps c (quota_consume t p k n)"
  by (auto simp: keeps.steps_def keeps_coll_def quota_consume_cases tracker_increment_def bind_apply tracker_usage_apply
      modify_apply ok_apply Let_def split: sum.splits)

lemma keeps_policy [keeps_steps]: "keeps.steps c (tenant_policy i)"
  unfolding tenant_policy_def get_tenant_def tenant_from_dict_def Let_def by (intro keeps.steps_intros keeps_steps)









end
