(* ===== verification/Cloud_Scheduler.thy ===== *)
theory Cloud_Scheduler
  imports Cloud_Runtime
begin

text \<open>
  Schedules of the cloud runtime (\<^verbatim>\<open>agentfabric/cloud/scheduler\<close>): the cron parser, the schedule records,
  the scheduler service and its endpoints in \<^verbatim>\<open>server/app.py\<close>.
\<close>

section \<open>The cron parser\<close>

text \<open>\<^verbatim>\<open>str.split()\<close>: the maximal runs of characters that are not white space.\<close>

fun split_words :: "string \<Rightarrow> string \<Rightarrow> string list" where
  "split_words acc [] = (if acc = [] then [] else [acc])"
| "split_words acc (c # cs) =
     (if is_space c then (if acc = [] then split_words [] cs else acc # split_words [] cs)
      else split_words (acc @ [c]) cs)"

definition py_split :: "string \<Rightarrow> string list" where
  "py_split s = split_words [] s"

definition unit_seconds :: "string \<Rightarrow> int result" where
  "unit_seconds u = (case map_of [(''second'', 1), (''seconds'', 1), (''minute'', 60), (''minutes'', 60), (''hour'', 3600),
     (''hours'', 3600)] u of None \<Rightarrow> Inl (KeyError u) | Some n \<Rightarrow> Inr n)"

definition cron_matches :: "string \<Rightarrow> int \<Rightarrow> bool result" where
  "cron_matches field value =
     (if field = ''*'' then Inr True
      else if prefix ''*/'' field
      then (case int_of_str (drop 2 field) of
          Inl e \<Rightarrow> Inl e
        | Inr n \<Rightarrow> if n = 0 then Inl (ZeroDivisionError ''integer modulo by zero'') else Inr (value mod n = 0))
      else (case int_of_str field of Inl e \<Rightarrow> Inl e | Inr n \<Rightarrow> Inr (n = value)))"

definition minute_us :: int where
  "minute_us = 60000000"

definition dt_minute :: "datetime \<Rightarrow> int" where
  "dt_minute t = us_of t div minute_us mod 60"

definition dt_hour :: "datetime \<Rightarrow> int" where
  "dt_hour t = us_of t div (60 * minute_us) mod 24"

text \<open>\<^verbatim>\<open>t.replace(second=0, microsecond=0)\<close>\<close>

definition floor_minute :: "datetime \<Rightarrow> datetime" where
  "floor_minute t = dt (us_of t - us_of t mod minute_us)"

definition both_match :: "string \<Rightarrow> string \<Rightarrow> datetime \<Rightarrow> bool result" where
  "both_match minute hour t = (case cron_matches minute (dt_minute t) of
     Inl e \<Rightarrow> Inl e | Inr False \<Rightarrow> Inr False | Inr True \<Rightarrow> cron_matches hour (dt_hour t))"

fun cron_search :: "nat \<Rightarrow> string \<Rightarrow> string \<Rightarrow> datetime \<Rightarrow> datetime result" where
  "cron_search 0 minute hour t = Inl (ValueError ''could not find next cron run'')"
| "cron_search (Suc n) minute hour t = (case both_match minute hour t of
     Inl e \<Rightarrow> Inl e
   | Inr True \<Rightarrow> Inr t
   | Inr False \<Rightarrow> (case dt_add t minute_us of Inl e \<Rightarrow> Inl e | Inr t' \<Rightarrow> cron_search n minute hour t'))"

definition cron_horizon :: nat where
  "cron_horizon = 60 * 24 * 366"

definition next_after :: "string \<Rightarrow> datetime \<Rightarrow> datetime result" where
  "next_after expr after =
     (if prefix ''every '' expr
      then (case take 2 (drop 1 (py_split expr)) of
          [amount, unit] \<Rightarrow> (case int_of_str amount of
              Inl e \<Rightarrow> Inl e
            | Inr n \<Rightarrow> (case unit_seconds unit of Inl e \<Rightarrow> Inl e | Inr s \<Rightarrow> dt_add after (seconds (n * s))))
        | _ \<Rightarrow> Inl (ValueError ''not enough values to unpack''))
      else let fields = py_split expr in
        if length fields \<noteq> 5 then Inl (ValueError (''cron expression must have five fields or use '' @ CHR 0x27 # ''every N unit'' @ [CHR 0x27]))
        else (case dt_add (floor_minute after) minute_us of
            Inl e \<Rightarrow> Inl e
          | Inr t \<Rightarrow> cron_search cron_horizon (fields ! 0) (fields ! 1) t))"

section \<open>Schedules\<close>

record scheduled_job =
  sj_tenant :: string
  sj_organization :: string
  sj_created_by :: string
  sj_job_type :: string
  sj_payload :: obj
  sj_type :: string
  sj_cron :: "string option"
  sj_run_at :: "datetime option"
  sj_enabled :: bool
  sj_id :: string
  sj_last_run_at :: "datetime option"
  sj_next_run_at :: "datetime option"
  sj_created_at :: datetime

definition schedule_as_dict :: "scheduled_job \<Rightarrow> obj" where
  "schedule_as_dict s = [
     (''schedule_id'', JStr (sj_id s)),
     (''tenant_id'', JStr (sj_tenant s)),
     (''organization_id'', JStr (sj_organization s)),
     (''created_by'', JStr (sj_created_by s)),
     (''job_type'', JStr (sj_job_type s)),
     (''payload'', JObj (sj_payload s)),
     (''schedule_type'', JStr (sj_type s)),
     (''cron'', opt_json (sj_cron s)),
     (''run_at'', time_json (sj_run_at s)),
     (''enabled'', JBool (sj_enabled s)),
     (''last_run_at'', time_json (sj_last_run_at s)),
     (''next_run_at'', time_json (sj_next_run_at s)),
     (''created_at'', JStr (isoformat (sj_created_at s)))]"

definition schedule_from_dict :: "obj \<Rightarrow> ('z world_scheme, scheduled_job) op" where
  "schedule_from_dict d =
     bind (lift (req_str d ''schedule_id'')) (\<lambda>i.
     bind (lift (req_str d ''tenant_id'')) (\<lambda>t.
     bind (lift (req_str d ''organization_id'')) (\<lambda>orgn.
     bind (lift (req_str d ''job_type'')) (\<lambda>ty.
     bind (lift (dict_or d ''payload'')) (\<lambda>p.
     bind (lift (opt_time d ''run_at'')) (\<lambda>ra.
     bind (lift (opt_time d ''last_run_at'')) (\<lambda>la.
     bind (lift (opt_time d ''next_run_at'')) (\<lambda>na.
     bind (time_or_now d ''created_at'') (\<lambda>ca.
     ok \<lparr>sj_tenant = t, sj_organization = orgn, sj_created_by = str_or d ''created_by'' [], sj_job_type = ty, sj_payload = p,
         sj_type = str_or d ''schedule_type'' ''one_time'', sj_cron = opt_str d ''cron'', sj_run_at = ra,
         sj_enabled = bool_or d ''enabled'' True, sj_id = i, sj_last_run_at = la, sj_next_run_at = na, sj_created_at = ca\<rparr>)))))))))"

lemma schedule_round_trip [simp]:
  "schedule_from_dict (schedule_as_dict s) w = (Inr (s\<lparr>sj_cron := nonempty (sj_cron s)\<rparr>), w)"
  using opt_str_opt_json [of "sj_cron s"] opt_time_json [of "sj_run_at s"] opt_time_json [of "sj_last_run_at s"]
    opt_time_json [of "sj_next_run_at s"]
  by (simp add: schedule_from_dict_def schedule_as_dict_def record_defs op_simps)

definition prepare_schedule :: "scheduled_job \<Rightarrow> datetime \<Rightarrow> scheduled_job result" where
  "prepare_schedule s time =
     (if sj_type s = ''recurring''
      then (case sj_cron s of
          None \<Rightarrow> Inl (ValueError ''recurring schedule requires cron'')
        | Some c \<Rightarrow> if c = [] then Inl (ValueError ''recurring schedule requires cron'')
            else (case next_after c time of Inl e \<Rightarrow> Inl e | Inr t \<Rightarrow> Inr (s\<lparr>sj_next_run_at := Some t\<rparr>)))
      else Inr (s\<lparr>sj_next_run_at := sj_run_at s\<rparr>))"

section \<open>The scheduler\<close>

definition schedule_create :: "scheduled_job \<Rightarrow> ('z world_scheme, scheduled_job) op" where
  "schedule_create s =
     bind utc_now (\<lambda>now.
     bind (lift (prepare_schedule s now)) (\<lambda>p.
     bind (on_store (mem_put ''runtime_schedules'' (sj_id p) (schedule_as_dict p))) (\<lambda>_.
     bind (es_append ''runtime.schedule.created'' (sj_id p) (schedule_as_dict p)) (\<lambda>_. ok p))))"

definition schedule_list :: "string \<Rightarrow> ('z world_scheme, scheduled_job list) op" where
  "schedule_list tid = bind (on_store (mem_list_tenant ''runtime_schedules'' tid)) (mapM schedule_from_dict)"

definition schedule_get :: "string \<Rightarrow> ('z world_scheme, scheduled_job option) op" where
  "schedule_get i =
     bind (on_store (mem_get ''runtime_schedules'' i)) (\<lambda>item. case item of
       None \<Rightarrow> ok None
     | Some d \<Rightarrow> if d = [] then ok None else bind (schedule_from_dict d) (\<lambda>s. ok (Some s)))"

definition set_enabled :: "string \<Rightarrow> bool \<Rightarrow> ('z world_scheme, scheduled_job) op" where
  "set_enabled i enabled =
     bind (schedule_get i) (\<lambda>found. case found of
       None \<Rightarrow> raise (KeyError i)
     | Some s \<Rightarrow>
         let s' = s\<lparr>sj_enabled := enabled\<rparr> in
         bind (on_store (mem_put ''runtime_schedules'' i (schedule_as_dict s'))) (\<lambda>_.
         bind (es_append (if enabled then ''runtime.schedule.enabled'' else ''runtime.schedule.disabled'') i (schedule_as_dict s')) (\<lambda>_.
         ok s')))"

text \<open>\<^verbatim>\<open>RuntimeJob(...)\<close> for a schedule, with the defaults of the other fields.\<close>

definition scheduled_runtime_job :: "scheduled_job \<Rightarrow> ('z world_scheme, runtime_job) op" where
  "scheduled_runtime_job s =
     bind uuid_hex12 (\<lambda>hex.
     bind utc_now (\<lambda>ca.
     bind utc_now (\<lambda>ua.
     ok \<lparr>jb_tenant = sj_tenant s, jb_organization = sj_organization s, jb_created_by = sj_created_by s, jb_type = sj_job_type s,
         jb_payload = AList.update ''schedule_id'' (JStr (sj_id s)) (sj_payload s), jb_queue = ''default'', jb_max_attempts = 3,
         jb_id = ''job-'' @ hex, jb_status = ''queued'', jb_attempts = 0, jb_worker = None, jb_error = [], jb_created_at = ca,
         jb_updated_at = ua, jb_started_at = None, jb_completed_at = None\<rparr>)))"

definition due :: "datetime \<Rightarrow> scheduled_job \<Rightarrow> bool" where
  "due time s \<longleftrightarrow> sj_enabled s \<and> (case sj_next_run_at s of None \<Rightarrow> False | Some t \<Rightarrow> t \<le> time)"

definition next_run_of :: "scheduled_job \<Rightarrow> datetime \<Rightarrow> datetime option result" where
  "next_run_of s time =
     (if sj_type s = ''recurring'' \<and> sj_cron s \<noteq> None \<and> sj_cron s \<noteq> Some []
      then (case next_after (the (sj_cron s)) time of Inl e \<Rightarrow> Inl e | Inr t \<Rightarrow> Inr (Some t)) else Inr None)"

definition trigger_one ::
    "('z cworld_scheme) job_queue \<Rightarrow> datetime \<Rightarrow> scheduled_job \<Rightarrow> ('z cworld_scheme, runtime_job list) op" where
  "trigger_one Q time s =
     (if \<not> due time s then ok []
      else
        bind (scheduled_runtime_job s) (\<lambda>j.
        bind (submit Q j) (\<lambda>job.
        bind (lift (next_run_of s time)) (\<lambda>next_run.
        let s' = s\<lparr>sj_enabled := (if next_run \<noteq> None then sj_enabled s else False), sj_last_run_at := Some time,
                  sj_next_run_at := next_run\<rparr>
        in bind (on_store (mem_put ''runtime_schedules'' (sj_id s) (schedule_as_dict s'))) (\<lambda>_.
           bind (es_append ''runtime.schedule.triggered'' (sj_id s)
                   [(''tenant_id'', JStr (sj_tenant s)), (''job_id'', JStr (jb_id job))]) (\<lambda>_.
           ok [job]))))))"

definition trigger_due ::
    "('z cworld_scheme) job_queue \<Rightarrow> string option \<Rightarrow> datetime option \<Rightarrow> ('z cworld_scheme, runtime_job list) op" where
  "trigger_due Q tenant given =
     bind (case given of Some t \<Rightarrow> ok t | None \<Rightarrow> utc_now) (\<lambda>now.
     bind (if tenant \<noteq> None \<and> tenant \<noteq> Some [] then schedule_list (the tenant)
           else bind (on_store (mem_list ''runtime_schedules'')) (mapM schedule_from_dict)) (\<lambda>ss.
     bind (mapM (trigger_one Q now) ss) (\<lambda>jss. ok (concat jss))))"

section \<open>Endpoints\<close>

definition with_schedule ::
    "string \<Rightarrow> request \<Rightarrow> bool \<Rightarrow> ('z cworld_scheme, scheduled_job) op" where
  "with_schedule i rq enabled = scoped rq ''runtime.schedules.manage'' (\<lambda>ctx.
     bind (schedule_get i) (\<lambda>found. case found of
       None \<Rightarrow> raise (http_error 404 ''schedule not found'')
     | Some s \<Rightarrow> bind (assert_governance_tenant ctx (schedule_as_dict s)) (\<lambda>_. set_enabled i enabled)))"

definition runtime_schedules_list :: "request \<Rightarrow> ('z cworld_scheme, scheduled_job list) op" where
  "runtime_schedules_list rq = scoped rq ''runtime.jobs.read'' (\<lambda>ctx. schedule_list (tc_tenant ctx))"

definition runtime_schedule_disable :: "string \<Rightarrow> request \<Rightarrow> ('z cworld_scheme, scheduled_job) op" where
  "runtime_schedule_disable i rq = with_schedule i rq False"

definition runtime_schedule_enable :: "string \<Rightarrow> request \<Rightarrow> ('z cworld_scheme, scheduled_job) op" where
  "runtime_schedule_enable i rq = with_schedule i rq True"

section \<open>The audit log\<close>

lemma audit_schedule_from_dict [audit_steps]: "audit.steps (schedule_from_dict d)"
  unfolding schedule_from_dict_def by (intro audit.steps_intros audit_steps)

lemma audit_schedules [audit_steps]:
  "audit.steps (schedule_create s)" "audit.steps (schedule_list tid)" "audit.steps (schedule_get i)" "audit.steps (set_enabled i b)"
  "audit.steps (scheduled_runtime_job s)"
  unfolding schedule_create_def schedule_list_def schedule_get_def set_enabled_def scheduled_runtime_job_def Let_def
  by (intro audit.steps_intros audit_steps; simp)+

lemma audit_schedule_endpoints [audit_steps]:
  "audit.steps (runtime_schedules_list rq)" "audit.steps (runtime_schedule_disable i rq)" "audit.steps (runtime_schedule_enable i rq)"
  unfolding runtime_schedules_list_def runtime_schedule_disable_def runtime_schedule_enable_def with_schedule_def
  by (intro audit.steps_intros audit_steps)+

context queue_contract
begin

lemma audit_trigger [audit_steps]: "audit.steps (trigger_due Q tenant given)"
  unfolding trigger_due_def trigger_one_def Let_def
  by (intro audit.steps_intros audit_steps audit_runtime; simp)

end

section \<open>The next run of a cron expression\<close>

lemma minute_us_pos [simp]: "0 < minute_us" "0 \<le> minute_us"
  by (simp_all add: minute_us_def)

lemma us_of_floor: "us_of (floor_minute t) = us_of t - us_of t mod minute_us"
proof -
  have "us_of t mod minute_us \<le> us_of t" by (rule zmod_le_nonneg_dividend) simp
  moreover have "0 \<le> us_of t mod minute_us" by simp
  ultimately show ?thesis using us_of_bounds(2) [of t] unfolding floor_minute_def us_of_dt by (intro mod_pos_pos_trivial) linarith+
qed

lemma dt_add_eq: "0 \<le> us_of t + n \<Longrightarrow> us_of t + n < max_us \<Longrightarrow> dt_add t n = Inr (dt (us_of t + n))"
  by (simp add: dt_add_def)

lemma cron_search_first:
  assumes "cron_search n m h t = Inr c"
  shows "\<exists>k < n. us_of c = us_of t + int k * minute_us \<and> both_match m h c = Inr True \<and>
    (\<forall>i < k. \<forall>u. us_of u = us_of t + int i * minute_us \<longrightarrow> both_match m h u = Inr False)"
  using assms
proof (induction n arbitrary: t)
  case (Suc n)
  show ?case
  proof (cases "both_match m h t")
    case (Inl e)
    with Suc.prems show ?thesis by simp
  next
    case (Inr b)
    show ?thesis
    proof (cases b)
      case True
      with Inr Suc.prems have "c = t" by simp
      with Inr True show ?thesis by (intro exI [of _ 0]) simp
    next
      case False
      with Inr Suc.prems obtain t' where t': "dt_add t minute_us = Inr t'" "cron_search n m h t' = Inr c"
        by (auto split: sum.splits)
      from Suc.IH [OF t'(2)] obtain k where k: "k < n" "us_of c = us_of t' + int k * minute_us" "both_match m h c = Inr True"
        "\<forall>i < k. \<forall>u. us_of u = us_of t' + int i * minute_us \<longrightarrow> both_match m h u = Inr False" by blast
      have us: "us_of t' = us_of t + minute_us" using t'(1) by (rule dt_add_Inr)
      have "both_match m h u = Inr False" if "i < Suc k" "us_of u = us_of t + int i * minute_us" for i u
      proof (cases i)
        case 0
        with that have "u = t" by (simp add: datetime_eq_iff)
        with Inr False show ?thesis by simp
      next
        case (Suc i')
        with that k(4) us show ?thesis by (simp add: distrib_right)
      qed
      with k(1-3) us show ?thesis by (intro exI [of _ "Suc k"]) (simp add: distrib_right)
    qed
  qed
qed simp

lemma cron_search_finds:
  assumes "k < n" "us_of t + int k * minute_us < max_us" "both_match m h (dt (us_of t + int k * minute_us)) = Inr True"
    "\<And>u. \<exists>b. both_match m h u = Inr b"
  shows "\<exists>c. cron_search n m h t = Inr c \<and> us_of c \<le> us_of t + int k * minute_us"
  using assms(1-3)
proof (induction n arbitrary: t k)
  case (Suc n)
  obtain b where b: "both_match m h t = Inr b" using assms(4) by blast
  show ?case
  proof (cases "b \<or> k = 0")
    case True
    with b Suc.prems(3) have "both_match m h t = Inr True" by auto
    then show ?thesis by simp
  next
    case False
    then obtain k' where k': "k = Suc k'" by (cases k) auto
    have "us_of t + minute_us + int k' * minute_us < max_us" using Suc.prems(2) unfolding k' by (simp add: distrib_right)
    moreover have "0 \<le> int k' * minute_us" by simp
    ultimately have lt: "us_of t + minute_us < max_us" "0 \<le> us_of t + minute_us"
      using us_of_bounds(1) [of t] minute_us_pos(1) by linarith+
    let ?t = "dt (us_of t + minute_us)"
    have us: "us_of ?t = us_of t + minute_us" using lt by simp
    have "\<exists>c. cron_search n m h ?t = Inr c \<and> us_of c \<le> us_of ?t + int k' * minute_us"
      using Suc.prems unfolding k' by (intro Suc.IH) (simp_all add: us distrib_right add.assoc del: us_of_dt)
    with b False lt us show ?thesis unfolding k' by (auto simp: dt_add_eq distrib_right)
  qed
qed simp

lemma both_match_cong:
  assumes "us_of s div minute_us mod 1440 = us_of t div minute_us mod 1440"
  shows "both_match m h s = both_match m h t"
proof -
  have mh: "x div minute_us mod 60 = x div minute_us mod 1440 mod 60" "x div (60 * minute_us) mod 24 = x div minute_us mod 1440 div 60" for x :: int
  proof -
    show "x div minute_us mod 60 = x div minute_us mod 1440 mod 60" by (simp add: mod_mod_cancel)
    have "x div (60 * minute_us) = x div minute_us div 60" by (simp add: div_mult2_eq mult.commute [of 60] minute_us_def)
    moreover have "y div 60 mod 24 = y mod 1440 div 60" for y :: int
      using zmod_zmult2_eq [of 24 y 60] by simp
    ultimately show "x div (60 * minute_us) mod 24 = x div minute_us mod 1440 div 60" by simp
  qed
  show ?thesis unfolding both_match_def dt_minute_def dt_hour_def mh assms ..
qed

text \<open>
  C27. The next run of a five-field expression is the first one: it is strictly later than the given
  instant, falls on a full minute, matches the minute and hour fields, and no full minute in between
  matches them.
\<close>

theorem cron_next_is_first:
  assumes "next_after expr after = Inr c" "\<not> prefix ''every '' expr"
  shows "\<exists>m h rest. py_split expr = m # h # rest \<and> length rest = 3 \<and> after < c \<and> us_of c mod minute_us = 0 \<and>
    both_match m h c = Inr True \<and>
    (\<forall>u. after < u \<and> u < c \<and> us_of u mod minute_us = 0 \<longrightarrow> both_match m h u = Inr False)"
proof -
  have len: "length (py_split expr) = 5" using assms by (simp add: next_after_def Let_def split: if_splits)
  then obtain m h rest where f: "py_split expr = m # h # rest" "length rest = 3"
    by (auto simp: length_Suc_conv numeral_eq_Suc)
  from assms len f obtain t where t: "dt_add (floor_minute after) minute_us = Inr t" "cron_search cron_horizon m h t = Inr c"
    by (auto simp: next_after_def Let_def split: sum.splits)
  from cron_search_first [OF t(2)] obtain k where k: "us_of c = us_of t + int k * minute_us" "both_match m h c = Inr True"
    "\<forall>i < k. \<forall>u. us_of u = us_of t + int i * minute_us \<longrightarrow> both_match m h u = Inr False" by blast
  define q where "q = us_of after div minute_us"
  have after: "us_of after = q * minute_us + us_of after mod minute_us" "us_of after mod minute_us < minute_us"
    by (simp_all add: q_def)
  then have ut: "us_of t = (q + 1) * minute_us"
    using dt_add_Inr [OF t(1)] by (simp add: us_of_floor distrib_right)
  have uc: "us_of c = (q + 1 + int k) * minute_us" using k(1) ut by (simp add: distrib_right)
  have "both_match m h u = Inr False" if "after < u" "u < c" "us_of u mod minute_us = 0" for u
  proof -
    from that(3) obtain r where r: "us_of u = r * minute_us" by (metis mod_0_imp_dvd dvd_def mult.commute)
    have "q * minute_us \<le> us_of after" using after(1) pos_mod_sign [OF minute_us_pos(1), of "us_of after"] by linarith
    then have "q * minute_us < r * minute_us" "r * minute_us < (q + 1 + int k) * minute_us"
      using that(1,2) unfolding less_datetime_def r uc by linarith+
    then have "q + 1 \<le> r" "r < q + 1 + int k" by simp_all
    then have "nat (r - (q + 1)) < k" "us_of u = us_of t + int (nat (r - (q + 1))) * minute_us"
      by (auto simp: r ut left_diff_distrib distrib_right)
    with k(3) show ?thesis by blast
  qed
  moreover have "after < c"
  proof -
    have "us_of after < (q + 1) * minute_us" using after unfolding distrib_right by linarith
    also have "\<dots> \<le> us_of c" unfolding uc by (intro mult_right_mono) simp_all
    finally show ?thesis by (simp add: less_datetime_def)
  qed
  ultimately show ?thesis using f k(2) uc by auto
qed


lemma matches_some_minute:
  "\<exists>k < 1440. us_of u div minute_us mod 1440 = (us_of t + int k * minute_us) div minute_us mod 1440"
proof -
  let ?a = "us_of u div minute_us" and ?b = "us_of t div minute_us"
  let ?k = "nat ((?a - ?b) mod 1440)"
  have "(us_of t + int ?k * minute_us) div minute_us = ?b + (?a - ?b) mod 1440"
    using minute_us_pos(1) by (simp add: less_le)
  also have "\<dots> mod 1440 = ?a mod 1440" by (simp add: mod_add_right_eq)
  finally have "us_of u div minute_us mod 1440 = (us_of t + int ?k * minute_us) div minute_us mod 1440" by simp
  moreover have "?k < 1440" by simp
  ultimately show ?thesis by blast
qed

text \<open>
  C28. The search for the next run ends within a day: for a five-field expression whose minute and hour
  fields can be read and match at some instant, and a start at least a day before the end of the
  calendar, \<^verbatim>\<open>next_after\<close> returns an instant at most 24 hours after the start; the bound of the loop and
  its error are not reached.
\<close>

theorem cron_found_within_a_day:
  assumes "py_split expr = m # h # rest" "length rest = 3" "\<not> prefix ''every '' expr"
    "\<And>u. \<exists>b. both_match m h u = Inr b" "both_match m h u = Inr True" "us_of after + day_us < max_us"
  shows "\<exists>c. next_after expr after = Inr c \<and> us_of c \<le> us_of after + day_us"
proof -
  have day: "day_us = 1440 * minute_us" by (simp add: day_us_def minute_us_def)
  let ?f = "us_of (floor_minute after)" and ?t = "dt (us_of (floor_minute after) + minute_us)"
  have f: "?f \<le> us_of after" by (simp add: us_of_floor)
  have lt: "?f + minute_us < max_us" using f assms(6) minute_us_pos unfolding day by linarith
  have ut: "us_of ?t = ?f + minute_us" using lt us_of_bounds(1) [of "floor_minute after"] by simp
  obtain k where k: "k < 1440" "us_of u div minute_us mod 1440 = (us_of ?t + int k * minute_us) div minute_us mod 1440"
    using matches_some_minute by blast
  have "int k * minute_us \<le> 1439 * minute_us" using k(1) by (intro mult_right_mono) simp_all
  then have le: "us_of ?t + int k * minute_us \<le> us_of after + day_us" unfolding ut day using f by linarith
  then have max: "us_of ?t + int k * minute_us < max_us" using assms(6) by linarith
  have "us_of (dt (us_of ?t + int k * minute_us)) = us_of ?t + int k * minute_us"
    using max us_of_bounds(1) [of ?t] unfolding us_of_dt [of "us_of ?t + int k * minute_us"] by (intro mod_pos_pos_trivial) simp_all
  then have "both_match m h (dt (us_of ?t + int k * minute_us)) = Inr True"
    using both_match_cong [of u "dt (us_of ?t + int k * minute_us)"] k(2) assms(5) by metis
  from cron_search_finds [OF _ max this assms(4), of cron_horizon] k(1)
  obtain c where "cron_search cron_horizon m h ?t = Inr c" "us_of c \<le> us_of ?t + int k * minute_us"
    by (auto simp: cron_horizon_def)
  moreover have "dt_add (floor_minute after) minute_us = Inr ?t"
    using lt us_of_bounds(1) [of "floor_minute after"] by (simp add: dt_add_eq)
  ultimately show ?thesis using assms(1-3) le by (simp add: next_after_def Let_def)
qed

text \<open>
  The day, month and weekday fields of a cron expression have no effect: two five-field
  expressions that agree in minute and hour have the same next run after every instant.
\<close>

theorem cron_ignores_day_fields:
  assumes "py_split e = [m, h, d, mo, wd]" "py_split e' = [m, h, d', mo', wd']" "\<not> prefix ''every '' e" "\<not> prefix ''every '' e'"
  shows "next_after e after = next_after e' after"
  using assms by (simp add: next_after_def Let_def split: sum.split)

theorem cron_ignores_day_fields_witness:
  "next_after ''0 0 1 1 *'' (dt 0) = next_after ''0 0 * * *'' (dt 0)"
proof -
  have "py_split ''0 0 1 1 *'' = [''0'', ''0'', ''1'', ''1'', ''*'']" "py_split ''0 0 * * *'' = [''0'', ''0'', ''*'', ''*'', ''*'']"
    by code_simp+
  then show ?thesis by (rule cron_ignores_day_fields) simp_all
qed

lemma quarter_hours: "py_split ''*/15 * * * *'' = ''*/15'' # ''*'' # [''*'', ''*'', ''*'']" by code_simp

lemma quarter_match: "both_match ''*/15'' ''*'' u = Inr (dt_minute u mod 15 = 0)"
proof -
  have "int_of_str ''15'' = Inr 15" by code_simp
  then show ?thesis by (simp add: both_match_def cron_matches_def split: bool.split)
qed

theorem cron_found_within_a_day_witness:
  "\<exists>c. next_after ''*/15 * * * *'' (dt 0) = Inr c \<and> us_of c \<le> day_us"
proof -
  have "both_match ''*/15'' ''*'' (dt 0) = Inr True" by (simp add: quarter_match dt_minute_def)
  then show ?thesis
    using cron_found_within_a_day [OF quarter_hours, of "dt 0" "dt 0"]
    by (simp add: quarter_match max_us_def day_us_def)
qed

lemma every_minute_example: "next_after ''* * * * *'' (dt 5) = Inr (dt minute_us)"
proof -
  have f: "py_split ''* * * * *'' = [''*'', ''*'', ''*'', ''*'', ''*'']" by code_simp
  have "floor_minute (dt 5) = dt 0" by (simp add: floor_minute_def minute_us_def)
  then have "dt_add (floor_minute (dt 5)) minute_us = Inr (dt minute_us)"
    by (simp add: dt_add_def minute_us_def max_us_def day_us_def)
  moreover have "0 < n \<Longrightarrow> cron_search n ''*'' ''*'' x = Inr x" for n x
    by (cases n) (simp_all add: both_match_def cron_matches_def)
  then have "cron_search cron_horizon ''*'' ''*'' x = Inr x" for x by (simp add: cron_horizon_def)
  ultimately show ?thesis by (simp add: next_after_def f)
qed

theorem cron_next_is_first_witness:
  "dt 5 < dt minute_us \<and> \<not> (\<exists>u. dt 5 < u \<and> u < dt minute_us \<and> us_of u mod minute_us = 0 \<and> both_match ''*'' ''*'' u \<noteq> Inr False)"
proof -
  have f: "py_split ''* * * * *'' = [''*'', ''*'', ''*'', ''*'', ''*'']" by code_simp
  have "\<not> prefix ''every '' ''* * * * *''" by simp
  from cron_next_is_first [OF every_minute_example this] show ?thesis by (auto simp: f)
qed

section \<open>Triggering\<close>

lemma registered_schedule: "registered ''runtime.schedule.triggered''" "registered ''runtime.job.created''"
  by code_simp+

context queue_contract
begin

lemma submit_Inr:
  assumes "submit Q j v = (Inr k, v')"
  shows "jb_tenant k = jb_tenant j \<and> waiting (w_queue v') (jb_id k)"
proof (cases "valid_job j")
  case True
  let ?j = "stamp (now v) (j\<lparr>jb_status := ''queued''\<rparr>)"
  obtain v1 where v1: "jq_enqueue Q j v = (Inr ?j, v1)" "w_queue v1 = enqueue_spec ?j (w_queue v)"
    using enqueue [OF True HOL.refl, of v] by auto
  obtain e v2 where "es_append ''runtime.job.created'' (jb_id ?j) (job_as_dict ?j) v1 = (Inr e, v2)" "w_queue v2 = w_queue v1"
    using es_append_queue registered_schedule(2) by blast
  with assms True v1 show ?thesis
    by (auto simp: submit_def bind_apply job_validate_valid ok_apply waiting_def)
next
  case False
  with assms job_validate_invalid [OF False, of v] show ?thesis by (auto simp: submit_def bind_apply)
qed

end


definition schedule0 :: scheduled_job where
  "schedule0 = \<lparr>sj_tenant = ''t'', sj_organization = ''o'', sj_created_by = ''u'', sj_job_type = ''agent_run'', sj_payload = [],
     sj_type = ''one_time'', sj_cron = None, sj_run_at = Some (dt 0), sj_enabled = True, sj_id = ''s'', sj_last_run_at = None,
     sj_next_run_at = Some (dt 0), sj_created_at = dt 0\<rparr>"



text \<open>
  One schedule that cannot be submitted blocks all later ones: when the first due schedule of the
  listing has a job the runtime refuses (an unsupported type, an empty tenant or a sensitive key in
  its payload), \<^verbatim>\<open>trigger_due\<close> raises, submits no job for any schedule, and leaves every schedule as it
  was, so the next call does the same.
\<close>

theorem refused_schedule_blocks_others:
  fixes Q :: "'z cworld_scheme job_queue"
  assumes "Q = memory_queue \<or> Q = sqlite_queue"
    "bind (on_store (mem_list ''runtime_schedules'')) (mapM schedule_from_dict) w = (Inr (ps @ s # rest), w)"
    "\<forall>p \<in> set ps. \<not> due time p" "due time s" "\<not> List.member runtime_job_types (sj_job_type s)"
  shows "denied (sj_tenant s) (trigger_due Q None (Some time)) w"
proof -
  have sub: "\<exists>m. submit Q j v = (Inl m, v)" if "\<not> valid_job j" for j v
    using job_validate_invalid [OF that, of v] by (auto simp: submit_def bind_apply)
  obtain e v where one: "trigger_one Q time s w = (Inl e, v)" "quiet_step (sj_tenant s) w v"
  proof -
    obtain j v where j: "scheduled_runtime_job s w = (Inr j, v)" "quiet_step (sj_tenant s) w v" "jb_type j = sj_job_type s"
      by (auto simp: scheduled_runtime_job_def bind_apply uuid_hex12_def utc_now_def ok_apply quiet_step_def used_def)
    then have "\<not> valid_job j" using assms(5) by (simp add: valid_job_def)
    with j sub [of j v] assms(4) that show ?thesis by (auto simp: trigger_one_def bind_apply)
  qed
  have "mapM (trigger_one Q time) (ps @ s # rest) w = (Inl e, v)"
    using assms(3) one(1)
  proof (induction ps)
    case (Cons p ps)
    then show ?case by (simp add: bind_apply trigger_one_def ok_apply)
  qed (simp add: bind_apply)
  then have "trigger_due Q None (Some time) w = (Inl e, v)"
    using assms(2) by (simp add: trigger_due_def bind_apply ok_apply)
  with one(2) show ?thesis by (auto simp: denied_def)
qed


theorem refused_schedule_blocks_others_witness:
  "denied ''t'' (trigger_due memory_queue None (Some (dt 5)))
     (put_doc ''runtime_schedules'' ''s'' (schedule_as_dict (schedule0\<lparr>sj_job_type := ''nonsense''\<rparr>)) cworld0)"
proof -
  let ?s = "schedule0\<lparr>sj_job_type := ''nonsense''\<rparr>"
  let ?w = "put_doc ''runtime_schedules'' ''s'' (schedule_as_dict ?s) cworld0"
  have "coll (w_store ?w) ''runtime_schedules'' = [(''s'', schedule_as_dict ?s)]"
    by simp (simp add: coll_def)
  then have "bind (on_store (mem_list ''runtime_schedules'')) (mapM schedule_from_dict) ?w = (Inr ([] @ ?s # []), ?w)"
    by (simp add: bind_apply on_store_def mem_list_def gets_apply sorted_items_def ok_apply schedule0_def nonempty_def)
  from refused_schedule_blocks_others [OF disjI1 [OF HOL.refl] this, of "dt 5"] show ?thesis
    by (simp add: due_def schedule0_def less_eq_datetime_def runtime_job_types_def)
qed

end
