(* ===== verification/Task_Graph.thy ===== *)
theory Task_Graph
  imports Documents
begin

text \<open>
  Task graphs of collaborative workflows (\<^verbatim>\<open>agentfabric/collaboration/task_graph.py\<close> and
  \<^verbatim>\<open>dependency_graph.py\<close>): reading a graph, checking its dependencies, and the batches in which the
  workflow engine runs its nodes.
\<close>

section \<open>Task graphs\<close>

record task_node =
  tk_id :: string
  tk_agent :: string
  tk_capability :: "string option"
  tk_deps :: "string list"
  tk_retries :: int
  tk_approval :: bool
  tk_payload :: obj

record task_graph =
  tg_id :: string
  tg_nodes :: "task_node list"

definition node_from_dict :: "obj \<Rightarrow> task_node result" where
  "node_from_dict d =
     (case req_str d ''node_id'' of Inl e \<Rightarrow> Inl e | Inr i \<Rightarrow>
       (let agent = get_or d ''agent_id'' JNull; name = get_or d ''agent_name'' JNull in
        case strs_or d ''dependencies'' [] of Inl e \<Rightarrow> Inl e | Inr deps \<Rightarrow>
       (case int_or d ''max_retries'' 0 of Inl e \<Rightarrow> Inl e | Inr retries \<Rightarrow>
       (case dict_or d ''payload'' of Inl e \<Rightarrow> Inl e | Inr p \<Rightarrow>
         Inr \<lparr>tk_id = i, tk_agent = (if truthy agent then py_str agent else if truthy name then py_str name else i),
              tk_capability = opt_str d ''capability'', tk_deps = deps, tk_retries = retries,
              tk_approval = bool_or d ''requires_human_approval'' False, tk_payload = p\<rparr>))))"

definition graph_from_dicts :: "string \<Rightarrow> obj list \<Rightarrow> task_graph result" where
  "graph_from_dicts gid ds = (case map_result node_from_dict ds of Inl e \<Rightarrow> Inl e
     | Inr nodes \<Rightarrow> Inr \<lparr>tg_id = gid, tg_nodes = nodes\<rparr>)"

section \<open>Dependencies\<close>

record dependency_graph =
  dg_nodes :: "task_node dict"
  dg_children :: "string list dict"
  dg_indegree :: "int dict"

definition children_of :: "string list dict \<Rightarrow> string \<Rightarrow> string list" where
  "children_of cs i = (case map_of cs i of None \<Rightarrow> [] | Some xs \<Rightarrow> xs)"

definition degree :: "int dict \<Rightarrow> string \<Rightarrow> int" where
  "degree ind i = (case map_of ind i of None \<Rightarrow> 0 | Some n \<Rightarrow> n)"

fun add_deps :: "string \<Rightarrow> string list \<Rightarrow> dependency_graph \<Rightarrow> dependency_graph result" where
  "add_deps i [] g = Inr g"
| "add_deps i (dep # deps) g =
     (if map_of (dg_nodes g) dep = None then Inl (ValidationError (''unknown dependency: '' @ dep))
      else add_deps i deps (g\<lparr>dg_children := AList.update dep (children_of (dg_children g) dep @ [i]) (dg_children g),
        dg_indegree := AList.update i (degree (dg_indegree g) i + 1) (dg_indegree g)\<rparr>))"

fun add_nodes :: "task_node list \<Rightarrow> dependency_graph \<Rightarrow> dependency_graph result" where
  "add_nodes [] g = Inr g"
| "add_nodes (n # ns) g = (case add_deps (tk_id n) (tk_deps n) g of Inl e \<Rightarrow> Inl e | Inr g' \<Rightarrow> add_nodes ns g')"

definition nodes_by_id :: "task_node list \<Rightarrow> task_node dict" where
  "nodes_by_id ns = foldl (\<lambda>d n. AList.update (tk_id n) n d) [] ns"

definition build_graph :: "task_graph \<Rightarrow> dependency_graph result" where
  "build_graph g =
     (let by_id = nodes_by_id (tg_nodes g) in
      if length by_id \<noteq> length (tg_nodes g) then Inl (ValidationError ''task graph contains duplicate node_id values'')
      else add_nodes (tg_nodes g) \<lparr>dg_nodes = by_id, dg_children = [],
             dg_indegree = foldl (\<lambda>d n. AList.update (tk_id n) 0 d) [] (tg_nodes g)\<rparr>)"

section \<open>Batches\<close>

text \<open>The body of the two inner loops: the in-degrees and the queue after visiting children.\<close>

fun visit_children :: "string list \<Rightarrow> int dict \<times> string list \<Rightarrow> int dict \<times> string list" where
  "visit_children [] s = s"
| "visit_children (c # cs) (ind, queue) =
     (let ind' = AList.update c (degree ind c - 1) ind
      in visit_children cs (ind', if degree ind' c = 0 then queue @ [c] else queue))"

fun visit_batch :: "string list dict \<Rightarrow> string list \<Rightarrow> int dict \<times> string list \<Rightarrow> int dict \<times> string list" where
  "visit_batch children [] s = s"
| "visit_batch children (i # is) s = visit_batch children is (visit_children (children_of children i) s)"

definition positive :: "int dict \<Rightarrow> string set" where
  "positive ind = {i. 0 < degree ind i}"

lemma degree_update [simp]: "degree (AList.update i n ind) j = (if j = i then n else degree ind j)"
  by (simp add: degree_def)

lemma finite_positive: "finite (positive ind)"
proof (rule finite_subset)
  show "positive ind \<subseteq> fst ` set ind"
    by (auto simp: positive_def degree_def split: option.splits dest!: map_of_SomeD) force
qed simp

lemma visit_children_positive:
  "positive (fst (visit_children cs (ind, q))) \<subseteq> positive ind \<and>
   (snd (visit_children cs (ind, q)) \<noteq> q \<longrightarrow> positive (fst (visit_children cs (ind, q))) \<subset> positive ind)"
proof (induction cs arbitrary: ind q)
  case (Cons c cs)
  let ?ind = "AList.update c (degree ind c - 1) ind"
  have sub: "positive ?ind \<subseteq> positive ind" by (auto simp: positive_def)
  show ?case
  proof (cases "degree ind c = 1")
    case True
    then have "c \<in> positive ind" "c \<notin> positive ?ind" by (simp_all add: positive_def)
    with sub have "positive ?ind \<subset> positive ind" by blast
    moreover have "visit_children (c # cs) (ind, q) = visit_children cs (?ind, q @ [c])" using True by (simp add: Let_def)
    moreover have "positive (fst (visit_children cs (?ind, q @ [c]))) \<subseteq> positive ?ind" using Cons.IH by blast
    ultimately show ?thesis by (metis psubset_imp_subset subset_psubset_trans)
  next
    case False
    then have "visit_children (c # cs) (ind, q) = visit_children cs (?ind, q)" by (simp add: Let_def)
    with Cons.IH [of ?ind q] sub show ?thesis by (metis psubset_subset_trans subset_trans)
  qed
qed simp

lemma visit_batch_positive:
  "positive (fst (visit_batch children is (ind, q))) \<subseteq> positive ind \<and>
   (snd (visit_batch children is (ind, q)) \<noteq> q \<longrightarrow> positive (fst (visit_batch children is (ind, q))) \<subset> positive ind)"
proof (induction "is" arbitrary: ind q)
  case (Cons i "is")
  obtain ind' q' where v: "visit_children (children_of children i) (ind, q) = (ind', q')" by fastforce
  show ?case
    using visit_children_positive [of "children_of children i" ind q] Cons.IH [of ind' q'] v
    by (simp only: visit_batch.simps fst_conv snd_conv) blast
qed simp

lemma visit_batch_card:
  assumes "(ind', queue') = visit_batch children queue (ind, [])"
  shows "card (positive ind') \<le> card (positive ind)" "queue' \<noteq> [] \<Longrightarrow> card (positive ind') < card (positive ind)"
proof -
  have "positive ind' \<subseteq> positive ind \<and> (queue' \<noteq> [] \<longrightarrow> positive ind' \<subset> positive ind)"
    using visit_batch_positive [of children queue ind "[]"] assms by (metis fst_conv snd_conv)
  then show "card (positive ind') \<le> card (positive ind)" "queue' \<noteq> [] \<Longrightarrow> card (positive ind') < card (positive ind)"
    by (auto intro: card_mono finite_positive psubset_card_mono)
qed

text \<open>
  The loop of \<^verbatim>\<open>topological_batches\<close> on identifiers. It ends: a node enters the next queue only when its
  in-degree drops to zero.
\<close>

function batch_ids :: "string list dict \<Rightarrow> int dict \<Rightarrow> string list \<Rightarrow> string list list" where
  "batch_ids children ind queue =
     (if queue = [] then []
      else queue # (case visit_batch children queue (ind, []) of (ind', queue') \<Rightarrow> batch_ids children ind' queue'))"
  by pat_completeness auto

termination
  by (relation "measure (\<lambda>(children, ind, queue). card (positive ind) + (if queue = [] then 0 else 1))")
    (auto split: prod.splits dest: visit_batch_card [OF sym] simp: less_Suc_eq_le)

declare batch_ids.simps [simp del]

definition lookup_node :: "dependency_graph \<Rightarrow> string \<Rightarrow> task_node result" where
  "lookup_node g i = (case map_of (dg_nodes g) i of None \<Rightarrow> Inl (KeyError i) | Some n \<Rightarrow> Inr n)"

definition topological_batches :: "dependency_graph \<Rightarrow> task_node list list result" where
  "topological_batches g =
     (let ids = batch_ids (dg_children g) (dg_indegree g) (map fst (filter (\<lambda>(_, n). n = 0) (dg_indegree g))) in
      case map_result (map_result (lookup_node g)) ids of Inl e \<Rightarrow> Inl e | Inr batches \<Rightarrow>
        if length (concat ids) \<noteq> length (dg_nodes g) then Inl (ValidationError ''task graph contains cycles'')
        else Inr batches)"

section \<open>What the constructor builds\<close>

definition dep_list :: "task_node list \<Rightarrow> string \<Rightarrow> string list" where
  "dep_list ns i = concat (map tk_deps (filter (\<lambda>n. tk_id n = i) ns))"

lemma children_of_update [simp]: "children_of (AList.update i xs cs) j = (if j = i then xs else children_of cs j)"
  by (simp add: children_of_def)

lemma keys_update: "i \<in> fst ` set d \<Longrightarrow> map fst (AList.update i n d) = map fst d"
  by (induction d) auto

lemma add_deps_spec:
  assumes "add_deps i deps g = Inr g'" "i \<in> fst ` set (dg_indegree g)"
  shows "dg_nodes g' = dg_nodes g \<and> (\<forall>d \<in> set deps. map_of (dg_nodes g) d \<noteq> None) \<and>
    (\<forall>d. children_of (dg_children g') d = children_of (dg_children g) d @ replicate (count_list deps d) i) \<and>
    (\<forall>j. degree (dg_indegree g') j = degree (dg_indegree g) j + (if j = i then int (length deps) else 0)) \<and>
    map fst (dg_indegree g') = map fst (dg_indegree g)"
  using assms
proof (induction deps arbitrary: g)
  case (Cons dep deps)
  let ?g = "g\<lparr>dg_children := AList.update dep (children_of (dg_children g) dep @ [i]) (dg_children g),
        dg_indegree := AList.update i (degree (dg_indegree g) i + 1) (dg_indegree g)\<rparr>"
  have "map_of (dg_nodes g) dep \<noteq> None" "add_deps i deps ?g = Inr g'"
    using Cons.prems(1) by (auto split: if_splits)
  moreover have "i \<in> fst ` set (dg_indegree ?g)" by (simp add: AList.dom_update)
  ultimately show ?case
    using Cons.IH [of ?g] keys_update [OF Cons.prems(2)] by (auto simp: replicate_append_same [symmetric])
qed simp

lemma add_nodes_spec:
  assumes "add_nodes ns g = Inr g'" "tk_id ` set ns \<subseteq> fst ` set (dg_indegree g)"
  shows "dg_nodes g' = dg_nodes g \<and> (\<forall>n \<in> set ns. \<forall>d \<in> set (tk_deps n). map_of (dg_nodes g) d \<noteq> None) \<and>
    (\<forall>d i. count_list (children_of (dg_children g') d) i = count_list (children_of (dg_children g) d) i + count_list (dep_list ns i) d) \<and>
    (\<forall>j. degree (dg_indegree g') j = degree (dg_indegree g) j + int (length (dep_list ns j))) \<and>
    map fst (dg_indegree g') = map fst (dg_indegree g)"
  using assms
proof (induction ns arbitrary: g)
  case (Cons n ns)
  obtain g1 where g1: "add_deps (tk_id n) (tk_deps n) g = Inr g1" "add_nodes ns g1 = Inr g'"
    using Cons.prems(1) by (auto split: sum.splits)
  have 1: "dg_nodes g1 = dg_nodes g" "\<forall>d \<in> set (tk_deps n). map_of (dg_nodes g) d \<noteq> None"
    "\<And>d. children_of (dg_children g1) d = children_of (dg_children g) d @ replicate (count_list (tk_deps n) d) (tk_id n)"
    "\<And>j. degree (dg_indegree g1) j = degree (dg_indegree g) j + (if j = tk_id n then int (length (tk_deps n)) else 0)"
    "map fst (dg_indegree g1) = map fst (dg_indegree g)"
    using add_deps_spec [OF g1(1)] Cons.prems(2) by auto
  have "tk_id ` set ns \<subseteq> fst ` set (dg_indegree g1)"
    using Cons.prems(2) arg_cong [OF 1(5), of set] by auto
  note IH = Cons.IH [OF g1(2) this]
  have count: "count_list (replicate m x) y = (if x = y then m else 0)" for m and x y :: string
    by (induction m) auto
  show ?case
    using IH 1 by (simp add: dep_list_def count_list_append count)
qed (simp add: dep_list_def)

lemma nodes_by_id_map: "nodes_by_id (ns @ [n]) = AList.update (tk_id n) n (nodes_by_id ns)"
  by (simp add: nodes_by_id_def)

lemma length_update: "length (AList.update k v d) = (if k \<in> fst ` set d then length d else Suc (length d))"
  by (induction d) auto

lemma keys_nodes_by_id: "fst ` set (nodes_by_id ns) = tk_id ` set ns" "length (nodes_by_id ns) \<le> length ns"
  by (induction ns rule: rev_induct) (auto simp: nodes_by_id_map AList.dom_update length_update, simp_all add: nodes_by_id_def)

lemma nodes_by_id_distinct:
  "length (nodes_by_id ns) = length ns \<longleftrightarrow> distinct (map tk_id ns)"
  "distinct (map tk_id ns) \<Longrightarrow> nodes_by_id ns = map (\<lambda>n. (tk_id n, n)) ns"
proof (induction ns rule: rev_induct)
  case (snoc n ns)
  have new: "k \<notin> fst ` set d \<Longrightarrow> AList.update k v d = d @ [(k, v)]" for k v and d :: "task_node dict" by (induction d) auto
  {
    case 1
    show ?case using snoc(1) keys_nodes_by_id [of ns] by (auto simp: nodes_by_id_map length_update)
  next
    case 2
    then show ?case using snoc(2) by (simp add: nodes_by_id_map new image_image)
  }
qed (simp_all add: nodes_by_id_def)

lemma zero_indegrees: "map_of (foldl (\<lambda>d n. AList.update (tk_id n) (0::int) d) [] ns) i = (if i \<in> tk_id ` set ns then Some 0 else None)"
  by (induction ns rule: rev_induct) auto

lemma zero_keys: "distinct (map tk_id ns) \<Longrightarrow> map fst (foldl (\<lambda>d n. AList.update (tk_id n) (0::int) d) [] ns) = map tk_id ns"
proof (induction ns rule: rev_induct)
  case (snoc n ns)
  have new: "k \<notin> fst ` set d \<Longrightarrow> AList.update k v d = d @ [(k, v)]" for k v and d :: "int dict" by (induction d) auto
  let ?d = "foldl (\<lambda>d n. AList.update (tk_id n) (0::int) d) [] ns"
  have "fst ` set ?d = tk_id ` set ns" using snoc by (metis distinct_append image_set map_append)
  with snoc show ?case by (simp add: new)
qed simp

lemma build_graph_spec:
  assumes "build_graph g = Inr G"
  shows "distinct (map tk_id (tg_nodes g))" "dg_nodes G = map (\<lambda>n. (tk_id n, n)) (tg_nodes g)"
    "\<And>n d. n \<in> set (tg_nodes g) \<Longrightarrow> d \<in> set (tk_deps n) \<Longrightarrow> d \<in> tk_id ` set (tg_nodes g)"
    "\<And>d i. count_list (children_of (dg_children G) d) i = count_list (dep_list (tg_nodes g) i) d"
    "\<And>i. degree (dg_indegree G) i = int (length (dep_list (tg_nodes g) i))"
    "map fst (dg_indegree G) = map tk_id (tg_nodes g)"
proof -
  let ?ns = "tg_nodes g" and ?z = "foldl (\<lambda>d n. AList.update (tk_id n) (0::int) d) [] (tg_nodes g)"
  let ?g = "\<lparr>dg_nodes = nodes_by_id ?ns, dg_children = [], dg_indegree = ?z\<rparr>"
  have len: "length (nodes_by_id ?ns) = length ?ns" and add: "add_nodes ?ns ?g = Inr G"
    using assms by (auto simp: build_graph_def Let_def split: if_splits)
  show d: "distinct (map tk_id ?ns)" using len nodes_by_id_distinct(1) by blast
  have "tk_id ` set ?ns \<subseteq> fst ` set (dg_indegree ?g)"
    using zero_keys [OF d] by (metis (no_types) image_set order_refl select_convs(3))
  note * = add_nodes_spec [OF add this]
  show nodes: "dg_nodes G = map (\<lambda>n. (tk_id n, n)) ?ns" using * nodes_by_id_distinct(2) [OF d] by simp
  show "d \<in> tk_id ` set ?ns" if "n \<in> set ?ns" "d \<in> set (tk_deps n)" for n d
  proof -
    have "map_of (map (\<lambda>n. (tk_id n, n)) ?ns) d \<noteq> None" using * that nodes by simp
    then show ?thesis by (auto simp: map_of_eq_None_iff image_image)
  qed
  have "degree ?z i = 0" for i by (simp add: degree_def zero_indegrees)
  with * show "degree (dg_indegree G) i = int (length (dep_list ?ns i))" for i by simp
  show "count_list (children_of (dg_children G) d) i = count_list (dep_list ?ns i) d" for d i
    using * by (simp add: children_of_def)
  show "map fst (dg_indegree G) = map tk_id ?ns" using * zero_keys [OF d] by simp
qed

section \<open>What the loops compute\<close>

lemma visit_children_spec:
  assumes "\<forall>i \<in> set cs. int (count_list cs i) \<le> degree ind i"
  shows "\<exists>ind' zs. visit_children cs (ind, q) = (ind', q @ zs) \<and> distinct zs \<and>
    set zs = {i \<in> set cs. degree ind i = int (count_list cs i)} \<and> (\<forall>i. degree ind' i = degree ind i - int (count_list cs i))"
  using assms
proof (induction cs arbitrary: ind q)
  case (Cons c cs)
  let ?ind = "AList.update c (degree ind c - 1) ind"
  have pre: "\<forall>i \<in> set cs. int (count_list cs i) \<le> degree ?ind i"
    using Cons.prems by auto
  show ?case
  proof (cases "degree ind c = 1")
    case True
    have "count_list cs c = 0" using Cons.prems True by (auto dest!: bspec [of _ _ c])
    then have c: "c \<notin> set cs" by (simp add: count_list_0_iff)
    from Cons.IH [OF pre, of "q @ [c]"] obtain ind' zs where z: "visit_children cs (?ind, q @ [c]) = (ind', q @ c # zs)" "distinct zs"
      "set zs = {i \<in> set cs. degree ?ind i = int (count_list cs i)}" "\<forall>i. degree ind' i = degree ?ind i - int (count_list cs i)"
      by auto
    have "set (c # zs) = {i \<in> set (c # cs). degree ind i = int (count_list (c # cs) i)}"
      using z(3) c True by (auto simp: \<open>count_list cs c = 0\<close>)
    moreover have "visit_children (c # cs) (ind, q) = (ind', q @ (c # zs))" using True z(1) by (simp add: Let_def)
    moreover have "distinct (c # zs)" using z(2,3) c by auto
    ultimately show ?thesis using z(4) by (intro exI [of _ ind'] exI [of _ "c # zs"]) auto
  next
    case False
    from Cons.IH [OF pre, of q] obtain ind' zs where z: "visit_children cs (?ind, q) = (ind', q @ zs)" "distinct zs"
      "set zs = {i \<in> set cs. degree ?ind i = int (count_list cs i)}" "\<forall>i. degree ind' i = degree ?ind i - int (count_list cs i)"
      by auto
    have "set zs = {i \<in> set (c # cs). degree ind i = int (count_list (c # cs) i)}"
      using z(3) False by (auto simp: count_list_0_iff [symmetric])
    with z(1,2,4) False show ?thesis by (intro exI [of _ ind'] exI [of _ zs]) (auto simp: Let_def)
  qed
qed simp

text \<open>
  Nodes \<open>D\<close> are done and \<open>q\<close> are ready: the in-degree of a node is the number of its dependencies that are
  not done, and the nodes that are done or ready are those of in-degree zero.
\<close>

definition batch_inv :: "task_node list \<Rightarrow> string list \<Rightarrow> string list \<Rightarrow> int dict \<Rightarrow> bool" where
  "batch_inv ns D q ind \<longleftrightarrow> distinct (D @ q) \<and> set (D @ q) \<subseteq> tk_id ` set ns \<and>
     (\<forall>i. degree ind i = int (length (filter (\<lambda>d. d \<notin> set D) (dep_list ns i)))) \<and>
     (\<forall>i \<in> tk_id ` set ns. i \<in> set (D @ q) \<longleftrightarrow> degree ind i = 0)"

lemma dep_list_node: "dep_list ns i \<noteq> [] \<Longrightarrow> i \<in> tk_id ` set ns"
  by (auto simp: dep_list_def)

lemma length_filter_remove:
  "x \<notin> set D \<Longrightarrow> length (filter (\<lambda>d. d \<notin> set D) xs) = length (filter (\<lambda>d. d \<notin> set (D @ [x])) xs) + count_list xs x"
  by (induction xs) auto

lemma batch_inv_visit:
  assumes "batch_inv ns D (x # cur @ new) ind" "\<And>i. count_list (children_of cs x) i = count_list (dep_list ns i) x"
  shows "\<exists>ind' zs. visit_children (children_of cs x) (ind, new) = (ind', new @ zs) \<and> batch_inv ns (D @ [x]) (cur @ new @ zs) ind'"
proof -
  have x: "x \<notin> set D" and dist: "distinct (D @ x # cur @ new)" and ids: "set (D @ x # cur @ new) \<subseteq> tk_id ` set ns"
    and deg: "\<And>i. degree ind i = int (length (filter (\<lambda>d. d \<notin> set (D @ [x])) (dep_list ns i)) + count_list (dep_list ns i) x)"
    and zero: "\<And>i. i \<in> tk_id ` set ns \<Longrightarrow> i \<in> set (D @ x # cur @ new) \<longleftrightarrow> degree ind i = 0"
    using assms(1) length_filter_remove [of x D] by (auto simp: batch_inv_def)
  obtain ind' zs where z: "visit_children (children_of cs x) (ind, new) = (ind', new @ zs)" "distinct zs"
    "set zs = {i \<in> set (children_of cs x). degree ind i = int (count_list (children_of cs x) i)}"
    "\<And>i. degree ind' i = degree ind i - int (count_list (children_of cs x) i)"
    using visit_children_spec [of "children_of cs x" ind new] assms(2) deg by auto
  have deg': "degree ind' i = int (length (filter (\<lambda>d. d \<notin> set (D @ [x])) (dep_list ns i)))" for i
    by (simp add: z(4) assms(2) deg)
  have child: "i \<in> set (children_of cs x) \<longleftrightarrow> count_list (dep_list ns i) x \<noteq> 0" for i
    using assms(2) [of i] count_list_0_iff [of "children_of cs x" i] by simp
  have zs: "i \<in> set zs \<longleftrightarrow> degree ind i \<noteq> 0 \<and> degree ind' i = 0" for i
    using child [of i] deg [of i] deg' [of i] by (auto simp: z(3) assms(2))
  have zs_ids: "set zs \<subseteq> tk_id ` set ns"
  proof
    fix i assume "i \<in> set zs"
    then have "count_list (dep_list ns i) x \<noteq> 0" using z(3) child by auto
    then show "i \<in> tk_id ` set ns" by (intro dep_list_node) auto
  qed
  have "i \<notin> set zs" if "i \<in> set (D @ x # cur @ new)" for i
    using that ids zero [of i] zs [of i] by blast
  then have "distinct (D @ [x] @ cur @ new @ zs)" using dist z(2) by auto
  moreover have "i \<in> set (D @ [x] @ cur @ new @ zs) \<longleftrightarrow> degree ind' i = 0" if "i \<in> tk_id ` set ns" for i
  proof -
    have "degree ind i = 0 \<Longrightarrow> degree ind' i = 0" using deg [of i] deg' [of i] by linarith
    moreover have "i \<in> set (D @ [x] @ cur @ new @ zs) \<longleftrightarrow> i \<in> set (D @ x # cur @ new) \<or> i \<in> set zs" by auto
    ultimately show ?thesis using zero [OF that] zs [of i] by blast
  qed
  ultimately have "batch_inv ns (D @ [x]) (cur @ new @ zs) ind'"
    using zs_ids ids deg' by (auto simp: batch_inv_def)
  with z(1) show ?thesis by blast
qed

lemma batch_inv_batch:
  assumes "batch_inv ns D (cur @ new) ind" "\<And>x i. count_list (children_of cs x) i = count_list (dep_list ns i) x"
  shows "\<exists>ind' zs. visit_batch cs cur (ind, new) = (ind', new @ zs) \<and> batch_inv ns (D @ cur) (new @ zs) ind'"
  using assms(1)
proof (induction cur arbitrary: D new ind)
  case (Cons x cur)
  then have "batch_inv ns D (x # cur @ new) ind" by simp
  from batch_inv_visit [OF this assms(2)] obtain ind1 zs where
    1: "visit_children (children_of cs x) (ind, new) = (ind1, new @ zs)" "batch_inv ns (D @ [x]) (cur @ (new @ zs)) ind1" by auto
  from Cons.IH [OF 1(2)] 1(1) show ?case by auto
qed (auto simp: batch_inv_def)

lemma batch_ids_spec:
  assumes "batch_inv ns D q ind" "\<And>x i. count_list (children_of cs x) i = count_list (dep_list ns i) x"
  shows "(\<exists>ind'. batch_inv ns (D @ concat (batch_ids cs ind q)) [] ind') \<and>
    (\<forall>k < length (batch_ids cs ind q). \<forall>i \<in> set (batch_ids cs ind q ! k).
       set (dep_list ns i) \<subseteq> set D \<union> set (concat (take k (batch_ids cs ind q))))"
  using assms
proof (induction cs ind q arbitrary: D rule: batch_ids.induct)
  case (1 cs ind q)
  show ?case
  proof (cases "q = []")
    case True
    then have "batch_ids cs ind q = []" by (simp add: batch_ids.simps)
    with True 1(2) show ?thesis by auto
  next
    case False
    obtain ind' q' where v: "visit_batch cs q (ind, []) = (ind', q')" "batch_inv ns (D @ q) q' ind'"
      using batch_inv_batch [of ns D q "[]" ind cs, OF _ 1(3)] 1(2) by auto
    define rest where "rest = batch_ids cs ind' q'"
    have bs: "batch_ids cs ind q = q # rest" using False v(1) by (subst batch_ids.simps) (simp add: rest_def)
    have IH: "(\<exists>ind''. batch_inv ns ((D @ q) @ concat rest) [] ind'') \<and>
        (\<forall>k < length rest. \<forall>i \<in> set (rest ! k). set (dep_list ns i) \<subseteq> set (D @ q) \<union> set (concat (take k rest)))"
      unfolding rest_def using 1(1) [OF False v(1) [symmetric] v(2) 1(3)] by simp
    have ready: "set (dep_list ns i) \<subseteq> set D" if "i \<in> set q" for i
    proof -
      have "i \<in> tk_id ` set ns" "i \<in> set (D @ q)" using 1(2) that by (auto simp: batch_inv_def)
      then have "degree ind i = 0" using 1(2) unfolding batch_inv_def by blast
      then have "filter (\<lambda>d. d \<notin> set D) (dep_list ns i) = []" using 1(2) by (simp add: batch_inv_def)
      then show ?thesis by (auto simp: filter_empty_conv)
    qed
    have "set (dep_list ns i) \<subseteq> set D \<union> set (concat (take k (q # rest)))" if "k < length (q # rest)" "i \<in> set ((q # rest) ! k)" for k i
    proof (cases k)
      case 0
      with that ready show ?thesis by simp
    next
      case (Suc k')
      with that IH have "set (dep_list ns i) \<subseteq> set (D @ q) \<union> set (concat (take k' rest))" by auto
      with Suc show ?thesis by auto
    qed
    with IH show ?thesis unfolding bs by auto
  qed
qed

section \<open>Properties\<close>

definition depends :: "task_node list \<Rightarrow> (string \<times> string) set" where
  "depends ns = {(d, tk_id n) |d n. n \<in> set ns \<and> d \<in> set (tk_deps n)}"

lemma depends_dep_list: "(d, i) \<in> depends ns \<longleftrightarrow> d \<in> set (dep_list ns i)"
  by (auto simp: depends_def dep_list_def)

lemma finite_depends: "finite (depends ns)"
proof (rule finite_subset)
  show "depends ns \<subseteq> (\<Union>n \<in> set ns. set (tk_deps n)) \<times> tk_id ` set ns" by (auto simp: depends_def)
qed simp

lemma dep_list_of: "distinct (map tk_id ns) \<Longrightarrow> n \<in> set ns \<Longrightarrow> dep_list ns (tk_id n) = tk_deps n"
proof (induction ns)
  case (Cons m ns)
  have "filter (\<lambda>k. tk_id k = i) ns = []" if "i \<notin> tk_id ` set ns" for i using that by (auto simp: filter_empty_conv)
  with Cons show ?case by (auto simp: dep_list_def)
qed simp

text \<open>The run of the loop on a graph that was built, as lists of identifiers.\<close>

lemma batches_of_graph:
  assumes "build_graph g = Inr G"
  obtains ids where "ids = batch_ids (dg_children G) (dg_indegree G) (map fst (filter (\<lambda>(_, n). n = 0) (dg_indegree G)))"
    "distinct (concat ids)" "set (concat ids) \<subseteq> tk_id ` set (tg_nodes g)"
    "\<And>k i d. k < length ids \<Longrightarrow> i \<in> set (ids ! k) \<Longrightarrow> (d, i) \<in> depends (tg_nodes g) \<Longrightarrow> d \<in> set (concat (take k ids))"
    "\<And>i. i \<in> tk_id ` set (tg_nodes g) \<Longrightarrow> i \<notin> set (concat ids) \<Longrightarrow> \<exists>d. (d, i) \<in> depends (tg_nodes g) \<and> d \<notin> set (concat ids)"
    "map_result (map_result (lookup_node G)) ids = Inr (map (map (\<lambda>i. the (map_of (dg_nodes G) i))) ids)"
proof -
  let ?ns = "tg_nodes g" and ?q = "map fst (filter (\<lambda>(_, n). n = 0) (dg_indegree G))"
  define ids where "ids = batch_ids (dg_children G) (dg_indegree G) ?q"
  note b = build_graph_spec [OF assms]
  have dist: "is_dict (dg_indegree G)" using b(1,6) by (simp add: is_dict_def)
  have mem: "i \<in> set ?q \<longleftrightarrow> i \<in> tk_id ` set ?ns \<and> degree (dg_indegree G) i = 0" for i
  proof -
    have "i \<in> set ?q \<longleftrightarrow> map_of (dg_indegree G) i = Some 0"
      using map_of_eq_Some_iff_dict [OF dist] by (force simp: image_iff)
    moreover have "map_of (dg_indegree G) i = None \<longleftrightarrow> i \<notin> tk_id ` set ?ns"
      by (metis (no_types) map_of_eq_None_iff b(6) image_set)
    ultimately show ?thesis by (auto simp: degree_def split: option.splits)
  qed
  have "distinct ?q" using dist by (simp add: is_dict_def distinct_map_filter)
  then have inv: "batch_inv ?ns [] ?q (dg_indegree G)"
    unfolding batch_inv_def append_Nil using mem b(5) by (auto simp: subset_iff)
  from batch_ids_spec [OF inv b(4)] obtain ind' where ind': "batch_inv ?ns (concat ids) [] ind'"
    "\<forall>k < length ids. \<forall>i \<in> set (ids ! k). set (dep_list ?ns i) \<subseteq> set (concat (take k ids))"
    by (auto simp: ids_def)
  have sub: "set (concat ids) \<subseteq> tk_id ` set ?ns" using ind'(1) by (simp add: batch_inv_def)
  show ?thesis
  proof (rule that [OF ids_def])
    show "distinct (concat ids)" using ind'(1) by (simp add: batch_inv_def)
    show "d \<in> set (concat (take k ids))" if "k < length ids" "i \<in> set (ids ! k)" "(d, i) \<in> depends ?ns" for k i d
      using ind'(2) that(1,2) that(3) [unfolded depends_dep_list] by blast
    show "\<exists>d. (d, i) \<in> depends ?ns \<and> d \<notin> set (concat ids)" if "i \<in> tk_id ` set ?ns" "i \<notin> set (concat ids)" for i
    proof -
      have "degree ind' i \<noteq> 0" using ind'(1) that by (auto simp: batch_inv_def)
      then have "filter (\<lambda>d. d \<notin> set (concat ids)) (dep_list ?ns i) \<noteq> []" using ind'(1) by (auto simp: batch_inv_def)
      then show ?thesis by (auto simp: filter_empty_conv depends_dep_list)
    qed
    have look: "lookup_node G i = Inr (the (map_of (dg_nodes G) i))" if "i \<in> set (concat ids)" for i
    proof -
      have "map_of (dg_nodes G) i \<noteq> None" using sub that b(2) by (auto simp: map_of_eq_None_iff image_image)
      then show ?thesis by (auto simp: lookup_node_def)
    qed
    show "map_result (map_result (lookup_node G)) ids = Inr (map (map (\<lambda>i. the (map_of (dg_nodes G) i))) ids)"
      by (intro map_result_all_Inr look) auto
  qed (rule sub)
qed

lemma in_concat_take: "d \<in> set (concat (take k xs)) \<Longrightarrow> \<exists>j < k. j < length xs \<and> d \<in> set (xs ! j)"
proof -
  assume "d \<in> set (concat (take k xs))"
  then obtain ys where "ys \<in> set (take k xs)" "d \<in> set ys" by auto
  then obtain j where "j < length (take k xs)" "ys = take k xs ! j" by (metis in_set_conv_nth)
  with \<open>d \<in> set ys\<close> show ?thesis by auto
qed

lemma batches_of_built:
  assumes "build_graph g = Inr G" "topological_batches G = Inr bs"
  shows "mset (concat bs) = mset (tg_nodes g) \<and>
    (\<forall>k < length bs. \<forall>n \<in> set (bs ! k). \<forall>d \<in> set (tk_deps n). \<exists>j < k. d \<in> tk_id ` set (bs ! j))"
proof -
  let ?ns = "tg_nodes g" and ?f = "\<lambda>i. the (map_of (dg_nodes G) i)"
  note b = build_graph_spec [OF assms(1)]
  obtain ids where ids: "ids = batch_ids (dg_children G) (dg_indegree G) (map fst (filter (\<lambda>(_, n). n = 0) (dg_indegree G)))"
    "distinct (concat ids)" "set (concat ids) \<subseteq> tk_id ` set ?ns"
    "\<And>k i d. k < length ids \<Longrightarrow> i \<in> set (ids ! k) \<Longrightarrow> (d, i) \<in> depends ?ns \<Longrightarrow> d \<in> set (concat (take k ids))"
    "map_result (map_result (lookup_node G)) ids = Inr (map (map ?f) ids)"
    using batches_of_graph [OF assms(1)] by metis
  from assms(2) have bs: "bs = map (map ?f) ids" and len: "length (concat ids) = length (dg_nodes G)"
    using ids(5) unfolding topological_batches_def ids(1) [symmetric] Let_def by (auto split: if_splits)
  have node: "?f (tk_id n) = n" if "n \<in> set ?ns" for n
    using that b(1,2) by (simp add: map_of_eq_Some_iff_dict is_dict_def image_iff comp_def)
  have set_ids: "set (concat ids) = tk_id ` set ?ns"
    using ids(2,3) len b(1,2) by (intro card_subset_eq) (simp_all add: distinct_card distinct_map card_image del: set_concat)
  then have "mset (concat ids) = mset (map tk_id ?ns)"
    using set_eq_iff_mset_eq_distinct [OF ids(2) b(1)] by simp
  then have "mset (map ?f (concat ids)) = mset (map ?f (map tk_id ?ns))" by (metis mset_map)
  also have "map ?f (map tk_id ?ns) = ?ns" using node by (simp add: map_idI)
  finally have perm: "mset (concat bs) = mset ?ns" by (simp add: bs map_concat)
  have "\<exists>j < k. d \<in> tk_id ` set (bs ! j)" if k: "k < length bs" "n \<in> set (bs ! k)" "d \<in> set (tk_deps n)" for k n d
  proof -
    obtain i where i: "i \<in> set (ids ! k)" "n = ?f i" using k(1,2) by (auto simp: bs)
    then have "i \<in> set (concat ids)" using k(1) by (auto simp: bs)
    then have "i \<in> tk_id ` set ?ns" using set_ids by blast
    then obtain m where m: "m \<in> set ?ns" "i = tk_id m" by blast
    with i(2) node have "m = n" by simp
    with m k(3) have "(d, i) \<in> depends ?ns" by (auto simp: depends_def)
    then have "d \<in> set (concat (take k ids))" using ids(4) [of k i d] i(1) k(1) by (simp add: bs)
    then obtain j where j: "j < k" "j < length ids" "d \<in> set (ids ! j)" using in_concat_take by metis
    then have "d \<in> tk_id ` set ?ns" using set_ids by auto
    then have "tk_id (?f d) = d" using node by auto
    then show ?thesis using j by (intro exI [of _ j]) (auto simp: bs image_iff intro!: bexI [of _ d])
  qed
  with perm show ?thesis by blast
qed

text \<open>
  C30. The batches run every task once and after its dependencies: when \<^verbatim>\<open>topological_batches\<close> of a graph
  returns, the batches together are a permutation of the nodes, and every
  dependency of a node in a batch is a node of an earlier batch.
\<close>

theorem batches_respect_dependencies:
  assumes "build_graph g = Inr G" "topological_batches G = Inr bs"
  shows "mset (concat bs) = mset (tg_nodes g) \<and>
    (\<forall>k < length bs. \<forall>n \<in> set (bs ! k). \<forall>d \<in> set (tk_deps n). \<exists>j < k. d \<in> tk_id ` set (bs ! j))"
  using batches_of_built [OF assms] .

text \<open>
  C31. Cycles are found exactly: for a graph that was built, \<^verbatim>\<open>topological_batches\<close> returns when the
  dependencies are acyclic and raises the error for cycles when they are not.
\<close>

theorem batches_iff_acyclic:
  assumes "build_graph g = Inr G"
  shows "if acyclic (depends (tg_nodes g)) then \<exists>bs. topological_batches G = Inr bs
    else topological_batches G = Inl (ValidationError ''task graph contains cycles'')"
proof -
  let ?ns = "tg_nodes g"
  note b = build_graph_spec [OF assms(1)]
  obtain ids where ids: "ids = batch_ids (dg_children G) (dg_indegree G) (map fst (filter (\<lambda>(_, n). n = 0) (dg_indegree G)))"
    "distinct (concat ids)" "set (concat ids) \<subseteq> tk_id ` set ?ns"
    "\<And>k i d. k < length ids \<Longrightarrow> i \<in> set (ids ! k) \<Longrightarrow> (d, i) \<in> depends ?ns \<Longrightarrow> d \<in> set (concat (take k ids))"
    "\<And>i. i \<in> tk_id ` set ?ns \<Longrightarrow> i \<notin> set (concat ids) \<Longrightarrow> \<exists>d. (d, i) \<in> depends ?ns \<and> d \<notin> set (concat ids)"
    "map_result (map_result (lookup_node G)) ids = Inr (map (map (\<lambda>i. the (map_of (dg_nodes G) i))) ids)"
    using batches_of_graph [OF assms(1)] by metis
  have "card (tk_id ` set ?ns) = length (dg_nodes G)"
    using b(1,2) by (simp add: distinct_map card_image distinct_card)
  then have all: "length (concat ids) = length (dg_nodes G) \<longleftrightarrow> set (concat ids) = tk_id ` set ?ns"
    using ids(2,3) by (metis card_subset_eq distinct_card finite_imageI finite_set)
  have res: "topological_batches G = (if set (concat ids) = tk_id ` set ?ns then Inr (map (map (\<lambda>i. the (map_of (dg_nodes G) i))) ids)
      else Inl (ValidationError ''task graph contains cycles''))"
    unfolding topological_batches_def ids(1) [symmetric] Let_def ids(6) using all by simp
  have "acyclic (depends ?ns) \<longleftrightarrow> set (concat ids) = tk_id ` set ?ns"
  proof
    assume "acyclic (depends ?ns)"
    then have wf: "wf (depends ?ns)" by (rule finite_acyclic_wf [OF finite_depends])
    show "set (concat ids) = tk_id ` set ?ns"
    proof (rule ccontr)
      assume "\<not> ?thesis"
      then obtain i where "i \<in> tk_id ` set ?ns - set (concat ids)" using ids(3) by blast
      from wfE_min [OF wf this] obtain z where z: "z \<in> tk_id ` set ?ns - set (concat ids)"
        "\<And>y. (y, z) \<in> depends ?ns \<Longrightarrow> y \<notin> tk_id ` set ?ns - set (concat ids)" by blast
      from ids(5) [of z] z(1) obtain d where d: "(d, z) \<in> depends ?ns" "d \<notin> set (concat ids)" by blast
      then have "d \<in> tk_id ` set ?ns" using b(3) by (auto simp: depends_def)
      with z(2) [OF d(1)] d(2) show False by blast
    qed
  next
    assume all: "set (concat ids) = tk_id ` set ?ns"
    define lev where "lev i = (LEAST k. k < length ids \<and> i \<in> set (ids ! k))" for i
    have "lev d < lev i" if di: "(d, i) \<in> depends ?ns" for d i
    proof -
      have "i \<in> set (concat ids)" using di all by (auto simp: depends_def)
      then obtain xs where "xs \<in> set ids" "i \<in> set xs" by auto
      then have "\<exists>k. k < length ids \<and> i \<in> set (ids ! k)" by (metis in_set_conv_nth)
      then have "lev i < length ids \<and> i \<in> set (ids ! lev i)" unfolding lev_def by (rule LeastI_ex)
      then have "d \<in> set (concat (take (lev i) ids))" using ids(4) di by blast
      then obtain j where "j < lev i" "j < length ids" "d \<in> set (ids ! j)" using in_concat_take by metis
      moreover from this have "lev d \<le> j" unfolding lev_def by (intro Least_le) simp
      ultimately show ?thesis by linarith
    qed
    then have "depends ?ns \<subseteq> measure lev" by auto
    then show "acyclic (depends ?ns)" by (meson wf_acyclic wf_measure wf_subset)
  qed
  with res show ?thesis by simp
qed


definition diamond :: task_graph where
  "diamond = \<lparr>tg_id = ''g'', tg_nodes = map (\<lambda>(i, ds). \<lparr>tk_id = i, tk_agent = i, tk_capability = None, tk_deps = ds, tk_retries = 0,
     tk_approval = False, tk_payload = []\<rparr>) [(''d'', [''b'', ''c'']), (''b'', [''a'']), (''c'', [''a'', ''a'']), (''a'', [])]\<rparr>"

lemma diamond_batches:
  "case build_graph diamond of Inl e \<Rightarrow> False
   | Inr G \<Rightarrow> map_sum id (map (map tk_id)) (topological_batches G) = Inr [[''a''], [''b'', ''c''], [''d'']]"
  by code_simp

lemma diamond_runs: "\<exists>G bs. build_graph diamond = Inr G \<and> topological_batches G = Inr bs"
proof (cases "build_graph diamond")
  case (Inr G)
  with diamond_batches have "map_sum id (map (map tk_id)) (topological_batches G) = Inr [[''a''], [''b'', ''c''], [''d'']]" by simp
  with Inr show ?thesis by (cases "topological_batches G") auto
qed (use diamond_batches in simp)

theorem batches_respect_dependencies_witness:
  "\<exists>G bs. build_graph diamond = Inr G \<and> topological_batches G = Inr bs \<and> mset (concat bs) = mset (tg_nodes diamond)"
  using diamond_runs batches_respect_dependencies [of diamond] by blast

theorem batches_iff_acyclic_witness:
  "\<exists>G. build_graph diamond = Inr G \<and> (if acyclic (depends (tg_nodes diamond)) then \<exists>bs. topological_batches G = Inr bs
     else topological_batches G = Inl (ValidationError ''task graph contains cycles''))"
  using diamond_runs batches_iff_acyclic [of diamond] by blast

end
