(* ===== verification/Context_Store.thy ===== *)
theory Context_Store
  imports Cloud_Queue
begin

text \<open>
  The shared context of collaborative workflows (\<^verbatim>\<open>agentfabric/collaboration/context_store.py\<close> and
  \<^verbatim>\<open>shared_memory.py\<close>): records kept in memory and, when the store has a persistence backend, in the
  document store, with checkpoints that can be restored.
\<close>

section \<open>Context records\<close>

record context_record =
  cx_workflow :: string
  cx_conversation :: json
  cx_tasks :: json
  cx_artifacts :: json
  cx_outputs :: json
  cx_sanitized :: json
  cx_veil_refs :: "json list"
  cx_approvals :: json
  cx_visible :: json
  cx_summaries :: "json list"
  cx_checkpoints :: json
  cx_updated_at :: datetime

definition empty_dict :: json where
  "empty_dict = JObj []"

definition new_record :: "string \<Rightarrow> datetime \<Rightarrow> context_record" where
  "new_record i t = \<lparr>cx_workflow = i, cx_conversation = empty_dict, cx_tasks = empty_dict, cx_artifacts = empty_dict,
     cx_outputs = empty_dict, cx_sanitized = empty_dict, cx_veil_refs = [], cx_approvals = empty_dict, cx_visible = empty_dict,
     cx_summaries = [], cx_checkpoints = empty_dict, cx_updated_at = t\<rparr>"

definition context_snapshot :: "context_record \<Rightarrow> obj" where
  "context_snapshot c = [
     (''workflow_id'', JStr (cx_workflow c)),
     (''conversation_state'', cx_conversation c),
     (''task_state'', cx_tasks c),
     (''artifacts'', cx_artifacts c),
     (''structured_outputs'', cx_outputs c),
     (''sanitized_payloads'', cx_sanitized c),
     (''veil_token_refs'', JList (cx_veil_refs c)),
     (''approval_state'', cx_approvals c),
     (''agent_visible_context'', cx_visible c),
     (''summaries'', JList (cx_summaries c)),
     (''checkpoints'', cx_checkpoints c),
     (''updated_at'', JStr (isoformat (cx_updated_at c)))]"

text \<open>\<^verbatim>\<open>value[key] = item\<close> and \<^verbatim>\<open>value.update(items)\<close> on a JSON value\<close>

fun set_item :: "json \<Rightarrow> string \<Rightarrow> json \<Rightarrow> json result" where
  "set_item (JObj d) k v = Inr (JObj (AList.update k v d))"
| "set_item _ k v = Inl (TypeError ''object does not support item assignment'')"

fun update_items :: "json \<Rightarrow> obj \<Rightarrow> json result" where
  "update_items (JObj d) kvs = Inr (JObj (foldl (\<lambda>d (k, v). AList.update k v d) d kvs))"
| "update_items _ kvs = Inl (AttributeError ''object has no attribute update'')"

definition raw_key :: "string \<Rightarrow> bool" where
  "raw_key k \<longleftrightarrow> (let l = lower k in List.member [''raw'', ''secret'', ''password'', ''token''] l \<or> prefix ''raw_'' l)"

primrec has_raw :: "json \<Rightarrow> bool" where
  "has_raw JNull = False"
| "has_raw (JBool b) = False"
| "has_raw (JInt i) = False"
| "has_raw (JStr s) = False"
| "has_raw (JList xs) = list_ex id (map has_raw xs)"
| "has_raw (JObj d) = list_ex (\<lambda>(k, b). raw_key k \<or> b) (map (map_prod id has_raw) d)"

definition reject_raw_sensitive :: "json \<Rightarrow> ('s, unit) op" where
  "reject_raw_sensitive v = guard (\<not> has_raw v) (ValueError ''raw sensitive values must remain behind VEIL/Aegis references'')"

section \<open>The store\<close>

record pworld = cworld +
  w_contexts :: "context_record dict"
  w_contexts_durable :: bool

definition record_from_snapshot :: "obj \<Rightarrow> ('z world_scheme, context_record) op" where
  "record_from_snapshot d =
     bind (lift (req_str d ''workflow_id'')) (\<lambda>i.
     bind utc_now (\<lambda>t.
     bind (lift (py_iter (get_or d ''veil_token_refs'' (JList [])))) (\<lambda>refs.
     bind (lift (py_iter (get_or d ''summaries'' (JList [])))) (\<lambda>sums.
     ok \<lparr>cx_workflow = i, cx_conversation = get_or d ''conversation_state'' empty_dict, cx_tasks = get_or d ''task_state'' empty_dict,
         cx_artifacts = get_or d ''artifacts'' empty_dict, cx_outputs = get_or d ''structured_outputs'' empty_dict,
         cx_sanitized = get_or d ''sanitized_payloads'' empty_dict, cx_veil_refs = refs,
         cx_approvals = get_or d ''approval_state'' empty_dict, cx_visible = get_or d ''agent_visible_context'' empty_dict,
         cx_summaries = sums, cx_checkpoints = get_or d ''checkpoints'' empty_dict, cx_updated_at = t\<rparr>))))"

definition set_record :: "string \<Rightarrow> context_record \<Rightarrow> ('z pworld_scheme, unit) op" where
  "set_record i c = modify (\<lambda>w. w\<lparr>w_contexts := AList.update i c (w_contexts w)\<rparr>)"

definition context_open :: "('z pworld_scheme, unit) op" where
  "context_open =
     bind (modify (\<lambda>w. w\<lparr>w_contexts := []\<rparr>)) (\<lambda>_.
     bind (gets w_contexts_durable) (\<lambda>durable.
     if \<not> durable then ok ()
     else
       bind (on_store mem_initialize) (\<lambda>_.
       bind (on_store (mem_list ''shared_context'')) (\<lambda>items.
       forM (\<lambda>d. bind (record_from_snapshot d) (\<lambda>c. set_record (cx_workflow c) c)) items))))"

definition get_or_create :: "string \<Rightarrow> ('z pworld_scheme, context_record) op" where
  "get_or_create i =
     bind (gets w_contexts) (\<lambda>cs. case map_of cs i of
       Some c \<Rightarrow> ok c
     | None \<Rightarrow> bind utc_now (\<lambda>t. bind (set_record i (new_record i t)) (\<lambda>_. ok (new_record i t))))"

definition persist :: "context_record \<Rightarrow> ('z pworld_scheme, unit) op" where
  "persist c =
     bind (gets w_contexts_durable) (\<lambda>durable.
     if durable then on_store (mem_put ''shared_context'' (cx_workflow c) (context_snapshot c)) else ok ())"

text \<open>
  The shape of every update: find or create the record, change it, stamp it, write it through.
\<close>

definition change_record :: "string \<Rightarrow> (context_record \<Rightarrow> context_record result) \<Rightarrow> ('z pworld_scheme, context_record) op" where
  "change_record i f =
     bind (get_or_create i) (\<lambda>c.
     bind (lift (f c)) (\<lambda>c'.
     bind utc_now (\<lambda>t.
     let c'' = c'\<lparr>cx_updated_at := t\<rparr> in
     bind (set_record i c'') (\<lambda>_. bind (persist c'') (\<lambda>_. ok c'')))))"

definition put_into :: "json result \<Rightarrow> (json \<Rightarrow> context_record) \<Rightarrow> context_record result" where
  "put_into r f = (case r of Inl e \<Rightarrow> Inl e | Inr v \<Rightarrow> Inr (f v))"

definition update_task_state :: "string \<Rightarrow> string \<Rightarrow> obj \<Rightarrow> ('z pworld_scheme, unit) op" where
  "update_task_state i node v =
     bind (reject_raw_sensitive (JObj v)) (\<lambda>_.
     bind (change_record i (\<lambda>c. put_into (set_item (cx_tasks c) node (JObj v)) (\<lambda>x. c\<lparr>cx_tasks := x\<rparr>))) (\<lambda>_. ok ()))"

definition put_artifact :: "string \<Rightarrow> string \<Rightarrow> json \<Rightarrow> ('z pworld_scheme, unit) op" where
  "put_artifact i k v =
     bind (reject_raw_sensitive (JObj [(k, v)])) (\<lambda>_.
     bind (change_record i (\<lambda>c. put_into (set_item (cx_artifacts c) k v) (\<lambda>x. c\<lparr>cx_artifacts := x\<rparr>))) (\<lambda>_. ok ()))"

definition add_summary :: "string \<Rightarrow> string \<Rightarrow> ('z pworld_scheme, unit) op" where
  "add_summary i s = bind (change_record i (\<lambda>c. Inr (c\<lparr>cx_summaries := cx_summaries c @ [JStr s]\<rparr>))) (\<lambda>_. ok ())"

definition put_sanitized_payload :: "string \<Rightarrow> string \<Rightarrow> obj \<Rightarrow> ('z pworld_scheme, unit) op" where
  "put_sanitized_payload i k v =
     bind (reject_raw_sensitive (JObj v)) (\<lambda>_.
     bind (change_record i (\<lambda>c. put_into (set_item (cx_sanitized c) k (JObj v)) (\<lambda>x. c\<lparr>cx_sanitized := x\<rparr>))) (\<lambda>_. ok ()))"

definition put_structured_output :: "string \<Rightarrow> string \<Rightarrow> obj \<Rightarrow> ('z pworld_scheme, unit) op" where
  "put_structured_output i k v =
     bind (reject_raw_sensitive (JObj v)) (\<lambda>_.
     bind (change_record i (\<lambda>c. put_into (set_item (cx_outputs c) k (JObj v)) (\<lambda>x. c\<lparr>cx_outputs := x\<rparr>))) (\<lambda>_. ok ()))"

definition add_veil_token_ref :: "string \<Rightarrow> string \<Rightarrow> ('z pworld_scheme, unit) op" where
  "add_veil_token_ref i r = bind (change_record i (\<lambda>c. Inr (c\<lparr>cx_veil_refs := cx_veil_refs c @ [JStr r]\<rparr>))) (\<lambda>_. ok ())"

definition update_approval_state :: "string \<Rightarrow> obj \<Rightarrow> ('z pworld_scheme, unit) op" where
  "update_approval_state i vs =
     bind (reject_raw_sensitive (JObj vs)) (\<lambda>_.
     bind (change_record i (\<lambda>c. put_into (update_items (cx_approvals c) vs) (\<lambda>x. c\<lparr>cx_approvals := x\<rparr>))) (\<lambda>_. ok ()))"

definition checkpoint :: "string \<Rightarrow> string \<Rightarrow> ('z pworld_scheme, obj) op" where
  "checkpoint i k =
     bind (get_or_create i) (\<lambda>c.
     let snap = context_snapshot c in
     bind (change_record i (\<lambda>c. put_into (set_item (cx_checkpoints c) k (JObj snap)) (\<lambda>x. c\<lparr>cx_checkpoints := x\<rparr>))) (\<lambda>_.
     bind (gets w_contexts_durable) (\<lambda>durable.
     bind (if durable then on_store (mem_put ''checkpoints'' (i @ '':'' @ k) snap) else ok ()) (\<lambda>_.
     ok snap))))"

text \<open>\<^verbatim>\<open>record.checkpoints[checkpoint_id]\<close>: the snapshots are objects.\<close>

definition find_checkpoint :: "json \<Rightarrow> string \<Rightarrow> obj result" where
  "find_checkpoint v k = (case v of
     JObj d \<Rightarrow> (case map_of d k of None \<Rightarrow> Inl (KeyError k) | Some (JObj s) \<Rightarrow> Inr s
       | Some _ \<Rightarrow> Inl (TypeError ''snapshot is not an object''))
   | _ \<Rightarrow> Inl (TypeError ''indices must be integers''))"

text \<open>
  The record after a restore. The snapshots that \<^verbatim>\<open>checkpoint\<close> writes have every field, so none of the
  lookups fails for them.
\<close>

definition restored :: "obj \<Rightarrow> context_record \<Rightarrow> context_record result" where
  "restored s c =
     (case req s ''conversation_state'' of Inl e \<Rightarrow> Inl e | Inr cv \<Rightarrow>
     (case req s ''task_state'' of Inl e \<Rightarrow> Inl e | Inr ts \<Rightarrow>
     (case req s ''artifacts'' of Inl e \<Rightarrow> Inl e | Inr af \<Rightarrow>
     (case py_iter (get_or s ''veil_token_refs'' (JList [])) of Inl e \<Rightarrow> Inl e | Inr refs \<Rightarrow>
     (case req s ''summaries'' of Inl e \<Rightarrow> Inl e | Inr sv \<Rightarrow>
     (case py_iter sv of Inl e \<Rightarrow> Inl e | Inr sums \<Rightarrow>
       Inr (c\<lparr>cx_conversation := cv, cx_tasks := ts, cx_artifacts := af, cx_outputs := get_or s ''structured_outputs'' empty_dict,
         cx_sanitized := get_or s ''sanitized_payloads'' empty_dict, cx_veil_refs := refs,
         cx_approvals := get_or s ''approval_state'' empty_dict, cx_visible := get_or s ''agent_visible_context'' empty_dict,
         cx_summaries := sums\<rparr>)))))))"

definition restore :: "string \<Rightarrow> string \<Rightarrow> ('z pworld_scheme, obj) op" where
  "restore i k =
     bind (change_record i (\<lambda>c. case find_checkpoint (cx_checkpoints c) k of Inl e \<Rightarrow> Inl e | Inr s \<Rightarrow> restored s c)) (\<lambda>c.
     ok (context_snapshot c))"

section \<open>Shared memory\<close>

definition write_artifact :: "string \<Rightarrow> string \<Rightarrow> string \<Rightarrow> json \<Rightarrow> ('z pworld_scheme, unit) op" where
  "write_artifact i agent k v = put_artifact i (agent @ '':'' @ k) v"

definition read_artifacts :: "string \<Rightarrow> ('z pworld_scheme, obj) op" where
  "read_artifacts i = bind (get_or_create i) (\<lambda>c. lift (py_dict (cx_artifacts c)))"

section \<open>The audit log\<close>

lemma audit_contexts [audit_steps]:
  "audit.steps (modify (\<lambda>w. w\<lparr>w_contexts := f w\<rparr>))"
  by (auto simp: audit.steps_def modify_apply intro!: audit_local)

lemma audit_set_record [audit_steps]: "audit.steps (set_record i c)"
  unfolding set_record_def by (rule audit_contexts)

lemma audit_get_or_create [audit_steps]: "audit.steps (get_or_create i)"
  unfolding get_or_create_def by (intro audit.steps_intros audit_steps)

lemma audit_persist [audit_steps]: "audit.steps (persist c)"
  unfolding persist_def by (intro audit.steps_intros audit_steps; simp)

lemma audit_change_record [audit_steps]: "audit.steps (change_record i f)"
  unfolding change_record_def Let_def by (intro audit.steps_intros audit_steps)

lemma audit_reject [audit_steps]: "audit.steps (reject_raw_sensitive v)"
  unfolding reject_raw_sensitive_def by (rule audit.steps_guard)

lemma audit_context_ops [audit_steps]:
  "audit.steps (update_task_state i n v)" "audit.steps (put_artifact i k j)" "audit.steps (add_summary i x)"
  "audit.steps (put_sanitized_payload i k v)" "audit.steps (put_structured_output i k v)" "audit.steps (add_veil_token_ref i x)"
  "audit.steps (update_approval_state i v)" "audit.steps (checkpoint i k)" "audit.steps (restore i k)"
  unfolding update_task_state_def put_artifact_def add_summary_def put_sanitized_payload_def put_structured_output_def
    add_veil_token_ref_def update_approval_state_def checkpoint_def restore_def Let_def
  by (intro audit.steps_intros audit_steps; simp)+

section \<open>What the operations do\<close>

definition ctx :: "string \<Rightarrow> 'z pworld_scheme \<Rightarrow> context_record" where
  "ctx i w = (case map_of (w_contexts w) i of Some c \<Rightarrow> c | None \<Rightarrow> new_record i (now w))"

lemma get_or_create_apply:
  "\<exists>w'. get_or_create i w = (Inr (ctx i w), w') \<and> map_of (w_contexts w') i = Some (ctx i w) \<and>
     (\<forall>j. j \<noteq> i \<longrightarrow> map_of (w_contexts w') j = map_of (w_contexts w) j)"
  by (auto simp: get_or_create_def op_simps set_record_def ctx_def tick_def split: option.split)

lemma persist_contexts: "\<exists>w'. persist c w = (Inr (), w') \<and> w_contexts w' = w_contexts w"
  by (auto simp: persist_def op_simps put_doc_def)

lemma change_record_Inr:
  assumes "f (ctx i w) = Inr c"
  shows "\<exists>t w'. change_record i f w = (Inr (c\<lparr>cx_updated_at := t\<rparr>), w') \<and> map_of (w_contexts w') i = Some (c\<lparr>cx_updated_at := t\<rparr>) \<and>
    (\<forall>j. j \<noteq> i \<longrightarrow> map_of (w_contexts w') j = map_of (w_contexts w) j)"
proof -
  obtain w1 where w1: "get_or_create i w = (Inr (ctx i w), w1)" "\<forall>j. j \<noteq> i \<longrightarrow> map_of (w_contexts w1) j = map_of (w_contexts w) j"
    using get_or_create_apply by blast
  let ?c = "c\<lparr>cx_updated_at := now w1\<rparr>" and ?w = "(tick w1)\<lparr>w_contexts := AList.update i (c\<lparr>cx_updated_at := now w1\<rparr>) (w_contexts (tick w1))\<rparr>"
  obtain w2 where w2: "persist ?c ?w = (Inr (), w2)" "w_contexts w2 = w_contexts ?w" using persist_contexts by blast
  have "change_record i f w = (Inr ?c, w2)"
    using w1(1) w2(1) assms by (simp add: change_record_def bind_apply lift_apply utc_now_apply Let_def set_record_def modify_apply ok_apply)
  with w1(2) w2(2) show ?thesis by (auto simp: tick_def)
qed


section \<open>Checkpoints are kept\<close>

definition has_checkpoint :: "string \<Rightarrow> string \<Rightarrow> obj \<Rightarrow> 'z pworld_scheme \<Rightarrow> bool" where
  "has_checkpoint i k s w \<longleftrightarrow> (\<exists>c d. map_of (w_contexts w) i = Some c \<and> cx_checkpoints c = JObj d \<and> map_of d k = Some (JObj s))"










section \<open>Properties\<close>

text \<open>The requests a client may make of the store between a checkpoint and its restoration.\<close>

datatype context_cmd =
    UpdateTaskState string string obj
  | PutArtifact string string json
  | AddSummary string string
  | PutSanitized string string obj
  | PutOutput string string obj
  | AddVeilRef string string
  | UpdateApproval string obj
  | Checkpoint string string
  | Restore string string

fun run_context_cmd :: "context_cmd \<Rightarrow> ('z pworld_scheme, unit) op" where
  "run_context_cmd (UpdateTaskState i n v) = update_task_state i n v"
| "run_context_cmd (PutArtifact i k v) = put_artifact i k v"
| "run_context_cmd (AddSummary i s) = add_summary i s"
| "run_context_cmd (PutSanitized i k v) = put_sanitized_payload i k v"
| "run_context_cmd (PutOutput i k v) = put_structured_output i k v"
| "run_context_cmd (AddVeilRef i r) = add_veil_token_ref i r"
| "run_context_cmd (UpdateApproval i v) = update_approval_state i v"
| "run_context_cmd (Checkpoint i k) = bind (checkpoint i k) (\<lambda>_. ok ())"
| "run_context_cmd (Restore i k) = bind (restore i k) (\<lambda>_. ok ())"

definition run_context :: "context_cmd list \<Rightarrow> ('z pworld_scheme, unit) op" where
  "run_context cmds = forM (\<lambda>x. catch (run_context_cmd x) (\<lambda>_. ok ())) cmds"


lemma audit_run_context [audit_steps]: "audit.steps (run_context cmds)"
proof -
  have "audit.steps (run_context_cmd x)" for x by (cases x) (auto intro!: audit.steps_intros audit_steps)
  then show ?thesis unfolding run_context_def by (intro audit.steps_intros)
qed

lemma checkpoint_Inr:
  assumes "cx_checkpoints (ctx i w) = JObj d"
  shows "\<exists>w'. checkpoint i k w = (Inr (context_snapshot (ctx i w)), w') \<and> has_checkpoint i k (context_snapshot (ctx i w)) w' \<and>
    cx_checkpoints (ctx i w') = JObj (AList.update k (JObj (context_snapshot (ctx i w))) d)"
proof -
  let ?s = "context_snapshot (ctx i w)"
  let ?f = "\<lambda>c. put_into (set_item (cx_checkpoints c) k (JObj ?s)) (\<lambda>x. c\<lparr>cx_checkpoints := x\<rparr>)"
  obtain w1 where w1: "get_or_create i w = (Inr (ctx i w), w1)" "map_of (w_contexts w1) i = Some (ctx i w)"
    using get_or_create_apply by blast
  then have "ctx i w1 = ctx i w" by (simp add: ctx_def)
  then have "?f (ctx i w1) = Inr ((ctx i w)\<lparr>cx_checkpoints := JObj (AList.update k (JObj ?s) d)\<rparr>)"
    by (simp add: assms put_into_def)
  from change_record_Inr [of ?f i w1, OF this] obtain t w2 where w2: "change_record i ?f w1 = (Inr ((ctx i w)\<lparr>cx_checkpoints :=
      JObj (AList.update k (JObj ?s) d), cx_updated_at := t\<rparr>), w2)" "map_of (w_contexts w2) i = Some ((ctx i w)\<lparr>cx_checkpoints :=
      JObj (AList.update k (JObj ?s) d), cx_updated_at := t\<rparr>)" by auto
  then have *: "has_checkpoint i k ?s w2" "cx_checkpoints (ctx i w2) = JObj (AList.update k (JObj ?s) d)"
    by (auto simp: has_checkpoint_def ctx_def)
  then have "has_checkpoint i k ?s (put_doc c l v w2)" "cx_checkpoints (ctx i (put_doc c l v w2)) = JObj (AList.update k (JObj ?s) d)"
    for c l v using w2(2) by (simp_all add: has_checkpoint_def put_doc_def ctx_def)
  with * w1(1) w2(1) show ?thesis
    by (auto simp: checkpoint_def Let_def bind_apply gets_apply on_put ok_apply)
qed


definition pworld0 :: pworld where
  "pworld0 = cworld.extend cworld0 (pworld.fields [] True)"



primrec nodes :: "json \<Rightarrow> nat" where
  "nodes JNull = 1"
| "nodes (JBool b) = 1"
| "nodes (JInt i) = 1"
| "nodes (JStr s) = 1"
| "nodes (JList xs) = 1 + sum_list (map nodes xs)"
| "nodes (JObj d) = 1 + sum_list (map snd (map (map_prod id nodes) d))"

lemma nodes_snapshot: "nodes (cx_checkpoints c) \<le> nodes (JObj (context_snapshot c))"
  by (simp add: context_snapshot_def)

lemma nodes_fresh: "k \<notin> fst ` set d \<Longrightarrow> nodes (JObj (AList.update k v d)) = nodes (JObj d) + nodes v"
  by (induction d) auto

lemma checkpoints_double:
  assumes "cx_checkpoints (ctx i w) = JObj d" "distinct ks" "set ks \<inter> fst ` set d = {}"
  shows "2 ^ length ks * nodes (JObj d) \<le> nodes (cx_checkpoints (ctx i (final (forM (\<lambda>k. bind (checkpoint i k) (\<lambda>_. ok ())) ks) w)))"
  using assms
proof (induction ks arbitrary: w d)
  case (Cons k ks)
  let ?s = "context_snapshot (ctx i w)" and ?d = "AList.update k (JObj (context_snapshot (ctx i w))) d"
  obtain w' where w': "checkpoint i k w = (Inr ?s, w')" "cx_checkpoints (ctx i w') = JObj ?d"
    using checkpoint_Inr [OF Cons.prems(1), of k] by blast
  have "nodes (JObj d) \<le> nodes (JObj ?s)" using nodes_snapshot [of "ctx i w"] Cons.prems(1) by simp
  moreover have "k \<notin> fst ` set d" using Cons.prems(3) by auto
  ultimately have "2 * nodes (JObj d) \<le> nodes (JObj ?d)" using nodes_fresh [of k d "JObj ?s"] by linarith
  then have "2 ^ length ks * (2 * nodes (JObj d)) \<le> 2 ^ length ks * nodes (JObj ?d)" by (rule mult_le_mono2)
  also have "\<dots> \<le> nodes (cx_checkpoints (ctx i (final (forM (\<lambda>k. bind (checkpoint i k) (\<lambda>_. ok ())) ks) w')))"
    using Cons.prems by (intro Cons.IH [OF w'(2)]) (auto simp: AList.dom_update)
  finally have "2 ^ length (k # ks) * nodes (JObj d) \<le>
      nodes (cx_checkpoints (ctx i (final (forM (\<lambda>k. bind (checkpoint i k) (\<lambda>_. ok ())) ks) w')))"
    by (simp only: list.size power_add power_Suc power_0 mult.assoc mult.left_commute add_0_right add_Suc_right)
  moreover have "forM (\<lambda>k. bind (checkpoint i k) (\<lambda>_. ok ())) (k # ks) w = forM (\<lambda>k. bind (checkpoint i k) (\<lambda>_. ok ())) ks w'"
    using w'(1) by (simp add: bind_assoc bind_Inr)
  ultimately show ?case by simp
qed (simp add: ok_apply)

text \<open>
  Checkpoints double in size: every snapshot contains all earlier ones with the snapshots inside
  them, so after \<open>n\<close> checkpoints under new names, as the workflow engine takes them after each batch, the
  checkpoints of a workflow have at least \<open>2\<^sup>n\<close> values.
\<close>

theorem checkpoints_grow_exponentially:
  assumes "cx_checkpoints (ctx i w) = JObj d" "distinct ks" "set ks \<inter> fst ` set d = {}"
    "w' = final (forM (\<lambda>k. bind (checkpoint i k) (\<lambda>_. ok ())) ks) w"
  shows "2 ^ length ks \<le> nodes (cx_checkpoints (ctx i w'))"
proof -
  have "1 \<le> nodes (JObj d)" by simp
  then have "2 ^ length ks * 1 \<le> 2 ^ length ks * nodes (JObj d)" by (rule mult_le_mono2)
  with checkpoints_double [OF assms(1-3)] assms(4) show ?thesis by simp
qed

theorem checkpoints_grow_exponentially_witness:
  "8 \<le> nodes (cx_checkpoints (ctx ''wf'' (final (forM (\<lambda>k. bind (checkpoint ''wf'' k) (\<lambda>_. ok ())) [''batch-1'', ''batch-2'', ''batch-3'']) pworld0)))"
proof -
  have "cx_checkpoints (ctx ''wf'' pworld0) = JObj []"
    by (simp add: ctx_def pworld0_def cworld.defs pworld.defs new_record_def empty_dict_def)
  from checkpoints_grow_exponentially [OF this _ _ HOL.refl, of "[''batch-1'', ''batch-2'', ''batch-3'']"] show ?thesis by simp
qed

end
