(* ===== verification/Mesh.thy ===== *)
theory Mesh
  imports Context_Store Server_Access
begin

text \<open>
  Agent identities (\<^verbatim>\<open>agentfabric/identity\<close>) and the agent mesh (\<^verbatim>\<open>agentfabric/mesh\<close>): the directory indexed
  by capability, and the message bus behind the VEIL boundary, with the endpoints of \<^verbatim>\<open>server/app.py\<close>
  that use them. Subscribers are named; what a subscriber does with a message is a parameter.
\<close>

section \<open>Identities\<close>

record agent_certificate =
  ce_agent :: string
  ce_fingerprint :: string
  ce_issuer :: string
  ce_issued_at :: datetime
  ce_expires_at :: "datetime option"

definition certificate_issue :: "string \<Rightarrow> string \<Rightarrow> string \<Rightarrow> datetime option \<Rightarrow> ('z world_scheme, agent_certificate) op" where
  "certificate_issue agent fp issuer expires =
     bind utc_now (\<lambda>t. ok \<lparr>ce_agent = agent, ce_fingerprint = fp, ce_issuer = issuer, ce_issued_at = t, ce_expires_at = expires\<rparr>)"

definition unexpired :: "agent_certificate \<Rightarrow> datetime \<Rightarrow> bool" where
  "unexpired c t = (case ce_expires_at c of None \<Rightarrow> True | Some e \<Rightarrow> t < e)"

definition is_valid_at :: "agent_certificate \<Rightarrow> datetime option \<Rightarrow> ('z world_scheme, bool) op" where
  "is_valid_at c whn = bind (case whn of Some t \<Rightarrow> ok t | None \<Rightarrow> utc_now) (\<lambda>t. ok (unexpired c t))"

definition certificate_as_dict :: "agent_certificate \<Rightarrow> obj" where
  "certificate_as_dict c = [
     (''agent_id'', JStr (ce_agent c)),
     (''signing_fingerprint'', JStr (ce_fingerprint c)),
     (''issuer'', JStr (ce_issuer c)),
     (''issued_at'', JStr (isoformat (ce_issued_at c))),
     (''expires_at'', time_json (ce_expires_at c))]"

definition agent_capabilities :: "string list" where
  "agent_capabilities = [''research'', ''coding'', ''analysis'', ''review'', ''retrieval'', ''planning'', ''execution'']"

text \<open>A manifest is the sorted tuple of its lower-case capabilities.\<close>

definition capability_manifest :: "string list \<Rightarrow> string list result" where
  "capability_manifest caps =
     (let normalized = sort (remdups (map lower caps)); invalid = filter (\<lambda>c. \<not> List.member agent_capabilities c) normalized in
      if invalid \<noteq> [] then Inl (ValueError (''unsupported capabilities: '' @ join '', '' invalid)) else Inr normalized)"

definition supports :: "string list \<Rightarrow> string \<Rightarrow> bool" where
  "supports manifest c = List.member manifest (lower c)"

definition manifest_as_dict :: "string list \<Rightarrow> obj" where
  "manifest_as_dict manifest = [(''capabilities'', strs manifest)]"

record agent_identity =
  id_agent :: string
  id_name :: string
  id_version :: string
  id_owner :: string
  id_organization :: string
  id_capabilities :: "string list"
  id_fingerprint :: string
  id_created_at :: datetime

definition identity_create ::
    "string \<Rightarrow> string \<Rightarrow> string \<Rightarrow> string \<Rightarrow> string \<Rightarrow> string list \<Rightarrow> string \<Rightarrow> ('z world_scheme, agent_identity) op" where
  "identity_create agent name version owner organization caps fp =
     bind (lift (capability_manifest caps)) (\<lambda>manifest.
     bind utc_now (\<lambda>t.
     ok \<lparr>id_agent = agent, id_name = name, id_version = version, id_owner = owner, id_organization = organization,
         id_capabilities = manifest, id_fingerprint = fp, id_created_at = t\<rparr>))"

definition identity_as_dict :: "agent_identity \<Rightarrow> obj" where
  "identity_as_dict i = [
     (''agent_id'', JStr (id_agent i)),
     (''name'', JStr (id_name i)),
     (''version'', JStr (id_version i)),
     (''owner'', JStr (id_owner i)),
     (''organization'', JStr (id_organization i)),
     (''capabilities'', strs (id_capabilities i)),
     (''signing_fingerprint'', JStr (id_fingerprint i)),
     (''created_at'', JStr (isoformat (id_created_at i)))]"

record agent_passport =
  pp_identity :: agent_identity
  pp_certificate :: agent_certificate
  pp_metadata :: "obj option"

text \<open>The clock is read only when identity and certificate agree.\<close>

definition passport_matches :: "agent_passport \<Rightarrow> bool" where
  "passport_matches p \<longleftrightarrow> id_agent (pp_identity p) = ce_agent (pp_certificate p) \<and>
     id_fingerprint (pp_identity p) = ce_fingerprint (pp_certificate p)"

definition passport_validate :: "agent_passport \<Rightarrow> ('z world_scheme, bool) op" where
  "passport_validate p = (if passport_matches p then is_valid_at (pp_certificate p) None else ok False)"

definition passport_as_dict :: "agent_passport \<Rightarrow> ('z world_scheme, obj) op" where
  "passport_as_dict p =
     bind (passport_validate p) (\<lambda>v.
     ok [(''identity'', JObj (identity_as_dict (pp_identity p))),
         (''certificate'', JObj (certificate_as_dict (pp_certificate p))),
         (''metadata'', JObj (case pp_metadata p of None \<Rightarrow> [] | Some d \<Rightarrow> d)),
         (''valid'', JBool v)])"

section \<open>The directory\<close>

record directory_entry =
  de_passport :: agent_passport
  de_health :: string
  de_last_seen :: datetime

abbreviation de_identity :: "directory_entry \<Rightarrow> agent_identity" where
  "de_identity e \<equiv> pp_identity (de_passport e)"

definition entry_as_dict :: "directory_entry \<Rightarrow> ('z world_scheme, obj) op" where
  "entry_as_dict e =
     bind (passport_as_dict (de_passport e)) (\<lambda>d.
     ok (d @ [(''health_status'', JStr (de_health e)), (''last_seen_at'', JStr (isoformat (de_last_seen e)))]))"

record mesh_message =
  ms_source :: string
  ms_destination :: "string option"
  ms_payload :: obj
  ms_type :: string
  ms_timestamp :: datetime
  ms_correlation :: string
  ms_task :: string
  ms_signature :: string
  ms_trust :: obj

record mworld = pworld +
  w_agents :: "directory_entry dict"
  w_capabilities :: "string list dict"
  w_messages :: "mesh_message list"
  w_subscribers :: "string list dict"

text \<open>\<^verbatim>\<open>index.get(key, [])\<close>\<close>

definition indexed :: "string list dict \<Rightarrow> string \<Rightarrow> string list" where
  "indexed idx c = (case map_of idx c of None \<Rightarrow> [] | Some ids \<Rightarrow> ids)"

definition index_add :: "string \<Rightarrow> string \<Rightarrow> string list dict \<Rightarrow> string list dict" where
  "index_add i c idx = (let ids = indexed idx c in
     AList.update c (if List.member ids i then ids else ids @ [i]) idx)"

definition register :: "agent_passport \<Rightarrow> string \<Rightarrow> ('z mworld_scheme, directory_entry) op" where
  "register p health =
     bind (passport_validate p) (\<lambda>v.
     if \<not> v then raise (ValueError ''agent passport is not valid'')
     else
       bind utc_now (\<lambda>t.
       let e = \<lparr>de_passport = p, de_health = health, de_last_seen = t\<rparr>; i = id_agent (pp_identity p) in
       bind (modify (\<lambda>w. w\<lparr>w_agents := AList.update i e (w_agents w)\<rparr>)) (\<lambda>_.
       bind (modify (\<lambda>w. w\<lparr>w_capabilities := fold (index_add i) (id_capabilities (pp_identity p)) (w_capabilities w)\<rparr>)) (\<lambda>_.
       ok e))))"

definition update_health :: "string \<Rightarrow> string \<Rightarrow> ('z mworld_scheme, unit) op" where
  "update_health i health =
     bind (gets w_agents) (\<lambda>es. case map_of es i of
       None \<Rightarrow> raise (KeyError i)
     | Some e \<Rightarrow> bind utc_now (\<lambda>t.
         modify (\<lambda>w. w\<lparr>w_agents := AList.update i (e\<lparr>de_health := health, de_last_seen := t\<rparr>) (w_agents w)\<rparr>)))"

definition agent_get :: "string \<Rightarrow> ('z mworld_scheme, directory_entry option) op" where
  "agent_get i = gets (\<lambda>w. map_of (w_agents w) i)"

definition list_agents :: "('z mworld_scheme, directory_entry list) op" where
  "list_agents = gets (\<lambda>w. map snd (w_agents w))"

definition major :: "string \<Rightarrow> string" where
  "major v = takeWhile (\<lambda>c. c \<noteq> CHR ''.'') v"

definition version_compatible :: "string \<Rightarrow> string \<Rightarrow> bool" where
  "version_compatible candidate requested = (if suffix ''.x'' requested then major candidate = major requested else candidate = requested)"

definition entry_at :: "directory_entry dict \<Rightarrow> string \<Rightarrow> directory_entry result" where
  "entry_at es i = (case map_of es i of None \<Rightarrow> Inl (KeyError i) | Some e \<Rightarrow> Inr e)"

definition find_by_capability :: "string \<Rightarrow> string option \<Rightarrow> bool \<Rightarrow> ('z mworld_scheme, directory_entry list) op" where
  "find_by_capability c version healthy_only =
     bind (gets w_capabilities) (\<lambda>idx.
     bind (gets w_agents) (\<lambda>es.
     bind (lift (map_result (entry_at es) (indexed idx (lower c)))) (\<lambda>found.
     let found = (case version of None \<Rightarrow> found | Some v \<Rightarrow> filter (\<lambda>e. version_compatible (id_version (de_identity e)) v) found);
         found = (if healthy_only then filter (\<lambda>e. de_health e = ''healthy'') found else found)
     in ok found)))"

definition discover :: "string \<Rightarrow> string option \<Rightarrow> bool \<Rightarrow> ('z mworld_scheme, obj list) op" where
  "discover c version healthy_only = bind (find_by_capability c version healthy_only) (mapM entry_as_dict)"

section \<open>Messages\<close>

record mesh_veil = veil +
  v_sanitize :: "string \<Rightarrow> string \<Rightarrow> obj \<Rightarrow> (obj \<times> string list) result"
  v_token :: "string \<Rightarrow> string list \<Rightarrow> int \<Rightarrow> (string \<times> int) result"

definition mock_mesh_veil :: mesh_veil where
  "mock_mesh_veil = veil.extend mock_veil (mesh_veil.fields (\<lambda>agent tenant context. Inr (context, []))
     (\<lambda>agent scopes ttl. Inr (''mock-token:'' @ agent, ttl)))"

definition new_message :: "string \<Rightarrow> string option \<Rightarrow> obj \<Rightarrow> string \<Rightarrow> string \<Rightarrow> string \<Rightarrow> ('z world_scheme, mesh_message) op" where
  "new_message src dst payload ty corr task =
     bind utc_now (\<lambda>t.
     ok \<lparr>ms_source = src, ms_destination = dst, ms_payload = payload, ms_type = ty, ms_timestamp = t, ms_correlation = corr,
         ms_task = task, ms_signature = [], ms_trust = []\<rparr>)"

definition with_payload_and_trust :: "mesh_message \<Rightarrow> obj \<Rightarrow> obj \<Rightarrow> string \<Rightarrow> mesh_message" where
  "with_payload_and_trust msg payload trust signature = msg\<lparr>ms_payload := payload, ms_trust := trust, ms_signature := signature\<rparr>"

definition message_as_dict :: "mesh_message \<Rightarrow> obj" where
  "message_as_dict msg = [
     (''source_agent'', JStr (ms_source msg)),
     (''destination_agent'', opt_json (ms_destination msg)),
     (''timestamp'', JStr (isoformat (ms_timestamp msg))),
     (''correlation_id'', JStr (ms_correlation msg)),
     (''task_id'', JStr (ms_task msg)),
     (''message_type'', JStr (ms_type msg)),
     (''payload'', JObj (ms_payload msg)),
     (''signature'', JStr (ms_signature msg)),
     (''trust_metadata'', JObj (ms_trust msg))]"

definition signing_input :: "mesh_message \<Rightarrow> string" where
  "signing_input msg = ms_source msg @ '':'' @ py_str (opt_json (ms_destination msg)) @ '':'' @ ms_correlation msg @ '':'' @ ms_task msg"

definition audit_payload :: "mesh_message \<Rightarrow> obj" where
  "audit_payload msg = [
     (''destination_agent'', opt_json (ms_destination msg)),
     (''message_type'', JStr (ms_type msg)),
     (''correlation_id'', JStr (ms_correlation msg)),
     (''task_id'', JStr (ms_task msg))]"

definition secure_exchange :: "('v mesh_veil_scheme) \<Rightarrow> string \<Rightarrow> mesh_message \<Rightarrow> ('z world_scheme, mesh_message) op" where
  "secure_exchange V tenant msg =
     bind (lift (v_check V (ms_source msg) (''mesh.'' @ ms_type msg) (message_as_dict msg))) (\<lambda>(allowed, reason).
     if \<not> allowed then raise (AuthorizationError (or_default reason ''VEIL policy denied mesh exchange''))
     else
       bind (lift (v_sanitize V (ms_source msg) tenant (ms_payload msg))) (\<lambda>(clean, redactions).
       bind (lift (v_token V (ms_source msg) [''mesh.exchange''] 300)) (\<lambda>(token, expires).
       bind (lift (v_audit V (ms_source msg) ''mesh.exchange'' (audit_payload msg))) (\<lambda>(audit_id, accepted).
       bind (gets w_sha) (\<lambda>sha.
       ok (with_payload_and_trust msg clean
         [(''veil_policy_allowed'', JBool allowed),
          (''veil_policy_reason'', JStr reason),
          (''veil_redactions'', strs redactions),
          (''veil_audit_event_id'', JStr audit_id),
          (''veil_audit_accepted'', JBool accepted),
          (''veil_token_expires_in'', JInt expires)]
         (sha (signing_input msg))))))))"

section \<open>The bus\<close>

text \<open>
  The bus is given its VEIL client, its tenant and the subscribers' callbacks by name. A callback may
  change the state, but a subscriber it adds to the topic being delivered sees the next message first.
\<close>

record 's bus =
  bus_veil :: mesh_veil
  bus_tenant :: string
  bus_call :: "string \<Rightarrow> mesh_message \<Rightarrow> ('s, unit) op"

definition subscribers_of :: "string \<Rightarrow> 'z mworld_scheme \<Rightarrow> string list" where
  "subscribers_of topic w = indexed (w_subscribers w) topic"

definition deliver :: "('z mworld_scheme) bus \<Rightarrow> string \<Rightarrow> mesh_message \<Rightarrow> ('z mworld_scheme, unit) op" where
  "deliver B topic msg =
     bind (modify (\<lambda>w. w\<lparr>w_messages := w_messages w @ [msg]\<rparr>)) (\<lambda>_.
     bind (gets (subscribers_of topic)) (\<lambda>ss. forM (\<lambda>s. bus_call B s msg) ss))"

definition send :: "('z mworld_scheme) bus \<Rightarrow> mesh_message \<Rightarrow> ('z mworld_scheme, mesh_message) op" where
  "send B msg =
     bind (gets w_agents) (\<lambda>es.
     let dst = (case ms_destination msg of None \<Rightarrow> [] | Some d \<Rightarrow> d) in
     if dst \<noteq> [] \<and> map_of es dst = None then raise (NotFoundError (''destination agent not found: '' @ dst))
     else
       bind (secure_exchange (bus_veil B) (bus_tenant B) msg) (\<lambda>secured.
       bind (deliver B (or_default dst ''*'') secured) (\<lambda>_. ok secured)))"

definition broadcast :: "('z mworld_scheme) bus \<Rightarrow> mesh_message \<Rightarrow> ('z mworld_scheme, mesh_message list) op" where
  "broadcast B msg =
     bind list_agents (\<lambda>es.
     mapM (\<lambda>e. bind (new_message (ms_source msg) (Some (id_agent (de_identity e))) (ms_payload msg) ''broadcast''
                       (ms_correlation msg) (ms_task msg)) (send B))
       (filter (\<lambda>e. id_agent (de_identity e) \<noteq> ms_source msg) es))"

definition publish :: "('z mworld_scheme) bus \<Rightarrow> string \<Rightarrow> mesh_message \<Rightarrow> ('z mworld_scheme, mesh_message) op" where
  "publish B topic msg =
     bind (new_message (ms_source msg) (Some topic) (ms_payload msg) ''publish'' (ms_correlation msg) (ms_task msg)) (\<lambda>published.
     bind (secure_exchange (bus_veil B) (bus_tenant B) published) (\<lambda>secured.
     bind (deliver B topic secured) (\<lambda>_. ok secured)))"

definition subscribe :: "string \<Rightarrow> string \<Rightarrow> ('z mworld_scheme, unit) op" where
  "subscribe topic s = modify (\<lambda>w. w\<lparr>w_subscribers := AList.update topic (subscribers_of topic w @ [s]) (w_subscribers w)\<rparr>)"

definition delegate_task :: "('z mworld_scheme) bus \<Rightarrow> mesh_message \<Rightarrow> ('z mworld_scheme, mesh_message) op" where
  "delegate_task B msg =
     bind (new_message (ms_source msg) (ms_destination msg) (ms_payload msg) ''delegate'' (ms_correlation msg) (ms_task msg)) (send B)"

definition history :: "string option \<Rightarrow> ('z mworld_scheme, mesh_message list) op" where
  "history corr = gets (\<lambda>w. case corr of None \<Rightarrow> w_messages w | Some c \<Rightarrow> filter (\<lambda>m. ms_correlation m = c) (w_messages w))"

section \<open>Conversations\<close>

record conversation_context =
  cc_id :: string
  cc_task :: string
  cc_participants :: "string set"
  cc_state :: obj
  cc_updated_at :: datetime

definition add_participant :: "string \<Rightarrow> conversation_context \<Rightarrow> ('z world_scheme, conversation_context) op" where
  "add_participant agent c =
     bind utc_now (\<lambda>t. ok (c\<lparr>cc_participants := insert agent (cc_participants c), cc_updated_at := t\<rparr>))"

definition update_state :: "obj \<Rightarrow> conversation_context \<Rightarrow> ('z world_scheme, conversation_context) op" where
  "update_state values c =
     bind utc_now (\<lambda>t. ok (c\<lparr>cc_state := foldl (\<lambda>d (k, v). AList.update k v d) (cc_state c) values, cc_updated_at := t\<rparr>))"

definition conversation_as_dict :: "conversation_context \<Rightarrow> obj" where
  "conversation_as_dict c = [
     (''conversation_id'', JStr (cc_id c)),
     (''task_id'', JStr (cc_task c)),
     (''participants'', strs (sorted_list_of_set (cc_participants c))),
     (''state'', JObj (cc_state c)),
     (''updated_at'', JStr (isoformat (cc_updated_at c)))]"

section \<open>The mesh of the server\<close>

definition mesh_passport :: "string \<times> string \<times> string list \<times> string \<Rightarrow> ('z world_scheme, agent_passport) op" where
  "mesh_passport = (\<lambda>(agent, name, caps, fp).
     bind (identity_create agent name ''1.0.0'' ''agentfabric'' ''agentfabric'' caps fp) (\<lambda>i.
     bind (certificate_issue agent fp ''agentfabric'' None) (\<lambda>c.
     ok \<lparr>pp_identity = i, pp_certificate = c, pp_metadata = None\<rparr>)))"

definition default_agents :: "(string \<times> string \<times> string list \<times> string) list" where
  "default_agents = [
     (''planner-agent'', ''PlannerAgent'', [''planning''], ''planner-fp''),
     (''research-agent'', ''ResearchAgent'', [''research'', ''retrieval''], ''research-fp''),
     (''web-agent'', ''WebAgent'', [''research'', ''retrieval''], ''web-fp''),
     (''document-agent'', ''DocumentAgent'', [''research'', ''analysis'', ''retrieval''], ''document-fp''),
     (''code-agent'', ''CodeAgent'', [''coding'', ''execution''], ''code-fp''),
     (''compliance-agent'', ''ComplianceAgent'', [''analysis'', ''review''], ''compliance-fp''),
     (''reviewer-agent'', ''ReviewerAgent'', [''review''], ''reviewer-fp'')]"

definition build_default_directory :: "('z mworld_scheme, unit) op" where
  "build_default_directory =
     bind (modify (\<lambda>w. w\<lparr>w_agents := [], w_capabilities := []\<rparr>)) (\<lambda>_.
     bind (mapM mesh_passport default_agents) (\<lambda>ps.
     forM (\<lambda>p. bind (register p ''healthy'') (\<lambda>_. ok ())) ps))"

text \<open>
  The fields of a request body, which have the types \<^verbatim>\<open>MeshMessage\<close> declares; other bodies are refused
  here with a \<^verbatim>\<open>TypeError\<close>.
\<close>

fun as_str :: "json \<Rightarrow> string result" where
  "as_str (JStr s) = Inr s"
| "as_str _ = Inl (TypeError ''expected str'')"

fun as_opt_str :: "json \<Rightarrow> string option result" where
  "as_opt_str JNull = Inr None"
| "as_opt_str v = (case as_str v of Inl e \<Rightarrow> Inl e | Inr s \<Rightarrow> Inr (Some s))"

fun as_mapping :: "json \<Rightarrow> obj result" where
  "as_mapping (JObj d) = Inr d"
| "as_mapping _ = Inl (TypeError ''object is not a mapping'')"

definition req_as :: "(json \<Rightarrow> 'a result) \<Rightarrow> obj \<Rightarrow> string \<Rightarrow> ('s, 'a) op" where
  "req_as f d k = bind (lift (req d k)) (\<lambda>v. lift (f v))"

text \<open>\<^verbatim>\<open>payload.get(key) or f"{prefix}{uuid4().hex[:12]}"\<close>\<close>

definition given_or_fresh :: "obj \<Rightarrow> string \<Rightarrow> string \<Rightarrow> ('z world_scheme, string) op" where
  "given_or_fresh d k pre = (let v = get_or d k JNull in
     if truthy v then lift (as_str v) else bind uuid_hex12 (\<lambda>hex. ok (pre @ hex)))"

definition mesh_send :: "('z mworld_scheme) bus \<Rightarrow> obj \<Rightarrow> request \<Rightarrow> ('z mworld_scheme, obj) op" where
  "mesh_send B body rq =
     bind (require_scopes rq [''mesh.send''] None) (\<lambda>p.
     bind (tenant_context_of rq) (\<lambda>ctx.
     bind (consume_for (tc_tenant ctx) ''mesh_messages_per_minute'') (\<lambda>_.
     bind (req_as as_str body ''source_agent'') (\<lambda>src.
     bind (req_as as_opt_str body ''destination_agent'') (\<lambda>dst.
     bind (lift (as_mapping (get_or body ''payload'' (JObj [])))) (\<lambda>content.
     bind (lift (as_str (get_or body ''message_type'' (JStr ''request'')))) (\<lambda>ty.
     bind (given_or_fresh body ''correlation_id'' ''corr-'') (\<lambda>corr.
     bind (given_or_fresh body ''task_id'' ''task-'') (\<lambda>task.
     bind (new_message src dst (AList.update ''tenant_id'' (JStr (tc_tenant ctx)) content) ty corr task) (\<lambda>msg.
     bind (send B msg) (\<lambda>sent.
     bind (es_append ''message'' (ms_correlation sent)
             [(''principal_id'', JStr (pc_id p)), (''tenant_id'', JStr (tc_tenant ctx)), (''message'', JObj (message_as_dict sent))]) (\<lambda>_.
     bind (on_store (mem_put ''mesh_messages'' (ms_correlation sent)
             ((''tenant_id'', JStr (tc_tenant ctx)) # message_as_dict sent))) (\<lambda>_.
     bind (meter_record (tc_tenant ctx) ''message_sends'' 1 [(''correlation_id'', JStr (ms_correlation sent))]) (\<lambda>_.
     ok (message_as_dict sent)))))))))))))))"

definition mesh_broadcast :: "('z mworld_scheme) bus \<Rightarrow> obj \<Rightarrow> request \<Rightarrow> ('z mworld_scheme, obj) op" where
  "mesh_broadcast B body rq =
     bind (require_scopes rq [''mesh.broadcast''] None) (\<lambda>p.
     bind (tenant_context_of rq) (\<lambda>ctx.
     bind (consume_for (tc_tenant ctx) ''mesh_messages_per_minute'') (\<lambda>_.
     bind (req_as as_str body ''source_agent'') (\<lambda>src.
     bind (lift (as_mapping (get_or body ''payload'' (JObj [])))) (\<lambda>content.
     bind (given_or_fresh body ''correlation_id'' ''corr-'') (\<lambda>corr.
     bind (given_or_fresh body ''task_id'' ''task-'') (\<lambda>task.
     bind (new_message src None (AList.update ''tenant_id'' (JStr (tc_tenant ctx)) content) ''broadcast'' corr task) (\<lambda>msg.
     bind (broadcast B msg) (\<lambda>sent.
     bind (lift (as_str (get_or body ''correlation_id'' (JStr ''broadcast'')))) (\<lambda>aggregate.
     bind (es_append ''message'' aggregate
             [(''principal_id'', JStr (pc_id p)), (''tenant_id'', JStr (tc_tenant ctx)), (''count'', JInt (int (length sent)))]) (\<lambda>_.
     bind (meter_record (tc_tenant ctx) ''message_sends'' (int (length sent)) [(''broadcast'', JBool True)]) (\<lambda>_.
     ok [(''items'', JList (map (\<lambda>m. JObj (message_as_dict m)) sent)), (''count'', JInt (int (length sent)))]))))))))))))"

definition agents_list :: "string option \<Rightarrow> string option \<Rightarrow> bool \<Rightarrow> request \<Rightarrow> ('z mworld_scheme, obj) op" where
  "agents_list capability version healthy_only rq =
     scoped rq ''agents.read'' (\<lambda>ctx.
     bind (case nonempty capability of
         Some c \<Rightarrow> discover c version healthy_only
       | None \<Rightarrow> bind list_agents (mapM entry_as_dict)) (\<lambda>items.
     ok [(''items'', JList (map JObj items)), (''total'', JInt (int (length items)))]))"

definition agents_get :: "string \<Rightarrow> request \<Rightarrow> ('z mworld_scheme, obj) op" where
  "agents_get i rq =
     scoped rq ''agents.read'' (\<lambda>ctx.
     bind (agent_get i) (\<lambda>e. case e of
       None \<Rightarrow> raise (http_error 404 ''agent not found'')
     | Some e \<Rightarrow> entry_as_dict e))"

section \<open>The directory stays consistent\<close>

definition directory_ok :: "'z mworld_scheme \<Rightarrow> bool" where
  "directory_ok w \<longleftrightarrow> is_dict (w_agents w) \<and>
     (\<forall>i e. map_of (w_agents w) i = Some e \<longrightarrow>
        id_agent (de_identity e) = i \<and> (\<forall>c \<in> set (id_capabilities (de_identity e)). i \<in> set (indexed (w_capabilities w) c))) \<and>
     (\<forall>c. distinct (indexed (w_capabilities w) c) \<and> set (indexed (w_capabilities w) c) \<subseteq> dom (map_of (w_agents w)))"

definition keeps_directory :: "'z mworld_scheme \<Rightarrow> 'z mworld_scheme \<Rightarrow> bool" where
  "keeps_directory w w' \<longleftrightarrow> (directory_ok w \<longrightarrow> directory_ok w')"

interpretation dir: step_contract keeps_directory
  by unfold_locales (auto simp: keeps_directory_def)

lemma indexed_update [simp]: "indexed (AList.update c ids idx) c' = (if c' = c then ids else indexed idx c')"
  by (simp add: indexed_def)

lemma indexed_index_add [simp]:
  "indexed (index_add i c idx) c' = (if c' = c \<and> i \<notin> set (indexed idx c) then indexed idx c @ [i] else indexed idx c')"
  by (auto simp: index_add_def Let_def)

lemma indexed_fold:
  "indexed (fold (index_add i) cs idx) c = (if c \<in> set cs \<and> i \<notin> set (indexed idx c) then indexed idx c @ [i] else indexed idx c)"
  by (induction cs arbitrary: idx) auto

definition enrolled :: "agent_passport \<Rightarrow> string \<Rightarrow> datetime \<Rightarrow> 'z mworld_scheme \<Rightarrow> 'z mworld_scheme" where
  "enrolled p health t w = w\<lparr>
     w_agents := AList.update (id_agent (pp_identity p)) \<lparr>de_passport = p, de_health = health, de_last_seen = t\<rparr> (w_agents w),
     w_capabilities := fold (index_add (id_agent (pp_identity p))) (id_capabilities (pp_identity p)) (w_capabilities w)\<rparr>"

lemma validate_apply:
  "passport_validate p w = (Inr (passport_matches p \<and> unexpired (pp_certificate p) (now w)), if passport_matches p then tick w else w)"
  by (simp add: passport_validate_def is_valid_at_def bind_apply utc_now_apply ok_apply)

lemma register_apply:
  "register p health w = (if passport_matches p \<and> unexpired (pp_certificate p) (now w)
     then (Inr \<lparr>de_passport = p, de_health = health, de_last_seen = now (tick w)\<rparr>, enrolled p health (now (tick w)) (tick (tick w)))
     else (Inl (ValueError ''agent passport is not valid''), if passport_matches p then tick w else w))"
  by (simp add: register_def bind_apply validate_apply utc_now_apply modify_apply ok_apply raise_apply enrolled_def Let_def tick_def)

lemma directory_ok_tick [simp]: "directory_ok (tick w) = directory_ok w"
  by (simp add: directory_ok_def tick_def)

lemma directory_ok_enrolled:
  assumes "directory_ok w"
  shows "directory_ok (enrolled p health t w)"
proof -
  have "distinct (indexed (w_capabilities (enrolled p health t w)) c)" for c
    using assms by (simp add: directory_ok_def enrolled_def indexed_fold)
  with assms show ?thesis
    by (auto simp: directory_ok_def enrolled_def indexed_fold dom_def split: if_splits)
qed

lemma dir_register: "dir.steps (register p health)"
  unfolding dir.steps_def keeps_directory_def by (auto simp: register_apply directory_ok_enrolled)

lemma dir_update_health: "dir.steps (update_health i health)"
  unfolding dir.steps_def keeps_directory_def
proof (intro allI impI)
  fix w assume ok: "directory_ok w"
  show "directory_ok (snd (update_health i health w))"
  proof (cases "map_of (w_agents w) i")
    case None
    with ok show ?thesis by (simp add: update_health_def bind_apply gets_apply raise_apply)
  next
    case (Some e)
    then have "update_health i health w = (Inr (), (tick w)\<lparr>w_agents := AList.update i (e\<lparr>de_health := health, de_last_seen := now w\<rparr>) (w_agents w)\<rparr>)"
      by (simp add: update_health_def bind_apply gets_apply utc_now_apply modify_apply tick_def)
    with ok Some show ?thesis by (auto simp: directory_ok_def tick_def dom_def)
  qed
qed

datatype directory_cmd = Register agent_passport string | UpdateHealth string string

fun run_directory_cmd :: "directory_cmd \<Rightarrow> ('z mworld_scheme, unit) op" where
  "run_directory_cmd (Register p health) = bind (register p health) (\<lambda>_. ok ())"
| "run_directory_cmd (UpdateHealth i health) = update_health i health"

definition run_directory :: "directory_cmd list \<Rightarrow> ('z mworld_scheme, unit) op" where
  "run_directory cmds = forM (\<lambda>c. catch (run_directory_cmd c) (\<lambda>_. ok ())) cmds"

lemma dir_run: "dir.steps (run_directory cmds)"
proof -
  have "dir.steps (run_directory_cmd x)" for x
    by (cases x) (auto intro!: dir.steps_intros dir_register dir_update_health)
  then show ?thesis unfolding run_directory_def by (intro dir.steps_intros)
qed

lemma directory_ok_empty: "w_agents w = [] \<Longrightarrow> w_capabilities w = [] \<Longrightarrow> directory_ok w"
  by (simp add: directory_ok_def indexed_def)

definition matching :: "string option \<Rightarrow> bool \<Rightarrow> directory_entry \<Rightarrow> bool" where
  "matching version healthy_only e \<longleftrightarrow>
     (version \<noteq> None \<longrightarrow> version_compatible (id_version (de_identity e)) (the version)) \<and> (healthy_only \<longrightarrow> de_health e = ''healthy'')"

lemma find_by_capability_apply:
  assumes "directory_ok w"
  shows "find_by_capability c version healthy_only w =
    (Inr (filter (matching version healthy_only) (map (\<lambda>i. the (map_of (w_agents w) i)) (indexed (w_capabilities w) (lower c)))), w)"
proof -
  have "map_result (entry_at (w_agents w)) (indexed (w_capabilities w) (lower c)) =
      Inr (map (\<lambda>i. the (map_of (w_agents w) i)) (indexed (w_capabilities w) (lower c)))"
    using assms by (intro map_result_all_Inr) (auto simp: entry_at_def directory_ok_def dom_def split: option.splits dest!: subsetD)
  then show ?thesis
    by (cases version) (simp_all add: find_by_capability_def bind_apply gets_apply ok_apply lift_apply Let_def matching_def [abs_def] conj_commute)
qed

text \<open>
  C33. Discovery never fails and misses no one: after any sequence of registrations and health
  reports from an empty directory, refused ones included, the lookup of a capability returns; every
  entry it gives is the current entry of a registered agent, each agent once, with the requested
  version and health; and every agent whose current passport has the capability, in the requested
  version and health, is among them.
\<close>

theorem discovery_complete:
  assumes "w_agents w = []" "w_capabilities w = []" "w' = final (run_directory cmds) w"
  shows "\<exists>es. find_by_capability c version healthy_only w' = (Inr es, w') \<and> distinct (map (\<lambda>e. id_agent (de_identity e)) es) \<and>
    (\<forall>e \<in> set es. map_of (w_agents w') (id_agent (de_identity e)) = Some e \<and> matching version healthy_only e) \<and>
    (\<forall>i e. map_of (w_agents w') i = Some e \<and> supports (id_capabilities (de_identity e)) c \<and> matching version healthy_only e \<longrightarrow> e \<in> set es)"
proof -
  let ?ids = "indexed (w_capabilities w') (lower c)" and ?e = "\<lambda>i. the (map_of (w_agents w') i)"
  let ?es = "filter (matching version healthy_only) (map ?e ?ids)"
  have ok: "directory_ok w'"
    using dir.stepsD [OF dir_run, of w cmds] directory_ok_empty [of w] assms by (simp add: keeps_directory_def)
  then have at: "map_of (w_agents w') i = Some (?e i) \<and> id_agent (de_identity (?e i)) = i" if "i \<in> set ?ids" for i
    using that unfolding directory_ok_def by (metis domD option.sel subsetD)
  then have "map (\<lambda>e. id_agent (de_identity e)) (map ?e ?ids) = ?ids" by (simp add: map_idI)
  then have "distinct (map (\<lambda>e. id_agent (de_identity e)) (map ?e ?ids))" using ok by (metis directory_ok_def)
  then have "distinct (map (\<lambda>e. id_agent (de_identity e)) ?es)" by (rule distinct_map_filter)
  moreover have "e \<in> set ?es" if "map_of (w_agents w') i = Some e" "supports (id_capabilities (de_identity e)) c" "matching version healthy_only e" for i e
  proof -
    have "i \<in> set ?ids" using ok that by (simp add: directory_ok_def supports_def)
    with that show ?thesis by force
  qed
  ultimately show ?thesis using at find_by_capability_apply [OF ok] by (intro exI [of _ ?es]) auto
qed

definition mworld0 :: mworld where
  "mworld0 = pworld.extend pworld0 (mworld.fields [] [] [] [])"

lemma mworld0_simps [simp]: "w_agents mworld0 = []" "w_capabilities mworld0 = []" "w_messages mworld0 = []" "w_subscribers mworld0 = []"
  by (simp_all add: mworld0_def cworld.defs pworld.defs mworld.defs)

definition passport0 :: "string \<Rightarrow> string list \<Rightarrow> agent_passport" where
  "passport0 i caps = \<lparr>pp_identity = \<lparr>id_agent = i, id_name = i, id_version = ''1.2.0'', id_owner = ''o'', id_organization = ''o'',
       id_capabilities = caps, id_fingerprint = ''fp'', id_created_at = dt 0\<rparr>,
     pp_certificate = \<lparr>ce_agent = i, ce_fingerprint = ''fp'', ce_issuer = ''agentfabric'', ce_issued_at = dt 0, ce_expires_at = None\<rparr>,
     pp_metadata = None\<rparr>"

lemma passport0_simps [simp]: "passport_matches (passport0 i caps)" "unexpired (pp_certificate (passport0 i caps)) t"
  "id_agent (pp_identity (passport0 i caps)) = i" "id_capabilities (pp_identity (passport0 i caps)) = caps"
  "id_version (pp_identity (passport0 i caps)) = ''1.2.0''"
  by (simp_all add: passport0_def passport_matches_def unexpired_def)

theorem discovery_complete_witness:
  "\<exists>es e. find_by_capability ''Coding'' (Some ''1.x'') True (final (run_directory [Register (passport0 ''a'' [''coding'']) ''healthy'']) mworld0) =
     (Inr es, final (run_directory [Register (passport0 ''a'' [''coding'']) ''healthy'']) mworld0) \<and> e \<in> set es \<and> id_agent (de_identity e) = ''a''"
proof -
  let ?w = "final (run_directory [Register (passport0 ''a'' [''coding'']) ''healthy'']) mworld0"
  let ?e = "\<lparr>de_passport = passport0 ''a'' [''coding''], de_health = ''healthy'', de_last_seen = now (tick mworld0)\<rparr>"
  have "map_of (w_agents ?w) ''a'' = Some ?e"
    by (simp add: run_directory_def register_apply catch_apply bind_apply ok_apply enrolled_def)
  moreover have "supports (id_capabilities (de_identity ?e)) ''Coding'' \<and> matching (Some ''1.x'') True ?e"
    by (simp add: matching_def) code_simp
  moreover obtain es where "find_by_capability ''Coding'' (Some ''1.x'') True ?w = (Inr es, ?w)"
    "\<And>i e. map_of (w_agents ?w) i = Some e \<and> supports (id_capabilities (de_identity e)) ''Coding'' \<and> matching (Some ''1.x'') True e \<Longrightarrow> e \<in> set es"
    using discovery_complete [of mworld0 ?w "[Register (passport0 ''a'' [''coding'']) ''healthy'']" "''Coding''" "Some ''1.x''" True] by auto
  ultimately show ?thesis by (intro exI [of _ es] exI [of _ ?e]) simp
qed

text \<open>
  A capability an agent has given up is still found: when an agent is registered again with a
  passport that no longer has a capability, a lookup of that capability still gives its new entry.
\<close>

theorem withdrawn_capability_found:
  assumes "directory_ok w" "id_agent (pp_identity p) = i" "id_agent (pp_identity p') = i"
    and "register p health w = (Inr e, w1)" "register p' ''healthy'' w1 = (Inr e', w2)"
    and "supports (id_capabilities (pp_identity p)) c" "\<not> supports (id_capabilities (pp_identity p')) c"
  shows "\<exists>es. find_by_capability c None True w2 = (Inr es, w2) \<and> e' \<in> set es \<and> \<not> supports (id_capabilities (de_identity e')) c"
proof -
  have w1: "w1 = enrolled p health (now (tick w)) (tick (tick w))" using assms(4) by (simp add: register_apply split: if_splits)
  have w2: "w2 = enrolled p' ''healthy'' (now (tick w1)) (tick (tick w1))" "e' = \<lparr>de_passport = p', de_health = ''healthy'', de_last_seen = now (tick w1)\<rparr>"
    using assms(5) by (simp_all add: register_apply split: if_splits)
  have ok: "directory_ok w2" unfolding w2 w1 using assms(1) by (simp add: directory_ok_enrolled)
  have "i \<in> set (indexed (w_capabilities w1) (lower c))" using assms(2,6) by (simp add: w1 enrolled_def indexed_fold supports_def tick_def)
  then have "i \<in> set (indexed (w_capabilities w2) (lower c))" by (simp add: w2 enrolled_def indexed_fold tick_def)
  moreover have "map_of (w_agents w2) i = Some e'" using assms(3) by (simp add: w2 enrolled_def)
  moreover have "matching None True e'" by (simp add: w2 matching_def)
  ultimately have "e' \<in> set (filter (matching None True) (map (\<lambda>i. the (map_of (w_agents w2) i)) (indexed (w_capabilities w2) (lower c))))" by force
  with assms(7) show ?thesis by (simp add: find_by_capability_apply [OF ok] w2(2))
qed

theorem withdrawn_capability_found_witness:
  "\<exists>e w1 e' w2 es. register (passport0 ''a'' [''coding'']) ''healthy'' mworld0 = (Inr e, w1) \<and>
     register (passport0 ''a'' [''review'']) ''healthy'' w1 = (Inr e', w2) \<and>
     find_by_capability ''coding'' None True w2 = (Inr es, w2) \<and> e' \<in> set es \<and> \<not> supports (id_capabilities (de_identity e')) ''coding''"
proof -
  obtain e w1 where r1: "register (passport0 ''a'' [''coding'']) ''healthy'' mworld0 = (Inr e, w1)" by (simp add: register_apply)
  obtain e' w2 where r2: "register (passport0 ''a'' [''review'']) ''healthy'' w1 = (Inr e', w2)" by (simp add: register_apply)
  have "directory_ok mworld0" by (rule directory_ok_empty) simp_all
  moreover have "supports [''coding''] ''coding''" "\<not> supports [''review''] ''coding''" by code_simp+
  ultimately show ?thesis using withdrawn_capability_found [OF _ _ _ r1 r2, of "''a''" "''coding''"] r1 r2 by auto
qed

section \<open>The VEIL boundary\<close>

text \<open>
  What a message on the bus has been through: VEIL allowed the source the exchange of the message as
  it was handed in, the payload is what VEIL's sanitizer made of the one handed in, VEIL was told, and
  the signature is the digest of the envelope.
\<close>

definition cleared :: "mesh_veil \<Rightarrow> string \<Rightarrow> (string \<Rightarrow> string) \<Rightarrow> mesh_message \<Rightarrow> bool" where
  "cleared V tenant sha m \<longleftrightarrow> (\<exists>m0 reason redactions report.
     v_check V (ms_source m) (''mesh.'' @ ms_type m) (message_as_dict m0) = Inr (True, reason) \<and>
     v_sanitize V (ms_source m) tenant (ms_payload m0) = Inr (ms_payload m, redactions) \<and>
     v_audit V (ms_source m) ''mesh.exchange'' (audit_payload m) = Inr report \<and>
     ms_signature m = sha (signing_input m) \<and>
     m = with_payload_and_trust m0 (ms_payload m) (ms_trust m) (ms_signature m))"

definition mesh_step :: "mesh_veil \<Rightarrow> string \<Rightarrow> 'z mworld_scheme \<Rightarrow> 'z mworld_scheme \<Rightarrow> bool" where
  "mesh_step V tenant w w' \<longleftrightarrow> w_sha w' = w_sha w \<and>
     (\<exists>new. w_messages w' = w_messages w @ new \<and> list_all (cleared V tenant (w_sha w)) new)"

interpretation mesh: step_contract "mesh_step V tenant" for V tenant
proof
  show "mesh_step V tenant w w" for V and tenant and w :: "'z mworld_scheme" by (simp add: mesh_step_def)
next
  show "mesh_step V tenant w1 w3" if "mesh_step V tenant w1 w2" "mesh_step V tenant w2 w3"
    for V and tenant and w1 w2 w3 :: "'z mworld_scheme"
    using that by (auto simp: mesh_step_def)
qed

named_theorems mesh_steps \<open>operations that put only cleared messages on the bus\<close>

lemma mesh_quiet: "(\<And>w. w_sha (snd (m w)) = w_sha w \<and> w_messages (snd (m w)) = w_messages w) \<Longrightarrow> mesh.steps V tenant m"
  by (simp add: mesh.steps_def mesh_step_def)

lemma mesh_world [mesh_steps]: "mesh.steps V tenant utc_now" "mesh.steps V tenant uuid_hex12" "mesh.steps V tenant (on_store m)"
  "mesh.steps V tenant (modify (\<lambda>w. w\<lparr>w_usage := f w\<rparr>))" "mesh.steps V tenant (modify (\<lambda>w. w\<lparr>w_agents := a w\<rparr>))"
  "mesh.steps V tenant (modify (\<lambda>w. w\<lparr>w_capabilities := b w\<rparr>))" "mesh.steps V tenant (modify (\<lambda>w. w\<lparr>w_subscribers := s w\<rparr>))"
  by (rule mesh_quiet; simp add: utc_now_def uuid_hex12_def on_store_def modify_apply split: prod.split)+

lemma mesh_es_append [mesh_steps]: "mesh.steps V tenant (es_append ty ag p)"
  by (rule mesh_quiet, cases "registered ty") (auto simp: es_append_registered es_append_unregistered)

lemma secure_exchange_state: "snd (secure_exchange V tenant msg w) = w"
  by (auto simp: secure_exchange_def bind_apply lift_apply gets_apply ok_apply raise_apply split: sum.split prod.split)

lemma secure_exchange_cleared:
  assumes "secure_exchange V tenant msg w = (Inr m, w')"
  shows "cleared V tenant (w_sha w) m"
proof -
  obtain reason where c: "v_check V (ms_source msg) (''mesh.'' @ ms_type msg) (message_as_dict msg) = Inr (True, reason)"
    using assms
    by (cases "v_check V (ms_source msg) (''mesh.'' @ ms_type msg) (message_as_dict msg)")
      (auto simp: secure_exchange_def raise_apply split: prod.splits if_splits)
  obtain clean redactions where s: "v_sanitize V (ms_source msg) tenant (ms_payload msg) = Inr (clean, redactions)"
    using assms c by (cases "v_sanitize V (ms_source msg) tenant (ms_payload msg)") (auto simp: secure_exchange_def raise_apply split: prod.splits)
  obtain token where t: "v_token V (ms_source msg) [''mesh.exchange''] 300 = Inr token"
    using assms c s by (cases "v_token V (ms_source msg) [''mesh.exchange''] 300") (auto simp: secure_exchange_def raise_apply split: prod.splits)
  obtain report where a: "v_audit V (ms_source msg) ''mesh.exchange'' (audit_payload msg) = Inr report"
    using assms c s t by (cases "v_audit V (ms_source msg) ''mesh.exchange'' (audit_payload msg)")
      (auto simp: secure_exchange_def raise_apply split: prod.splits)
  obtain trust where m: "m = with_payload_and_trust msg clean trust (w_sha w (signing_input msg))"
    using assms c s t a by (auto simp: secure_exchange_def bind_apply lift_apply gets_apply ok_apply split: prod.splits)
  have e: "audit_payload m = audit_payload msg" "signing_input m = signing_input msg"
    by (simp_all add: m with_payload_and_trust_def audit_payload_def signing_input_def)
  show ?thesis unfolding cleared_def
    by (rule exI [of _ msg], rule exI [of _ reason], rule exI [of _ redactions], rule exI [of _ report])
      (use c s a in \<open>simp add: e, simp add: m with_payload_and_trust_def\<close>)
qed

text \<open>Callbacks that keep to the boundary, for instance by sending through the bus.\<close>

definition respectful :: "('z mworld_scheme) bus \<Rightarrow> bool" where
  "respectful B \<longleftrightarrow> (\<forall>s m. mesh.steps (bus_veil B) (bus_tenant B) (bus_call B s m))"

lemma mesh_exchange:
  assumes "respectful B"
  shows "mesh.steps (bus_veil B) (bus_tenant B)
    (bind (secure_exchange (bus_veil B) (bus_tenant B) msg) (\<lambda>secured. bind (deliver B topic secured) (\<lambda>_. ok secured)))"
  unfolding mesh.steps_def
proof
  fix w
  show "mesh_step (bus_veil B) (bus_tenant B) w
    (snd (bind (secure_exchange (bus_veil B) (bus_tenant B) msg) (\<lambda>secured. bind (deliver B topic secured) (\<lambda>_. ok secured)) w))"
  proof (cases "fst (secure_exchange (bus_veil B) (bus_tenant B) msg w)")
    case (Inl e)
    then show ?thesis using secure_exchange_state [of "bus_veil B" "bus_tenant B" msg w]
      by (cases "secure_exchange (bus_veil B) (bus_tenant B) msg w") (auto simp: bind_apply mesh.refl)
  next
    case (Inr m)
    then have sx: "secure_exchange (bus_veil B) (bus_tenant B) msg w = (Inr m, w)"
      using secure_exchange_state [of "bus_veil B" "bus_tenant B" msg w] by (metis prod.collapse)
    let ?w = "w\<lparr>w_messages := w_messages w @ [m]\<rparr>"
    let ?f = "bind (gets (subscribers_of topic)) (\<lambda>ss. bind (forM (\<lambda>s. bus_call B s m) ss) (\<lambda>_. ok m))"
    have "mesh_step (bus_veil B) (bus_tenant B) w ?w"
      using secure_exchange_cleared [OF sx] by (simp add: mesh_step_def)
    moreover have "mesh.steps (bus_veil B) (bus_tenant B) ?f"
      using assms by (intro mesh.steps_intros) (simp add: respectful_def)
    then have "mesh_step (bus_veil B) (bus_tenant B) ?w (snd (?f ?w))" by (rule mesh.stepsD)
    ultimately have "mesh_step (bus_veil B) (bus_tenant B) w (snd (?f ?w))" by (rule mesh.trans)
    then show ?thesis by (simp add: bind_Inr [of "secure_exchange (bus_veil B) (bus_tenant B) msg", OF sx] deliver_def bind_assoc bind_Inr [of "modify f" for f, OF modify_apply])
  qed
qed

lemma mesh_messages [mesh_steps]: "mesh.steps V tenant (new_message src dst payload ty corr task)"
  unfolding new_message_def by (intro mesh.steps_intros mesh_steps)

lemma mesh_bus [mesh_steps]:
  assumes "respectful B"
  shows "mesh.steps (bus_veil B) (bus_tenant B) (send B msg)" "mesh.steps (bus_veil B) (bus_tenant B) (broadcast B msg)"
    "mesh.steps (bus_veil B) (bus_tenant B) (publish B topic msg)" "mesh.steps (bus_veil B) (bus_tenant B) (delegate_task B msg)"
    "mesh.steps (bus_veil B) (bus_tenant B) (subscribe topic s)"
proof -
  show *: "mesh.steps (bus_veil B) (bus_tenant B) (send B msg)" for msg
    unfolding send_def Let_def by (intro mesh.steps_intros mesh_exchange assms)
  show "mesh.steps (bus_veil B) (bus_tenant B) (broadcast B msg)"
    unfolding broadcast_def list_agents_def by (intro mesh.steps_intros mesh_steps *)
  show "mesh.steps (bus_veil B) (bus_tenant B) (publish B topic msg)"
    unfolding publish_def by (intro mesh.steps_bind mesh_steps mesh_exchange assms)
  show "mesh.steps (bus_veil B) (bus_tenant B) (delegate_task B msg)"
    unfolding delegate_task_def by (intro mesh.steps_bind mesh_steps *)
  show "mesh.steps (bus_veil B) (bus_tenant B) (subscribe topic s)"
    unfolding subscribe_def by (rule mesh_steps)
qed

lemma mesh_requests [mesh_steps]:
  "mesh.steps V tenant (require_scopes rq scopes own)" "mesh.steps V tenant (get_tenant tid)" "mesh.steps V tenant (tenant_context_of rq)"
  "mesh.steps V tenant (consume_for tid counter)" "mesh.steps V tenant (req_as f d k)" "mesh.steps V tenant (given_or_fresh d k pre)"
  "mesh.steps V tenant (meter_record t ty q md)"
proof -
  show rs: "mesh.steps V tenant (require_scopes rq scopes own)" for rq scopes own
    unfolding require_scopes_def by (intro mesh.steps_intros)
  show gt: "mesh.steps V tenant (get_tenant tid)" for tid
    unfolding get_tenant_def tenant_from_dict_def by (intro mesh.steps_intros mesh_steps)
  have "mesh.steps V tenant (require_context c)" for c
    unfolding require_context_def tc_require_def
    by (intro mesh.steps_intros) (auto split: py_error.split intro: mesh.steps_raise)
  then show "mesh.steps V tenant (tenant_context_of rq)"
    unfolding tenant_context_of_def by (intro mesh.steps_intros rs gt)
  show "mesh.steps V tenant (consume_for tid counter)"
    unfolding consume_for_def tenant_policy_def quota_consume_def quota_check_def tracker_increment_def tracker_usage_def Let_def
    by (intro mesh.steps_intros mesh_steps gt)
  show "mesh.steps V tenant (req_as f d k)" unfolding req_as_def by (intro mesh.steps_intros)
  show "mesh.steps V tenant (given_or_fresh d k pre)" unfolding given_or_fresh_def Let_def by (intro mesh.steps_intros mesh_steps)
  show "mesh.steps V tenant (meter_record t ty q md)" unfolding meter_record_def Let_def by (intro mesh.steps_intros mesh_steps)
qed

lemma mesh_endpoints [mesh_steps]:
  assumes "respectful B"
  shows "mesh.steps (bus_veil B) (bus_tenant B) (mesh_send B body rq)" "mesh.steps (bus_veil B) (bus_tenant B) (mesh_broadcast B body rq)"
  unfolding mesh_send_def mesh_broadcast_def by (intro mesh.steps_intros mesh_steps assms)+

lemma mesh_directory [mesh_steps]: "mesh.steps V tenant (register p health)" "mesh.steps V tenant (update_health i health)"
  unfolding register_def update_health_def passport_validate_def is_valid_at_def Let_def
  by (intro mesh.steps_intros mesh_steps)+

datatype bus_cmd =
    Send mesh_message | Broadcast mesh_message | Publish string mesh_message | Delegate mesh_message | Subscribe string string
  | Directory directory_cmd | MeshSend obj request | MeshBroadcast obj request

fun run_bus_cmd :: "('z mworld_scheme) bus \<Rightarrow> bus_cmd \<Rightarrow> ('z mworld_scheme, unit) op" where
  "run_bus_cmd B (Send msg) = bind (send B msg) (\<lambda>_. ok ())"
| "run_bus_cmd B (Broadcast msg) = bind (broadcast B msg) (\<lambda>_. ok ())"
| "run_bus_cmd B (Publish topic msg) = bind (publish B topic msg) (\<lambda>_. ok ())"
| "run_bus_cmd B (Delegate msg) = bind (delegate_task B msg) (\<lambda>_. ok ())"
| "run_bus_cmd B (Subscribe topic s) = subscribe topic s"
| "run_bus_cmd B (Directory c) = run_directory_cmd c"
| "run_bus_cmd B (MeshSend body rq) = bind (mesh_send B body rq) (\<lambda>_. ok ())"
| "run_bus_cmd B (MeshBroadcast body rq) = bind (mesh_broadcast B body rq) (\<lambda>_. ok ())"

definition run_bus :: "('z mworld_scheme) bus \<Rightarrow> bus_cmd list \<Rightarrow> ('z mworld_scheme, unit) op" where
  "run_bus B cmds = forM (\<lambda>c. catch (run_bus_cmd B c) (\<lambda>_. ok ())) cmds"

lemma mesh_run_bus:
  assumes "respectful B"
  shows "mesh.steps (bus_veil B) (bus_tenant B) (run_bus B cmds)"
proof -
  have "mesh.steps (bus_veil B) (bus_tenant B) (run_directory_cmd c)" for c
    by (cases c) (auto intro!: mesh.steps_intros mesh_steps)
  then have "mesh.steps (bus_veil B) (bus_tenant B) (run_bus_cmd B c)" for c
    by (cases c) (auto intro!: mesh.steps_intros mesh_steps assms)
  then show ?thesis unfolding run_bus_def by (intro mesh.steps_intros)
qed

text \<open>
  C34. Nothing is on the bus that VEIL has not cleared: whatever is sent, broadcast, published,
  delegated or subscribed, directly or through the endpoints, by whom and in what order, with errors
  in between, the history of the bus only grows, and every message that was added was allowed by VEIL's
  policy for its source, carries the payload VEIL's sanitizer returned, was reported to VEIL, and is
  signed with the digest of its envelope. Subscribers may act on the state as they like as long as
  they put messages on the bus by its operations.
\<close>

theorem bus_messages_cleared:
  assumes "respectful B" "w' = final (run_bus B cmds) w"
  shows "\<exists>new. w_messages w' = w_messages w @ new \<and> list_all (cleared (bus_veil B) (bus_tenant B) (w_sha w)) new"
  using mesh.stepsD [OF mesh_run_bus [OF assms(1)], of w cmds] assms(2) by (simp add: mesh_step_def)

definition message0 :: mesh_message where
  "message0 = \<lparr>ms_source = ''a'', ms_destination = None, ms_payload = [], ms_type = ''request'', ms_timestamp = dt 0, ms_correlation = ''c'',
     ms_task = ''k'', ms_signature = [], ms_trust = []\<rparr>"

definition bus0 :: "mworld bus" where
  "bus0 = \<lparr>bus_veil = mock_mesh_veil, bus_tenant = ''default'', bus_call = (\<lambda>s m. ok ())\<rparr>"

text \<open>A subscriber that answers every message it gets with one of its own, which no one hears.\<close>

definition answering_bus :: "mworld bus" where
  "answering_bus = bus0\<lparr>bus_call := (\<lambda>s m. bind (send bus0 message0) (\<lambda>_. ok ()))\<rparr>"

lemma respectful_bus0: "respectful bus0"
  by (simp add: respectful_def bus0_def mesh.steps_ok)

lemma answering_run: "length (w_messages (final (run_bus answering_bus [Subscribe ''*'' ''s'', Send message0]) mworld0)) = 2"
  by (simp add: run_bus_def answering_bus_def bus0_def message0_def send_def secure_exchange_def deliver_def subscribe_def subscribers_of_def
      mock_mesh_veil_def veil.defs mesh_veil.defs mock_veil_def bind_apply catch_apply lift_apply modify_apply gets_apply ok_apply
      with_payload_and_trust_def or_default_def indexed_def Let_def)

theorem bus_messages_cleared_witness:
  "\<exists>new. w_messages (final (run_bus answering_bus [Subscribe ''*'' ''s'', Send message0]) mworld0) = new \<and> length new = 2 \<and>
     list_all (cleared mock_mesh_veil ''default'' (w_sha mworld0)) new"
proof -
  have "mesh.steps mock_mesh_veil ''default'' (send bus0 message0)"
    using mesh_bus(1) [OF respectful_bus0, of message0] by (simp add: bus0_def)
  then have "respectful answering_bus"
    by (auto simp: respectful_def answering_bus_def bus0_def intro!: mesh.steps_intros)
  from bus_messages_cleared [OF this HOL.refl, of "[Subscribe ''*'' ''s'', Send message0]" mworld0] answering_run show ?thesis
    by (simp add: answering_bus_def bus0_def)
qed

section \<open>Broadcasts\<close>

text \<open>A VEIL client that answers every call and allows every exchange.\<close>

definition consenting :: "mesh_veil \<Rightarrow> bool" where
  "consenting V \<longleftrightarrow> (\<forall>a b c. \<exists>r. v_check V a b c = Inr (True, r)) \<and> (\<forall>a b c. \<exists>r. v_sanitize V a b c = Inr r) \<and>
     (\<forall>a b c. \<exists>r. v_token V a b c = Inr r) \<and> (\<forall>a b c. \<exists>r. v_audit V a b c = Inr r)"

lemma secure_exchange_consenting:
  assumes "consenting V"
  shows "\<exists>m. secure_exchange V tenant msg w = (Inr m, w) \<and> ms_source m = ms_source msg \<and> ms_destination m = ms_destination msg \<and>
    ms_type m = ms_type msg \<and> ms_correlation m = ms_correlation msg \<and> ms_task m = ms_task msg \<and>
    (\<exists>red. v_sanitize V (ms_source msg) tenant (ms_payload msg) = Inr (ms_payload m, red))"
proof -
  obtain r where c: "v_check V (ms_source msg) (''mesh.'' @ ms_type msg) (message_as_dict msg) = Inr (True, r)"
    using assms unfolding consenting_def by metis
  obtain p red where s: "v_sanitize V (ms_source msg) tenant (ms_payload msg) = Inr (p, red)"
    using assms unfolding consenting_def by (metis surj_pair)
  obtain tok exp where t: "v_token V (ms_source msg) [''mesh.exchange''] 300 = Inr (tok, exp)"
    using assms unfolding consenting_def by (metis surj_pair)
  obtain i acc where a: "v_audit V (ms_source msg) ''mesh.exchange'' (audit_payload msg) = Inr (i, acc)"
    using assms unfolding consenting_def by (metis surj_pair)
  from c s t a show ?thesis
    by (simp add: secure_exchange_def bind_apply lift_apply gets_apply ok_apply with_payload_and_trust_def)
qed

text \<open>One of the messages of a broadcast.\<close>

definition copy_for :: "('z mworld_scheme) bus \<Rightarrow> mesh_message \<Rightarrow> string \<Rightarrow> mesh_message \<Rightarrow> bool" where
  "copy_for B msg i m \<longleftrightarrow> ms_source m = ms_source msg \<and> ms_destination m = Some i \<and> ms_type m = ''broadcast'' \<and>
     ms_correlation m = ms_correlation msg \<and> ms_task m = ms_task msg \<and>
     (\<exists>red. v_sanitize (bus_veil B) (ms_source msg) (bus_tenant B) (ms_payload msg) = Inr (ms_payload m, red))"

definition keeps_bus :: "'z mworld_scheme \<Rightarrow> 'z mworld_scheme \<Rightarrow> bool" where
  "keeps_bus w w' \<longleftrightarrow> w_messages w' = w_messages w \<and> w_agents w' = w_agents w"

interpretation bus_kept: step_contract keeps_bus
  by unfold_locales (auto simp: keeps_bus_def)

text \<open>Subscribers that leave the messages and the directory alone, and subscribers that never raise.\<close>

definition listening :: "('z mworld_scheme) bus \<Rightarrow> bool" where
  "listening B \<longleftrightarrow> (\<forall>s m. bus_kept.steps (bus_call B s m))"

definition unfailing :: "('z mworld_scheme) bus \<Rightarrow> bool" where
  "unfailing B \<longleftrightarrow> (\<forall>s m w. \<exists>w'. bus_call B s m w = (Inr (), w'))"

definition heard :: "('z mworld_scheme) bus \<Rightarrow> 'z mworld_scheme \<Rightarrow> bool" where
  "heard B w \<longleftrightarrow> consenting (bus_veil B) \<and> (w_subscribers w = [] \<or> unfailing B)"

lemma secure_exchange_Inr:
  assumes "secure_exchange V tenant msg w = (Inr m, w')"
  shows "w' = w \<and> ms_source m = ms_source msg \<and> ms_destination m = ms_destination msg \<and>
    ms_type m = ms_type msg \<and> ms_correlation m = ms_correlation msg \<and> ms_task m = ms_task msg \<and>
    (\<exists>red. v_sanitize V (ms_source msg) tenant (ms_payload msg) = Inr (ms_payload m, red))"
  using assms
  by (auto simp: secure_exchange_def bind_eq_Inr_iff lift_apply gets_apply ok_apply raise_apply with_payload_and_trust_def split: if_splits)

lemma callbacks:
  assumes "listening B"
  shows "keeps_bus w (final (forM (\<lambda>s. bus_call B s m) ss) w)"
    "unfailing B \<Longrightarrow> \<exists>w'. forM (\<lambda>s. bus_call B s m) ss w = (Inr (), w')"
proof -
  show "keeps_bus w (final (forM (\<lambda>s. bus_call B s m) ss) w)"
    using assms by (intro bus_kept.stepsD bus_kept.steps_forM) (simp add: listening_def)
  show "\<exists>w'. forM (\<lambda>s. bus_call B s m) ss w = (Inr (), w')" if "unfailing B"
  proof (induction ss arbitrary: w)
    case (Cons s ss)
    obtain w1 where "bus_call B s m w = (Inr (), w1)" using \<open>unfailing B\<close> unfolding unfailing_def by blast
    with Cons.IH [of w1] show ?case by (simp add: bind_apply)
  qed (simp add: ok_apply)
qed

lemma send_copy:
  assumes "listening B" "map_of (w_agents w) i = Some e"
    "bind (new_message (ms_source msg) (Some i) (ms_payload msg) ''broadcast'' (ms_correlation msg) (ms_task msg)) (send B) w = (r, w')"
  shows "w_agents w' = w_agents w"
    "r = Inr m \<Longrightarrow> copy_for B msg i m \<and> w_messages w' = w_messages w @ [m]"
    "r = Inl x \<Longrightarrow> w_messages w' = w_messages w \<or> (\<exists>m. copy_for B msg i m \<and> w_messages w' = w_messages w @ [m])"
    "heard B w \<Longrightarrow> heard B w' \<and> (\<exists>m. r = Inr m)"
proof -
  define c where "c = \<lparr>ms_source = ms_source msg, ms_destination = Some i, ms_payload = ms_payload msg, ms_type = ''broadcast'',
    ms_timestamp = now w, ms_correlation = ms_correlation msg, ms_task = ms_task msg, ms_signature = [], ms_trust = []\<rparr>"
  have n: "send B c (tick w) = (r, w')"
    using assms(3) by (simp add: new_message_def bind_apply utc_now_apply ok_apply c_def)
  have same: "w_agents (tick w) = w_agents w" "w_messages (tick w) = w_messages w" "w_subscribers (tick w) = w_subscribers w" by (simp_all add: tick_def)
  have "w_agents w' = w_agents w \<and>
    (case r of Inr m \<Rightarrow> copy_for B msg i m \<and> w_messages w' = w_messages w @ [m]
     | Inl x \<Rightarrow> w_messages w' = w_messages w \<or> (\<exists>m. copy_for B msg i m \<and> w_messages w' = w_messages w @ [m])) \<and>
    (heard B w \<longrightarrow> heard B w' \<and> (\<exists>m. r = Inr m))"
  proof (cases "secure_exchange (bus_veil B) (bus_tenant B) c (tick w)")
    case (Pair q v)
    have v: "v = tick w" using secure_exchange_state [of "bus_veil B" "bus_tenant B" c "tick w"] Pair by simp
    show ?thesis
    proof (cases q)
      case (Inl x)
      then have "\<not> consenting (bus_veil B)"
        using secure_exchange_consenting [of "bus_veil B" "bus_tenant B" c "tick w"] Pair by auto
      moreover have "r = Inl x" "w' = tick w"
        using n Pair v Inl assms(2) by (simp_all add: send_def Let_def bind_apply gets_apply c_def same split: if_splits)
      ultimately show ?thesis by (simp add: same heard_def)
    next
      case (Inr m)
      have m: "copy_for B msg i m"
        using secure_exchange_Inr [of "bus_veil B" "bus_tenant B" c "tick w" m v] Pair Inr by (auto simp: copy_for_def c_def)
      let ?w = "(tick w)\<lparr>w_messages := w_messages w @ [m]\<rparr>" and ?ss = "subscribers_of (or_default i ''*'')"
      let ?calls = "forM (\<lambda>s. bus_call B s m) (?ss ?w)"
      have r: "bind ?calls (\<lambda>_. ok m) ?w = (r, w')"
        using n Pair v Inr assms(2) by (simp add: send_def Let_def bind_apply gets_apply c_def same deliver_def modify_apply split: if_splits sum.splits prod.splits)
      have w': "w' = final ?calls ?w" using r by (auto simp: bind_apply ok_apply split: prod.splits sum.splits)
      have k: "w_messages w' = w_messages w @ [m]" "w_agents w' = w_agents w"
        using callbacks(1) [OF assms(1), of ?w m "?ss ?w"] unfolding w' [symmetric] by (simp_all add: keeps_bus_def same)
      have "r = Inr m \<or> (\<exists>x. r = Inl x)" using r by (auto simp: bind_apply ok_apply split: prod.splits sum.splits)
      moreover have "heard B w' \<and> r = Inr m" if "heard B w"
      proof (cases "w_subscribers w = []")
        case True
        then have "?ss ?w = []" by (simp add: subscribers_of_def indexed_def same)
        with r that True show ?thesis by (simp add: bind_apply ok_apply heard_def same) (auto simp: same)
      next
        case False
        with that have "unfailing B" by (simp add: heard_def)
        with callbacks(2) [OF assms(1) this, of m "?ss ?w" ?w] r that show ?thesis by (auto simp: bind_apply ok_apply heard_def)
      qed
      ultimately show ?thesis using k m by auto
    qed
  qed
  then show "w_agents w' = w_agents w" "r = Inr m \<Longrightarrow> copy_for B msg i m \<and> w_messages w' = w_messages w @ [m]"
    "r = Inl x \<Longrightarrow> w_messages w' = w_messages w \<or> (\<exists>m. copy_for B msg i m \<and> w_messages w' = w_messages w @ [m])"
    "heard B w \<Longrightarrow> heard B w' \<and> (\<exists>m. r = Inr m)" by auto
qed

text \<open>The copies a broadcast has put on the bus: those of the first agents, all of them if it returned.\<close>

definition copies_sent :: "('z mworld_scheme) bus \<Rightarrow> mesh_message \<Rightarrow> string list \<Rightarrow> mesh_message list result \<Rightarrow> mesh_message list \<Rightarrow> bool" where
  "copies_sent B msg is r sent \<longleftrightarrow> length sent \<le> length is \<and> list_all2 (copy_for B msg) (take (length sent) is) sent \<and>
     (case r of Inl e \<Rightarrow> True | Inr ms \<Rightarrow> ms = sent \<and> length sent = length is)"

lemma broadcast_copies:
  assumes "listening B" "\<And>e. e \<in> set es \<Longrightarrow> map_of (w_agents w) (id_agent (de_identity e)) = Some e"
    "mapM (\<lambda>e. bind (new_message (ms_source msg) (Some (id_agent (de_identity e))) (ms_payload msg) ''broadcast''
      (ms_correlation msg) (ms_task msg)) (send B)) es w = (r, w')"
  shows "(\<exists>sent. w_messages w' = w_messages w @ sent \<and> copies_sent B msg (map (\<lambda>e. id_agent (de_identity e)) es) r sent) \<and>
    (heard B w \<longrightarrow> (\<exists>sent. r = Inr sent))"
  using assms(2,3)
proof (induction es arbitrary: w r w')
  case Nil
  then show ?case by (auto simp: ok_apply copies_sent_def)
next
  case (Cons e es)
  let ?i = "id_agent (de_identity e)"
  let ?f = "\<lambda>e. bind (new_message (ms_source msg) (Some (id_agent (de_identity e))) (ms_payload msg) ''broadcast''
      (ms_correlation msg) (ms_task msg)) (send B)"
  obtain q v where q: "?f e w = (q, v)" by (cases "?f e w")
  note one = send_copy [OF assms(1) Cons.prems(1) [of e, simplified] q]
  show ?case
  proof (cases q)
    case (Inl x)
    then have "r = Inl x" "w' = v" using Cons.prems(2) q by (simp_all add: bind_Inl [of "?f e", OF q [unfolded Inl]])
    moreover obtain sent where "w_messages v = w_messages w @ sent" "sent = [] \<or> (\<exists>m. sent = [m] \<and> copy_for B msg ?i m)"
      using one(3) [OF Inl] by auto
    ultimately show ?thesis using one(4) Inl by (auto simp: copies_sent_def)
  next
    case (Inr m)
    have m: "copy_for B msg ?i m" "w_messages v = w_messages w @ [m]" using one(2) [OF Inr] by auto
    obtain q2 v2 where q2: "mapM ?f es v = (q2, v2)" by (cases "mapM ?f es v")
    have "\<And>x. x \<in> set es \<Longrightarrow> map_of (w_agents v) (id_agent (de_identity x)) = Some x" using Cons.prems(1) one(1) by simp
    note ih = Cons.IH [OF this q2]
    obtain sent where sent: "w_messages v2 = w_messages v @ sent" "copies_sent B msg (map (\<lambda>e. id_agent (de_identity e)) es) q2 sent"
      using ih by blast
    have r: "w' = v2" "r = (case q2 of Inl x \<Rightarrow> Inl x | Inr ms \<Rightarrow> Inr (m # ms))"
      using Cons.prems(2) by (auto simp: bind_Inr [of "?f e", OF q [unfolded Inr]] bind_apply [of "mapM ?f es"] q2 ok_apply split: sum.splits)
    have "w_messages w' = w_messages w @ m # sent" using r(1) sent(1) m(2) by simp
    moreover have "copies_sent B msg (map (\<lambda>e. id_agent (de_identity e)) (e # es)) r (m # sent)"
      using sent(2) m(1) r(2) by (auto simp: copies_sent_def split: sum.splits)
    ultimately show ?thesis using ih one(4) r(2) by auto
  qed
qed

text \<open>
  C35. What a broadcast puts on the bus: in a consistent directory, with subscribers that leave the bus
  and the directory alone, and whatever VEIL answers, the messages it adds are one copy for each of the first of the
  registered agents other than the source, in the order of registration, each with the
  correlation and task of the original and the payload sanitized for it; when it returns, it returns
  these copies and no agent is left out. It does return when VEIL answers and allows every exchange
  and there are no subscribers, as in the server, or none that raises; a denial by VEIL, or an
  error of a subscriber, ends it after the copies already sent.
\<close>

theorem broadcast_reaches_all_others:
  assumes "directory_ok w" "listening B" "broadcast B msg w = (r, w')"
  shows "(\<exists>sent. w_messages w' = w_messages w @ sent \<and>
      copies_sent B msg (filter (\<lambda>i. i \<noteq> ms_source msg) (map fst (w_agents w))) r sent) \<and>
    (consenting (bus_veil B) \<and> (w_subscribers w = [] \<or> unfailing B) \<longrightarrow> (\<exists>sent. r = Inr sent))"
proof -
  let ?es = "filter (\<lambda>e. id_agent (de_identity e) \<noteq> ms_source msg) (map snd (w_agents w))"
  have id: "id_agent (de_identity e) = i \<and> map_of (w_agents w) i = Some e" if "(i, e) \<in> set (w_agents w)" for i e
    using assms(1) that by (auto simp: directory_ok_def is_dict_def)
  then have *: "\<And>e. e \<in> set ?es \<Longrightarrow> map_of (w_agents w) (id_agent (de_identity e)) = Some e" by force
  have "mapM (\<lambda>e. bind (new_message (ms_source msg) (Some (id_agent (de_identity e))) (ms_payload msg) ''broadcast''
      (ms_correlation msg) (ms_task msg)) (send B)) ?es w = (r, w')"
    using assms(3) by (simp add: broadcast_def list_agents_def bind_apply gets_apply)
  note copies = broadcast_copies [OF assms(2) * this, unfolded heard_def]
  have "map (\<lambda>e. id_agent (de_identity e)) (map snd (w_agents w)) = map fst (w_agents w)" using id by auto
  from this [symmetric] have "filter (\<lambda>i. i \<noteq> ms_source msg) (map fst (w_agents w)) = map (\<lambda>e. id_agent (de_identity e)) ?es"
    by (simp only: filter_map comp_def)
  with copies show ?thesis by simp
qed

theorem broadcast_reaches_all_others_witness:
  "let w = final (run_directory [Register (passport0 ''a'' [''coding'']) ''healthy'', Register (passport0 ''b'' []) ''healthy'',
       Register (passport0 ''c'' []) ''ill'']) mworld0 in
   \<exists>sent w'. broadcast bus0 message0 w = (Inr sent, w') \<and> w_messages w' = w_messages w @ sent \<and>
     list_all2 (copy_for bus0 message0) [''b'', ''c''] sent"
proof -
  let ?w = "final (run_directory [Register (passport0 ''a'' [''coding'']) ''healthy'', Register (passport0 ''b'' []) ''healthy'',
       Register (passport0 ''c'' []) ''ill'']) mworld0"
  have "directory_ok ?w"
    using dir.stepsD [OF dir_run, of mworld0] directory_ok_empty [of mworld0] by (simp add: keeps_directory_def)
  moreover have "listening bus0" by (simp add: listening_def bus0_def bus_kept.steps_ok)
  moreover obtain r w' where b: "broadcast bus0 message0 ?w = (r, w')" by (cases "broadcast bus0 message0 ?w")
  ultimately have all: "(\<exists>sent. w_messages w' = w_messages ?w @ sent \<and>
      copies_sent bus0 message0 (filter (\<lambda>i. i \<noteq> ms_source message0) (map fst (w_agents ?w))) r sent) \<and>
    (consenting (bus_veil bus0) \<and> (w_subscribers ?w = [] \<or> unfailing bus0) \<longrightarrow> (\<exists>sent. r = Inr sent))"
    by (rule broadcast_reaches_all_others)
  have "consenting (bus_veil bus0)"
    by (auto simp: consenting_def bus0_def mock_mesh_veil_def veil.defs mesh_veil.defs mock_veil_def)
  moreover have ag: "w_subscribers ?w = []" "map fst (w_agents ?w) = [''a'', ''b'', ''c'']"
    by (simp_all add: run_directory_def catch_apply bind_apply register_apply ok_apply enrolled_def tick_def)
  ultimately obtain sent where r: "r = Inr sent" using all by blast
  have "filter (\<lambda>i. i \<noteq> ms_source message0) (map fst (w_agents ?w)) = [''b'', ''c'']" unfolding ag by (simp add: message0_def)
  with all r have "w_messages w' = w_messages ?w @ sent \<and> list_all2 (copy_for bus0 message0) [''b'', ''c''] sent"
    by (auto simp: copies_sent_def)
  with b r show ?thesis unfolding Let_def by blast
qed

section \<open>The audit log\<close>

lemma audit_identity [audit_steps]: "audit.steps (is_valid_at c t)" "audit.steps (passport_validate p)" "audit.steps (passport_as_dict p)"
  "audit.steps (entry_as_dict e)" "audit.steps (mesh_passport q)"
  unfolding is_valid_at_def passport_validate_def passport_as_dict_def entry_as_dict_def mesh_passport_def identity_create_def certificate_issue_def
  by (intro audit.steps_intros audit_steps)+

lemma audit_mesh_fields [audit_steps]:
  "audit.steps (modify (\<lambda>w. w\<lparr>w_agents := a w\<rparr>))" "audit.steps (modify (\<lambda>w. w\<lparr>w_capabilities := b w\<rparr>))"
  "audit.steps (modify (\<lambda>w. w\<lparr>w_agents := [], w_capabilities := []\<rparr>))"
  "audit.steps (modify (\<lambda>w. w\<lparr>w_messages := m w\<rparr>))" "audit.steps (modify (\<lambda>w. w\<lparr>w_subscribers := s w\<rparr>))"
  by (auto simp: audit.steps_def modify_apply intro!: audit_local)

lemma audit_directory [audit_steps]: "audit.steps (register p health)" "audit.steps (update_health i health)" "audit.steps build_default_directory"
  "audit.steps (find_by_capability c v h)" "audit.steps (discover c v h)" "audit.steps (run_directory_cmd x)"
proof -
  show r: "audit.steps (register p health)" for p health
    unfolding register_def Let_def by (intro audit.steps_intros audit_steps)
  show u: "audit.steps (update_health i health)" for i health
    unfolding update_health_def by (intro audit.steps_intros audit_steps)
  show "audit.steps build_default_directory" unfolding build_default_directory_def by (intro audit.steps_intros audit_steps r)
  show f: "audit.steps (find_by_capability c v h)" unfolding find_by_capability_def Let_def by (intro audit.steps_intros)
  show "audit.steps (discover c v h)" unfolding discover_def by (intro audit.steps_intros audit_steps f)
  show "audit.steps (run_directory_cmd x)" by (cases x) (auto intro!: audit.steps_intros r u)
qed

lemma audit_exchange [audit_steps]: "audit.steps (secure_exchange V tenant msg)" "audit.steps (new_message src dst payload ty corr task)"
  unfolding secure_exchange_def new_message_def by (intro audit.steps_intros audit_steps)+

text \<open>A bus whose subscribers leave the audit log to its operations.\<close>

definition audited_bus :: "('z mworld_scheme) bus \<Rightarrow> bool" where
  "audited_bus B \<longleftrightarrow> (\<forall>s m. audit.steps (bus_call B s m))"

lemma audit_bus:
  assumes "audited_bus B"
  shows "audit.steps (send B msg)" "audit.steps (broadcast B msg)" "audit.steps (publish B topic msg)" "audit.steps (delegate_task B msg)"
proof -
  have d: "audit.steps (deliver B topic msg)" for topic msg
    unfolding deliver_def using assms by (intro audit.steps_intros audit_steps) (simp add: audited_bus_def)
  show s: "audit.steps (send B msg)" for msg unfolding send_def Let_def by (intro audit.steps_intros audit_steps d)
  show "audit.steps (broadcast B msg)" unfolding broadcast_def list_agents_def by (intro audit.steps_intros audit_steps s)
  show "audit.steps (publish B topic msg)" unfolding publish_def by (intro audit.steps_intros audit_steps d)
  show "audit.steps (delegate_task B msg)" unfolding delegate_task_def by (intro audit.steps_intros audit_steps s)
qed

lemma audit_mesh_endpoints:
  assumes "audited_bus B"
  shows "audit.steps (mesh_send B body rq)" "audit.steps (mesh_broadcast B body rq)"
  unfolding mesh_send_def mesh_broadcast_def req_as_def given_or_fresh_def meter_record_def Let_def
  by (intro audit.steps_intros audit_steps audit_bus assms; simp)+

lemma audit_run_bus:
  assumes "audited_bus B"
  shows "audit.steps (run_bus_cmd B c)"
  by (cases c) (auto intro!: audit.steps_intros audit_steps audit_bus audit_mesh_endpoints assms simp: subscribe_def)

end
