(* ===== verification/Agent_Memory.thy ===== *)
theory Agent_Memory
  imports Mesh
begin

text \<open>
  Durable memory of agents (\<^verbatim>\<open>agentfabric/memory\<close>): records with their index by agent, tenant and workflow,
  the retention policy, the store over the document store, and the endpoints of \<^verbatim>\<open>server/app.py\<close> on
  memory.
\<close>

section \<open>Records\<close>

record memory_record =
  me_agent :: string
  me_tenant :: string
  me_workflow :: "string option"
  me_classification :: string
  me_content :: obj
  me_refs :: "string list"
  me_type :: string
  me_id :: string
  me_created_at :: datetime
  me_accessed_at :: datetime

definition touch :: "memory_record \<Rightarrow> ('z world_scheme, memory_record) op" where
  "touch r = bind utc_now (\<lambda>t. ok (r\<lparr>me_accessed_at := t\<rparr>))"

definition memory_as_dict :: "memory_record \<Rightarrow> obj" where
  "memory_as_dict r = [
     (''memory_id'', JStr (me_id r)),
     (''owner_agent_id'', JStr (me_agent r)),
     (''tenant_id'', JStr (me_tenant r)),
     (''source_workflow_id'', opt_json (me_workflow r)),
     (''classification'', JStr (me_classification r)),
     (''content'', JObj (me_content r)),
     (''veil_token_refs'', strs (me_refs r)),
     (''memory_type'', JStr (me_type r)),
     (''created_at'', JStr (isoformat (me_created_at r))),
     (''last_accessed_at'', JStr (isoformat (me_accessed_at r)))]"

definition memory_from_dict :: "obj \<Rightarrow> ('s, memory_record) op" where
  "memory_from_dict d =
     bind (lift (req_str d ''memory_id'')) (\<lambda>i.
     bind (lift (req_str d ''owner_agent_id'')) (\<lambda>agent.
     bind (lift (req_str d ''tenant_id'')) (\<lambda>tenant.
     bind (lift (req_str d ''classification'')) (\<lambda>cls.
     bind (lift (dict_or d ''content'')) (\<lambda>content.
     bind (lift (strs_or d ''veil_token_refs'' [])) (\<lambda>refs.
     bind (lift (req_time d ''created_at'')) (\<lambda>created.
     bind (lift (req_time d ''last_accessed_at'')) (\<lambda>accessed.
     ok \<lparr>me_agent = agent, me_tenant = tenant, me_workflow = opt_str d ''source_workflow_id'', me_classification = cls,
         me_content = content, me_refs = refs, me_type = str_or d ''memory_type'' ''short_term'', me_id = i,
         me_created_at = created, me_accessed_at = accessed\<rparr>))))))))"

section \<open>Policy\<close>

record memory_policy =
  mp_short_ttl :: int
  mp_long_ttl :: "int option"
  mp_allow_delete :: bool

definition default_memory_policy :: memory_policy where
  "default_memory_policy = \<lparr>mp_short_ttl = 7, mp_long_ttl = None, mp_allow_delete = True\<rparr>"

definition memory_expired :: "memory_policy \<Rightarrow> memory_record \<Rightarrow> datetime option \<Rightarrow> ('z world_scheme, bool) op" where
  "memory_expired P r given =
     bind (case given of Some t \<Rightarrow> ok t | None \<Rightarrow> utc_now) (\<lambda>current.
     case (if me_type r = ''short_term'' then Some (mp_short_ttl P) else mp_long_ttl P) of
       None \<Rightarrow> ok False
     | Some days \<Rightarrow> bind (lift (dt_add (me_created_at r) (days * day_us))) (\<lambda>until. ok (until \<le> current)))"

definition can_delete :: "memory_policy \<Rightarrow> memory_record \<Rightarrow> bool" where
  "can_delete P r \<longleftrightarrow> mp_allow_delete P \<and> me_classification r \<noteq> ''legal_hold''"

section \<open>The index\<close>

text \<open>A \<^verbatim>\<open>defaultdict(set)\<close> is the function that gives the set of each key.\<close>

record memory_index =
  mi_agent :: "string \<Rightarrow> string set"
  mi_tenant_agent :: "string \<times> string \<Rightarrow> string set"
  mi_workflow :: "string \<Rightarrow> string set"

definition empty_index :: memory_index where
  "empty_index = \<lparr>mi_agent = (\<lambda>_. {}), mi_tenant_agent = (\<lambda>_. {}), mi_workflow = (\<lambda>_. {})\<rparr>"

definition at_key :: "('s \<Rightarrow> 's) \<Rightarrow> 'k \<Rightarrow> ('k \<Rightarrow> 's) \<Rightarrow> 'k \<Rightarrow> 's" where
  "at_key f k m = m(k := f (m k))"

definition index_change :: "(string set \<Rightarrow> string set) \<Rightarrow> memory_record \<Rightarrow> memory_index \<Rightarrow> memory_index" where
  "index_change f r x = \<lparr>mi_agent = at_key f (me_agent r) (mi_agent x),
     mi_tenant_agent = at_key f (me_tenant r, me_agent r) (mi_tenant_agent x),
     mi_workflow = (case nonempty (me_workflow r) of None \<Rightarrow> mi_workflow x | Some i \<Rightarrow> at_key f i (mi_workflow x))\<rparr>"

definition memory_index_add :: "memory_record \<Rightarrow> memory_index \<Rightarrow> memory_index" where
  "memory_index_add r = index_change (insert (me_id r)) r"

definition memory_index_remove :: "memory_record \<Rightarrow> memory_index \<Rightarrow> memory_index" where
  "memory_index_remove r = index_change (\<lambda>s. s - {me_id r}) r"

section \<open>The store\<close>

record aworld = mworld +
  w_memories :: "memory_record dict"
  w_memory_index :: memory_index

definition keep_memory :: "memory_record \<Rightarrow> ('z aworld_scheme, unit) op" where
  "keep_memory r = modify (\<lambda>w. w\<lparr>w_memories := AList.update (me_id r) r (w_memories w), w_memory_index := memory_index_add r (w_memory_index w)\<rparr>)"

definition memory_open :: "('z aworld_scheme, unit) op" where
  "memory_open =
     bind (modify (\<lambda>w. w\<lparr>w_memories := [], w_memory_index := empty_index\<rparr>)) (\<lambda>_.
     bind (on_store mem_initialize) (\<lambda>_.
     bind (on_store (mem_list ''runtime_memory'')) (\<lambda>items.
     forM (\<lambda>d. bind (memory_from_dict d) keep_memory) items)))"

definition persist_memory :: "memory_record \<Rightarrow> ('z world_scheme, unit) op" where
  "persist_memory r = on_store (mem_put ''runtime_memory'' (me_id r) (memory_as_dict r))"

definition memory_put :: "memory_record \<Rightarrow> ('z aworld_scheme, memory_record) op" where
  "memory_put r =
     bind (reject_raw_sensitive (JObj (me_content r))) (\<lambda>_.
     bind (keep_memory r) (\<lambda>_.
     bind (persist_memory r) (\<lambda>_.
     ok r)))"

definition memory_create ::
    "string \<Rightarrow> string \<Rightarrow> obj \<Rightarrow> string \<Rightarrow> string option \<Rightarrow> string list \<Rightarrow> string \<Rightarrow> ('z aworld_scheme, memory_record) op" where
  "memory_create agent tenant content cls workflow refs ty =
     bind uuid_hex12 (\<lambda>hex.
     bind utc_now (\<lambda>created.
     bind utc_now (\<lambda>accessed.
     memory_put \<lparr>me_agent = agent, me_tenant = tenant, me_workflow = workflow, me_classification = cls, me_content = content,
       me_refs = refs, me_type = ty, me_id = ''mem-'' @ hex, me_created_at = created, me_accessed_at = accessed\<rparr>)))"

definition memory_at :: "memory_record dict \<Rightarrow> string \<Rightarrow> memory_record result" where
  "memory_at rs i = (case map_of rs i of None \<Rightarrow> Inl (KeyError i) | Some r \<Rightarrow> Inr r)"

definition access_memory :: "memory_record \<Rightarrow> ('z aworld_scheme, memory_record) op" where
  "access_memory r =
     bind (touch r) (\<lambda>r'.
     bind (modify (\<lambda>w. w\<lparr>w_memories := AList.update (me_id r') r' (w_memories w)\<rparr>)) (\<lambda>_.
     bind (persist_memory r') (\<lambda>_.
     ok r')))"

definition list_for_agent :: "string \<Rightarrow> string \<Rightarrow> ('z aworld_scheme, memory_record list) op" where
  "list_for_agent tenant agent =
     bind (gets (\<lambda>w. sorted_list_of_set (mi_tenant_agent (w_memory_index w) (tenant, agent)))) (\<lambda>ids.
     bind (gets w_memories) (\<lambda>rs.
     bind (lift (map_result (memory_at rs) ids)) (mapM access_memory)))"

definition memory_delete :: "memory_policy \<Rightarrow> string \<Rightarrow> string \<Rightarrow> string \<Rightarrow> ('z aworld_scheme, bool) op" where
  "memory_delete P tenant agent i =
     bind (gets w_memories) (\<lambda>rs. case map_of rs i of
       None \<Rightarrow> ok False
     | Some r \<Rightarrow>
         if me_tenant r \<noteq> tenant \<or> me_agent r \<noteq> agent then ok False
         else if \<not> can_delete P r then raise (PermissionError ''memory deletion denied by policy'')
         else
           bind (modify (\<lambda>w. w\<lparr>w_memory_index := memory_index_remove r (w_memory_index w), w_memories := AList.delete i (w_memories w)\<rparr>)) (\<lambda>_.
           on_store (mem_delete ''runtime_memory'' i)))"

definition retain_or_remove :: "memory_policy \<Rightarrow> memory_record \<Rightarrow> ('z aworld_scheme, nat) op" where
  "retain_or_remove P r =
     bind (memory_expired P r None) (\<lambda>expired.
     if expired \<and> can_delete P r
     then bind (memory_delete P (me_tenant r) (me_agent r) (me_id r)) (\<lambda>gone. ok (if gone then 1 else 0))
     else ok 0)"

definition enforce_retention :: "memory_policy \<Rightarrow> ('z aworld_scheme, nat) op" where
  "enforce_retention P =
     bind (gets w_memories) (\<lambda>rs.
     bind (mapM (retain_or_remove P) (map snd rs)) (\<lambda>removed. ok (sum_list removed)))"

section \<open>The endpoints\<close>

definition memory_list :: "string \<Rightarrow> request \<Rightarrow> ('z aworld_scheme, obj) op" where
  "memory_list agent rq =
     bind (require_scopes rq [''memory.read''] None) (\<lambda>p.
     bind (tenant_context_of rq) (\<lambda>_.
     bind (list_for_agent (pc_tenant p) agent) (\<lambda>rs.
     ok [(''items'', JList (map (\<lambda>r. JObj (memory_as_dict r)) rs)), (''total'', JInt (int (length rs)))])))"

fun as_strs :: "json \<Rightarrow> string list result" where
  "as_strs (JList xs) = map_result as_str xs"
| "as_strs _ = Inl (TypeError ''expected list of str'')"

definition memory_create_endpoint :: "string \<Rightarrow> obj \<Rightarrow> request \<Rightarrow> ('z aworld_scheme, obj) op" where
  "memory_create_endpoint agent body rq =
     scoped rq ''memory.write'' (\<lambda>ctx.
     bind (consume_for (tc_tenant ctx) ''memory_records'') (\<lambda>_.
     bind (lift (as_opt_str (get_or body ''source_workflow_id'' JNull))) (\<lambda>workflow.
     bind (lift (as_str (get_or body ''classification'' (JStr ''internal'')))) (\<lambda>cls.
     bind (lift (as_mapping (get_or body ''content'' (JObj [])))) (\<lambda>content.
     bind (lift (as_strs (get_or body ''veil_token_refs'' (JList [])))) (\<lambda>refs.
     bind (lift (as_str (get_or body ''memory_type'' (JStr ''short_term'')))) (\<lambda>ty.
     bind (catch (memory_create agent (tc_tenant ctx) content cls workflow refs ty)
             (\<lambda>e. case e of ValueError m \<Rightarrow> raise (http_error 400 m) | _ \<Rightarrow> raise e)) (\<lambda>r.
     bind (es_append ''memory.recorded'' agent
             [(''memory_id'', JStr (me_id r)), (''tenant_id'', JStr (tc_tenant ctx)), (''organization_id'', JStr (tc_organization ctx))]) (\<lambda>_.
     bind (meter_record (tc_tenant ctx) ''memory_writes'' 1 [(''memory_id'', JStr (me_id r))]) (\<lambda>_.
     ok (memory_as_dict r)))))))))))"

definition memory_delete_endpoint :: "memory_policy \<Rightarrow> string \<Rightarrow> string \<Rightarrow> request \<Rightarrow> ('z aworld_scheme, obj) op" where
  "memory_delete_endpoint P agent i rq =
     bind (tenant_context_of rq) (\<lambda>ctx.
     bind (require_scopes rq [''memory.delete''] None) (\<lambda>p.
     bind (catch (memory_delete P (pc_tenant p) agent i)
             (\<lambda>e. case e of PermissionError m \<Rightarrow> raise (http_error 403 m) | _ \<Rightarrow> raise e)) (\<lambda>deleted.
     if \<not> deleted then raise (http_error 404 ''memory not found'')
     else
       bind (es_append ''memory.deleted'' agent
               [(''memory_id'', JStr i), (''tenant_id'', JStr (tc_tenant ctx)), (''organization_id'', JStr (tc_organization ctx))]) (\<lambda>_.
       ok [(''deleted'', JBool True), (''memory_id'', JStr i)]))))"

section \<open>The store is consistent with its index and its documents\<close>

definition mem_norm :: "memory_record \<Rightarrow> memory_record" where
  "mem_norm r = r\<lparr>me_workflow := nonempty (me_workflow r)\<rparr>"

lemma mem_norm_simps [simp]: "me_agent (mem_norm r) = me_agent r" "me_tenant (mem_norm r) = me_tenant r" "me_id (mem_norm r) = me_id r"
  "me_classification (mem_norm r) = me_classification r" "me_content (mem_norm r) = me_content r" "mem_norm (mem_norm r) = mem_norm r"
  by (simp_all add: mem_norm_def)

lemma memory_round_trip: "memory_from_dict (memory_as_dict r) w = (Inr (mem_norm r), w)"
proof -
  have o: "(if truthy (opt_json x) then Some (py_str (opt_json x)) else None) = nonempty x" for x
    using opt_str_opt_json [of x] by (simp add: Let_def)
  show ?thesis
    by (simp add: memory_from_dict_def memory_as_dict_def record_defs req_time_def op_simps o mem_norm_def)
qed

text \<open>The same memory, read at another time or read back from its document.\<close>

definition same_memory :: "memory_record \<Rightarrow> memory_record \<Rightarrow> bool" where
  "same_memory r r' \<longleftrightarrow> mem_norm r' = (mem_norm r)\<lparr>me_accessed_at := me_accessed_at r'\<rparr>"

lemma same_memory_refl [simp]: "same_memory r r"
  by (simp add: same_memory_def mem_norm_def)

lemma same_memory_trans: "same_memory r r' \<Longrightarrow> same_memory r' r'' \<Longrightarrow> same_memory r r''"
  by (cases r; cases r'; cases r'') (simp add: same_memory_def mem_norm_def)

lemma same_memory_simps: "same_memory r r' \<Longrightarrow> me_tenant r' = me_tenant r" "same_memory r r' \<Longrightarrow> me_agent r' = me_agent r"
  "same_memory r r' \<Longrightarrow> me_id r' = me_id r" "same_memory r r' \<Longrightarrow> me_classification r' = me_classification r"
  "same_memory r r' \<Longrightarrow> me_content r' = me_content r"
  by (cases r; cases r'; simp add: same_memory_def mem_norm_def)+

definition doc_of_memory :: "obj \<Rightarrow> memory_record \<Rightarrow> bool" where
  "doc_of_memory d r \<longleftrightarrow> (\<exists>r0. d = memory_as_dict r0 \<and> mem_norm r0 = mem_norm r)"

abbreviation memory_docs :: "'z world_scheme \<Rightarrow> obj dict" where
  "memory_docs w \<equiv> coll (w_store w) ''runtime_memory''"

text \<open>The records are filed under their identifiers, and every record has its document.\<close>

definition records_ok :: "'z aworld_scheme \<Rightarrow> bool" where
  "records_ok w \<longleftrightarrow> is_dict (w_memories w) \<and> is_dict (memory_docs w) \<and>
     (\<forall>i r. map_of (w_memories w) i = Some r \<longrightarrow> me_id r = i) \<and>
     (\<forall>i. rel_option doc_of_memory (map_of (memory_docs w) i) (map_of (w_memories w) i))"

text \<open>An identifier the store will not draw any more.\<close>

definition past_id :: "'z world_scheme \<Rightarrow> string \<Rightarrow> bool" where
  "past_id w i \<longleftrightarrow> (\<forall>n \<ge> w_uuids w. i \<noteq> ''mem-'' @ w_uuid w n)"

text \<open>The index lists exactly the records of each tenant and agent; identifiers are drawn once.\<close>

definition index_ok :: "'z aworld_scheme \<Rightarrow> bool" where
  "index_ok w \<longleftrightarrow> inj (w_uuid w) \<and> (\<forall>i r. map_of (w_memories w) i = Some r \<longrightarrow> past_id w i) \<and>
     (\<forall>t a. mi_tenant_agent (w_memory_index w) (t, a) =
        {i. \<exists>r. map_of (w_memories w) i = Some r \<and> me_tenant r = t \<and> me_agent r = a})"

definition memory_ok :: "'z aworld_scheme \<Rightarrow> bool" where
  "memory_ok w \<longleftrightarrow> records_ok w \<and> index_ok w"

lemma records_ok_id: "records_ok w \<Longrightarrow> map_of (w_memories w) i = Some r \<Longrightarrow> me_id r = i"
  by (simp add: records_ok_def)

text \<open>
  The contract of the operations: the records, and where \<open>b\<close> the index too, stay consistent, and of the
  memories \<open>X\<close> those the policy does not allow to delete stay.
\<close>

definition kept :: "bool \<Rightarrow> 'z aworld_scheme \<Rightarrow> bool" where
  "kept b w \<longleftrightarrow> records_ok w \<and> (b \<longrightarrow> index_ok w)"

definition memory_step :: "bool \<Rightarrow> memory_policy \<Rightarrow> string set \<Rightarrow> 'z aworld_scheme \<Rightarrow> 'z aworld_scheme \<Rightarrow> bool" where
  "memory_step b P X w w' \<longleftrightarrow> (kept b w \<longrightarrow> kept b w' \<and>
     (\<forall>i \<in> X. \<forall>r. map_of (w_memories w) i = Some r \<and> \<not> can_delete P r \<and> past_id w i \<longrightarrow>
        past_id w' i \<and> (\<exists>r'. map_of (w_memories w') i = Some r' \<and> same_memory r r')))"

lemma can_delete_same: "same_memory r r' \<Longrightarrow> can_delete P r' = can_delete P r"
  by (simp add: can_delete_def same_memory_simps)

interpretation memories: step_contract "memory_step b P X" for b P X
proof
  show "memory_step b P X w w" for b P X and w :: "'z aworld_scheme" by (auto simp: memory_step_def)
next
  show "memory_step b P X w1 w3" if "memory_step b P X w1 w2" "memory_step b P X w2 w3" for b P X and w1 w2 w3 :: "'z aworld_scheme"
    using that unfolding memory_step_def by (meson can_delete_same same_memory_trans)
qed

named_theorems memory_steps \<open>operations that keep the contract of the memory store\<close>

lemma memory_frame:
  assumes "w_memories w' = w_memories w" "w_memory_index w' = w_memory_index w" "memory_docs w' = memory_docs w"
    "w_uuid w' = w_uuid w" "w_uuids w \<le> w_uuids w'"
  shows "memory_step b P X w w'"
proof -
  have "past_id w i \<Longrightarrow> past_id w' i" for i using assms(4,5) by (auto simp: past_id_def)
  then show ?thesis by (auto simp: memory_step_def kept_def records_ok_def index_ok_def assms(1-4))
qed

lemma memories_quiet:
  assumes "\<And>w. let w' = snd (m w) in w_memories w' = w_memories w \<and> w_memory_index w' = w_memory_index w \<and>
    memory_docs w' = memory_docs w \<and> w_uuid w' = w_uuid w \<and> w_uuids w \<le> w_uuids w'"
  shows "memories.steps b P X m"
  unfolding memories.steps_def using assms by (auto simp: Let_def intro!: memory_frame)

lemma memories_world [memory_steps]: "memories.steps b P X utc_now" "memories.steps b P X uuid_hex12"
  "memories.steps b P X (modify (\<lambda>w. w\<lparr>w_usage := f w\<rparr>))"
  by (rule memories_quiet; simp add: Let_def utc_now_def uuid_hex12_def modify_apply)+

lemma memories_es_append [memory_steps]: "memories.steps b P X (es_append ty ag p)"
  by (rule memories_quiet, cases "registered ty")
    (auto simp: Let_def es_append_registered es_append_unregistered events_put_def coll_mem_put)

lemma memories_reads [memory_steps]: "memories.steps b P X (on_store (mem_get c k))" "memories.steps b P X (on_store (mem_list c))"
  by (rule memories_quiet; simp add: Let_def on_store_def mem_get_def mem_list_def gets_apply)+

lemma memories_put [memory_steps]: "c \<noteq> ''runtime_memory'' \<Longrightarrow> memories.steps b P X (on_store (mem_put c k v))"
  by (rule memories_quiet) (auto simp: Let_def on_put put_doc_def coll_mem_put)

text \<open>Changes of one memory: a new one, another time of access, a deletion.\<close>

definition remember :: "memory_record \<Rightarrow> 'z aworld_scheme \<Rightarrow> 'z aworld_scheme" where
  "remember r w = put_doc ''runtime_memory'' (me_id r) (memory_as_dict r)
     (w\<lparr>w_memories := AList.update (me_id r) r (w_memories w), w_memory_index := memory_index_add r (w_memory_index w)\<rparr>)"

definition accessed :: "memory_record \<Rightarrow> 'z aworld_scheme \<Rightarrow> 'z aworld_scheme" where
  "accessed r w = put_doc ''runtime_memory'' (me_id r) (memory_as_dict r) (w\<lparr>w_memories := AList.update (me_id r) r (w_memories w)\<rparr>)"

lemma remember_simps [simp]: "w_memories (remember r w) = AList.update (me_id r) r (w_memories w)"
  "w_memory_index (remember r w) = memory_index_add r (w_memory_index w)" "w_uuid (remember r w) = w_uuid w" "w_uuids (remember r w) = w_uuids w"
  "memory_docs (remember r w) = AList.update (me_id r) (memory_as_dict r) (memory_docs w)"
  by (simp_all add: remember_def put_doc_def coll_mem_put)

lemma accessed_simps [simp]: "w_memories (accessed r w) = AList.update (me_id r) r (w_memories w)"
  "w_memory_index (accessed r w) = w_memory_index w" "w_uuid (accessed r w) = w_uuid w" "w_uuids (accessed r w) = w_uuids w"
  "memory_docs (accessed r w) = AList.update (me_id r) (memory_as_dict r) (memory_docs w)"
  by (simp_all add: accessed_def put_doc_def coll_mem_put)

lemma doc_of_own [simp]: "doc_of_memory (memory_as_dict r) r"
  by (auto simp: doc_of_memory_def)

lemma index_add_simps [simp]:
  "mi_tenant_agent (memory_index_add r x) (t, a) = mi_tenant_agent x (t, a) \<union> (if t = me_tenant r \<and> a = me_agent r then {me_id r} else {})"
  by (simp add: memory_index_add_def index_change_def at_key_def)

lemma index_remove_simps [simp]:
  "mi_tenant_agent (memory_index_remove r x) (t, a) = mi_tenant_agent x (t, a) - (if t = me_tenant r \<and> a = me_agent r then {me_id r} else {})"
  by (simp add: memory_index_remove_def index_change_def at_key_def)

text \<open>A record that may be put without moving a memory to another owner or taking a future identifier.\<close>

definition put_fits :: "memory_record \<Rightarrow> 'z aworld_scheme \<Rightarrow> bool" where
  "put_fits r w \<longleftrightarrow> past_id w (me_id r) \<and>
     (\<forall>q. map_of (w_memories w) (me_id r) = Some q \<longrightarrow> me_tenant q = me_tenant r \<and> me_agent q = me_agent r)"

lemma kept_remember:
  assumes "kept b w" "b \<longrightarrow> put_fits r w"
  shows "kept b (remember r w)"
proof -
  let ?w = "remember r w"
  have "records_ok ?w" using assms(1) by (auto simp: kept_def records_ok_def split: if_splits)
  moreover have "index_ok ?w" if b
  proof -
    have ok: "index_ok w" and fits: "put_fits r w" using assms that by (simp_all add: kept_def)
    have past: "past_id ?w i = past_id w i" for i by (simp add: past_id_def)
    have "mi_tenant_agent (w_memory_index ?w) (t, a) = {i. \<exists>q. map_of (w_memories ?w) i = Some q \<and> me_tenant q = t \<and> me_agent q = a}" for t a
      using ok fits by (auto simp: index_ok_def put_fits_def)
    with ok fits show ?thesis by (auto simp: index_ok_def put_fits_def past split: if_splits)
  qed
  ultimately show ?thesis by (simp add: kept_def)
qed

lemma kept_accessed:
  assumes "kept b w" "map_of (w_memories w) (me_id r) = Some r"
  shows "kept b (accessed (r\<lparr>me_accessed_at := t\<rparr>) w)"
proof -
  let ?w = "accessed (r\<lparr>me_accessed_at := t\<rparr>) w"
  have "records_ok ?w"
    unfolding records_ok_def
  proof (intro conjI allI impI)
    show "is_dict (w_memories ?w)" "is_dict (memory_docs ?w)" using assms(1) by (simp_all add: kept_def records_ok_def)
    show "me_id q = i" if "map_of (w_memories ?w) i = Some q" for i q
      using that assms(1) records_ok_id [of w i] by (cases "i = me_id r") (auto simp: kept_def)
    show "rel_option doc_of_memory (map_of (memory_docs ?w) i) (map_of (w_memories ?w) i)" for i
      using assms(1) by (simp add: kept_def records_ok_def)
  qed
  moreover have "index_ok ?w" if b
  proof -
    have ok: "index_ok w" using assms(1) that by (simp add: kept_def)
    have "(\<exists>q. map_of (w_memories ?w) i = Some q \<and> me_tenant q = t \<and> me_agent q = a) \<longleftrightarrow>
        (\<exists>q. map_of (w_memories w) i = Some q \<and> me_tenant q = t \<and> me_agent q = a)" for i t a
      using assms(2) by (cases "i = me_id r") simp_all
    moreover have "past_id ?w i = past_id w i" for i by (simp add: past_id_def)
    ultimately show ?thesis using ok assms(2) by (auto simp: index_ok_def split: if_splits)
  qed
  ultimately show ?thesis by (simp add: kept_def)
qed

section \<open>The operations keep the contract\<close>

lemma memories_reject [memory_steps]: "memories.steps b P X (reject_raw_sensitive v)"
  unfolding reject_raw_sensitive_def by (intro memories.steps_intros)

definition drawn :: "'z world_scheme \<Rightarrow> 'z world_scheme" where
  "drawn w = w\<lparr>w_uuids := Suc (w_uuids w)\<rparr>"

definition new_memory :: "string \<Rightarrow> string \<Rightarrow> obj \<Rightarrow> string \<Rightarrow> string option \<Rightarrow> string list \<Rightarrow> string \<Rightarrow> 'z world_scheme \<Rightarrow> memory_record" where
  "new_memory agent tenant content cls workflow refs ty w = \<lparr>me_agent = agent, me_tenant = tenant, me_workflow = workflow,
     me_classification = cls, me_content = content, me_refs = refs, me_type = ty, me_id = ''mem-'' @ w_uuid w (w_uuids w),
     me_created_at = now w, me_accessed_at = now (tick w)\<rparr>"

lemma memory_create_apply:
  "memory_create agent tenant content cls workflow refs ty w = (if has_raw (JObj content)
     then (Inl (ValueError ''raw sensitive values must remain behind VEIL/Aegis references''), tick (tick (drawn w)))
     else (Inr (new_memory agent tenant content cls workflow refs ty w),
           remember (new_memory agent tenant content cls workflow refs ty w) (tick (tick (drawn w)))))"
  by (simp add: memory_create_def bind_apply uuid_hex12_def utc_now_apply memory_put_def reject_raw_sensitive_def guard_def ok_apply raise_apply
      keep_memory_def modify_apply persist_memory_def on_put new_memory_def remember_def drawn_def tick_def del: has_raw.simps)

lemma memories_create [memory_steps]: "memories.steps b P X (memory_create agent tenant content cls workflow refs ty)"
  unfolding memories.steps_def
proof
  fix w :: "'z aworld_scheme"
  let ?w = "tick (tick (drawn w))" and ?r = "new_memory agent tenant content cls workflow refs ty w"
  have s: "memory_step b P X w ?w" by (rule memory_frame) (simp_all add: tick_def drawn_def)
  have mems: "w_memories ?w = w_memories w" by (simp add: tick_def drawn_def)
  have new: "\<not> past_id w (me_id ?r)" by (auto simp: past_id_def new_memory_def)
  have later: "past_id (remember ?r ?w) i" if "past_id w i" for i
    using that by (auto simp: past_id_def tick_def drawn_def)
  have "memory_step b P X w (remember ?r ?w)"
    unfolding memory_step_def
  proof
    assume ok: "kept b w"
    then have "kept b ?w" using s by (simp add: memory_step_def)
    moreover have "put_fits ?r ?w" if b
    proof -
      have "inj (w_uuid w)" "map_of (w_memories w) (me_id ?r) = None"
        using ok that new by (auto simp: kept_def index_ok_def)
      then show ?thesis by (fastforce simp: put_fits_def past_id_def mems tick_def drawn_def new_memory_def inj_def)
    qed
    ultimately have "kept b (remember ?r ?w)" by (simp add: kept_remember)
    moreover have "map_of (w_memories (remember ?r ?w)) i = map_of (w_memories w) i" if "past_id w i" for i
      using that new by (auto simp: mems)
    ultimately show "kept b (remember ?r ?w) \<and> (\<forall>i \<in> X. \<forall>r. map_of (w_memories w) i = Some r \<and> \<not> can_delete P r \<and> past_id w i \<longrightarrow>
        past_id (remember ?r ?w) i \<and> (\<exists>r'. map_of (w_memories (remember ?r ?w)) i = Some r' \<and> same_memory r r'))"
      using later by auto
  qed
  with s show "memory_step b P X w (snd (memory_create agent tenant content cls workflow refs ty w))"
    by (simp add: memory_create_apply del: has_raw.simps)
qed

text \<open>A record put from outside.\<close>

lemma memory_put_apply:
  "memory_put r w = (if has_raw (JObj (me_content r))
     then (Inl (ValueError ''raw sensitive values must remain behind VEIL/Aegis references''), w) else (Inr r, remember r w))"
  by (simp add: memory_put_def bind_apply reject_raw_sensitive_def guard_def ok_apply raise_apply keep_memory_def modify_apply
      persist_memory_def on_put remember_def del: has_raw.simps)

lemma memory_put_step:
  assumes "me_id r \<notin> X" "b \<longrightarrow> put_fits r w"
  shows "memory_step b P X w (final (memory_put r) w)"
proof -
  have "past_id (remember r w) i = past_id w i" for i by (simp add: past_id_def)
  moreover have "kept b (remember r w)" if "kept b w" using kept_remember [OF that assms(2)] .
  ultimately have "memory_step b P X w (remember r w)" using assms(1) by (auto simp: memory_step_def)
  then show ?thesis by (simp add: memory_put_apply memories.refl del: has_raw.simps)
qed

lemma memories_delete [memory_steps]: "memories.steps b P X (memory_delete P tenant agent i)"
  unfolding memories.steps_def
proof
  fix w :: "'z aworld_scheme"
  show "memory_step b P X w (snd (memory_delete P tenant agent i w))"
  proof (cases "\<exists>r. map_of (w_memories w) i = Some r \<and> me_tenant r = tenant \<and> me_agent r = agent \<and> can_delete P r")
    case False
    then have "snd (memory_delete P tenant agent i w) = w"
      by (auto simp: memory_delete_def bind_apply gets_apply ok_apply raise_apply split: option.split)
    then show ?thesis by (simp add: memories.refl)
  next
    case True
    then obtain r where r: "map_of (w_memories w) i = Some r" "me_tenant r = tenant" "me_agent r = agent" "can_delete P r" by blast
    let ?w = "snd (memory_delete P tenant agent i w)"
    have w': "w_memories ?w = AList.delete i (w_memories w)" "w_memory_index ?w = memory_index_remove r (w_memory_index w)"
      "memory_docs ?w = AList.delete i (memory_docs w)" "w_uuid ?w = w_uuid w" "w_uuids ?w = w_uuids w"
      using r by (auto simp: memory_delete_def bind_apply gets_apply modify_apply on_store_def mem_delete_def coll_update AList.delete_id map_of_eq_None_iff)
    show ?thesis unfolding memory_step_def
    proof
      assume ok: "kept b w"
      have id: "me_id r = i" using records_ok_id r(1) ok by (auto simp: kept_def)
      have past: "past_id ?w j = past_id w j" for j by (simp add: past_id_def w')
      have "records_ok ?w" using ok by (auto simp: kept_def records_ok_def w' split: if_splits)
      moreover have "index_ok ?w" if b
      proof -
        have ix: "index_ok w" using ok that by (simp add: kept_def)
        have "mi_tenant_agent (w_memory_index ?w) (t, a) = {j. \<exists>q. map_of (w_memories ?w) j = Some q \<and> me_tenant q = t \<and> me_agent q = a}" for t a
          using ix r id by (auto simp: w' index_ok_def)
        with ix show ?thesis by (auto simp: index_ok_def w' past split: if_splits)
      qed
      moreover have "\<exists>r'. map_of (w_memories ?w) j = Some r' \<and> same_memory q r'" if "map_of (w_memories w) j = Some q" "\<not> can_delete P q" for j q
        using that r by (auto simp: w')
      ultimately show "kept b ?w \<and> (\<forall>j \<in> X. \<forall>q. map_of (w_memories w) j = Some q \<and> \<not> can_delete P q \<and> past_id w j \<longrightarrow>
          past_id ?w j \<and> (\<exists>r'. map_of (w_memories ?w) j = Some r' \<and> same_memory q r'))" by (simp add: kept_def past)
    qed
  qed
qed

lemma memories_retention [memory_steps]: "memories.steps b P X (enforce_retention P)"
  unfolding enforce_retention_def retain_or_remove_def memory_expired_def by (intro memories.steps_intros memory_steps)

lemma access_memory_apply: "access_memory r w = (Inr (r\<lparr>me_accessed_at := now w\<rparr>), accessed (r\<lparr>me_accessed_at := now w\<rparr>) (tick w))"
  by (simp add: access_memory_def touch_def bind_apply utc_now_apply ok_apply modify_apply persist_memory_def on_put accessed_def)

lemma access_all:
  assumes "kept b w" "distinct (map me_id rs)" "\<And>r. r \<in> set rs \<Longrightarrow> map_of (w_memories w) (me_id r) = Some r"
  shows "\<exists>rs' w'. mapM access_memory rs w = (Inr rs', w') \<and> memory_step b P X w w' \<and>
    list_all2 (\<lambda>r r'. r' = r\<lparr>me_accessed_at := me_accessed_at r'\<rparr>) rs rs'"
  using assms
proof (induction rs arbitrary: w)
  case Nil
  then show ?case by (simp add: ok_apply memories.refl)
next
  case (Cons r rs)
  let ?r = "r\<lparr>me_accessed_at := now w\<rparr>"
  let ?w = "accessed ?r (tick w)"
  have tick: "memory_step b P X w (tick w)" by (rule memory_frame) (simp_all add: tick_def)
  then have ok: "kept b (tick w)" using Cons.prems(1) by (simp add: memory_step_def)
  have r: "map_of (w_memories w) (me_id r) = Some r" using Cons.prems(3) by simp
  then have r': "map_of (w_memories (tick w)) (me_id r) = Some r" by (simp add: tick_def)
  have ok': "kept b ?w" using kept_accessed [OF ok r'] .
  have same: "\<exists>q'. map_of (w_memories ?w) i = Some q' \<and> same_memory q q'" if "map_of (w_memories w) i = Some q" for i q
    using that r by (auto simp: tick_def same_memory_def mem_norm_def)
  have past: "past_id ?w i = past_id w i" for i by (simp add: past_id_def tick_def)
  have step: "memory_step b P X w ?w" using ok' same past by (simp add: memory_step_def)
  have "map_of (w_memories ?w) (me_id q) = Some q" if "q \<in> set rs" for q
  proof -
    have "me_id q \<in> set (map me_id rs)" "me_id r \<notin> set (map me_id rs)" using that Cons.prems(2) by simp_all
    then have "me_id q \<noteq> me_id r" by metis
    with that Cons.prems(3) show ?thesis by (simp add: tick_def)
  qed
  from Cons.IH [OF ok' _ this] Cons.prems(2) obtain rs' w' where "mapM access_memory rs ?w = (Inr rs', w')" "memory_step b P X ?w w'"
    "list_all2 (\<lambda>r r'. r' = r\<lparr>me_accessed_at := me_accessed_at r'\<rparr>) rs rs'" by auto
  moreover from this(2) step have "memory_step b P X w w'" by (blast intro: memories.trans)
  ultimately show ?case by (simp add: bind_Inr [OF access_memory_apply] bind_Inr [of "mapM access_memory rs"] ok_apply)
qed

definition ids_of_agent :: "string \<Rightarrow> string \<Rightarrow> 'z aworld_scheme \<Rightarrow> string list" where
  "ids_of_agent tenant agent w = sorted_list_of_set {i. \<exists>r. map_of (w_memories w) i = Some r \<and> me_tenant r = tenant \<and> me_agent r = agent}"

lemma memories_fetched:
  assumes "records_ok w" "map_result (memory_at (w_memories w)) ids = Inr rs"
  shows "map me_id rs = ids \<and> (\<forall>r \<in> set rs. map_of (w_memories w) (me_id r) = Some r)"
  using assms(2)
proof (induction ids arbitrary: rs)
  case (Cons i ids)
  then obtain r rs' where r: "map_of (w_memories w) i = Some r" "map_result (memory_at (w_memories w)) ids = Inr rs'" "rs = r # rs'"
    unfolding map_result.simps by (auto simp: memory_at_def [of _ i] split: option.splits sum.splits)
  with Cons.IH [OF r(2)] records_ok_id [OF assms(1) r(1)] show ?case by simp
qed simp

lemma memories_list [memory_steps]: "memories.steps b P X (list_for_agent tenant agent)"
  unfolding memories.steps_def
proof
  fix w :: "'z aworld_scheme"
  let ?ids = "sorted_list_of_set (mi_tenant_agent (w_memory_index w) (tenant, agent))"
  have run: "list_for_agent tenant agent w = bind (lift (map_result (memory_at (w_memories w)) ?ids)) (mapM access_memory) w"
    by (simp add: list_for_agent_def bind_apply gets_apply)
  show "memory_step b P X w (snd (list_for_agent tenant agent w))"
  proof (cases "map_result (memory_at (w_memories w)) ?ids")
    case (Inr rs)
    show ?thesis
    proof (cases "kept b w")
      case True
      then have rs: "map me_id rs = ?ids" "\<And>r. r \<in> set rs \<Longrightarrow> map_of (w_memories w) (me_id r) = Some r"
        using memories_fetched [OF _ Inr] by (auto simp: kept_def)
      have "distinct (map me_id rs)" unfolding rs(1) by simp
      from access_all [OF True this rs(2), of P X] Inr show ?thesis by (auto simp: run bind_apply lift_apply)
    qed (simp add: memory_step_def)
  qed (simp add: run bind_apply lift_apply raise_apply memories.refl)
qed

lemma list_for_agent_run:
  assumes "memory_ok w"
  shows "\<exists>rs w'. list_for_agent tenant agent w = (Inr rs, w') \<and> memory_step True P {} w w' \<and> map me_id rs = ids_of_agent tenant agent w \<and>
    (\<forall>r \<in> set rs. \<exists>r0. map_of (w_memories w) (me_id r) = Some r0 \<and> r = r0\<lparr>me_accessed_at := me_accessed_at r\<rparr>)"
proof -
  let ?S = "{i. \<exists>r. map_of (w_memories w) i = Some r \<and> me_tenant r = tenant \<and> me_agent r = agent}"
  let ?ids = "ids_of_agent tenant agent w" and ?at = "\<lambda>i. the (map_of (w_memories w) i)"
  have fin: "finite ?S" by (rule finite_subset [of _ "dom (map_of (w_memories w))"]) (auto simp: finite_dom_map_of)
  have ids: "sorted_list_of_set (mi_tenant_agent (w_memory_index w) (tenant, agent)) = ?ids"
    using assms by (simp add: memory_ok_def index_ok_def ids_of_agent_def)
  have at: "map_of (w_memories w) i = Some (?at i) \<and> me_id (?at i) = i" if "i \<in> set ?ids" for i
    using that fin records_ok_id [of w i] assms by (auto simp: ids_of_agent_def memory_ok_def)
  then have res: "map_result (memory_at (w_memories w)) ?ids = Inr (map ?at ?ids)"
    by (intro map_result_all_Inr) (auto simp: memory_at_def split: option.split)
  have mid: "map me_id (map ?at ?ids) = ?ids" using at by (simp add: map_idI)
  have stored: "map_of (w_memories w) (me_id r) = Some r" if "r \<in> set (map ?at ?ids)" for r
  proof -
    from that obtain i where "i \<in> set ?ids" "r = ?at i" by auto
    with at [of i] show ?thesis by simp
  qed
  have "distinct (map me_id (map ?at ?ids))" unfolding mid by (simp add: ids_of_agent_def)
  from access_all [of True, OF _ this stored, of P "{}"] assms obtain rs w' where rs: "mapM access_memory (map ?at ?ids) w = (Inr rs, w')" "memory_step True P {} w w'"
    "list_all2 (\<lambda>r r'. r' = r\<lparr>me_accessed_at := me_accessed_at r'\<rparr>) (map ?at ?ids) rs"
    by (auto simp: kept_def memory_ok_def)
  have "map me_id rs = map me_id (map ?at ?ids)"
  proof -
    have "list_all2 (\<lambda>r r'. me_id r = me_id r') (map ?at ?ids) rs"
      by (rule list_all2_mono [OF rs(3)]) (metis memory_record.select_convs(8) memory_record.surjective memory_record.update_convs(10))
    then show ?thesis by (simp add: list_all2_conv_all_nth list_eq_iff_nth_eq)
  qed
  moreover have "\<exists>r0. map_of (w_memories w) (me_id r) = Some r0 \<and> r = r0\<lparr>me_accessed_at := me_accessed_at r\<rparr>" if "r \<in> set rs" for r
  proof -
    from that obtain k where k: "k < length rs" "r = rs ! k" by (metis in_set_conv_nth)
    then have "r = (map ?at ?ids ! k)\<lparr>me_accessed_at := me_accessed_at r\<rparr>" and len: "length rs = length ?ids"
      using rs(3) by (auto simp: list_all2_conv_all_nth)
    moreover from k len have "map ?at ?ids ! k = ?at (?ids ! k)" "?ids ! k \<in> set ?ids" by simp_all
    moreover from this have "map_of (w_memories w) (?ids ! k) = Some (?at (?ids ! k)) \<and> me_id (?at (?ids ! k)) = ?ids ! k" using at by blast
    ultimately show ?thesis by (metis memory_record.select_convs(8) memory_record.surjective memory_record.update_convs(10))
  qed
  ultimately show ?thesis
    using rs mid by (intro exI [of _ rs] exI [of _ w']) (simp add: list_for_agent_def bind_apply gets_apply ids res lift_apply)
qed

section \<open>Opening a store over its documents\<close>

lemma keep_all:
  "forM (\<lambda>d. bind (memory_from_dict d) keep_memory) (map memory_as_dict rs) w =
     (Inr (), w\<lparr>w_memories := foldl (\<lambda>m (i, r). AList.update i r m) (w_memories w) (map (\<lambda>r. (me_id r, mem_norm r)) rs),
       w_memory_index := foldl (\<lambda>x r. memory_index_add (mem_norm r) x) (w_memory_index w) rs\<rparr>)"
proof (induction rs arbitrary: w)
  case (Cons r rs)
  show ?case
    using Cons.IH by (simp add: bind_apply memory_round_trip keep_memory_def modify_apply)
qed (simp add: ok_apply)

lemma index_of_all:
  "mi_tenant_agent (foldl (\<lambda>x r. memory_index_add (mem_norm r) x) x rs) (t, a) =
     mi_tenant_agent x (t, a) \<union> {me_id r |r. r \<in> set rs \<and> me_tenant r = t \<and> me_agent r = a}"
  by (induction rs arbitrary: x) auto

lemma documents_are_memories:
  assumes "records_ok w"
  shows "\<exists>rs. map snd (sorted_items (memory_docs w)) = map memory_as_dict rs \<and> distinct (map me_id rs) \<and>
    (\<forall>i. map_of (w_memories w) i = None \<longleftrightarrow> i \<notin> me_id ` set rs) \<and>
    (\<forall>r \<in> set rs. \<exists>q. map_of (w_memories w) (me_id r) = Some q \<and> mem_norm r = mem_norm q)"
proof -
  let ?ds = "sorted_items (memory_docs w)"
  have docs: "rel_option doc_of_memory (map_of (memory_docs w) i) (map_of (w_memories w) i)" for i
    using assms by (simp add: records_ok_def)
  have dict: "is_dict (memory_docs w)" using assms by (simp add: records_ok_def)
  have "\<exists>r. snd p = memory_as_dict r \<and> me_id r = fst p \<and> (\<exists>q. map_of (w_memories w) (fst p) = Some q \<and> mem_norm r = mem_norm q)"
    if "p \<in> set ?ds" for p
  proof -
    obtain i d where p: "p = (i, d)" by fastforce
    then have "map_of (memory_docs w) i = Some d" using that dict by (simp add: map_of_eq_Some_iff_dict)
    then obtain q where q: "map_of (w_memories w) i = Some q" "doc_of_memory d q" using docs [of i] by (auto simp: option_rel_Some1)
    then obtain r where r: "d = memory_as_dict r" "mem_norm r = mem_norm q" by (auto simp: doc_of_memory_def)
    then have "me_id r = me_id q" by (metis mem_norm_simps(3))
    with q r p records_ok_id [OF assms q(1)] show ?thesis by auto
  qed
  then obtain f where f: "\<And>p. p \<in> set ?ds \<Longrightarrow> snd p = memory_as_dict (f p) \<and> me_id (f p) = fst p \<and>
      (\<exists>q. map_of (w_memories w) (fst p) = Some q \<and> mem_norm (f p) = mem_norm q)" by metis
  have ids: "map me_id (map f ?ds) = map fst ?ds" using f by simp
  have "map snd ?ds = map memory_as_dict (map f ?ds)" using f by simp
  moreover have "distinct (map me_id (map f ?ds))" unfolding ids using dict by (simp add: is_dict_def [symmetric])
  moreover have "map_of (w_memories w) i = None \<longleftrightarrow> i \<notin> me_id ` set (map f ?ds)" for i
  proof -
    have "set (map me_id (map f ?ds)) = set (map fst ?ds)" by (simp only: ids)
    then have "me_id ` set (map f ?ds) = fst ` set (memory_docs w)" by (simp add: image_image)
    moreover have "map_of (w_memories w) i = None \<longleftrightarrow> map_of (memory_docs w) i = None" using docs [of i] by (cases "map_of (memory_docs w) i") (auto simp: option_rel_Some1)
    ultimately show ?thesis by (simp add: map_of_eq_None_iff)
  qed
  moreover have "\<exists>q. map_of (w_memories w) (me_id r) = Some q \<and> mem_norm r = mem_norm q" if "r \<in> set (map f ?ds)" for r
    using that f by auto
  ultimately show ?thesis by blast
qed

lemma memory_open_run:
  assumes "records_ok w"
  shows "\<exists>w'. memory_open w = (Inr (), w') \<and> records_ok w' \<and> (index_ok w \<longrightarrow> index_ok w') \<and>
    w_uuid w' = w_uuid w \<and> w_uuids w' = w_uuids w \<and> (\<forall>i. map_of (w_memories w') i = map_option mem_norm (map_of (w_memories w) i))"
proof -
  obtain rs where rs: "map snd (sorted_items (memory_docs w)) = map memory_as_dict rs" "distinct (map me_id rs)"
    "\<And>i. map_of (w_memories w) i = None \<longleftrightarrow> i \<notin> me_id ` set rs"
    "\<And>r. r \<in> set rs \<Longrightarrow> \<exists>q. map_of (w_memories w) (me_id r) = Some q \<and> mem_norm r = mem_norm q"
    using documents_are_memories [OF assms] by blast
  define ms where "ms = map (\<lambda>r. (me_id r, mem_norm r)) rs"
  have dict: "is_dict ms" using rs(2) by (simp add: ms_def is_dict_def comp_def)
  have m: "foldl (\<lambda>m (i, r). AList.update i r m) [] ms = ms" using dict_of_pairs_id [OF dict] by (simp add: dict_of_pairs_def)
  define w0 where "w0 = snd (on_store mem_initialize (w\<lparr>w_memories := [], w_memory_index := empty_index\<rparr>))"
  define w' where "w' = w0\<lparr>w_memories := ms, w_memory_index := foldl (\<lambda>x r. memory_index_add (mem_norm r) x) empty_index rs\<rparr>"
  have w0: "w_memories w0 = []" "w_memory_index w0 = empty_index" "memory_docs w0 = memory_docs w" "w_uuid w0 = w_uuid w" "w_uuids w0 = w_uuids w"
    by (simp_all add: w0_def on_store_def mem_initialize_def modify_apply coll_setdefault)
  have run: "memory_open w = (Inr (), w')"
  proof -
    have "memory_open w = forM (\<lambda>d. bind (memory_from_dict d) keep_memory) (map memory_as_dict rs) w0"
      using rs(1) w0(3) by (simp add: memory_open_def bind_apply modify_apply w0_def on_store_def mem_initialize_def mem_list_def gets_apply)
    then show ?thesis using m by (simp add: keep_all w0 w'_def ms_def)
  qed
  have look: "map_of ms i = map_option mem_norm (map_of (w_memories w) i)" for i
  proof (cases "map_of (w_memories w) i")
    case None
    then have "i \<notin> fst ` set ms" using rs(3) [of i] by (simp add: ms_def image_image)
    then have "map_of ms i = None" by (simp add: map_of_eq_None_iff)
    with None show ?thesis by simp
  next
    case (Some q)
    then obtain r where r: "r \<in> set rs" "me_id r = i" using rs(3) [of i] by auto
    then have "mem_norm r = mem_norm q" using rs(4) [of r] Some by simp
    moreover from r have "(i, mem_norm r) \<in> set ms" by (auto simp: ms_def)
    ultimately show ?thesis using Some dict by (simp add: map_of_eq_Some_iff_dict)
  qed
  have docs: "rel_option doc_of_memory (map_of (memory_docs w') i) (map_of (w_memories w') i)" for i
  proof -
    have "rel_option doc_of_memory (map_of (memory_docs w) i) (map_of (w_memories w) i)" using assms by (simp add: records_ok_def)
    then show ?thesis by (cases "map_of (memory_docs w) i"; cases "map_of (w_memories w) i") (auto simp: w'_def w0 look doc_of_memory_def)
  qed
  have "records_ok w'"
    using dict assms docs records_ok_id [OF assms] by (auto simp: records_ok_def w'_def w0 look)
  moreover have "mi_tenant_agent (w_memory_index w') (t, a) = {i. \<exists>r. map_of (w_memories w') i = Some r \<and> me_tenant r = t \<and> me_agent r = a}" for t a
    using dict by (auto simp: w'_def index_of_all empty_index_def map_of_eq_Some_iff_dict ms_def)
  then have "index_ok w \<longrightarrow> index_ok w'" by (auto simp: index_ok_def past_id_def w'_def w0 look)
  ultimately show ?thesis using run look by (auto simp: w'_def w0)
qed

lemma memories_open [memory_steps]: "memories.steps b P X memory_open"
  unfolding memories.steps_def memory_step_def
proof (intro allI impI)
  fix w :: "'z aworld_scheme"
  assume ok: "kept b w"
  then obtain w' where w': "memory_open w = (Inr (), w')" "records_ok w'" "index_ok w \<longrightarrow> index_ok w'" "w_uuid w' = w_uuid w" "w_uuids w' = w_uuids w"
    "\<And>i. map_of (w_memories w') i = map_option mem_norm (map_of (w_memories w) i)" using memory_open_run [of w] by (auto simp: kept_def)
  then show "kept b (snd (memory_open w)) \<and> (\<forall>i \<in> X. \<forall>r. map_of (w_memories w) i = Some r \<and> \<not> can_delete P r \<and> past_id w i \<longrightarrow>
      past_id (snd (memory_open w)) i \<and> (\<exists>r'. map_of (w_memories (snd (memory_open w))) i = Some r' \<and> same_memory r r'))"
    using ok by (auto simp: same_memory_def mem_norm_def kept_def past_id_def)
qed

section \<open>Histories of the store\<close>

lemma memories_requests [memory_steps]:
  "memories.steps b P X (require_scopes rq scopes own)" "memories.steps b P X (get_tenant tid)" "memories.steps b P X (tenant_context_of rq)"
  "memories.steps b P X (consume_for tid counter)" "memories.steps b P X (meter_record t ty q md)"
proof -
  show rs: "memories.steps b P X (require_scopes rq scopes own)" for rq scopes own
    unfolding require_scopes_def by (intro memories.steps_intros)
  show gt: "memories.steps b P X (get_tenant tid)" for tid
    unfolding get_tenant_def tenant_from_dict_def by (intro memories.steps_intros memory_steps)
  have "memories.steps b P X (require_context c)" for c
    unfolding require_context_def tc_require_def
    by (intro memories.steps_intros) (auto split: py_error.split intro: memories.steps_raise)
  then show "memories.steps b P X (tenant_context_of rq)"
    unfolding tenant_context_of_def by (intro memories.steps_intros rs gt)
  show "memories.steps b P X (consume_for tid counter)"
    unfolding consume_for_def tenant_policy_def quota_consume_def quota_check_def tracker_increment_def tracker_usage_def Let_def
    by (intro memories.steps_intros memory_steps gt)
  show "memories.steps b P X (meter_record t ty q md)"
    unfolding meter_record_def Let_def by (intro memories.steps_intros memory_steps) simp
qed

lemma memories_endpoints [memory_steps]:
  "memories.steps b P X (memory_list agent rq)" "memories.steps b P X (memory_create_endpoint agent body rq)"
  "memories.steps b P X (memory_delete_endpoint P agent i rq)"
proof -
  have map_errors: "memories.steps b P X (case e of ValueError m \<Rightarrow> raise (f m) | _ \<Rightarrow> raise e)"
    "memories.steps b P X (case e of PermissionError m \<Rightarrow> raise (f m) | _ \<Rightarrow> raise e)" for e f
    by (auto split: py_error.split intro: memories.steps_raise)
  show "memories.steps b P X (memory_list agent rq)" "memories.steps b P X (memory_create_endpoint agent body rq)"
    "memories.steps b P X (memory_delete_endpoint P agent i rq)"
    unfolding memory_list_def memory_create_endpoint_def memory_delete_endpoint_def scoped_def
    by (intro memories.steps_intros memory_steps map_errors)+
qed

text \<open>
  The calls of the store and of its endpoints. \<open>PutMemory\<close> is the store's \<^verbatim>\<open>put\<close> of a record from outside;
  the server never calls it with a record it did not create.
\<close>

datatype memory_cmd =
    PutMemory memory_record
  | CreateMemory string string obj string "string option" "string list" string
  | ListMemory string string
  | DeleteMemory string string string
  | EnforceRetention
  | Reopen
  | MemoryList string request
  | MemoryCreate string obj request
  | MemoryDelete string string request

fun run_memory_cmd :: "memory_policy \<Rightarrow> memory_cmd \<Rightarrow> ('z aworld_scheme, unit) op" where
  "run_memory_cmd P (PutMemory r) = bind (memory_put r) (\<lambda>_. ok ())"
| "run_memory_cmd P (CreateMemory agent tenant content cls workflow refs ty) = bind (memory_create agent tenant content cls workflow refs ty) (\<lambda>_. ok ())"
| "run_memory_cmd P (ListMemory tenant agent) = bind (list_for_agent tenant agent) (\<lambda>_. ok ())"
| "run_memory_cmd P (DeleteMemory tenant agent i) = bind (memory_delete P tenant agent i) (\<lambda>_. ok ())"
| "run_memory_cmd P EnforceRetention = bind (enforce_retention P) (\<lambda>_. ok ())"
| "run_memory_cmd P Reopen = memory_open"
| "run_memory_cmd P (MemoryList agent rq) = bind (memory_list agent rq) (\<lambda>_. ok ())"
| "run_memory_cmd P (MemoryCreate agent body rq) = bind (memory_create_endpoint agent body rq) (\<lambda>_. ok ())"
| "run_memory_cmd P (MemoryDelete agent i rq) = bind (memory_delete_endpoint P agent i rq) (\<lambda>_. ok ())"

definition run_memory :: "memory_policy \<Rightarrow> memory_cmd list \<Rightarrow> ('z aworld_scheme, unit) op" where
  "run_memory P cmds = forM (\<lambda>c. catch (run_memory_cmd P c) (\<lambda>_. ok ())) cmds"

text \<open>Along the history, every record put from outside fits the state it is put in.\<close>

fun puts_fit :: "memory_policy \<Rightarrow> memory_cmd list \<Rightarrow> 'z aworld_scheme \<Rightarrow> bool" where
  "puts_fit P [] w \<longleftrightarrow> True"
| "puts_fit P (c # cmds) w \<longleftrightarrow> (case c of PutMemory r \<Rightarrow> put_fits r w | _ \<Rightarrow> True) \<and> puts_fit P cmds (final (run_memory_cmd P c) w)"

lemma memory_cmd_step:
  assumes "\<And>r. c = PutMemory r \<Longrightarrow> me_id r \<notin> X \<and> (b \<longrightarrow> put_fits r w)"
  shows "memory_step b P X w (final (run_memory_cmd P c) w)"
proof (cases c)
  case (PutMemory r)
  have "final (run_memory_cmd P c) w = final (memory_put r) w"
    by (cases "memory_put r w") (auto simp: PutMemory bind_apply ok_apply split: sum.split)
  with assms [OF PutMemory] show ?thesis by (simp add: memory_put_step)
qed (use memories.stepsD in \<open>auto intro!: memories.stepsD memories.steps_intros memory_steps\<close>)

lemma memory_run_step:
  assumes "\<And>r. PutMemory r \<in> set cmds \<Longrightarrow> me_id r \<notin> X" "b \<longrightarrow> puts_fit P cmds w"
  shows "memory_step b P X w (final (run_memory P cmds) w)"
  using assms
proof (induction cmds arbitrary: w)
  case Nil
  then show ?case by (simp add: run_memory_def ok_apply memories.refl)
next
  case (Cons c cmds)
  let ?v = "final (run_memory_cmd P c) w"
  have "memory_step b P X w ?v" using Cons.prems by (intro memory_cmd_step) auto
  moreover have "memory_step b P X ?v (final (run_memory P cmds) ?v)" using Cons.prems by (intro Cons.IH) auto
  moreover have "final (run_memory P (c # cmds)) w = final (run_memory P cmds) ?v"
    by (cases "run_memory_cmd P c w") (auto simp: run_memory_def bind_apply catch_apply ok_apply split: sum.split)
  ultimately show ?case by (metis memories.trans)
qed

lemma memory_ok_run: "memory_ok w \<Longrightarrow> puts_fit P cmds w \<Longrightarrow> memory_ok (final (run_memory P cmds) w)"
  using memory_run_step [of cmds "{}" True P w] by (simp add: memory_step_def kept_def memory_ok_def)

lemma records_ok_run: "records_ok w \<Longrightarrow> records_ok (final (run_memory P cmds) w)"
  using memory_run_step [of cmds "{}" False P w] by (simp add: memory_step_def kept_def)

text \<open>
  C36. A listing is exact: after any history of the memory store, by whatever tenants and agents, with
  refused calls, retention runs and restarts in between, \<^verbatim>\<open>list_for_agent\<close> returns without an error, in
  the order of their identifiers, exactly the memories kept for the tenant and the agent, with only
  the time of access renewed; none of another tenant or agent. A record put from outside is to fit: it
  does not give a kept memory to another tenant or agent, and its identifier is not one that the
  store draws later.
\<close>

theorem memory_listing_exact:
  assumes "memory_ok w" "puts_fit P cmds w" "w' = final (run_memory P cmds) w"
  shows "\<exists>rs w''. list_for_agent tenant agent w' = (Inr rs, w'') \<and> map me_id rs = ids_of_agent tenant agent w' \<and>
    (\<forall>r \<in> set rs. me_tenant r = tenant \<and> me_agent r = agent \<and>
       (\<exists>r0. map_of (w_memories w') (me_id r) = Some r0 \<and> r = r0\<lparr>me_accessed_at := me_accessed_at r\<rparr>))"
proof -
  obtain rs w'' where rs: "list_for_agent tenant agent w' = (Inr rs, w'')" "map me_id rs = ids_of_agent tenant agent w'"
    "\<And>r. r \<in> set rs \<Longrightarrow> \<exists>r0. map_of (w_memories w') (me_id r) = Some r0 \<and> r = r0\<lparr>me_accessed_at := me_accessed_at r\<rparr>"
    using list_for_agent_run [OF memory_ok_run [OF assms(1,2)], of tenant agent P] assms(3) by blast
  have "me_tenant r = tenant \<and> me_agent r = agent" if r: "r \<in> set rs" for r
  proof -
    let ?S = "{i. \<exists>r. map_of (w_memories w') i = Some r \<and> me_tenant r = tenant \<and> me_agent r = agent}"
    have "finite ?S" by (rule finite_subset [of _ "dom (map_of (w_memories w'))"]) (auto simp: finite_dom_map_of)
    moreover have "me_id r \<in> set (ids_of_agent tenant agent w')" using r by (simp flip: rs(2))
    ultimately have "me_id r \<in> ?S" by (simp add: ids_of_agent_def)
    moreover obtain r0 where "map_of (w_memories w') (me_id r) = Some r0" "r = r0\<lparr>me_accessed_at := me_accessed_at r\<rparr>" using rs(3) [OF r] by blast
    moreover from this(2) have "me_tenant r = me_tenant r0" "me_agent r = me_agent r0"
      by (metis memory_record.select_convs(1,2) memory_record.surjective memory_record.update_convs(10))+
    ultimately show ?thesis by simp
  qed
  with rs show ?thesis by blast
qed

text \<open>
  C37. What the policy protects stays: a memory under legal hold, or any memory when deletions are not
  allowed, survives every history of creations, listings, deletions, retention runs, restarts and
  puts of records with other identifiers, with its owner, classification and content. (A put under
  its own identifier replaces it, whatever the policy.)
\<close>

theorem held_memory_survives:
  assumes "records_ok w" "map_of (w_memories w) i = Some r" "me_classification r = ''legal_hold'' \<or> mp_allow_delete P = False"
    "past_id w i" "\<And>q. PutMemory q \<in> set cmds \<Longrightarrow> me_id q \<noteq> i"
    and "w' = final (run_memory P cmds) w"
  shows "\<exists>r'. map_of (w_memories w') i = Some r' \<and> me_tenant r' = me_tenant r \<and> me_agent r' = me_agent r \<and>
    me_classification r' = me_classification r \<and> me_content r' = me_content r"
proof -
  have "\<not> can_delete P r" using assms(3) by (auto simp: can_delete_def)
  moreover have "memory_step False P {i} w w'" using memory_run_step [of cmds "{i}" False P w] assms(5,6) by simp
  ultimately obtain r' where "map_of (w_memories w') i = Some r'" "same_memory r r'"
    using assms(1,2,4) unfolding memory_step_def kept_def by (metis insertI1)
  then show ?thesis using same_memory_simps [of r r'] by (intro exI [of _ r']) simp
qed

text \<open>
  The policy does not guard \<^verbatim>\<open>put\<close>: a record put under the identifier of a memory under legal hold
  replaces it and its document.
\<close>

theorem put_replaces_held_memory:
  assumes "\<not> has_raw (JObj (me_content r))"
  shows "map_of (w_memories (final (memory_put r) w)) (me_id r) = Some r \<and>
    map_of (memory_docs (final (memory_put r) w)) (me_id r) = Some (memory_as_dict r)"
  using assms by (simp add: memory_put_apply del: has_raw.simps)

text \<open>
  Nor does \<^verbatim>\<open>put\<close> take the replaced record out of the index: when a record of another owner is put
  under the identifier of a kept memory, the listing of the former owner returns the record of the
  new one.
\<close>

theorem put_leaves_stale_index:
  assumes "memory_ok w" "map_of (w_memories w) (me_id r) = Some q" "me_tenant q \<noteq> me_tenant r" "\<not> has_raw (JObj (me_content r))"
    "ids_of_agent (me_tenant q) (me_agent q) w = [me_id r]"
  shows "\<exists>r'. outcome (list_for_agent (me_tenant q) (me_agent q)) (final (memory_put r) w) = Inr [r'] \<and> me_tenant r' = me_tenant r"
proof -
  let ?w = "remember r w"
  have "mi_tenant_agent (w_memory_index ?w) (me_tenant q, me_agent q) = mi_tenant_agent (w_memory_index w) (me_tenant q, me_agent q)"
    using assms(3) by simp
  then have "sorted_list_of_set (mi_tenant_agent (w_memory_index ?w) (me_tenant q, me_agent q)) = [me_id r]"
    using assms(1,5) by (simp add: memory_ok_def index_ok_def ids_of_agent_def)
  then have "outcome (list_for_agent (me_tenant q) (me_agent q)) ?w = Inr [r\<lparr>me_accessed_at := now ?w\<rparr>]"
    by (simp add: list_for_agent_def bind_apply gets_apply memory_at_def lift_apply access_memory_apply ok_apply)
  with assms(4) show ?thesis by (simp add: memory_put_apply del: has_raw.simps)
qed

text \<open>
  A restart keeps all memories: after any history, a store opened over the documents holds the same
  memories under the same identifiers, up to an empty workflow identifier that reads back as none.
\<close>

theorem memory_restart:
  assumes "records_ok w" "w' = final (run_memory P cmds) w"
  shows "\<exists>w''. memory_open w' = (Inr (), w'') \<and> (\<forall>i. map_of (w_memories w'') i = map_option mem_norm (map_of (w_memories w') i))"
  using memory_open_run [OF records_ok_run [OF assms(1)], of P cmds] assms(2) by blast

definition aworld0 :: aworld where
  "aworld0 = mworld.extend mworld0 (aworld.fields [] empty_index)"

lemma aworld0_simps [simp]: "w_memories aworld0 = []" "w_memory_index aworld0 = empty_index" "w_store aworld0 = []" "w_uuid aworld0 = w_uuid world0"
  "w_uuids aworld0 = w_uuids world0"
  by (simp_all add: aworld0_def mworld0_def pworld0_def cworld0_def tworld0_def world.defs tworld.defs cworld.defs pworld.defs mworld.defs aworld.defs
      world0_def)

lemma memory_ok_aworld0: "memory_ok aworld0"
proof -
  have "inj (w_uuid world0)" by (simp add: world0_def inj_dec_nat)
  then show ?thesis by (simp add: memory_ok_def records_ok_def index_ok_def empty_index_def coll_def)
qed

lemma records_ok_aworld0: "records_ok aworld0"
  using memory_ok_aworld0 by (simp add: memory_ok_def)

definition held :: memory_cmd where
  "held = CreateMemory ''a'' ''t'' [(''k'', JInt 1)] ''legal_hold'' None [] ''short_term''"

lemma held_run: "\<exists>r. map_of (w_memories (final (run_memory default_memory_policy [held]) aworld0)) (''mem-'' @ w_uuid world0 (w_uuids world0)) = Some r \<and>
    me_tenant r = ''t'' \<and> me_agent r = ''a'' \<and> me_classification r = ''legal_hold''"
proof -
  have "\<not> raw_key ''k''" by code_simp
  then show ?thesis by (simp add: run_memory_def held_def catch_apply bind_apply memory_create_apply ok_apply new_memory_def tick_def drawn_def)
qed

definition put_record :: memory_record where
  "put_record = \<lparr>me_agent = ''a'', me_tenant = ''t'', me_workflow = None, me_classification = ''internal'', me_content = [], me_refs = [],
     me_type = ''short_term'', me_id = ''own'', me_created_at = dt 0, me_accessed_at = dt 0\<rparr>"

lemma put_record_past: "past_id w ''own''"
  by (simp add: past_id_def)

theorem memory_listing_exact_witness:
  "\<exists>rs w''. list_for_agent ''t'' ''a'' (final (run_memory default_memory_policy [PutMemory put_record, held, Reopen]) aworld0) = (Inr rs, w'') \<and>
     map me_id rs = ids_of_agent ''t'' ''a'' (final (run_memory default_memory_policy [PutMemory put_record, held, Reopen]) aworld0)"
proof -
  have "puts_fit default_memory_policy [PutMemory put_record, held, Reopen] aworld0"
    by (simp add: put_fits_def put_record_def put_record_past held_def del: run_memory_cmd.simps)
  from memory_listing_exact [OF memory_ok_aworld0 this HOL.refl, of "''t''" "''a''"] show ?thesis by blast
qed

theorem held_memory_survives_witness:
  "\<exists>r'. map_of (w_memories (final (run_memory default_memory_policy [PutMemory put_record, DeleteMemory ''t'' ''a'' (''mem-'' @ w_uuid world0 (w_uuids world0)),
       EnforceRetention, Reopen])
     (final (run_memory default_memory_policy [held]) aworld0))) (''mem-'' @ w_uuid world0 (w_uuids world0)) = Some r' \<and> me_tenant r' = ''t''"
proof -
  let ?i = "''mem-'' @ w_uuid world0 (w_uuids world0)" and ?w = "final (run_memory default_memory_policy [held]) aworld0"
  let ?cmds = "[PutMemory put_record, DeleteMemory ''t'' ''a'' ?i, EnforceRetention, Reopen]"
  obtain r where r: "map_of (w_memories ?w) ?i = Some r" "me_tenant r = ''t''" "me_classification r = ''legal_hold''" using held_run by blast
  have "memory_ok ?w" by (rule memory_ok_run [OF memory_ok_aworld0]) (simp add: held_def del: run_memory_cmd.simps)
  then have "records_ok ?w" "past_id ?w ?i" using r(1) by (auto simp: memory_ok_def index_ok_def)
  moreover have "me_id q \<noteq> ?i" if "PutMemory q \<in> set ?cmds" for q using that by (auto simp: put_record_def)
  ultimately show ?thesis
    using held_memory_survives [of ?w ?i r default_memory_policy ?cmds, OF _ r(1) _ _ _ HOL.refl] r(2,3) by auto
qed

theorem memory_restart_witness:
  "\<exists>w''. memory_open (final (run_memory default_memory_policy [held]) aworld0) = (Inr (), w'') \<and>
     (\<exists>r. map_of (w_memories w'') (''mem-'' @ w_uuid world0 (w_uuids world0)) = Some r \<and> me_agent r = ''a'')"
proof -
  obtain w'' where "memory_open (final (run_memory default_memory_policy [held]) aworld0) = (Inr (), w'')"
    "\<And>i. map_of (w_memories w'') i = map_option mem_norm (map_of (w_memories (final (run_memory default_memory_policy [held]) aworld0)) i)"
    using memory_restart [OF records_ok_aworld0 HOL.refl, of default_memory_policy "[held]"] by blast
  then show ?thesis using held_run by auto
qed

section \<open>The audit log\<close>

lemma audit_memory_fields [audit_steps]:
  "audit.steps (modify (\<lambda>w. w\<lparr>w_memories := a w, w_memory_index := b w\<rparr>))" "audit.steps (modify (\<lambda>w. w\<lparr>w_memories := a w\<rparr>))"
  "audit.steps (modify (\<lambda>w. w\<lparr>w_memory_index := b w, w_memories := a w\<rparr>))"
  by (auto simp: audit.steps_def modify_apply intro!: audit_local)

lemma audit_memory [audit_steps]:
  "audit.steps (memory_put r)" "audit.steps (memory_create agent tenant content cls workflow refs ty)" "audit.steps (list_for_agent tenant agent)"
  "audit.steps (memory_delete P tenant agent i)" "audit.steps (enforce_retention P)" "audit.steps memory_open"
proof -
  show "audit.steps (memory_put r)"
    unfolding memory_put_def reject_raw_sensitive_def keep_memory_def persist_memory_def by (intro audit.steps_intros audit_steps; simp)
  show "audit.steps (memory_create agent tenant content cls workflow refs ty)"
    unfolding memory_create_def memory_put_def reject_raw_sensitive_def keep_memory_def persist_memory_def
    by (intro audit.steps_intros audit_steps; simp)
  show "audit.steps (list_for_agent tenant agent)"
    unfolding list_for_agent_def access_memory_def touch_def persist_memory_def by (intro audit.steps_intros audit_steps; simp)
  show d: "audit.steps (memory_delete P tenant agent i)" for tenant agent i
    unfolding memory_delete_def by (intro audit.steps_intros audit_steps; simp)
  show "audit.steps (enforce_retention P)"
    unfolding enforce_retention_def retain_or_remove_def memory_expired_def by (intro audit.steps_intros audit_steps d)
  show "audit.steps memory_open"
    unfolding memory_open_def memory_from_dict_def keep_memory_def by (intro audit.steps_intros audit_steps)
qed

lemma audit_run_memory [audit_steps]: "audit.steps (run_memory_cmd P c)"
proof -
  have map_errors: "audit.steps (case e of ValueError m \<Rightarrow> raise (f m) | _ \<Rightarrow> raise e)"
    "audit.steps (case e of PermissionError m \<Rightarrow> raise (f m) | _ \<Rightarrow> raise e)" for e f
    by (auto split: py_error.split intro: audit.steps_raise)
  have "audit.steps (memory_list agent rq)" "audit.steps (memory_create_endpoint agent body rq)" "audit.steps (memory_delete_endpoint P agent i rq)"
    for agent body i rq
    unfolding memory_list_def memory_create_endpoint_def memory_delete_endpoint_def scoped_def meter_record_def Let_def
    by (intro audit.steps_intros audit_steps map_errors; simp)+
  then show ?thesis by (cases c) (auto intro!: audit.steps_intros audit_steps)
qed

end
