(* ===== verification/Workflow.thy ===== *)
theory Workflow
  imports Task_Graph Agent_Memory Recovery
begin

text \<open>
  The workflow engine (\<^verbatim>\<open>agentfabric/collaboration/workflow.py\<close>), the coordinator that assigns agents by
  capability (\<^verbatim>\<open>coordinator.py\<close>), and the endpoints of \<^verbatim>\<open>server/app.py\<close> on workflows and events. The runner of
  the nodes and the reputation service are given to the engine; latencies are whole milliseconds.
\<close>

section \<open>The state of a workflow\<close>

record workflow_state =
  wf_id :: string
  wf_status :: string
  wf_results :: obj
  wf_node_status :: "string dict"
  wf_retries :: "int dict"
  wf_assignments :: "string dict"
  wf_checkpoints :: "string list"
  wf_traces :: "obj list"

definition ids_with :: "string \<Rightarrow> workflow_state \<Rightarrow> string list" where
  "ids_with st s = map fst (filter (\<lambda>(i, x). x = st) (wf_node_status s))"

definition workflow_as_dict :: "workflow_state \<Rightarrow> obj" where
  "workflow_as_dict s = [
     (''workflow_id'', JStr (wf_id s)),
     (''status'', JStr (wf_status s)),
     (''node_results'', JObj (wf_results s)),
     (''node_status'', JObj (map (map_prod id JStr) (wf_node_status s))),
     (''retry_counters'', JObj (map (map_prod id JInt) (wf_retries s))),
     (''completed_task_ids'', strs (ids_with ''completed'' s)),
     (''pending_task_ids'', strs (ids_with ''pending'' s)),
     (''failed_task_ids'', strs (ids_with ''failed'' s)),
     (''delegated_assignments'', JObj (map (map_prod id JStr) (wf_assignments s))),
     (''checkpoints'', strs (wf_checkpoints s)),
     (''traces'', JList (map JObj (wf_traces s)))]"

record fworld = aworld +
  w_workflows :: "workflow_state dict"

definition initial_state :: "task_graph \<Rightarrow> workflow_state" where
  "initial_state g = \<lparr>wf_id = tg_id g, wf_status = ''running'', wf_results = [],
     wf_node_status = foldl (\<lambda>d n. AList.update (tk_id n) ''pending'' d) [] (tg_nodes g), wf_retries = [],
     wf_assignments = foldl (\<lambda>d n. AList.update (tk_id n) (tk_agent n) d) [] (tg_nodes g), wf_checkpoints = [], wf_traces = []\<rparr>"

text \<open>
  The engine and the caller of \<^verbatim>\<open>start\<close> share the state object of the running workflow; here it lives
  under the identifier of the workflow. A runner that starts a workflow under the identifier of the
  one it runs in is not covered by this.
\<close>

definition the_state :: "string \<Rightarrow> 'z fworld_scheme \<Rightarrow> workflow_state" where
  "the_state i w = (case map_of (w_workflows w) i of Some s \<Rightarrow> s
     | None \<Rightarrow> initial_state \<lparr>tg_id = i, tg_nodes = []\<rparr>)"

definition set_state :: "string \<Rightarrow> workflow_state \<Rightarrow> ('z fworld_scheme, unit) op" where
  "set_state i s = modify (\<lambda>w. w\<lparr>w_workflows := AList.update i s (w_workflows w)\<rparr>)"

definition change_state :: "string \<Rightarrow> (workflow_state \<Rightarrow> workflow_state) \<Rightarrow> ('z fworld_scheme, unit) op" where
  "change_state i f = bind (gets (the_state i)) (\<lambda>s. set_state i (f s))"

section \<open>Running a node\<close>

record 's engine =
  en_runner :: "task_node \<Rightarrow> obj \<Rightarrow> ('s, json) op"
  en_reputation :: "string \<Rightarrow> bool \<Rightarrow> int \<Rightarrow> string option \<Rightarrow> ('s, unit) op"
  en_latency :: "'s \<Rightarrow> int"
  en_order :: "task_node list \<Rightarrow> task_node list"

definition scope_fields :: "obj \<Rightarrow> obj" where
  "scope_fields payload = [(''tenant_id'', opt_json (opt_str payload ''tenant_id'')),
     (''organization_id'', opt_json (opt_str payload ''organization_id''))]"

definition trace_head :: "task_node \<Rightarrow> int \<Rightarrow> obj" where
  "trace_head n attempts = [(''node_id'', JStr (tk_id n)), (''agent_id'', JStr (tk_agent n)), (''attempt'', JInt attempts)]"

definition trace_tail :: "datetime \<Rightarrow> datetime \<Rightarrow> int \<Rightarrow> obj \<Rightarrow> obj" where
  "trace_tail started finished latency payload = [(''started_at'', JStr (isoformat started)), (''finished_at'', JStr (isoformat finished)),
     (''latency_ms'', JInt latency)] @ scope_fields payload"

definition node_input :: "string \<Rightarrow> task_node \<Rightarrow> obj \<Rightarrow> workflow_state \<Rightarrow> obj \<Rightarrow> obj" where
  "node_input gid n payload s snap = [
     (''workflow_id'', JStr gid),
     (''node_id'', JStr (tk_id n)),
     (''initial_payload'', JObj payload),
     (''node_payload'', JObj (tk_payload n)),
     (''dependency_results'', JObj (dict_of_pairs [(d, the (map_of (wf_results s) d)). d \<leftarrow> tk_deps n, map_of (wf_results s) d \<noteq> None])),
     (''shared_context'', JObj snap)]"

definition attempt_node :: "('z fworld_scheme) engine \<Rightarrow> string \<Rightarrow> task_node \<Rightarrow> obj \<Rightarrow> int \<Rightarrow> datetime \<Rightarrow> ('z fworld_scheme, unit) op" where
  "attempt_node E gid n payload attempts started =
     bind (es_append ''task.started'' gid (trace_head n attempts @ scope_fields payload)) (\<lambda>_.
     bind (gets (the_state gid)) (\<lambda>s.
     bind (get_or_create gid) (\<lambda>c.
     bind (en_runner E n (node_input gid n payload s (context_snapshot c))) (\<lambda>result.
     bind (gets (en_latency E)) (\<lambda>latency.
     bind (change_state gid (\<lambda>s. s\<lparr>wf_results := AList.update (tk_id n) result (wf_results s)\<rparr>)) (\<lambda>_.
     bind (change_state gid (\<lambda>s. s\<lparr>wf_node_status := AList.update (tk_id n) ''completed'' (wf_node_status s)\<rparr>)) (\<lambda>_.
     bind utc_now (\<lambda>finished.
     let trace = trace_head n attempts @ [(''status'', JStr ''completed'')] @ trace_tail started finished latency payload in
     bind (change_state gid (\<lambda>s. s\<lparr>wf_traces := wf_traces s @ [trace]\<rparr>)) (\<lambda>_.
     bind (update_task_state gid (tk_id n) [(''status'', JStr ''completed''), (''result'', result)]) (\<lambda>_.
     bind (es_append ''task'' gid trace) (\<lambda>_.
     bind (es_append ''task.completed'' gid (trace @ [(''result'', result)])) (\<lambda>_.
     en_reputation E (tk_agent n) True latency (opt_str payload ''tenant_id'')))))))))))))"

definition node_failed ::
    "('z fworld_scheme) engine \<Rightarrow> string \<Rightarrow> task_node \<Rightarrow> obj \<Rightarrow> int \<Rightarrow> datetime \<Rightarrow> py_error \<Rightarrow> ('z fworld_scheme, unit) op" where
  "node_failed E gid n payload attempts started exc =
     bind (gets (en_latency E)) (\<lambda>latency.
     bind utc_now (\<lambda>finished.
     let trace = trace_head n attempts @ [(''status'', JStr ''failed''), (''error'', JStr (err_str exc))] @ trace_tail started finished latency payload in
     bind (change_state gid (\<lambda>s. s\<lparr>wf_traces := wf_traces s @ [trace]\<rparr>)) (\<lambda>_.
     bind (es_append ''task'' gid trace) (\<lambda>_.
     bind (es_append ''task.failed'' gid trace) (\<lambda>_.
     bind (en_reputation E (tk_agent n) False latency (opt_str payload ''tenant_id'')) (\<lambda>_.
     if attempts > tk_retries n
     then bind (change_state gid (\<lambda>s. s\<lparr>wf_node_status := AList.update (tk_id n) ''failed'' (wf_node_status s)\<rparr>)) (\<lambda>_.
          bind (change_state gid (\<lambda>s. s\<lparr>wf_status := ''failed''\<rparr>)) (\<lambda>_.
          raise (ConflictError (''workflow failed at '' @ tk_id n @ '': '' @ err_str exc))))
     else ok ()))))))"

text \<open>
  The retry loop. A round returns whether the node is done; \<^verbatim>\<open>max_retries + 1\<close> rounds are enough, since
  the last one completes or raises.
\<close>

fun retry_loop :: "nat \<Rightarrow> ('z fworld_scheme) engine \<Rightarrow> string \<Rightarrow> task_node \<Rightarrow> obj \<Rightarrow> int \<Rightarrow> ('z fworld_scheme, unit) op" where
  "retry_loop 0 E gid n payload attempts = ok ()"
| "retry_loop (Suc k) E gid n payload attempts =
     bind (change_state gid (\<lambda>s. s\<lparr>wf_retries := AList.update (tk_id n) (attempts + 1) (wf_retries s)\<rparr>)) (\<lambda>_.
     bind utc_now (\<lambda>started.
     bind (catch (bind (attempt_node E gid n payload (attempts + 1) started) (\<lambda>_. ok True))
                 (\<lambda>exc. bind (node_failed E gid n payload (attempts + 1) started exc) (\<lambda>_. ok False))) (\<lambda>done.
     if done then ok () else retry_loop k E gid n payload (attempts + 1))))"

definition run_node_with_retries :: "('z fworld_scheme) engine \<Rightarrow> string \<Rightarrow> task_node \<Rightarrow> obj \<Rightarrow> ('z fworld_scheme, unit) op" where
  "run_node_with_retries E gid n payload = retry_loop (nat (tk_retries n + 1)) E gid n payload 0"

section \<open>Running a workflow\<close>

text \<open>
  A batch of several nodes runs in a thread pool with a thread for each node: every node runs to its
  end, and then the error of the first one that failed is raised. The model runs the nodes one after
  the other, in the order of their completion.
\<close>

definition first_error :: "py_error option list \<Rightarrow> ('s, unit) op" where
  "first_error es = (case dropWhile (\<lambda>e. e = None) es of Some e # _ \<Rightarrow> raise e | _ \<Rightarrow> ok ())"

definition run_batch :: "('z fworld_scheme) engine \<Rightarrow> string \<Rightarrow> bool \<Rightarrow> obj \<Rightarrow> task_node list \<Rightarrow> ('z fworld_scheme, unit) op" where
  "run_batch E gid par payload batch =
     (if par \<and> 1 < length batch
      then bind (mapM (\<lambda>n. catch (bind (run_node_with_retries E gid n payload) (\<lambda>_. ok None)) (\<lambda>e. ok (Some e))) (en_order E batch)) first_error
      else forM (\<lambda>n. run_node_with_retries E gid n payload) batch)"

definition batch_checkpoint :: "string \<Rightarrow> obj \<Rightarrow> ('z fworld_scheme, unit) op" where
  "batch_checkpoint gid payload =
     bind (gets (the_state gid)) (\<lambda>s.
     let cid = ''batch-'' @ dec_nat (length (wf_checkpoints s) + 1) in
     bind (checkpoint gid cid) (\<lambda>snap.
     bind (change_state gid (\<lambda>s. s\<lparr>wf_checkpoints := wf_checkpoints s @ [cid]\<rparr>)) (\<lambda>_.
     bind (gets (the_state gid)) (\<lambda>s.
     bind (es_append ''checkpoint.created'' gid ((''checkpoint_id'', JStr cid) # scope_fields payload @
             [(''workflow_state'', JObj (workflow_as_dict s)), (''shared_context'', JObj snap)])) (\<lambda>_. ok ())))))"

definition needs_approval :: "string list \<Rightarrow> task_node \<Rightarrow> bool" where
  "needs_approval approved n \<longleftrightarrow> tk_approval n \<and> \<not> List.member approved (tk_id n)"

definition await_approval :: "string \<Rightarrow> obj \<Rightarrow> task_node list \<Rightarrow> ('z fworld_scheme, unit) op" where
  "await_approval gid payload pending =
     bind (change_state gid (\<lambda>s. s\<lparr>wf_node_status := foldl (\<lambda>d n. AList.update (tk_id n) ''awaiting_approval'' d) (wf_node_status s) pending\<rparr>)) (\<lambda>_.
     bind (change_state gid (\<lambda>s. s\<lparr>wf_status := ''awaiting_approval''\<rparr>)) (\<lambda>_.
     bind (es_append ''human_approval.requested'' gid ((''status'', JStr ''awaiting_approval'') # scope_fields payload @
             [(''nodes'', strs (map tk_id pending))])) (\<lambda>_. ok ())))"

text \<open>The loop over the batches: whether it came to the end, or stopped for an approval.\<close>

fun run_batches ::
    "('z fworld_scheme) engine \<Rightarrow> string \<Rightarrow> bool \<Rightarrow> string list \<Rightarrow> obj \<Rightarrow> task_node list list \<Rightarrow> ('z fworld_scheme, bool) op" where
  "run_batches E gid par approved payload [] = ok True"
| "run_batches E gid par approved payload (batch # rest) =
     (let pending = filter (needs_approval approved) batch in
      if pending \<noteq> [] then bind (await_approval gid payload pending) (\<lambda>_. ok False)
      else
        bind (run_batch E gid par payload batch) (\<lambda>_.
        bind (batch_checkpoint gid payload) (\<lambda>_.
        run_batches E gid par approved payload rest)))"

definition node_as_dict :: "task_node \<Rightarrow> obj" where
  "node_as_dict n = [
     (''node_id'', JStr (tk_id n)),
     (''agent_id'', JStr (tk_agent n)),
     (''capability'', opt_json (tk_capability n)),
     (''dependencies'', strs (tk_deps n)),
     (''max_retries'', JInt (tk_retries n)),
     (''requires_human_approval'', JBool (tk_approval n)),
     (''payload'', JObj (tk_payload n))]"

definition begin_workflow :: "task_graph \<Rightarrow> obj \<Rightarrow> ('z fworld_scheme, unit) op" where
  "begin_workflow g payload =
     bind (set_state (tg_id g) (initial_state g)) (\<lambda>_.
     bind (get_or_create (tg_id g)) (\<lambda>c.
     bind (lift (update_items (cx_conversation c) payload)) (\<lambda>conversation.
     bind (set_record (tg_id g) (c\<lparr>cx_conversation := conversation\<rparr>)) (\<lambda>_.
     bind (es_append ''workflow.started'' (tg_id g) ((''status'', JStr ''started'') # scope_fields payload @
             [(''task_graph'', JObj [(''graph_id'', JStr (tg_id g)), (''nodes'', JList (map (\<lambda>n. JObj (node_as_dict n)) (tg_nodes g)))]),
              (''initial_payload'', JObj payload)])) (\<lambda>_. ok ())))))"

definition finish_workflow :: "string \<Rightarrow> obj \<Rightarrow> ('z fworld_scheme, unit) op" where
  "finish_workflow gid payload =
     bind (change_state gid (\<lambda>s. s\<lparr>wf_status := ''completed''\<rparr>)) (\<lambda>_.
     bind (es_append ''workflow'' gid ((''status'', JStr ''completed'') # scope_fields payload)) (\<lambda>_.
     bind (gets (the_state gid)) (\<lambda>s.
     bind (es_append ''workflow.completed'' gid (workflow_as_dict s @ scope_fields payload)) (\<lambda>_. ok ()))))"

definition start :: "('z fworld_scheme) engine \<Rightarrow> task_graph \<Rightarrow> obj \<Rightarrow> string list \<Rightarrow> bool \<Rightarrow> ('z fworld_scheme, obj) op" where
  "start E g payload approved par =
     bind (lift (build_graph g)) (\<lambda>graph.
     bind (begin_workflow g payload) (\<lambda>_.
     bind (lift (topological_batches graph)) (\<lambda>batches.
     bind (run_batches E (tg_id g) par approved payload batches) (\<lambda>finished.
     bind (if finished then finish_workflow (tg_id g) payload else ok ()) (\<lambda>_.
     bind (gets (the_state (tg_id g))) (\<lambda>s. ok (workflow_as_dict s)))))))"

definition workflow_get_state :: "string \<Rightarrow> ('z fworld_scheme, obj option) op" where
  "workflow_get_state i = gets (\<lambda>w. map_option workflow_as_dict (map_of (w_workflows w) i))"

definition recover_from_checkpoint :: "string \<Rightarrow> string \<Rightarrow> ('z fworld_scheme, obj) op" where
  "recover_from_checkpoint i k = restore i k"

section \<open>The coordinator\<close>

definition resolve_node :: "obj \<Rightarrow> ('z mworld_scheme, obj) op" where
  "resolve_node item =
     (let cap = get_or item ''capability'' JNull in
      if \<not> truthy (get_or item ''agent_id'' JNull) \<and> truthy cap
      then bind (discover (py_str cap) None True) (\<lambda>matches. case matches of
             [] \<Rightarrow> raise (ValueError (''no healthy agent found for capability: '' @ py_str cap))
           | found # _ \<Rightarrow>
               bind (req_as as_mapping found ''identity'') (\<lambda>identity.
               bind (lift (req identity ''agent_id'')) (\<lambda>agent.
               ok (AList.update ''agent_id'' agent item))))
      else ok item)"

definition start_workflow :: "('z fworld_scheme) engine \<Rightarrow> string \<Rightarrow> obj list \<Rightarrow> obj \<Rightarrow> string list \<Rightarrow> ('z fworld_scheme, obj) op" where
  "start_workflow E gid items payload approved =
     bind (mapM resolve_node items) (\<lambda>resolved.
     bind (lift (graph_from_dicts gid resolved)) (\<lambda>g.
     start E g payload approved True))"

section \<open>The endpoints\<close>

definition workflow_owner :: "string \<Rightarrow> ('z world_scheme, obj option) op" where
  "workflow_owner i = on_store (mem_get ''workflows'' i)"

definition assert_workflow_tenant :: "tenant_context \<Rightarrow> string \<Rightarrow> ('z world_scheme, unit) op" where
  "assert_workflow_tenant tc i =
     bind (workflow_owner i) (\<lambda>owner. case owner of None \<Rightarrow> ok () | Some d \<Rightarrow> assert_tenant (Some tc) d)"

definition api_node_runner :: "task_node \<Rightarrow> obj \<Rightarrow> ('s, json) op" where
  "api_node_runner n inp =
     bind (lift (req inp ''initial_payload'')) (\<lambda>given.
     bind (lift (req inp ''dependency_results'')) (\<lambda>results.
     ok (JObj [
       (''agent_id'', JStr (tk_agent n)),
       (''node_id'', JStr (tk_id n)),
       (''capability'', opt_json (tk_capability n)),
       (''input'', given),
       (''dependency_results'', results)])))"

fun as_mappings :: "json \<Rightarrow> obj list result" where
  "as_mappings (JList xs) = map_result as_mapping xs"
| "as_mappings _ = Inl (TypeError ''expected list of dict'')"

definition workflow_start :: "('z fworld_scheme) engine \<Rightarrow> obj \<Rightarrow> request \<Rightarrow> ('z fworld_scheme, obj) op" where
  "workflow_start E body rq =
     bind (require_scopes rq [''workflow.start''] None) (\<lambda>p.
     bind (tenant_context_of rq) (\<lambda>ctx.
     bind (consume_for (tc_tenant ctx) ''workflow_runs_per_day'') (\<lambda>_.
     bind (req_as as_str body ''workflow_id'') (\<lambda>i.
     bind (assert_workflow_tenant ctx i) (\<lambda>_.
     bind (lift (as_mapping (get_or body ''initial_payload'' (JObj [])))) (\<lambda>given.
     let payload = AList.update ''created_by'' (JStr (pc_id p)) (AList.update ''organization_id'' (JStr (tc_organization ctx))
                     (AList.update ''tenant_id'' (JStr (tc_tenant ctx)) given)) in
     bind (on_store (mem_put ''workflows'' i [
             (''workflow_id'', JStr i),
             (''tenant_id'', JStr (tc_tenant ctx)),
             (''organization_id'', JStr (tc_organization ctx)),
             (''created_by'', JStr (pc_id p))])) (\<lambda>_.
     bind (req_as as_mappings body ''nodes'') (\<lambda>nodes.
     bind (lift (as_strs (get_or body ''approved_nodes'' (JList [])))) (\<lambda>approved.
     bind (start_workflow (E\<lparr>en_runner := api_node_runner\<rparr>) i nodes payload approved) (\<lambda>result.
     bind (meter_record (tc_tenant ctx) ''workflow_runs'' 1 [(''workflow_id'', JStr i)]) (\<lambda>_.
     ok result)))))))))))"

definition workflow_get :: "string \<Rightarrow> request \<Rightarrow> ('z fworld_scheme, obj) op" where
  "workflow_get i rq =
     scoped rq ''workflow.read'' (\<lambda>ctx.
     bind (assert_workflow_tenant ctx i) (\<lambda>_.
     bind (workflow_get_state i) (\<lambda>found. case found of
       None \<Rightarrow> raise (http_error 404 ''workflow not found'')
     | Some d \<Rightarrow> ok d)))"

definition own_event :: "tenant_context \<Rightarrow> event \<Rightarrow> bool" where
  "own_event tc e \<longleftrightarrow> get_or (ev_payload e) ''tenant_id'' JNull = JStr (tc_tenant tc)"

definition event_page :: "event list \<Rightarrow> obj" where
  "event_page es = [(''items'', JList (map (\<lambda>e. JObj (event_as_dict e)) es)), (''total'', JInt (int (length es)))]"

definition events_list :: "string option \<Rightarrow> request \<Rightarrow> ('z world_scheme, obj) op" where
  "events_list aggregate rq =
     scoped rq ''events.read'' (\<lambda>ctx.
     bind (es_replay aggregate) (\<lambda>es. ok (event_page (filter (own_event ctx) es))))"

definition events_get :: "string \<Rightarrow> request \<Rightarrow> ('z world_scheme, obj) op" where
  "events_get i rq =
     scoped rq ''events.read'' (\<lambda>ctx.
     bind (es_get i) (\<lambda>found. case found of
       None \<Rightarrow> raise (http_error 404 ''event not found'')
     | Some e \<Rightarrow> if \<not> own_event ctx e then raise (http_error 403 ''cross-tenant access denied'') else ok (event_as_dict e)))"

definition workflow_events :: "string \<Rightarrow> request \<Rightarrow> ('z world_scheme, obj) op" where
  "workflow_events i rq =
     bind (tenant_context_of rq) (\<lambda>ctx.
     bind (require_scopes rq [''events.read'', ''workflow.read''] None) (\<lambda>_.
     bind (assert_workflow_tenant ctx i) (\<lambda>_.
     bind (es_replay (Some i)) (\<lambda>es. ok (event_page (filter (own_event ctx) es))))))"

definition workflow_recover :: "string \<Rightarrow> request \<Rightarrow> ('z world_scheme, obj) op" where
  "workflow_recover i rq =
     scoped rq ''workflow.recover'' (\<lambda>ctx.
     bind (assert_workflow_tenant ctx i) (\<lambda>_.
     bind (meter_record (tc_tenant ctx) ''recovery_operations'' 1 [(''workflow_id'', JStr i)]) (\<lambda>_.
     catch (recover_workflow True i) (\<lambda>e. case e of
         KeyError _ \<Rightarrow> raise (http_error 404 ''workflow not found'')
       | RuntimeError m \<Rightarrow> raise (http_error 409 m)
       | _ \<Rightarrow> raise e))))"

section \<open>Approvals\<close>

text \<open>
  What the engine does depends on the runner only through the nodes it runs: two runners that agree on
  these give the same run, with the same result, log and state.
\<close>

lemma attempt_node_cong:
  "(\<And>inp. en_runner E n inp = f n inp) \<Longrightarrow> attempt_node (E\<lparr>en_runner := f\<rparr>) gid n payload a t = attempt_node E gid n payload a t"
  by (simp add: attempt_node_def)

lemma node_failed_cong: "node_failed (E\<lparr>en_runner := f\<rparr>) gid n payload a t e = node_failed E gid n payload a t e"
  by (simp add: node_failed_def)

lemma run_node_cong:
  assumes "\<And>inp. en_runner E n inp = f n inp"
  shows "run_node_with_retries (E\<lparr>en_runner := f\<rparr>) gid n payload = run_node_with_retries E gid n payload"
proof -
  have "retry_loop k (E\<lparr>en_runner := f\<rparr>) gid n payload a = retry_loop k E gid n payload a" for k a
    by (induction k arbitrary: a) (simp_all add: attempt_node_cong [of E n f, OF assms] node_failed_cong cong: if_cong)
  then show ?thesis by (simp add: run_node_with_retries_def)
qed

lemma mapM_cong: "(\<And>x. x \<in> set xs \<Longrightarrow> f x = g x) \<Longrightarrow> mapM f xs = mapM g xs"
  by (induction xs) auto

lemma forM_cong: "(\<And>x. x \<in> set xs \<Longrightarrow> f x = g x) \<Longrightarrow> forM f xs = forM g xs"
  by (induction xs) auto

lemma run_batch_cong:
  assumes "\<And>n inp. n \<in> set batch \<Longrightarrow> en_runner E n inp = f n inp" "set (en_order E batch) = set batch"
  shows "run_batch (E\<lparr>en_runner := f\<rparr>) gid par payload batch = run_batch E gid par payload batch"
proof -
  have r: "run_node_with_retries (E\<lparr>en_runner := f\<rparr>) gid n payload = run_node_with_retries E gid n payload" if "n \<in> set batch" for n
    using that assms(1) by (intro run_node_cong) blast
  then have "mapM (\<lambda>n. catch (bind (run_node_with_retries (E\<lparr>en_runner := f\<rparr>) gid n payload) (\<lambda>_. ok None)) (\<lambda>e. ok (Some e))) (en_order E batch) =
      mapM (\<lambda>n. catch (bind (run_node_with_retries E gid n payload) (\<lambda>_. ok None)) (\<lambda>e. ok (Some e))) (en_order E batch)"
    using assms(2) by (intro mapM_cong) simp
  moreover have "forM (\<lambda>n. run_node_with_retries (E\<lparr>en_runner := f\<rparr>) gid n payload) batch = forM (\<lambda>n. run_node_with_retries E gid n payload) batch"
    using r by (intro forM_cong) simp
  ultimately show ?thesis by (simp add: run_batch_def)
qed

lemma run_batches_cong:
  assumes "\<And>n inp. \<not> needs_approval approved n \<Longrightarrow> en_runner E n inp = f n inp" "\<And>ns. set (en_order E ns) = set ns"
  shows "run_batches (E\<lparr>en_runner := f\<rparr>) gid par approved payload bs = run_batches E gid par approved payload bs"
proof (induction bs)
  case (Cons b bs)
  show ?case
  proof (cases "filter (needs_approval approved) b = []")
    case True
    then have "run_batch (E\<lparr>en_runner := f\<rparr>) gid par payload b = run_batch E gid par payload b"
      using assms by (intro run_batch_cong) (auto simp: filter_empty_conv)
    with True Cons show ?thesis by simp
  qed (simp add: Let_def)
qed simp

text \<open>
  C7. Nothing runs without its approval: the run of a workflow is the same whatever the runner would do
  with nodes that require human approval and are not approved, so the engine never runs them; this
  holds for every graph and for every order in which the threads of a batch complete.
\<close>

theorem unapproved_nodes_never_run:
  assumes "\<And>n inp. tk_approval n = False \<or> tk_id n \<in> set approved \<Longrightarrow> en_runner E n inp = f n inp" "\<And>ns. set (en_order E ns) = set ns"
  shows "start (E\<lparr>en_runner := f\<rparr>) g payload approved par w = start E g payload approved par w"
proof -
  have "en_runner E n inp = f n inp" if "\<not> needs_approval approved n" for n inp
    using that assms(1) by (auto simp: needs_approval_def)
  from run_batches_cong [OF this assms(2)] show ?thesis by (simp add: start_def)
qed

definition fworld0 :: fworld where
  "fworld0 = aworld.extend aworld0 (fworld.fields [])"

definition engine0 :: "fworld engine" where
  "engine0 = \<lparr>en_runner = api_node_runner, en_reputation = (\<lambda>agent success latency tenant. ok ()), en_latency = (\<lambda>w. 5), en_order = rev\<rparr>"

definition gated :: task_graph where
  "gated = \<lparr>tg_id = ''g'', tg_nodes = [\<lparr>tk_id = ''a'', tk_agent = ''x'', tk_capability = None, tk_deps = [], tk_retries = 0,
     tk_approval = True, tk_payload = []\<rparr>]\<rparr>"

theorem unapproved_nodes_never_run_witness:
  "start (engine0\<lparr>en_runner := (\<lambda>n inp. if tk_approval n then raise (RuntimeError ''never'') else api_node_runner n inp)\<rparr>) gated [] [] True fworld0 =
     start engine0 gated [] [] True fworld0"
  by (rule unapproved_nodes_never_run) (simp_all add: engine0_def)

section \<open>The nodes of a running workflow\<close>

text \<open>What is recorded about the nodes of a workflow: results, status and attempts.\<close>

definition record_of :: "string \<Rightarrow> string \<Rightarrow> 'z fworld_scheme \<Rightarrow> json option \<times> string option \<times> int option" where
  "record_of gid i w = (let s = the_state gid w in (map_of (wf_results s) i, map_of (wf_node_status s) i, map_of (wf_retries s) i))"

definition nodes_kept :: "string \<Rightarrow> string set \<Rightarrow> 'z fworld_scheme \<Rightarrow> 'z fworld_scheme \<Rightarrow> bool" where
  "nodes_kept gid S w w' \<longleftrightarrow> (\<forall>i \<in> S. record_of gid i w' = record_of gid i w)"

interpretation nodes: step_contract "nodes_kept gid S" for gid S
  by unfold_locales (auto simp: nodes_kept_def)

named_theorems node_steps \<open>operations that leave the records of nodes alone\<close>

lemma nodes_frame: "(\<And>w. w_workflows (snd (m w)) = w_workflows w) \<Longrightarrow> nodes.steps gid S m"
  by (simp add: nodes.steps_def nodes_kept_def record_of_def the_state_def)

lemma nodes_world [node_steps]: "nodes.steps gid S utc_now" "nodes.steps gid S uuid_hex12" "nodes.steps gid S (on_store m)"
  "nodes.steps gid S (modify (\<lambda>w. w\<lparr>w_contexts := c w\<rparr>))"
  by (rule nodes_frame; simp add: utc_now_def uuid_hex12_def on_store_def modify_apply split: prod.split)+

lemma nodes_es_append [node_steps]: "nodes.steps gid S (es_append ty ag p)"
  by (rule nodes_frame, cases "registered ty") (auto simp: es_append_registered es_append_unregistered)

lemma nodes_context [node_steps]: "nodes.steps gid S (get_or_create i)" "nodes.steps gid S (update_task_state i n v)" "nodes.steps gid S (checkpoint i k)"
  unfolding get_or_create_def update_task_state_def checkpoint_def change_record_def reject_raw_sensitive_def set_record_def persist_def Let_def
  by (intro nodes.steps_intros node_steps)+

lemma change_state_apply:
  "change_state gid f w = (Inr (), w\<lparr>w_workflows := AList.update gid (f (the_state gid w)) (w_workflows w)\<rparr>)"
  by (simp add: change_state_def set_state_def bind_apply gets_apply modify_apply)

lemma the_state_change [simp]: "the_state gid (snd (change_state gid f w)) = f (the_state gid w)"
  by (simp add: change_state_apply the_state_def)

lemma nodes_change [node_steps]:
  assumes "\<And>s i. i \<in> S \<Longrightarrow> map_of (wf_results (f s)) i = map_of (wf_results s) i \<and> map_of (wf_node_status (f s)) i = map_of (wf_node_status s) i \<and>
    map_of (wf_retries (f s)) i = map_of (wf_retries s) i"
  shows "nodes.steps gid S (change_state gid f)"
  using assms by (simp add: nodes.steps_def nodes_kept_def record_of_def Let_def)

text \<open>A runner and a reputation service that leave the state of the workflow to the engine.\<close>

definition calm :: "string \<Rightarrow> ('z fworld_scheme) engine \<Rightarrow> bool" where
  "calm gid E \<longleftrightarrow> (\<forall>S n inp. nodes.steps gid S (en_runner E n inp)) \<and> (\<forall>S a b l t. nodes.steps gid S (en_reputation E a b l t))"

lemma calmD: "calm gid E \<Longrightarrow> nodes.steps gid S (en_runner E n inp)" "calm gid E \<Longrightarrow> nodes.steps gid S (en_reputation E a b l t)"
  by (simp_all add: calm_def)

lemma nodes_run_node [node_steps]:
  assumes "calm gid E" "tk_id n \<notin> S"
  shows "nodes.steps gid S (run_node_with_retries E gid n payload)"
proof -
  have a: "nodes.steps gid S (attempt_node E gid n payload k t)" for k t
    unfolding attempt_node_def Let_def
    by (intro nodes.steps_intros node_steps calmD assms(1)) (use assms(2) in auto)
  have f: "nodes.steps gid S (node_failed E gid n payload k t e)" for k t e
    unfolding node_failed_def Let_def
    by (intro nodes.steps_intros node_steps calmD assms(1)) (use assms(2) in auto)
  have "nodes.steps gid S (retry_loop k E gid n payload m)" for k m
  proof (induction k arbitrary: m)
    case 0
    show ?case by (simp add: nodes.steps_ok)
  next
    case (Suc k)
    show ?case unfolding retry_loop.simps
      by (intro nodes.steps_intros node_steps a f Suc) (use assms(2) in auto)
  qed
  then show ?thesis by (simp add: run_node_with_retries_def)
qed

text \<open>A node that has run to its end, within its attempts.\<close>

definition node_done :: "string \<Rightarrow> task_node \<Rightarrow> 'z fworld_scheme \<Rightarrow> bool" where
  "node_done gid n w \<longleftrightarrow> (\<exists>v k. record_of gid (tk_id n) w = (Some v, Some ''completed'', Some k) \<and> 1 \<le> k \<and> k \<le> tk_retries n + 1)"

lemma node_done_kept: "nodes_kept gid S w w' \<Longrightarrow> tk_id n \<in> S \<Longrightarrow> node_done gid n w \<Longrightarrow> node_done gid n w'"
  by (simp add: nodes_kept_def node_done_def)

lemma node_failed_last: "attempts > tk_retries n \<Longrightarrow> node_failed E gid n payload attempts t e w \<noteq> (Inr (), w')"
  by (auto simp: node_failed_def bind_eq_Inr_iff raise_apply Let_def)

lemma attempt_node_done:
  assumes "calm gid E" "attempt_node E gid n payload k t w = (Inr (), w')"
    "map_of (wf_retries (the_state gid w)) (tk_id n) = Some k" "1 \<le> k" "k \<le> tk_retries n + 1"
  shows "node_done gid n w'"
proof -
  let ?S = "{tk_id n}"
  define before where "before = bind (es_append ''task.started'' gid (trace_head n k @ scope_fields payload)) (\<lambda>_.
     bind (gets (the_state gid)) (\<lambda>s. bind (get_or_create gid) (\<lambda>c. bind (en_runner E n (node_input gid n payload s (context_snapshot c))) (\<lambda>result.
     bind (gets (en_latency E)) (\<lambda>latency. ok (result, latency))))))"
  define after where "after = (\<lambda>(result, latency). bind utc_now (\<lambda>finished.
     let trace = trace_head n k @ [(''status'', JStr ''completed'')] @ trace_tail t finished latency payload in
     bind (change_state gid (\<lambda>s. s\<lparr>wf_traces := wf_traces s @ [trace]\<rparr>)) (\<lambda>_.
     bind (update_task_state gid (tk_id n) [(''status'', JStr ''completed''), (''result'', result)]) (\<lambda>_.
     bind (es_append ''task'' gid trace) (\<lambda>_.
     bind (es_append ''task.completed'' gid (trace @ [(''result'', result)])) (\<lambda>_.
     en_reputation E (tk_agent n) True latency (opt_str payload ''tenant_id'')))))))"
  have split: "attempt_node E gid n payload k t = bind before (\<lambda>(result, latency).
     bind (change_state gid (\<lambda>s. s\<lparr>wf_results := AList.update (tk_id n) result (wf_results s)\<rparr>)) (\<lambda>_.
     bind (change_state gid (\<lambda>s. s\<lparr>wf_node_status := AList.update (tk_id n) ''completed'' (wf_node_status s)\<rparr>)) (\<lambda>_. after (result, latency))))"
    by (simp add: attempt_node_def before_def after_def bind_assoc)
  have b: "nodes.steps gid ?S before" unfolding before_def by (intro nodes.steps_intros node_steps calmD assms(1))
  have a: "nodes.steps gid ?S (after x)" for x
    unfolding after_def Let_def by (cases x) (auto intro!: nodes.steps_intros node_steps calmD assms(1))
  from assms(2) obtain result latency w1 w2 where w1: "before w = (Inr (result, latency), w1)" and
    w2: "w2 = final (change_state gid (\<lambda>s. s\<lparr>wf_node_status := AList.update (tk_id n) ''completed'' (wf_node_status s)\<rparr>))
      (final (change_state gid (\<lambda>s. s\<lparr>wf_results := AList.update (tk_id n) result (wf_results s)\<rparr>)) w1)" and
    w': "after (result, latency) w2 = (Inr (), w')"
    unfolding split by (auto simp: bind_eq_Inr_iff change_state_apply)
  have "nodes_kept gid ?S w w1" using nodes.stepsD [OF b, of w] w1 by simp
  then have "map_of (wf_retries (the_state gid w1)) (tk_id n) = Some k" using assms(3) by (simp add: nodes_kept_def record_of_def Let_def)
  then have "record_of gid (tk_id n) w2 = (Some result, Some ''completed'', Some k)" unfolding w2 by (simp add: record_of_def Let_def)
  moreover have "nodes_kept gid ?S w2 w'" using nodes.stepsD [OF a, of w2 "(result, latency)"] w' by simp
  ultimately show ?thesis using assms(4,5) by (simp add: nodes_kept_def node_done_def)
qed

lemma retry_loop_done:
  assumes "calm gid E"
  shows "retry_loop k E gid n payload m w = (Inr (), w') \<Longrightarrow> 0 < k \<Longrightarrow> 0 \<le> m \<Longrightarrow> m + int k = tk_retries n + 1 \<Longrightarrow> node_done gid n w'"
proof (induction k arbitrary: m w)
  case (Suc k)
  let ?w1 = "final (change_state gid (\<lambda>s. s\<lparr>wf_retries := AList.update (tk_id n) (m + 1) (wf_retries s)\<rparr>)) w"
  let ?w = "tick ?w1" and ?t = "now ?w1"
  have r: "map_of (wf_retries (the_state gid ?w)) (tk_id n) = Some (m + 1)"
    by (simp add: change_state_apply the_state_def tick_def)
  obtain r v where v: "attempt_node E gid n payload (m + 1) ?t ?w = (r, v)" by fastforce
  show ?case
  proof (cases r)
    case (Inr u)
    with v have v': "attempt_node E gid n payload (m + 1) ?t ?w = (Inr (), v)" by simp
    with Suc.prems(1) have "w' = v" by (simp add: bind_apply change_state_apply utc_now_apply catch_apply ok_apply)
    with attempt_node_done [OF assms v' r] Suc.prems(3,4) show ?thesis by simp
  next
    case (Inl e)
    obtain r' v' where f: "node_failed E gid n payload (m + 1) ?t e v = (r', v')" by fastforce
    with v Inl Suc.prems(1) have r': "r' = Inr ()" and l: "retry_loop k E gid n payload (m + 1) v' = (Inr (), w')"
      by (simp_all add: bind_apply change_state_apply utc_now_apply catch_apply ok_apply split: sum.splits)
    from f r' have "\<not> m + 1 > tk_retries n" using node_failed_last by blast
    with Suc.prems show ?thesis by (intro Suc.IH [OF l]) simp_all
  qed
qed simp

lemma run_node_done:
  assumes "calm gid E" "0 \<le> tk_retries n" "run_node_with_retries E gid n payload w = (Inr (), w')"
  shows "node_done gid n w'"
  using retry_loop_done [OF assms(1), of "nat (tk_retries n + 1)" n payload 0 w w'] assms(2,3) by (simp add: run_node_with_retries_def)

section \<open>Batches\<close>

lemma nodes_run_batch [node_steps]:
  assumes "calm gid E" "tk_id ` set batch \<inter> S = {}" "mset (en_order E batch) = mset batch"
  shows "nodes.steps gid S (run_batch E gid par payload batch)"
proof -
  have s: "set (en_order E batch) = set batch" using assms(3) by (rule mset_eq_setD)
  have "nodes.steps gid S (run_node_with_retries E gid n payload)" if "n \<in> set batch" for n
    using that assms(2) by (intro nodes_run_node assms(1)) auto
  moreover have "nodes.steps gid S (first_error es)" for es
    by (auto simp: first_error_def intro!: nodes.steps_intros split: list.split option.split)
  ultimately show ?thesis unfolding run_batch_def by (intro nodes.steps_intros) (auto simp: s)
qed

lemma nodes_checkpoint [node_steps]: "nodes.steps gid S (batch_checkpoint gid payload)"
  unfolding batch_checkpoint_def Let_def by (intro nodes.steps_intros node_steps) simp_all

lemma run_in_turn_done:
  assumes "calm gid E" "distinct (map tk_id ns)"
  shows "forM (\<lambda>n. run_node_with_retries E gid n payload) ns w = (Inr (), w') \<Longrightarrow> \<forall>n \<in> set ns. 0 \<le> tk_retries n \<longrightarrow> node_done gid n w'"
  using assms(2)
proof (induction ns arbitrary: w)
  case (Cons n ns)
  from Cons.prems(1) obtain v where v: "run_node_with_retries E gid n payload w = (Inr (), v)" "forM (\<lambda>n. run_node_with_retries E gid n payload) ns v = (Inr (), w')"
    by (auto simp: bind_eq_Inr_iff)
  have "nodes.steps gid {tk_id n} (forM (\<lambda>n. run_node_with_retries E gid n payload) ns)"
    using Cons.prems(2) by (intro nodes.steps_intros nodes_run_node assms(1)) (auto simp: image_iff)
  then have "nodes_kept gid {tk_id n} v w'" using nodes.stepsD [of gid "{tk_id n}" _ v] v(2) by (metis snd_conv)
  then have "0 \<le> tk_retries n \<longrightarrow> node_done gid n w'"
    using run_node_done [OF assms(1) _ v(1)] node_done_kept [of gid "{tk_id n}" v w' n] by simp
  with Cons.IH [OF v(2)] Cons.prems(2) show ?case by simp
qed simp

lemma ok_eq_Inr: "ok a s = (Inr b, s') \<longleftrightarrow> b = a \<and> s' = s"
  by (auto simp: ok_apply)

text \<open>The threads of a batch whose runs are all without error did what the runs do in turn.\<close>

lemma collected_without_error:
  assumes "mapM (\<lambda>n. catch (bind (f n) (\<lambda>_. ok None)) (\<lambda>e. ok (Some e))) ns w = (Inr es, w')" "list_all (\<lambda>e. e = None) es"
  shows "forM f ns w = (Inr (), w')"
  using assms
proof (induction ns arbitrary: w es)
  case (Cons n ns)
  obtain r v where v: "f n w = (r, v)" by fastforce
  from Cons.prems(1) obtain x xs u where x: "catch (bind (f n) (\<lambda>_. ok None)) (\<lambda>e. ok (Some e)) w = (Inr x, u)"
    "mapM (\<lambda>n. catch (bind (f n) (\<lambda>_. ok None)) (\<lambda>e. ok (Some e))) ns u = (Inr xs, w')" "es = x # xs"
    by (auto simp: bind_eq_Inr_iff ok_eq_Inr)
  from x(1,3) Cons.prems(2) v have "r = Inr () \<and> u = v" by (cases r) (auto simp: catch_apply bind_apply ok_apply)
  with v have "f n w = (Inr (), u)" by simp
  then show ?case using Cons.IH [OF x(2)] x(3) Cons.prems(2) by (simp add: bind_apply)
qed (simp add: ok_apply)

lemma first_error_Inr: "first_error es w = (Inr (), w') \<Longrightarrow> w' = w \<and> list_all (\<lambda>e. e = None) es"
proof (induction es)
  case (Cons a es)
  then show ?case by (cases a) (simp_all add: first_error_def raise_apply)
qed (simp add: first_error_def ok_apply)

lemma run_batch_done:
  assumes "calm gid E" "distinct (map tk_id batch)" "mset (en_order E batch) = mset batch"
    and "run_batch E gid par payload batch w = (Inr (), w')"
  shows "\<forall>n \<in> set batch. 0 \<le> tk_retries n \<longrightarrow> node_done gid n w'"
proof (cases "par \<and> 1 < length batch")
  case True
  have s: "set (en_order E batch) = set batch" using assms(3) by (rule mset_eq_setD)
  have "mset (map tk_id (en_order E batch)) = mset (map tk_id batch)" using assms(3) by simp
  then have d: "distinct (map tk_id (en_order E batch))" using assms(2) by (metis mset_eq_imp_distinct_iff)
  from True assms(4) obtain es where "mapM (\<lambda>n. catch (bind (run_node_with_retries E gid n payload) (\<lambda>_. ok None)) (\<lambda>e. ok (Some e))) (en_order E batch) w = (Inr es, w')"
    "list_all (\<lambda>e. e = None) es" by (auto simp: run_batch_def bind_eq_Inr_iff dest!: first_error_Inr)
  then have "forM (\<lambda>n. run_node_with_retries E gid n payload) (en_order E batch) w = (Inr (), w')" by (rule collected_without_error)
  from run_in_turn_done [OF assms(1) d this] s show ?thesis by simp
next
  case False
  then have "forM (\<lambda>n. run_node_with_retries E gid n payload) batch w = (Inr (), w')" using assms(4) by (simp only: run_batch_def if_False)
  from run_in_turn_done [OF assms(1,2) this] show ?thesis by simp
qed

lemma nodes_await:
  assumes "\<And>n. n \<in> set ns \<Longrightarrow> tk_id n \<notin> S"
  shows "nodes.steps gid S (await_approval gid payload ns)"
proof -
  have "map_of (foldl (\<lambda>d n. AList.update (tk_id n) v d) m ns) i = map_of m i" if "i \<in> S" for i v and m :: "string dict"
    using assms that by (induction ns arbitrary: m) auto
  then show ?thesis unfolding await_approval_def by (intro nodes.steps_intros node_steps) simp_all
qed

lemma nodes_run_batches:
  assumes "calm gid E" "tk_id ` set (concat bs) \<inter> S = {}" "\<And>ns. mset (en_order E ns) = mset ns"
  shows "nodes.steps gid S (run_batches E gid par approved payload bs)"
  using assms(2)
proof (induction bs)
  case (Cons b bs)
  then have "nodes.steps gid S (run_batches E gid par approved payload bs)" by auto
  moreover have "nodes.steps gid S (run_batch E gid par payload b)" using Cons.prems by (intro nodes_run_batch assms) auto
  moreover have "nodes.steps gid S (await_approval gid payload (filter (needs_approval approved) b))" using Cons.prems by (intro nodes_await) auto
  ultimately show ?case unfolding run_batches.simps Let_def by (intro nodes.steps_intros nodes_checkpoint)
qed (simp add: nodes.steps_ok)

lemma es_append_workflows [simp]: "w_workflows (snd (es_append ty ag p w)) = w_workflows w"
  by (cases "registered ty") (simp_all add: es_append_registered es_append_unregistered)

lemma es_append_Inr_workflows: "es_append ty ag p w = (Inr e, w') \<Longrightarrow> w_workflows w' = w_workflows w"
  using es_append_workflows [of ty ag p w] by simp

text \<open>The nodes of a batch that wait for an approval are marked so.\<close>

definition awaiting :: "string \<Rightarrow> string list \<Rightarrow> task_node list \<Rightarrow> 'z fworld_scheme \<Rightarrow> bool" where
  "awaiting gid approved batch w \<longleftrightarrow> wf_status (the_state gid w) = ''awaiting_approval'' \<and>
     (\<exists>n \<in> set batch. needs_approval approved n) \<and>
     (\<forall>n \<in> set batch. needs_approval approved n \<longrightarrow> map_of (wf_node_status (the_state gid w)) (tk_id n) = Some ''awaiting_approval'')"

lemma marked: "n \<in> set ns \<or> map_of m (tk_id n) = Some v \<Longrightarrow> map_of (foldl (\<lambda>d n. AList.update (tk_id n) v d) m ns) (tk_id n) = Some v"
  by (induction ns arbitrary: m) auto

lemma await_approval_status:
  assumes "await_approval gid payload ns w = (Inr (), w')"
  shows "wf_status (the_state gid w') = ''awaiting_approval''"
    "n \<in> set ns \<Longrightarrow> map_of (wf_node_status (the_state gid w')) (tk_id n) = Some ''awaiting_approval''"
  using assms
  by (auto simp: await_approval_def bind_eq_Inr_iff change_state_apply ok_apply the_state_def marked dest!: es_append_Inr_workflows)

lemma run_batches_done:
  assumes "calm gid E" "\<And>ns. mset (en_order E ns) = mset ns"
  shows "run_batches E gid par approved payload bs w = (Inr fin, w') \<Longrightarrow> distinct (map tk_id (concat bs)) \<Longrightarrow>
    \<exists>k. (\<forall>n \<in> set (concat (take k bs)). 0 \<le> tk_retries n \<longrightarrow> node_done gid n w') \<and>
      (if fin then k = length bs else k < length bs \<and> awaiting gid approved (bs ! k) w')"
proof (induction bs arbitrary: w)
  case (Cons b bs)
  show ?case
  proof (cases "filter (needs_approval approved) b = []")
    case True
    with Cons.prems(1) obtain w1 w2 where w: "run_batch E gid par payload b w = (Inr (), w1)" "batch_checkpoint gid payload w1 = (Inr (), w2)"
      "run_batches E gid par approved payload bs w2 = (Inr fin, w')" by (auto simp: bind_eq_Inr_iff)
    have "\<forall>n \<in> set b. 0 \<le> tk_retries n \<longrightarrow> node_done gid n w1" using Cons.prems(2) by (intro run_batch_done [OF assms(1) _ assms(2) w(1)]) auto
    moreover have "nodes_kept gid (tk_id ` set b) w1 w2" using nodes.stepsD [OF nodes_checkpoint, of gid _ w1 payload] w(2) by simp
    moreover have "tk_id ` set (concat bs) \<inter> tk_id ` set b = {}" using Cons.prems(2) by auto
    from nodes.stepsD [OF nodes_run_batches [OF assms(1) this assms(2)], of w2 par approved payload] w(3)
    have "nodes_kept gid (tk_id ` set b) w2 w'" by simp
    ultimately have b: "\<forall>n \<in> set b. 0 \<le> tk_retries n \<longrightarrow> node_done gid n w'" by (meson node_done_kept imageI)
    from Cons.IH [OF w(3)] Cons.prems(2) obtain k where "\<forall>n \<in> set (concat (take k bs)). 0 \<le> tk_retries n \<longrightarrow> node_done gid n w'"
      "if fin then k = length bs else k < length bs \<and> awaiting gid approved (bs ! k) w'" by auto
    with b show ?thesis by (intro exI [of _ "Suc k"]) auto
  next
    case False
    with Cons.prems(1) have a: "fin = False" "await_approval gid payload (filter (needs_approval approved) b) w = (Inr (), w')"
      by (auto simp: bind_eq_Inr_iff Let_def ok_apply)
    have "awaiting gid approved b w'"
      using await_approval_status [OF a(2)] False by (auto simp: filter_empty_conv awaiting_def)
    with a(1) show ?thesis by (intro exI [of _ 0]) simp
  qed
qed (simp add: ok_apply)

section \<open>The outcome of a workflow\<close>

lemma finish_workflow_state:
  assumes "finish_workflow gid payload w = (Inr (), w')"
  shows "the_state gid w' = (the_state gid w)\<lparr>wf_status := ''completed''\<rparr>"
  using assms
  by (auto simp: finish_workflow_def bind_eq_Inr_iff change_state_apply gets_apply ok_apply the_state_def dest!: es_append_Inr_workflows)

lemma record_of_status: "record_of gid i w' = record_of gid i w" if "the_state gid w' = (the_state gid w)\<lparr>wf_status := x\<rparr>"
  using that by (simp add: record_of_def Let_def)

text \<open>
  C38. A workflow that returns has run all its nodes or waits for an approval: with a runner and a reputation
  service that leave the records of the workflow to the engine, whatever they return or raise, and in
  whatever order the threads of a batch complete, when \<^verbatim>\<open>start\<close> returns, it returns the state of the
  workflow. Either the status is \<open>completed\<close> and every node that allows at least one attempt has the status
  \<open>completed\<close>, a result, and between one and \<open>max_retries + 1\<close> attempts; or the status is
  \<open>awaiting_approval\<close>: the batches before the one that waits are done in this sense, a node of this
  batch needs an approval it does not have, and every such node of it is marked \<open>awaiting_approval\<close>. (A node with
  negative \<^verbatim>\<open>max_retries\<close> allows no attempt and is passed over.)
\<close>

theorem started_workflow_outcome:
  assumes "calm (tg_id g) E" "\<And>ns. mset (en_order E ns) = mset ns" "start E g payload approved par w = (Inr d, w')"
  shows "d = workflow_as_dict (the_state (tg_id g) w') \<and>
    (wf_status (the_state (tg_id g) w') = ''completed'' \<and>
       (\<forall>n \<in> set (tg_nodes g). 0 \<le> tk_retries n \<longrightarrow> node_done (tg_id g) n w') \<or>
     (\<exists>G bs k. build_graph g = Inr G \<and> topological_batches G = Inr bs \<and> k < length bs \<and>
        (\<forall>n \<in> set (concat (take k bs)). 0 \<le> tk_retries n \<longrightarrow> node_done (tg_id g) n w') \<and>
        awaiting (tg_id g) approved (bs ! k) w'))"
proof -
  let ?gid = "tg_id g"
  from assms(3) obtain G bs fin w1 w2 where r: "build_graph g = Inr G" "topological_batches G = Inr bs"
    "run_batches E ?gid par approved payload bs w1 = (Inr fin, w2)" "(if fin then finish_workflow ?gid payload else ok ()) w2 = (Inr (), w')"
    "d = workflow_as_dict (the_state ?gid w')"
    by (auto simp: start_def bind_eq_Inr_iff lift_apply gets_apply ok_apply)
  have perm: "mset (concat bs) = mset (tg_nodes g)" using batches_of_built [OF r(1,2)] by blast
  then have set: "set (concat bs) = set (tg_nodes g)" by (rule mset_eq_setD)
  have "mset (map tk_id (concat bs)) = mset (map tk_id (tg_nodes g))" using perm by (simp only: mset_map)
  then have "distinct (map tk_id (concat bs))" using build_graph_spec(1) [OF r(1)] by (metis mset_eq_imp_distinct_iff)
  then obtain k where k: "\<forall>n \<in> set (concat (take k bs)). 0 \<le> tk_retries n \<longrightarrow> node_done ?gid n w2"
    "if fin then k = length bs else k < length bs \<and> awaiting ?gid approved (bs ! k) w2"
    using run_batches_done [OF assms(1,2) r(3)] by blast
  show ?thesis
  proof (cases fin)
    case True
    then have s: "the_state ?gid w' = (the_state ?gid w2)\<lparr>wf_status := ''completed''\<rparr>" using r(4) finish_workflow_state by simp
    have "\<forall>n \<in> set (tg_nodes g). 0 \<le> tk_retries n \<longrightarrow> node_done ?gid n w2"
      using True k unfolding set [symmetric] by simp
    then have "\<forall>n \<in> set (tg_nodes g). 0 \<le> tk_retries n \<longrightarrow> node_done ?gid n w'"
      using record_of_status [OF s] by (simp add: node_done_def)
    with s r(5) show ?thesis by simp
  next
    case False
    with r(4) have "w' = w2" by (simp add: ok_apply)
    with False k r(1,2,5) show ?thesis by auto
  qed
qed

lemma calm_engine0: "calm gid engine0"
  unfolding calm_def engine0_def by (auto simp: api_node_runner_def intro!: nodes.steps_intros)

lemma gated_graph: "\<exists>G. build_graph gated = Inr G \<and> topological_batches G = Inr [tg_nodes gated]"
proof -
  have "case build_graph gated of Inl e \<Rightarrow> False | Inr G \<Rightarrow> topological_batches G = Inr [tg_nodes gated]" by code_simp
  then show ?thesis by (cases "build_graph gated") auto
qed

lemma gated_starts: "\<exists>d w'. start engine0 gated [] [] True fworld0 = (Inr d, w')"
proof -
  obtain G where "build_graph gated = Inr G" "topological_batches G = Inr [tg_nodes gated]" using gated_graph by blast
  moreover have "registered ''workflow.started''" "registered ''human_approval.requested''" by code_simp+
  ultimately show ?thesis
    by (simp add: start_def bind_apply lift_apply begin_workflow_def set_state_def modify_apply get_or_create_def gets_apply utc_now_apply set_record_def
        ok_apply new_record_def empty_dict_def es_append_registered await_approval_def change_state_apply gated_def needs_approval_def
        fworld0_def aworld0_def mworld0_def pworld0_def aworld.defs mworld.defs pworld.defs cworld.defs fworld.defs Let_def)
qed

theorem started_workflow_outcome_witness:
  "\<exists>d w'. start engine0 gated [] [] True fworld0 = (Inr d, w') \<and> d = workflow_as_dict (the_state ''g'' w') \<and>
     (wf_status (the_state ''g'' w') = ''completed'' \<or> awaiting ''g'' [] (tg_nodes gated) w')"
proof -
  obtain d w' where s: "start engine0 gated [] [] True fworld0 = (Inr d, w')" using gated_starts by blast
  have "calm (tg_id gated) engine0" by (rule calm_engine0)
  moreover have "mset (en_order engine0 ns) = mset ns" for ns by (simp add: engine0_def)
  ultimately have "d = workflow_as_dict (the_state (tg_id gated) w') \<and>
    (wf_status (the_state (tg_id gated) w') = ''completed'' \<and> (\<forall>n \<in> set (tg_nodes gated). 0 \<le> tk_retries n \<longrightarrow> node_done (tg_id gated) n w') \<or>
     (\<exists>G bs k. build_graph gated = Inr G \<and> topological_batches G = Inr bs \<and> k < length bs \<and>
        (\<forall>n \<in> set (concat (take k bs)). 0 \<le> tk_retries n \<longrightarrow> node_done (tg_id gated) n w') \<and> awaiting (tg_id gated) [] (bs ! k) w'))"
    using s by (rule started_workflow_outcome)
  moreover have "tg_id gated = ''g''" by (simp add: gated_def)
  ultimately show ?thesis using s gated_graph by (intro exI [of _ d] exI [of _ w']) auto
qed

text \<open>
  A graph with cycles is announced before it is refused: \<^verbatim>\<open>start\<close> raises, but the workflow stays
  with the status \<open>running\<close>, no later step changes it, and the log ends with \<open>workflow.started\<close>.
\<close>

theorem cyclic_workflow_left_running:
  assumes "build_graph g = Inr G" "topological_batches G = Inl e" "update_items (cx_conversation (ctx (tg_id g) w)) payload = Inr conversation"
  shows "\<exists>w' ev. start E g payload approved par w = (Inl e, w') \<and> the_state (tg_id g) w' = initial_state g \<and>
    wf_status (the_state (tg_id g) w') = ''running'' \<and> w_events w' = w_events w @ [ev] \<and> ev_type ev = ''workflow.started'' \<and> ev_aggregate ev = tg_id g"
proof -
  have reg: "registered ''workflow.started''" by code_simp
  let ?w = "w\<lparr>w_workflows := AList.update (tg_id g) (initial_state g) (w_workflows w)\<rparr>"
  have c: "ctx (tg_id g) ?w = ctx (tg_id g) w" by (simp add: ctx_def split: option.split)
  obtain w1 where w1: "get_or_create (tg_id g) ?w = (Inr (ctx (tg_id g) w), w1)" using get_or_create_apply [of "tg_id g" ?w] c by auto
  have ev: "w_events w1 = w_events w" "w_workflows w1 = w_workflows ?w"
    using w1 by (auto simp: get_or_create_def bind_apply gets_apply utc_now_apply set_record_def modify_apply ok_apply tick_def split: option.splits)
  obtain w2 e2 where w2: "begin_workflow g payload w = (Inr (), w2)" "w_workflows w2 = w_workflows ?w" "w_events w2 = w_events w @ [e2]"
    "ev_type e2 = ''workflow.started''" "ev_aggregate e2 = tg_id g"
    using assms(3) ev
    by (auto simp: begin_workflow_def set_state_def modify_apply bind_apply lift_apply w1 set_record_def es_append_registered [OF reg] ok_apply
        next_event_def Let_def)
  from w2(2) have s: "the_state (tg_id g) w2 = initial_state g" by (simp add: the_state_def)
  moreover have "start E g payload approved par w = (Inl e, w2)" using assms(1,2) w2(1) by (simp add: start_def bind_apply raise_apply)
  ultimately show ?thesis using w2 by (intro exI [of _ w2] exI [of _ e2]) (simp add: initial_state_def)
qed

definition knot :: task_graph where
  "knot = gated\<lparr>tg_nodes := map (\<lambda>n. n\<lparr>tk_deps := [''a''], tk_approval := False\<rparr>) (tg_nodes gated)\<rparr>"

theorem cyclic_workflow_left_running_witness:
  "\<exists>w'. start engine0 knot [] [] True fworld0 = (Inl (ValidationError ''task graph contains cycles''), w') \<and>
     wf_status (the_state ''g'' w') = ''running''"
proof -
  have "case build_graph knot of Inl e \<Rightarrow> False | Inr G \<Rightarrow> topological_batches G = Inl (ValidationError ''task graph contains cycles'')" by code_simp
  then obtain G where G: "build_graph knot = Inr G" "topological_batches G = Inl (ValidationError ''task graph contains cycles'')"
    by (cases "build_graph knot") auto
  have "cx_conversation (ctx (tg_id knot) fworld0) = JObj []"
    by (simp add: ctx_def fworld0_def aworld0_def mworld0_def pworld0_def cworld.defs pworld.defs mworld.defs aworld.defs fworld.defs new_record_def empty_dict_def)
  then have "update_items (cx_conversation (ctx (tg_id knot) fworld0)) [] = Inr (JObj [])" by simp
  from cyclic_workflow_left_running [OF G this, of engine0 "[]" True] show ?thesis by (auto simp: knot_def gated_def)
qed

section \<open>Dependencies\<close>

text \<open>
  An input that has the results of all dependencies of the node that are among the nodes \<open>R\<close>, and the
  nodes of a graph that allow at least one attempt.
\<close>

definition supplied :: "string set \<Rightarrow> task_node \<Rightarrow> obj \<Rightarrow> bool" where
  "supplied R n inp \<longleftrightarrow> (\<exists>rs. map_of inp ''dependency_results'' = Some (JObj rs) \<and> set (tk_deps n) \<inter> R \<subseteq> fst ` set rs)"

definition attempted :: "task_graph \<Rightarrow> string set" where
  "attempted g = tk_id ` {n \<in> set (tg_nodes g). 0 \<le> tk_retries n}"

definition ready :: "string set \<Rightarrow> string \<Rightarrow> task_node \<Rightarrow> 'z fworld_scheme \<Rightarrow> bool" where
  "ready R gid n w \<longleftrightarrow> (\<forall>d \<in> set (tk_deps n) \<inter> R. map_of (wf_results (the_state gid w)) d \<noteq> None)"

lemma dom_dict_of_pairs: "fst ` set (dict_of_pairs ds) = fst ` set ds"
proof -
  have "fst ` set (foldl (\<lambda>d (k, v). AList.update k v d) e ds) = fst ` set e \<union> fst ` set ds" for e
  proof (induction ds arbitrary: e)
    case (Cons p ds)
    then show ?case by (cases p) (simp add: AList.dom_update)
  qed simp
  then show ?thesis by (simp add: dict_of_pairs_def)
qed

lemma ready_supplied: "ready R gid n w \<Longrightarrow> supplied R n (node_input gid n payload (the_state gid w) snap)"
  by (fastforce simp: supplied_def node_input_def ready_def dom_dict_of_pairs image_iff)

lemma ready_kept: "nodes_kept gid (set (tk_deps n)) w w' \<Longrightarrow> ready R gid n w \<Longrightarrow> ready R gid n w'"
  by (simp add: nodes_kept_def ready_def record_of_def Let_def)

lemma bind_cong_at: "(\<And>a w'. m w = (Inr a, w') \<Longrightarrow> f a w' = g a w') \<Longrightarrow> bind m f w = bind m g w"
  by (cases "m w"; cases "fst (m w)") (auto simp: bind_apply)

definition agrees :: "string set \<Rightarrow> ('z fworld_scheme) engine \<Rightarrow> (task_node \<Rightarrow> obj \<Rightarrow> ('z fworld_scheme, json) op) \<Rightarrow> bool" where
  "agrees R E f \<longleftrightarrow> (\<forall>n inp. supplied R n inp \<longrightarrow> en_runner E n inp = f n inp)"

lemma attempt_node_ready:
  assumes "agrees R E f" "ready R gid n w"
  shows "attempt_node (E\<lparr>en_runner := f\<rparr>) gid n payload k t w = attempt_node E gid n payload k t w"
proof -
  let ?ev = "es_append ''task.started'' gid (trace_head n k @ scope_fields payload)"
  have "ready R gid n w'" if "?ev w = (Inr e, w')" for e w'
    using that assms(2) es_append_Inr_workflows [OF that] by (simp add: ready_def the_state_def)
  then have "en_runner E n (node_input gid n payload (the_state gid w') snap) = f n (node_input gid n payload (the_state gid w') snap)"
    if "?ev w = (Inr e, w')" for e w' snap
    using that assms(1) ready_supplied [of R gid n w' payload snap] by (simp add: agrees_def)
  then show ?thesis
    unfolding attempt_node_def by (intro bind_cong_at) (simp add: bind_apply gets_apply)
qed

lemma run_node_ready:
  assumes "calm gid E" "agrees R E f" "tk_id n \<notin> set (tk_deps n)"
  shows "ready R gid n w \<Longrightarrow> run_node_with_retries (E\<lparr>en_runner := f\<rparr>) gid n payload w = run_node_with_retries E gid n payload w"
proof -
  have "ready R gid n w \<Longrightarrow> retry_loop k (E\<lparr>en_runner := f\<rparr>) gid n payload m w = retry_loop k E gid n payload m w" for k m
  proof (induction k arbitrary: m w)
    case (Suc k)
    let ?w1 = "final (change_state gid (\<lambda>s. s\<lparr>wf_retries := AList.update (tk_id n) (m + 1) (wf_retries s)\<rparr>)) w"
    let ?w = "tick ?w1" and ?t = "now ?w1"
    have r: "ready R gid n ?w" using Suc.prems by (simp add: ready_def change_state_apply the_state_def tick_def)
    obtain x v where v: "attempt_node E gid n payload (m + 1) ?t ?w = (x, v)" by fastforce
    have "nodes.steps gid (set (tk_deps n)) (attempt_node E gid n payload (m + 1) ?t)"
      unfolding attempt_node_def Let_def by (intro nodes.steps_intros node_steps calmD assms(1)) (use assms(3) in auto)
    from nodes.stepsD [OF this, of ?w] v r have rv: "ready R gid n v" by (auto intro: ready_kept)
    have "nodes.steps gid (set (tk_deps n)) (node_failed E gid n payload (m + 1) ?t e)" for e
      unfolding node_failed_def Let_def by (intro nodes.steps_intros node_steps calmD assms(1)) (use assms(3) in auto)
    from nodes.stepsD [OF this, of v] rv have rf: "ready R gid n (snd (node_failed E gid n payload (m + 1) ?t e v))" for e by (auto intro: ready_kept)
    show ?case
    proof (cases x)
      case (Inr u)
      then show ?thesis using v attempt_node_ready [OF assms(2) r] by (simp add: bind_apply change_state_apply utc_now_apply catch_apply ok_apply)
    next
      case (Inl e)
      obtain y v' where y: "node_failed E gid n payload (m + 1) ?t e v = (y, v')" by fastforce
      with rf [of e] have "ready R gid n v'" by simp
      then show ?thesis using v Inl y attempt_node_ready [OF assms(2) r] Suc.IH [of v' "m + 1"]
        by (cases y) (simp_all add: bind_apply change_state_apply utc_now_apply catch_apply ok_apply node_failed_cong)
    qed
  qed simp
  then show "ready R gid n w \<Longrightarrow> ?thesis" by (simp add: run_node_with_retries_def)
qed

lemma forM_cong_inv:
  assumes "\<And>x w. x \<in> set xs \<Longrightarrow> I w \<Longrightarrow> f x w = g x w \<and> I (snd (g x w))"
  shows "I w \<Longrightarrow> forM f xs w = forM g xs w"
  using assms
proof (induction xs arbitrary: w)
  case (Cons x xs)
  then have e: "f x w = g x w" "I (snd (g x w))" by auto
  obtain r v where v: "g x w = (r, v)" by fastforce
  with e Cons show ?case by (cases r) (auto simp: bind_apply)
qed simp

lemma mapM_cong_inv:
  assumes "\<And>x w. x \<in> set xs \<Longrightarrow> I w \<Longrightarrow> f x w = g x w \<and> I (snd (g x w))"
  shows "I w \<Longrightarrow> mapM f xs w = mapM g xs w"
  using assms
proof (induction xs arbitrary: w)
  case (Cons x xs)
  then have e: "f x w = g x w" "I (snd (g x w))" by auto
  obtain r v where v: "g x w = (r, v)" by fastforce
  with e Cons show ?case by (cases r) (auto simp: bind_apply)
qed simp

lemma collect_apply:
  "catch (bind m (\<lambda>_. ok None)) (\<lambda>e. ok (Some e)) v = (Inr (case m v of (Inl e, _) \<Rightarrow> Some e | _ \<Rightarrow> None), snd (m v))"
  by (cases "m v"; cases "fst (m v)") (auto simp: catch_apply bind_apply ok_apply)

lemma run_batch_ready:
  assumes "calm gid E" "agrees R E f" "mset (en_order E batch) = mset batch"
    and "\<And>n. n \<in> set batch \<Longrightarrow> ready R gid n w" "\<And>n m. n \<in> set batch \<Longrightarrow> m \<in> set batch \<Longrightarrow> tk_id m \<notin> set (tk_deps n)"
  shows "run_batch (E\<lparr>en_runner := f\<rparr>) gid par payload batch w = run_batch E gid par payload batch w"
proof -
  let ?I = "\<lambda>w. \<forall>n \<in> set batch. ready R gid n w"
  have s: "set (en_order E batch) = set batch" using assms(3) by (rule mset_eq_setD)
  have step: "run_node_with_retries (E\<lparr>en_runner := f\<rparr>) gid m payload v = run_node_with_retries E gid m payload v \<and>
      ?I (snd (run_node_with_retries E gid m payload v))" if "m \<in> set batch" "?I v" for m v
  proof
    show "run_node_with_retries (E\<lparr>en_runner := f\<rparr>) gid m payload v = run_node_with_retries E gid m payload v"
      using that assms(5) by (intro run_node_ready [OF assms(1,2)]) auto
    show "?I (snd (run_node_with_retries E gid m payload v))"
    proof
      fix n assume n: "n \<in> set batch"
      have "nodes.steps gid (set (tk_deps n)) (run_node_with_retries E gid m payload)" using assms(5) n that(1) by (intro nodes_run_node assms(1)) auto
      from nodes.stepsD [OF this, of v] that(2) n show "ready R gid n (snd (run_node_with_retries E gid m payload v))" by (auto intro: ready_kept)
    qed
  qed
  have "forM (\<lambda>n. run_node_with_retries (E\<lparr>en_runner := f\<rparr>) gid n payload) batch w = forM (\<lambda>n. run_node_with_retries E gid n payload) batch w"
    by (rule forM_cong_inv [where I = ?I]) (use step assms(4) in auto)
  moreover have "mapM (\<lambda>n. catch (bind (run_node_with_retries (E\<lparr>en_runner := f\<rparr>) gid n payload) (\<lambda>_. ok None)) (\<lambda>e. ok (Some e))) (en_order E batch) w =
      mapM (\<lambda>n. catch (bind (run_node_with_retries E gid n payload) (\<lambda>_. ok None)) (\<lambda>e. ok (Some e))) (en_order E batch) w"
    by (rule mapM_cong_inv [where I = ?I]) (use step assms(4) in \<open>auto simp: s collect_apply\<close>)
  ultimately show ?thesis by (simp add: run_batch_def bind_apply)
qed

text \<open>Batches whose dependencies lie in earlier ones, after those in \<open>D\<close>.\<close>

fun layered :: "string set \<Rightarrow> task_node list list \<Rightarrow> bool" where
  "layered D [] = True"
| "layered D (b # bs) \<longleftrightarrow> (\<forall>n \<in> set b. set (tk_deps n) \<subseteq> D) \<and> tk_id ` set b \<inter> D = {} \<and> layered (D \<union> tk_id ` set b) bs"

lemma layered_batches:
  assumes "\<And>k n d. k < length bs \<Longrightarrow> n \<in> set (bs ! k) \<Longrightarrow> d \<in> set (tk_deps n) \<Longrightarrow> d \<in> D \<or> (\<exists>j < k. d \<in> tk_id ` set (bs ! j))"
    "distinct (map tk_id (concat bs))" "tk_id ` set (concat bs) \<inter> D = {}"
  shows "layered D bs"
  using assms
proof (induction bs arbitrary: D)
  case (Cons b bs)
  have "layered (D \<union> tk_id ` set b) bs"
  proof (rule Cons.IH)
    show "d \<in> D \<union> tk_id ` set b \<or> (\<exists>j<k. d \<in> tk_id ` set (bs ! j))" if "k < length bs" "n \<in> set (bs ! k)" "d \<in> set (tk_deps n)" for k n d
    proof -
      from Cons.prems(1) [of "Suc k" n d] that have "d \<in> D \<or> (\<exists>j<Suc k. d \<in> tk_id ` set ((b # bs) ! j))" by simp
      then show ?thesis by (auto simp: less_Suc_eq_0_disj)
    qed
  qed (use Cons.prems(2,3) in auto)
  moreover have "set (tk_deps n) \<subseteq> D" if "n \<in> set b" for n using Cons.prems(1) [of 0 n] that by auto
  ultimately show ?case using Cons.prems(3) by auto
qed simp

lemma run_batches_ready:
  assumes "calm gid E" "agrees R E f" "\<And>ns. mset (en_order E ns) = mset ns"
  shows "layered D bs \<Longrightarrow> (\<And>n. n \<in> set (concat bs) \<Longrightarrow> tk_id n \<in> R \<Longrightarrow> 0 \<le> tk_retries n) \<Longrightarrow> distinct (map tk_id (concat bs)) \<Longrightarrow>
    (\<And>d. d \<in> D \<inter> R \<Longrightarrow> map_of (wf_results (the_state gid w)) d \<noteq> None) \<Longrightarrow>
    run_batches (E\<lparr>en_runner := f\<rparr>) gid par approved payload bs w = run_batches E gid par approved payload bs w"
proof (induction bs arbitrary: D w)
  case (Cons b bs)
  show ?case
  proof (cases "filter (needs_approval approved) b = []")
    case True
    have deps: "set (tk_deps n) \<subseteq> D" if "n \<in> set b" for n using Cons.prems(1) that by simp
    have b: "run_batch (E\<lparr>en_runner := f\<rparr>) gid par payload b w = run_batch E gid par payload b w"
    proof (rule run_batch_ready [OF assms])
      show "ready R gid n w" if "n \<in> set b" for n using deps [OF that] Cons.prems(4) by (auto simp: ready_def)
      show "tk_id m \<notin> set (tk_deps n)" if "n \<in> set b" "m \<in> set b" for n m
      proof -
        have "tk_id m \<notin> D" using Cons.prems(1) that(2) by auto
        with deps [OF that(1)] show ?thesis by blast
      qed
    qed
    have rest: "bind (batch_checkpoint gid payload) (\<lambda>_. run_batches (E\<lparr>en_runner := f\<rparr>) gid par approved payload bs) w1 =
        bind (batch_checkpoint gid payload) (\<lambda>_. run_batches E gid par approved payload bs) w1" if w1: "run_batch E gid par payload b w = (Inr u, w1)" for u w1
    proof (rule bind_cong_at)
      fix a w2 assume w2: "batch_checkpoint gid payload w1 = (Inr a, w2)"
      have "\<forall>n \<in> set b. 0 \<le> tk_retries n \<longrightarrow> node_done gid n w1" using Cons.prems(3) w1 by (intro run_batch_done [OF assms(1) _ assms(3), of b par payload w w1]) auto
      then have "\<forall>n \<in> set b. tk_id n \<in> R \<longrightarrow> node_done gid n w1" using Cons.prems(2) by simp
      moreover have "nodes_kept gid D w w1" using nodes.stepsD [OF nodes_run_batch [OF assms(1) _ assms(3), of b D], of w par payload] Cons.prems(1) w1 by simp
      moreover have "nodes_kept gid (D \<union> tk_id ` set b) w1 w2" using nodes.stepsD [OF nodes_checkpoint, of gid _ w1 payload] w2 by simp
      ultimately have "map_of (wf_results (the_state gid w2)) d \<noteq> None" if "d \<in> (D \<union> tk_id ` set b) \<inter> R" for d
        using that Cons.prems(4) [of d] by (auto simp: nodes_kept_def record_of_def node_done_def Let_def)
      then show "run_batches (E\<lparr>en_runner := f\<rparr>) gid par approved payload bs w2 = run_batches E gid par approved payload bs w2"
        using Cons.prems(1-3) by (intro Cons.IH [of "D \<union> tk_id ` set b"]) auto
    qed
    show ?thesis using True b rest by (auto simp: bind_apply [of "run_batch _ _ _ _ _"] split: prod.split sum.split)
  qed (simp add: Let_def)
qed simp

text \<open>
  C8. A node runs only with the results of all its dependencies: the run of a workflow is the same
  whatever the runner would do with an input in which the result of a dependency of the node is
  missing, so the engine never hands it such an input; for every graph, every order in which the
  threads of a batch complete, and every runner and reputation service, failing and retried ones
  included, that leave the records of the workflow to the engine. Dependencies with a negative
  \<^verbatim>\<open>max_retries\<close> are excepted: the engine passes over such a node, and its dependents run without its result.
\<close>

theorem nodes_run_after_dependencies:
  assumes "calm (tg_id g) E" "\<And>ns. mset (en_order E ns) = mset ns"
    and "\<And>n inp. supplied (attempted g) n inp \<Longrightarrow> en_runner E n inp = f n inp"
  shows "start (E\<lparr>en_runner := f\<rparr>) g payload approved par w = start E g payload approved par w"
proof -
  have agree: "agrees (attempted g) E f" using assms(3) by (simp add: agrees_def)
  have "run_batches (E\<lparr>en_runner := f\<rparr>) (tg_id g) par approved payload bs v = run_batches E (tg_id g) par approved payload bs v"
    if r: "build_graph g = Inr G" "topological_batches G = Inr bs" for G bs v
  proof (rule run_batches_ready [OF assms(1) agree assms(2), of "{}"])
    note b = batches_of_built [OF r]
    then have "mset (concat bs) = mset (tg_nodes g)" by blast
    then have set: "set (concat bs) = set (tg_nodes g)" and "mset (map tk_id (concat bs)) = mset (map tk_id (tg_nodes g))"
      by (auto dest: mset_eq_setD simp del: set_concat)
    then show dist: "distinct (map tk_id (concat bs))" using build_graph_spec(1) [OF r(1)] by (metis mset_eq_imp_distinct_iff)
    show "layered {} bs" by (rule layered_batches) (use b dist in auto)
    have "inj_on tk_id (set (tg_nodes g))" using dist unfolding distinct_map set by blast
    then show "0 \<le> tk_retries n" if "n \<in> set (concat bs)" "tk_id n \<in> attempted g" for n
      using that unfolding set attempted_def by (auto dest: inj_onD)
  qed simp
  then show ?thesis by (auto simp: start_def bind_apply lift_apply split: prod.split sum.split)
qed

theorem nodes_run_after_dependencies_witness:
  "start (engine0\<lparr>en_runner := (\<lambda>n inp. if supplied (attempted diamond) n inp then api_node_runner n inp else raise (RuntimeError ''never''))\<rparr>)
      diamond [] [] True fworld0 =
     start engine0 diamond [] [] True fworld0 \<and> attempted diamond = set (map tk_id (tg_nodes diamond))"
proof
  show "start (engine0\<lparr>en_runner := (\<lambda>n inp. if supplied (attempted diamond) n inp then api_node_runner n inp else raise (RuntimeError ''never''))\<rparr>)
      diamond [] [] True fworld0 = start engine0 diamond [] [] True fworld0"
    by (rule nodes_run_after_dependencies [OF calm_engine0]) (auto simp: engine0_def)
  have "{n \<in> set (tg_nodes diamond). 0 \<le> tk_retries n} = set (tg_nodes diamond)" by (auto simp: diamond_def)
  then show "attempted diamond = set (map tk_id (tg_nodes diamond))" by (simp add: attempted_def)
qed

section \<open>The audit log\<close>

text \<open>An engine whose runner and reputation service leave the audit log to its operations.\<close>

definition audited_engine :: "('z fworld_scheme) engine \<Rightarrow> bool" where
  "audited_engine E \<longleftrightarrow> (\<forall>n inp. audit.steps (en_runner E n inp)) \<and> (\<forall>a b l t. audit.steps (en_reputation E a b l t))"

lemma audit_state [audit_steps]: "audit.steps (set_state i s)" "audit.steps (change_state i f)"
proof -
  show s: "audit.steps (set_state i s)" for s unfolding set_state_def by (auto simp: audit.steps_def modify_apply intro!: audit_local)
  show "audit.steps (change_state i f)" unfolding change_state_def by (intro audit.steps_intros s)
qed

lemma audit_run_node:
  assumes "audited_engine E"
  shows "audit.steps (run_node_with_retries E gid n payload)"
proof -
  have a: "audit.steps (attempt_node E gid n payload k t)" for k t
    unfolding attempt_node_def Let_def using assms by (intro audit.steps_intros audit_steps) (auto simp: audited_engine_def)
  have f: "audit.steps (node_failed E gid n payload k t e)" for k t e
    unfolding node_failed_def Let_def using assms by (intro audit.steps_intros audit_steps) (auto simp: audited_engine_def)
  have "audit.steps (retry_loop k E gid n payload m)" for k m
    by (induction k arbitrary: m) (auto intro!: audit.steps_intros audit_steps a f)
  then show ?thesis by (simp add: run_node_with_retries_def)
qed

lemma audit_begin [audit_steps]: "audit.steps (begin_workflow g payload)" "audit.steps (finish_workflow gid payload)"
  "audit.steps (await_approval gid payload ns)" "audit.steps (batch_checkpoint gid payload)"
  unfolding begin_workflow_def finish_workflow_def await_approval_def batch_checkpoint_def Let_def
  by (intro audit.steps_intros audit_steps)+

lemma audit_start:
  assumes "audited_engine E"
  shows "audit.steps (start E g payload approved par)"
proof -
  have "audit.steps (first_error es)" for es
    by (auto simp: first_error_def intro!: audit.steps_intros split: list.split option.split)
  then have b: "audit.steps (run_batch E gid par payload ns)" for gid ns
    unfolding run_batch_def by (intro audit.steps_intros audit_run_node assms)
  have "audit.steps (run_batches E gid par approved payload bs)" for gid bs
    by (induction bs) (auto simp: Let_def intro!: audit.steps_intros audit_steps b)
  then show ?thesis unfolding start_def by (intro audit.steps_intros audit_steps)
qed

lemma audit_workflow_start:
  assumes "audited_engine E"
  shows "audit.steps (start_workflow E gid items payload approved)" "audit.steps (workflow_start E body rq)"
proof -
  have r: "audit.steps (resolve_node item)" for item
    unfolding resolve_node_def req_as_def Let_def by (intro audit.steps_intros audit_steps) (auto intro!: audit.steps_intros split: list.split)
  have *: "audit.steps (start_workflow E gid items payload approved)" if "audited_engine E"
    for E :: "('a fworld_scheme) engine" and gid items payload approved
    unfolding start_workflow_def using that by (intro audit.steps_intros audit_start r)
  show "audit.steps (start_workflow E gid items payload approved)" using assms by (rule *)
  have "audited_engine (E\<lparr>en_runner := api_node_runner\<rparr>)"
    using assms by (auto simp: audited_engine_def api_node_runner_def intro!: audit.steps_intros)
  then show "audit.steps (workflow_start E body rq)"
    unfolding workflow_start_def req_as_def assert_workflow_tenant_def workflow_owner_def meter_record_def Let_def
    by (intro audit.steps_intros audit_steps *; simp)
qed

end
