(* ===== verification/Workflow_Recovery.thy ===== *)
theory Workflow_Recovery
  imports Workflow
begin

text \<open>
  Recovery of a workflow from its log (\<^verbatim>\<open>recovery/\<close>) against the workflow engine
  (\<^verbatim>\<open>collaboration/workflow.py\<close>): what is rebuilt from the events the engine appends is the state the engine
  holds.
\<close>

section \<open>Triples\<close>

text \<open>
  From a state with \<open>P\<close> the operation returns with \<open>Q\<close> or raises with \<open>X\<close>.
\<close>

definition triple :: "('s \<Rightarrow> bool) \<Rightarrow> ('s, 'a) op \<Rightarrow> ('a \<Rightarrow> 's \<Rightarrow> bool) \<Rightarrow> ('s \<Rightarrow> bool) \<Rightarrow> bool" where
  "triple P m Q X \<longleftrightarrow> (\<forall>s. P s \<longrightarrow> (case m s of (Inl _, s') \<Rightarrow> X s' | (Inr a, s') \<Rightarrow> Q a s'))"

lemma triple_Inr: "triple P m Q X \<Longrightarrow> m s = (Inr a, s') \<Longrightarrow> P s \<Longrightarrow> Q a s'"
  by (fastforce simp: triple_def)

lemma triple_steps: "(\<And>s. P s \<Longrightarrow> P (snd (m s))) \<Longrightarrow> triple P m (\<lambda>_. P) P"
  by (auto simp: triple_def split: prod.split sum.split) (metis snd_conv)+

lemma triple_bind: "triple P m Q X \<Longrightarrow> (\<And>a. triple (Q a) (f a) R X) \<Longrightarrow> triple P (bind m f) R X"
  by (fastforce simp: triple_def bind_apply split: prod.splits sum.splits)

lemma triple_catch: "triple P m Q Y \<Longrightarrow> (\<And>e. triple Y (h e) Q X) \<Longrightarrow> triple P (catch m h) Q X"
  by (fastforce simp: triple_def catch_apply split: prod.splits sum.splits)

lemma triple_ok: "(\<And>s. P s \<Longrightarrow> Q a s) \<Longrightarrow> triple P (ok a) Q X"
  by (simp add: triple_def ok_apply)

lemma triple_raise: "(\<And>s. P s \<Longrightarrow> X s) \<Longrightarrow> triple P (raise e) Q X"
  by (simp add: triple_def raise_apply)

lemma triple_gets: "(\<And>s. P s \<Longrightarrow> Q (f s) s) \<Longrightarrow> triple P (gets f) Q X"
  by (simp add: triple_def gets_apply)

lemma triple_conseq: "triple P m Q X \<Longrightarrow> (\<And>s. P' s \<Longrightarrow> P s) \<Longrightarrow> (\<And>a s. Q a s \<Longrightarrow> Q' a s) \<Longrightarrow> (\<And>s. X s \<Longrightarrow> X' s) \<Longrightarrow> triple P' m Q' X'"
  by (fastforce simp: triple_def split: prod.splits sum.splits)

lemma triple_if: "(b \<Longrightarrow> triple P m Q X) \<Longrightarrow> (\<not> b \<Longrightarrow> triple P n Q X) \<Longrightarrow> triple P (if b then m else n) Q X"
  by simp

lemma triple_forM: "(\<And>x. x \<in> set xs \<Longrightarrow> triple P (f x) (\<lambda>_. P) X) \<Longrightarrow> triple P (forM f xs) (\<lambda>_. P) X"
  by (induction xs) (auto intro!: triple_ok triple_bind)

section \<open>The log of a workflow\<close>

definition replayed :: "string \<Rightarrow> 'z world_scheme \<Rightarrow> unit result \<times> rebuilt" where
  "replayed gid w = forM rebuild_event (filter (\<lambda>e. ev_aggregate e = gid) (w_events w)) rebuilt_init"

text \<open>The log of the workflow rebuilds, to a state in a relation to the state of the engine.\<close>

definition tracks :: "string \<Rightarrow> (rebuilt \<Rightarrow> workflow_state \<Rightarrow> bool) \<Rightarrow> 'z fworld_scheme \<Rightarrow> bool" where
  "tracks gid P w \<longleftrightarrow> (\<exists>r. replayed gid w = (Inr (), r) \<and> P r (the_state gid w))"

lemma tracks_mono: "tracks gid P w \<Longrightarrow> (\<And>r s. P r s \<Longrightarrow> Q r s) \<Longrightarrow> tracks gid Q w"
  by (auto simp: tracks_def)

definition leaves :: "string \<Rightarrow> 'z fworld_scheme \<Rightarrow> 'z fworld_scheme \<Rightarrow> bool" where
  "leaves gid w w' \<longleftrightarrow> the_state gid w' = the_state gid w \<and>
     filter (\<lambda>e. ev_aggregate e = gid) (w_events w') = filter (\<lambda>e. ev_aggregate e = gid) (w_events w)"

interpretation apart: step_contract "leaves gid" for gid
  by unfold_locales (auto simp: leaves_def)

lemma triple_apart: "apart.steps gid m \<Longrightarrow> triple (tracks gid P) m (\<lambda>_. tracks gid P) (tracks gid P)"
proof -
  assume m: "apart.steps gid m"
  have "tracks gid P (snd (m w))" if "tracks gid P w" for w
    using that apart.stepsD [OF m, of w] by (simp add: leaves_def tracks_def replayed_def)
  then show ?thesis by (simp add: triple_steps)
qed

lemma triple_change:
  assumes "\<And>r s. P r s \<Longrightarrow> Q r (f s)"
  shows "triple (tracks gid P) (change_state gid f) (\<lambda>_. tracks gid Q) X"
  using assms by (auto simp: triple_def change_state_apply tracks_def replayed_def the_state_def)

lemma triple_append:
  assumes "registered ty"
    "\<And>r s e. P r s \<Longrightarrow> ev_type e = ty \<Longrightarrow> ev_payload e = p \<Longrightarrow> \<exists>r'. rebuild_event e r = (Inr (), r') \<and> Q r' s"
  shows "triple (tracks gid P) (es_append ty gid p) (\<lambda>_. tracks gid Q) X"
  unfolding triple_def
proof (intro allI impI)
  fix w :: "'a fworld_scheme" assume "tracks gid P w"
  then obtain r where r: "replayed gid w = (Inr (), r)" "P r (the_state gid w)" by (auto simp: tracks_def)
  let ?e = "next_event ty gid p w"
  have e: "ev_type ?e = ty" "ev_payload ?e = p" "ev_aggregate ?e = gid" by (simp_all add: next_event_def Let_def)
  obtain r' where r': "rebuild_event ?e r = (Inr (), r')" "Q r' (the_state gid w)" using assms(2) [OF r(2) e(1,2)] by blast
  have "replayed gid (snd (es_append ty gid p w)) = (Inr (), r')"
    using r(1) r'(1) e(3) assms(1) by (simp add: replayed_def es_append_registered forM_append bind_apply ok_apply)
  then have "tracks gid Q (snd (es_append ty gid p w))" using r'(2) by (auto simp: tracks_def the_state_def)
  then show "case es_append ty gid p w of (Inl _, s') \<Rightarrow> X s' | (Inr a, s') \<Rightarrow> tracks gid Q s'"
    using assms(1) by (simp add: es_append_registered)
qed

lemma apart_frame: "(\<And>w. w_workflows (snd (m w)) = w_workflows w \<and> w_events (snd (m w)) = w_events w) \<Longrightarrow> apart.steps gid m"
  by (simp add: apart.steps_def leaves_def the_state_def)

named_theorems apart_steps \<open>operations that leave a workflow and its log alone\<close>

lemma apart_world [apart_steps]: "apart.steps gid utc_now" "apart.steps gid uuid_hex12" "apart.steps gid (on_store m)"
  "apart.steps gid (modify (\<lambda>w. w\<lparr>w_contexts := c w\<rparr>))"
  by (rule apart_frame; simp add: utc_now_def uuid_hex12_def on_store_def modify_apply split: prod.split)+

lemma apart_context [apart_steps]: "apart.steps gid (get_or_create i)" "apart.steps gid (update_task_state i n v)" "apart.steps gid (checkpoint i k)"
  "apart.steps gid (set_record i c)"
  unfolding get_or_create_def update_task_state_def checkpoint_def change_record_def reject_raw_sensitive_def set_record_def persist_def Let_def
  by (intro apart.steps_intros apart_steps)+

lemma registered_workflow:
  "registered ''workflow.started''" "registered ''task.started''" "registered ''task.completed''" "registered ''task.failed''" "registered ''task''"
  "registered ''human_approval.requested''" "registered ''checkpoint.created''" "registered ''workflow''" "registered ''workflow.completed''"
  by code_simp+

section \<open>What the events rebuild\<close>

lemmas rebuild_defs = rebuild_event_def Let_def op_simps field_defs set_node_status_def

lemma rebuild_started:
  assumes "ev_type e = ''task.started''" "ev_payload e = trace_head n k @ x"
  shows "rebuild_event e r = (Inr (), r\<lparr>rb_started := insert (tk_id n) (rb_started r), rb_retries := AList.update (tk_id n) k (rb_retries r)\<rparr>)"
  using assms by (simp add: rebuild_defs trace_head_def)

lemma rebuild_task: "ev_type e = ''task'' \<Longrightarrow> rebuild_event e r = (Inr (), r)"
  by (simp add: rebuild_defs)

lemma rebuild_completed:
  assumes "ev_type e = ''task.completed''" "ev_payload e = p" "map_of p ''node_id'' = Some (JStr i)" "map_of p ''result'' = Some v"
  shows "rebuild_event e r = (Inr (), r\<lparr>rb_completed := insert i (rb_completed r), rb_failed := rb_failed r - {i},
    rb_node_status := AList.update i ''completed'' (rb_node_status r), rb_results := AList.update i v (rb_results r), rb_traces := rb_traces r @ [p]\<rparr>)"
  using assms by (simp add: rebuild_defs)

lemma rebuild_failed:
  assumes "ev_type e = ''task.failed''" "ev_payload e = p" "map_of p ''node_id'' = Some (JStr i)" "map_of p ''attempt'' = Some (JInt k)"
  shows "rebuild_event e r = (Inr (), r\<lparr>rb_failed := (if i \<in> rb_completed r then rb_failed r else insert i (rb_failed r)),
    rb_node_status := (if i \<in> rb_completed r then rb_node_status r else AList.update i ''failed'' (rb_node_status r)),
    rb_retries := AList.update i k (rb_retries r), rb_traces := rb_traces r @ [p]\<rparr>)"
  using assms by (simp add: rebuild_defs)

lemma rebuild_checkpoint:
  assumes "ev_type e = ''checkpoint.created''" "map_of (ev_payload e) ''checkpoint_id'' = Some (JStr c)"
  shows "rebuild_event e r = (Inr (), r\<lparr>rb_checkpoints := rb_checkpoints r @ [c]\<rparr>)"
  using assms by (simp add: rebuild_defs)

lemma set_statuses_apply:
  "forM (\<lambda>n. set_node_status (py_str n) st) (map JStr is) r =
     (Inr (), r\<lparr>rb_node_status := foldl (\<lambda>d i. AList.update i st d) (rb_node_status r) is\<rparr>)"
  by (induction "is" arbitrary: r) (simp_all add: op_simps set_node_status_def)

lemma rebuild_requested:
  assumes "ev_type e = ''human_approval.requested''" "map_of (ev_payload e) ''nodes'' = Some (strs is)"
  shows "rebuild_event e r = (Inr (), r\<lparr>rb_status := ''awaiting_approval'',
    rb_node_status := foldl (\<lambda>d i. AList.update i ''awaiting_approval'' d) (rb_node_status r) is\<rparr>)"
  using assms
  by (simp add: rebuild_event_def Let_def bind_apply modify_apply lift_apply rebuild_nodes_status_def get_or_def strs_def set_statuses_apply)

lemma rebuild_nodes_apply:
  "forM rebuild_node (map (\<lambda>n. JObj (node_as_dict n)) ns) r =
     (Inr (), r\<lparr>rb_node_status := foldl (\<lambda>d n. AList.update (tk_id n) ''pending'' d) (rb_node_status r) ns,
       rb_delegated := foldl (\<lambda>d n. AList.update (tk_id n) (tk_agent n) d) (rb_delegated r) ns\<rparr>)"
  by (induction ns arbitrary: r) (simp_all add: op_simps rebuild_node_def set_node_status_def node_as_dict_def req_def)

lemma rebuild_workflow_started:
  assumes "ev_type e = ''workflow.started''" "map_of (ev_payload e) ''task_graph'' =
    Some (JObj [(''graph_id'', JStr i), (''nodes'', JList (map (\<lambda>n. JObj (node_as_dict n)) ns))])"
  shows "rebuild_event e r = (Inr (), r\<lparr>rb_status := ''running'',
    rb_node_status := foldl (\<lambda>d n. AList.update (tk_id n) ''pending'' d) (rb_node_status r) ns,
    rb_delegated := foldl (\<lambda>d n. AList.update (tk_id n) (tk_agent n) d) (rb_delegated r) ns\<rparr>)"
  using assms
  by (simp add: rebuild_event_def Let_def bind_apply modify_apply lift_apply dict_or_def get_or_def rebuild_nodes_apply)

lemma rebuild_workflow_completed:
  assumes "ev_type e = ''workflow.completed'' \<or> ev_type e = ''workflow'' \<and> map_of (ev_payload e) ''status'' = Some (JStr ''completed'')"
  shows "rebuild_event e r = (Inr (), r\<lparr>rb_status := ''completed''\<rparr>)"
  using assms by (auto simp: rebuild_event_def Let_def modify_apply)

section \<open>Agreement\<close>

definition completed_nodes :: "workflow_state \<Rightarrow> string set" where
  "completed_nodes s = {i. map_of (wf_node_status s) i = Some ''completed''}"

text \<open>A dictionary updated with the items of another one.\<close>

definition over :: "'v dict \<Rightarrow> 'v dict \<Rightarrow> 'v dict" where
  "over old new = foldl (\<lambda>d (k, v). AList.update k v d) old new"

lemma over_simps [simp]: "over old [] = old" "over old ((k, v) # new) = over (AList.update k v old) new"
  by (simp_all add: over_def)

lemma over_Nil: "is_dict d \<Longrightarrow> over [] d = d"
  using dict_of_pairs_id [of d] by (simp add: over_def dict_of_pairs_def)

lemma update_commute: "i \<noteq> k \<Longrightarrow> i \<in> fst ` set d \<Longrightarrow> AList.update i v (AList.update k x d) = AList.update k x (AList.update i v d)"
  by (induction d) auto

lemma over_present: "i \<in> fst ` set d \<Longrightarrow> i \<notin> fst ` set a \<Longrightarrow> over (AList.update i v d) a = AList.update i v (over d a)"
proof (induction a arbitrary: d)
  case (Cons p a)
  obtain k x where p: "p = (k, x)" by fastforce
  have "over (AList.update i v (AList.update k x d)) a = AList.update i v (over (AList.update k x d) a)"
    using Cons.prems by (intro Cons.IH) (auto simp: AList.dom_update)
  with Cons.prems p update_commute [of i k d v x] show ?case by simp
qed simp

lemma over_update [simp]: "is_dict a \<Longrightarrow> over d (AList.update i v a) = AList.update i v (over d a)"
proof (induction a arbitrary: d)
  case (Cons p a)
  obtain k x where p: "p = (k, x)" by fastforce
  show ?case
  proof (cases "k = i")
    case True
    then show ?thesis using Cons.prems p over_present [of i "AList.update i x d" a v] by (simp add: AList.dom_update)
  next
    case False
    then show ?thesis using Cons p by simp
  qed
qed simp

lemma map_of_over: "is_dict a \<Longrightarrow> map_of (over d a) i = (case map_of a i of None \<Rightarrow> map_of d i | Some v \<Rightarrow> Some v)"
proof (induction a arbitrary: d)
  case (Cons p a)
  obtain k x where p: "p = (k, x)" by fastforce
  have "map_of a k = None" using Cons.prems p by (simp add: map_of_eq_None_iff)
  with Cons p show ?case by (auto split: option.split)
qed simp

lemma over_set_all: "is_dict a \<Longrightarrow> over d (foldl (\<lambda>d n. AList.update (f n) (g n) d) a ns) = foldl (\<lambda>d n. AList.update (f n) (g n) d) (over d a) ns"
  by (induction ns arbitrary: a) simp_all

text \<open>
  What is rebuilt is what was rebuilt from the earlier log, updated with the state of the engine: the
  items of its dictionaries replace the earlier ones, its checkpoints follow the earlier ones.
\<close>

definition agree :: "rebuilt \<Rightarrow> rebuilt \<Rightarrow> workflow_state \<Rightarrow> bool" where
  "agree old r s \<longleftrightarrow> rb_status r = wf_status s \<and> rb_results r = over (rb_results old) (wf_results s) \<and>
     rb_node_status r = over (rb_node_status old) (wf_node_status s) \<and> rb_retries r = over (rb_retries old) (wf_retries s) \<and>
     rb_checkpoints r = rb_checkpoints old @ wf_checkpoints s \<and> rb_delegated r = over (rb_delegated old) (wf_assignments s) \<and>
     rb_completed r = rb_completed old \<union> completed_nodes s \<and> wf_status s \<noteq> ''unknown'' \<and>
     is_dict (wf_node_status s) \<and> is_dict (wf_results s) \<and> is_dict (wf_retries s) \<and> is_dict (wf_assignments s)"

text \<open>While a node runs the two may differ in what they say of this node.\<close>

definition same_but :: "string \<Rightarrow> 'v dict \<Rightarrow> 'v dict \<Rightarrow> bool" where
  "same_but i a b \<longleftrightarrow> (\<forall>v. AList.update i v a = AList.update i v b)"

lemma same_but_simps [simp]: "same_but i a a" "same_but i (AList.update i v a) b = same_but i a b" "same_but i a (AList.update i v b) = same_but i a b"
  by (simp_all add: same_but_def)

lemma same_but_set: "same_but i a b \<Longrightarrow> map_of b i = Some v \<Longrightarrow> AList.update i v a = b"
  by (simp add: same_but_def AList.update_triv)

definition agree_but :: "rebuilt \<Rightarrow> string \<Rightarrow> rebuilt \<Rightarrow> workflow_state \<Rightarrow> bool" where
  "agree_but old i r s \<longleftrightarrow> rb_status r = wf_status s \<and> rb_checkpoints r = rb_checkpoints old @ wf_checkpoints s \<and>
     rb_delegated r = over (rb_delegated old) (wf_assignments s) \<and>
     same_but i (rb_results r) (over (rb_results old) (wf_results s)) \<and>
     same_but i (rb_node_status r) (over (rb_node_status old) (wf_node_status s)) \<and>
     same_but i (rb_retries r) (over (rb_retries old) (wf_retries s)) \<and>
     rb_completed r - {i} = (rb_completed old \<union> completed_nodes s) - {i} \<and> wf_status s \<noteq> ''unknown'' \<and>
     is_dict (wf_node_status s) \<and> is_dict (wf_results s) \<and> is_dict (wf_retries s) \<and> is_dict (wf_assignments s)"

lemma agree_imp_but: "agree old r s \<Longrightarrow> agree_but old i r s"
  by (simp add: agree_def agree_but_def)

lemma completed_but: "completed_nodes (s\<lparr>wf_node_status := AList.update i v (wf_node_status s)\<rparr>) - {i} = completed_nodes s - {i}"
  by (auto simp: completed_nodes_def)

lemma completed_frame: "wf_node_status s' = wf_node_status s \<Longrightarrow> completed_nodes s' = completed_nodes s"
  by (simp add: completed_nodes_def)

text \<open>The stages of an attempt: its number is recorded, then its result, then its success.\<close>

definition staged :: "rebuilt \<Rightarrow> string \<Rightarrow> json option \<Rightarrow> bool \<Rightarrow> rebuilt \<Rightarrow> workflow_state \<Rightarrow> bool" where
  "staged old i res fin r s \<longleftrightarrow> agree_but old i r s \<and> rb_retries r = over (rb_retries old) (wf_retries s) \<and>
     (\<forall>v. res = Some v \<longrightarrow> map_of (wf_results s) i = Some v) \<and> (fin \<longrightarrow> map_of (wf_node_status s) i = Some ''completed'')"

lemma staged_but: "staged old i res fin r s \<Longrightarrow> agree_but old i r s"
  by (simp add: staged_def)

lemma staged_completed:
  assumes "staged old i (Some v) True r s"
  shows "agree old (r\<lparr>rb_completed := insert i (rb_completed r), rb_failed := rb_failed r - {i},
    rb_node_status := AList.update i ''completed'' (rb_node_status r), rb_results := AList.update i v (rb_results r), rb_traces := t\<rparr>) s"
proof -
  have b: "agree_but old i r s" and m: "map_of (wf_results s) i = Some v" "map_of (wf_node_status s) i = Some ''completed''"
    "rb_retries r = over (rb_retries old) (wf_retries s)"
    using assms by (simp_all add: staged_def)
  have "AList.update i ''completed'' (rb_node_status r) = over (rb_node_status old) (wf_node_status s)"
    "AList.update i v (rb_results r) = over (rb_results old) (wf_results s)"
    by (rule same_but_set; use b m in \<open>simp add: agree_but_def map_of_over\<close>)+
  moreover have "insert i (rb_completed r) = rb_completed old \<union> completed_nodes s"
  proof -
    have "i \<in> completed_nodes s" using m(2) by (simp add: completed_nodes_def)
    moreover have "rb_completed r - {i} = (rb_completed old \<union> completed_nodes s) - {i}" using b by (simp add: agree_but_def)
    ultimately show ?thesis by blast
  qed
  ultimately show ?thesis using b m(3) by (auto simp: agree_def agree_but_def)
qed

section \<open>Running a node\<close>

text \<open>An engine whose runner and reputation service leave the workflow and its log to the engine.\<close>

definition apart_engine :: "string \<Rightarrow> ('z fworld_scheme) engine \<Rightarrow> bool" where
  "apart_engine gid E \<longleftrightarrow> (\<forall>n inp. apart.steps gid (en_runner E n inp)) \<and> (\<forall>a b l t. apart.steps gid (en_reputation E a b l t))"

lemma apart_engineD: "apart_engine gid E \<Longrightarrow> apart.steps gid (en_runner E n inp)" "apart_engine gid E \<Longrightarrow> apart.steps gid (en_reputation E a b l t)"
  by (simp_all add: apart_engine_def)

lemma apart_nodes: "apart.steps gid m \<Longrightarrow> nodes.steps gid S m"
  by (simp add: apart.steps_def nodes.steps_def leaves_def nodes_kept_def record_of_def)

lemma apart_calm: "apart_engine gid E \<Longrightarrow> calm gid E"
  by (simp add: apart_engine_def calm_def apart_nodes)

lemma triple_aside:
  assumes "apart.steps gid m" "\<And>r s. P r s \<Longrightarrow> Y r s"
  shows "triple (tracks gid P) m (\<lambda>_. tracks gid P) (tracks gid Y)"
  by (rule triple_conseq [OF triple_apart [OF assms(1), of P]]) (auto intro: tracks_mono assms(2))

lemma staged_result: "staged old i res fin r s \<Longrightarrow> staged old i (Some v) fin r (s\<lparr>wf_results := AList.update i v (wf_results s)\<rparr>)"
  by (simp add: staged_def agree_but_def completed_nodes_def)

lemma staged_status: "staged old i res fin r s \<Longrightarrow> staged old i res True r (s\<lparr>wf_node_status := AList.update i ''completed'' (wf_node_status s)\<rparr>)"
  using completed_but [of i "''completed''" s] by (auto simp: staged_def agree_but_def)

lemma staged_traces: "staged old i res fin r s \<Longrightarrow> staged old i res fin r (s\<lparr>wf_traces := t s\<rparr>)"
  by (simp add: staged_def agree_but_def completed_nodes_def)

lemma staged_started:
  "agree_but old i r s \<Longrightarrow> map_of (wf_retries s) i = Some k \<Longrightarrow> staged old i None False (r\<lparr>rb_started := x, rb_retries := AList.update i k (rb_retries r)\<rparr>) s"
  using same_but_set [of i "rb_retries r" "over (rb_retries old) (wf_retries s)" k] by (simp add: staged_def agree_but_def map_of_over)

lemma attempt_tracks:
  assumes "apart_engine gid E"
  shows "triple (tracks gid (\<lambda>r s. agree_but old (tk_id n) r s \<and> map_of (wf_retries s) (tk_id n) = Some k)) (attempt_node E gid n payload k t)
    (\<lambda>_. tracks gid (agree old)) (tracks gid (agree_but old (tk_id n)))"
  unfolding attempt_node_def Let_def
proof (intro triple_bind)
  let ?i = "tk_id n" and ?X = "tracks gid (agree_but old (tk_id n))"
  show "triple (tracks gid (\<lambda>r s. agree_but old ?i r s \<and> map_of (wf_retries s) ?i = Some k))
     (es_append ''task.started'' gid (trace_head n k @ scope_fields payload)) (\<lambda>_. tracks gid (staged old ?i None False)) ?X"
    by (rule triple_append [OF registered_workflow(2)]) (auto simp: rebuild_started intro!: staged_started)
  show "triple (tracks gid (staged old ?i None False)) (gets (the_state gid)) (\<lambda>_. tracks gid (staged old ?i None False)) ?X"
    "triple (tracks gid (staged old ?i None False)) (gets (en_latency E)) (\<lambda>_. tracks gid (staged old ?i None False)) ?X"
    by (rule triple_gets; assumption)+
  show "triple (tracks gid (staged old ?i None False)) (get_or_create gid) (\<lambda>_. tracks gid (staged old ?i None False)) ?X"
    by (rule triple_aside) (auto intro: apart_steps staged_but)
  show "triple (tracks gid (staged old ?i None False)) (en_runner E n inp) (\<lambda>_. tracks gid (staged old ?i None False)) ?X" for inp
    by (rule triple_aside) (auto intro: apart_engineD assms staged_but)
  show "triple (tracks gid (staged old ?i None False)) (change_state gid (\<lambda>s. s\<lparr>wf_results := AList.update ?i v (wf_results s)\<rparr>))
     (\<lambda>_. tracks gid (staged old ?i (Some v) False)) ?X" for v
    by (rule triple_change) (rule staged_result)
  show "triple (tracks gid (staged old ?i (Some v) False)) (change_state gid (\<lambda>s. s\<lparr>wf_node_status := AList.update ?i ''completed'' (wf_node_status s)\<rparr>))
     (\<lambda>_. tracks gid (staged old ?i (Some v) True)) ?X" for v
    by (rule triple_change) (rule staged_status)
  show "triple (tracks gid (staged old ?i (Some v) True)) utc_now (\<lambda>_. tracks gid (staged old ?i (Some v) True)) ?X" for v
    by (rule triple_aside) (auto intro: apart_steps staged_but)
  show "triple (tracks gid (staged old ?i (Some v) True)) (change_state gid (\<lambda>s. s\<lparr>wf_traces := x s\<rparr>)) (\<lambda>_. tracks gid (staged old ?i (Some v) True)) ?X" for v x
    by (rule triple_change) (rule staged_traces)
  show "triple (tracks gid (staged old ?i (Some v) True)) (update_task_state gid ?i u) (\<lambda>_. tracks gid (staged old ?i (Some v) True)) ?X" for v u
    by (rule triple_aside) (auto intro: apart_steps staged_but)
  show "triple (tracks gid (staged old ?i (Some v) True)) (es_append ''task'' gid x) (\<lambda>_. tracks gid (staged old ?i (Some v) True)) ?X" for v x
    by (rule triple_append [OF registered_workflow(5)]) (simp add: rebuild_task)
  show "triple (tracks gid (staged old ?i (Some v) True)) (es_append ''task.completed'' gid ((trace_head n k @ [(''status'', JStr ''completed'')] @ trace_tail t finished l payload) @ [(''result'', v)]))
     (\<lambda>_. tracks gid (agree old)) ?X" for v finished l
    by (rule triple_append [OF registered_workflow(3)])
      (use staged_completed rebuild_completed in \<open>fastforce simp: trace_head_def trace_tail_def scope_fields_def\<close>)
  show "triple (tracks gid (agree old)) (en_reputation E a b l u) (\<lambda>_. tracks gid (agree old)) ?X" for a b l u
    by (rule triple_aside) (auto intro: apart_engineD assms agree_imp_but)
qed

abbreviation anything :: "'s \<Rightarrow> bool" where
  "anything \<equiv> \<lambda>_. True"

lemma triple_lift: "triple P (lift r) (\<lambda>_. P) anything"
  by (auto simp: triple_def lift_apply split: sum.split)

lemma triple_free: "apart.steps gid m \<Longrightarrow> triple (tracks gid P) m (\<lambda>_. tracks gid P) anything"
  by (rule triple_conseq [OF triple_apart]) auto

lemma agree_but_failed:
  "agree_but old i r s \<Longrightarrow> agree_but old i (r\<lparr>rb_failed := (if i \<in> rb_completed r then rb_failed r else insert i (rb_failed r)),
    rb_node_status := (if i \<in> rb_completed r then rb_node_status r else AList.update i ''failed'' (rb_node_status r)),
    rb_retries := AList.update i k (rb_retries r), rb_traces := t\<rparr>) s"
  by (simp add: agree_but_def)

lemma agree_but_traces: "agree_but old i r s \<Longrightarrow> agree_but old i r (s\<lparr>wf_traces := t s\<rparr>)"
  by (simp add: agree_but_def completed_nodes_def)

lemma failed_tracks:
  assumes "apart_engine gid E"
  shows "triple (tracks gid (agree_but old (tk_id n))) (node_failed E gid n payload k t e)
    (\<lambda>_ w. tracks gid (agree_but old (tk_id n)) w \<and> k \<le> tk_retries n) anything"
  unfolding node_failed_def Let_def
proof (intro triple_bind triple_if)
  let ?i = "tk_id n" and ?P = "tracks gid (agree_but old (tk_id n))"
  show "triple ?P (gets (en_latency E)) (\<lambda>_. ?P) anything" by (rule triple_gets)
  show "triple ?P utc_now (\<lambda>_. ?P) anything" by (rule triple_free) (rule apart_steps)
  show "triple ?P (change_state gid (\<lambda>s. s\<lparr>wf_traces := x s\<rparr>)) (\<lambda>_. ?P) anything" for x
    by (rule triple_change) (rule agree_but_traces)
  show "triple ?P (es_append ''task'' gid x) (\<lambda>_. ?P) anything" for x
    by (rule triple_append [OF registered_workflow(5)]) (simp add: rebuild_task)
  show "triple ?P (es_append ''task.failed'' gid (trace_head n k @ [(''status'', JStr ''failed''), (''error'', JStr m)] @ trace_tail t finished l payload))
     (\<lambda>_. ?P) anything" for m finished l
    by (rule triple_append [OF registered_workflow(4)])
      (use agree_but_failed rebuild_failed in \<open>fastforce simp: trace_head_def\<close>)
  show "triple ?P (en_reputation E a b l u) (\<lambda>_. ?P) anything" for a b l u by (rule triple_free) (rule apart_engineD [OF assms])
  show "triple ?P (ok ()) (\<lambda>_ w. ?P w \<and> k \<le> tk_retries n) anything" if "\<not> tk_retries n < k" using that by (intro triple_ok) simp
  show "triple ?P (change_state gid f) (\<lambda>_. anything) anything" for f by (auto simp: triple_def change_state_apply)
  show "triple anything (change_state gid f) (\<lambda>_. anything) anything" for f by (auto simp: triple_def change_state_apply)
  show "triple anything (raise x) (\<lambda>_ w. ?P w \<and> k \<le> tk_retries n) anything" for x by (rule triple_raise)
qed

lemma retry_tracks:
  assumes "apart_engine gid E"
  shows "0 < k \<Longrightarrow> m + int k = tk_retries n + 1 \<Longrightarrow>
    triple (tracks gid (agree_but old (tk_id n))) (retry_loop k E gid n payload m) (\<lambda>_. tracks gid (agree old)) anything"
proof (induction k arbitrary: m)
  case (Suc k)
  let ?i = "tk_id n"
  let ?P = "\<lambda>r s. agree_but old ?i r s \<and> map_of (wf_retries s) ?i = Some (m + 1)"
  let ?Q = "\<lambda>fin w. if fin then tracks gid (agree old) w else tracks gid (agree_but old ?i) w \<and> m + 1 \<le> tk_retries n"
  have attempt: "triple (tracks gid ?P) (bind (attempt_node E gid n payload (m + 1) t) (\<lambda>_. ok True)) ?Q (tracks gid (agree_but old ?i))" for t
    by (rule triple_bind [OF attempt_tracks [OF assms]]) (simp add: triple_ok)
  have handle: "triple (tracks gid (agree_but old ?i)) (bind (node_failed E gid n payload (m + 1) t e) (\<lambda>_. ok False)) ?Q anything" for t e
    by (rule triple_bind [OF failed_tracks [OF assms]]) (simp add: triple_ok)
  have rest: "triple (?Q fin) (if fin then ok () else retry_loop k E gid n payload (m + 1)) (\<lambda>_. tracks gid (agree old)) anything" for fin
  proof (cases "fin \<or> tk_retries n < m + 1")
    case False
    then have "0 < k" "m + 1 + int k = tk_retries n + 1" using Suc.prems by auto
    then show ?thesis using False Suc.IH [of "m + 1"] by (auto elim!: triple_conseq)
  qed (auto simp: triple_def ok_apply)
  have change: "triple (tracks gid (agree_but old ?i)) (change_state gid (\<lambda>s. s\<lparr>wf_retries := AList.update ?i (m + 1) (wf_retries s)\<rparr>)) (\<lambda>_. tracks gid ?P) anything"
    by (rule triple_change) (simp add: agree_but_def completed_nodes_def)
  have tick: "triple (tracks gid ?P) utc_now (\<lambda>_. tracks gid ?P) anything" by (rule triple_free) (rule apart_steps)
  show ?case
    unfolding retry_loop.simps
    by (rule triple_bind [OF change], rule triple_bind [OF tick], rule triple_bind [OF triple_catch [OF attempt handle]], rule rest)
qed simp

lemma run_node_tracks:
  assumes "apart_engine gid E"
  shows "triple (tracks gid (agree old)) (run_node_with_retries E gid n payload) (\<lambda>_. tracks gid (agree old)) anything"
proof (cases "0 \<le> tk_retries n")
  case True
  then show ?thesis unfolding run_node_with_retries_def
    by (intro triple_conseq [OF retry_tracks [OF assms]]) (auto elim: tracks_mono agree_imp_but)
qed (simp add: run_node_with_retries_def triple_ok)

section \<open>Running a workflow\<close>

lemma run_batch_tracks:
  assumes "apart_engine gid E"
  shows "triple (tracks gid (agree old)) (run_batch E gid par payload batch) (\<lambda>_. tracks gid (agree old)) anything"
proof -
  have f: "triple (tracks gid (agree old)) (forM (\<lambda>n. run_node_with_retries E gid n payload) ns) (\<lambda>_. tracks gid (agree old)) anything" for ns
    by (rule triple_forM) (rule run_node_tracks [OF assms])
  have "tracks gid (agree old) w'" if "par \<and> 1 < length batch" "run_batch E gid par payload batch w = (Inr (), w')" "tracks gid (agree old) w" for w w'
  proof -
    from that(1,2) obtain es where "mapM (\<lambda>n. catch (bind (run_node_with_retries E gid n payload) (\<lambda>_. ok None)) (\<lambda>e. ok (Some e))) (en_order E batch) w = (Inr es, w')"
      "list_all (\<lambda>e. e = None) es" by (auto simp: run_batch_def bind_eq_Inr_iff dest!: first_error_Inr)
    then have "forM (\<lambda>n. run_node_with_retries E gid n payload) (en_order E batch) w = (Inr (), w')" by (rule collected_without_error)
    with that(3) show ?thesis by (rule triple_Inr [OF f, rotated])
  qed
  then show ?thesis
  proof (cases "par \<and> 1 < length batch")
    case False
    then show ?thesis using f [of batch] by (simp only: run_batch_def if_False)
  qed (auto simp: triple_def split: prod.split sum.split)
qed

lemma checkpoint_tracks: "triple (tracks gid (agree old)) (batch_checkpoint gid payload) (\<lambda>_. tracks gid (agree old)) anything"
  unfolding batch_checkpoint_def Let_def
proof (intro triple_bind)
  let ?P = "\<lambda>c. tracks gid (\<lambda>r s. agree old (r\<lparr>rb_checkpoints := rb_checkpoints r @ [c]\<rparr>) s)"
  show "triple (tracks gid (agree old)) (gets (the_state gid)) (\<lambda>_. tracks gid (agree old)) anything" by (rule triple_gets)
  show "triple (tracks gid (agree old)) (checkpoint gid c) (\<lambda>_. tracks gid (agree old)) anything" for c by (rule triple_free) (rule apart_steps)
  show "triple (tracks gid (agree old)) (change_state gid (\<lambda>s. s\<lparr>wf_checkpoints := wf_checkpoints s @ [c]\<rparr>)) (\<lambda>_. ?P c) anything" for c
    by (rule triple_change) (simp add: agree_def completed_nodes_def)
  show "triple (?P c) (gets (the_state gid)) (\<lambda>_. ?P c) anything" for c by (rule triple_gets)
  show "triple (?P c) (es_append ''checkpoint.created'' gid ((''checkpoint_id'', JStr c) # x)) (\<lambda>_. tracks gid (agree old)) anything" for c x
    by (rule triple_append [OF registered_workflow(7)]) (simp add: rebuild_checkpoint)
  show "triple (tracks gid (agree old)) (ok ()) (\<lambda>_. tracks gid (agree old)) anything" by (rule triple_ok)
qed

lemma map_of_set_all: "map_of (foldl (\<lambda>d n. AList.update (f n) v d) d ns) i = (if i \<in> f ` set ns then Some v else map_of d i)"
  by (induction ns arbitrary: d) auto

lemma is_dict_set_all [simp]: "is_dict d \<Longrightarrow> is_dict (foldl (\<lambda>d n. AList.update (f n) (g n) d) d ns)"
  by (induction ns arbitrary: d) auto

lemma await_tracks:
  "triple (\<lambda>w. tracks gid (agree old) w \<and> tk_id ` set ns \<inter> completed_nodes (the_state gid w) = {}) (await_approval gid payload ns) (\<lambda>_. tracks gid (agree old)) anything"
  unfolding await_approval_def
proof (intro triple_bind)
  let ?f = "\<lambda>d. foldl (\<lambda>d n. AList.update (tk_id n) ''awaiting_approval'' d) d ns"
  let ?P = "tracks gid (\<lambda>r s. agree old (r\<lparr>rb_node_status := ?f (rb_node_status r)\<rparr>) s)"
  let ?Q = "tracks gid (\<lambda>r s. agree old (r\<lparr>rb_status := ''awaiting_approval'', rb_node_status := ?f (rb_node_status r)\<rparr>) s)"
  show "triple (\<lambda>w. tracks gid (agree old) w \<and> tk_id ` set ns \<inter> completed_nodes (the_state gid w) = {})
     (change_state gid (\<lambda>s. s\<lparr>wf_node_status := ?f (wf_node_status s)\<rparr>)) (\<lambda>_. ?P) anything"
  proof (rule triple_conseq)
    show "triple (tracks gid (\<lambda>r s. agree old r s \<and> tk_id ` set ns \<inter> completed_nodes s = {}))
       (change_state gid (\<lambda>s. s\<lparr>wf_node_status := ?f (wf_node_status s)\<rparr>)) (\<lambda>_. ?P) anything"
      by (rule triple_change) (auto simp: agree_def completed_nodes_def map_of_set_all over_set_all)
  qed (auto simp: tracks_def)
  show "triple ?P (change_state gid (\<lambda>s. s\<lparr>wf_status := ''awaiting_approval''\<rparr>)) (\<lambda>_. ?Q) anything"
    by (rule triple_change) (simp add: agree_def completed_nodes_def)
  show "triple ?Q (es_append ''human_approval.requested'' gid ((''status'', JStr ''awaiting_approval'') # scope_fields payload @ [(''nodes'', strs (map tk_id ns))]))
     (\<lambda>_. tracks gid (agree old)) anything"
    by (rule triple_append [OF registered_workflow(6)]) (subst rebuild_requested [of _ "map tk_id ns"], auto simp: foldl_map scope_fields_def)
  show "triple (tracks gid (agree old)) (ok ()) (\<lambda>_. tracks gid (agree old)) anything" by (rule triple_ok)
qed

lemma run_batches_track:
  assumes "apart_engine gid E" "\<And>ns. mset (en_order E ns) = mset ns"
  shows "run_batches E gid par approved payload bs w = (Inr fin, w') \<Longrightarrow> tracks gid (agree old) w \<Longrightarrow> distinct (map tk_id (concat bs)) \<Longrightarrow>
    tk_id ` set (concat bs) \<inter> completed_nodes (the_state gid w) = {} \<Longrightarrow> tracks gid (agree old) w'"
proof (induction bs arbitrary: w)
  case (Cons b bs)
  let ?pending = "filter (needs_approval approved) b"
  show ?case
  proof (cases "?pending = []")
    case True
    with Cons.prems(1) obtain w1 w2 where w: "run_batch E gid par payload b w = (Inr (), w1)" "batch_checkpoint gid payload w1 = (Inr (), w2)"
      "run_batches E gid par approved payload bs w2 = (Inr fin, w')" by (auto simp: bind_eq_Inr_iff)
    let ?S = "tk_id ` set (concat bs)"
    have "tracks gid (agree old) w2"
      using triple_Inr [OF checkpoint_tracks w(2)] triple_Inr [OF run_batch_tracks [OF assms(1)] w(1)] Cons.prems(2) by simp
    moreover have "nodes_kept gid ?S w w1"
      using nodes.stepsD [OF nodes_run_batch [OF apart_calm [OF assms(1)] _ assms(2), of b ?S], of w par payload] w(1) Cons.prems(3) by auto
    moreover have "nodes_kept gid ?S w1 w2" using nodes.stepsD [OF nodes_checkpoint, of gid ?S w1 payload] w(2) by simp
    ultimately have "tracks gid (agree old) w2" "nodes_kept gid ?S w w2" by (auto intro: nodes.trans)
    moreover from this(2) Cons.prems(4) have "?S \<inter> completed_nodes (the_state gid w2) = {}"
      by (fastforce simp: nodes_kept_def record_of_def Let_def completed_nodes_def)
    ultimately show ?thesis using Cons.IH [OF w(3)] Cons.prems(3) by auto
  next
    case False
    with Cons.prems(1) have "await_approval gid payload ?pending w = (Inr (), w')"
      by (auto simp: bind_eq_Inr_iff Let_def ok_apply)
    from triple_Inr [OF await_tracks this] Cons.prems(2,4) show ?thesis by auto
  qed
qed (simp add: ok_apply)

lemma initial_completed: "completed_nodes (initial_state g) = {}"
  by (auto simp: completed_nodes_def initial_state_def map_of_set_all split: if_splits)

lemma begin_tracks:
  "triple (\<lambda>w. replayed (tg_id g) w = (Inr (), old)) (begin_workflow g payload)
     (\<lambda>_. tracks (tg_id g) (\<lambda>r s. agree old r s \<and> s = initial_state g)) anything"
  unfolding begin_workflow_def
proof (intro triple_bind)
  let ?P = "tracks (tg_id g) (\<lambda>r s. r = old \<and> s = initial_state g)"
  show "triple (\<lambda>w. replayed (tg_id g) w = (Inr (), old)) (set_state (tg_id g) (initial_state g)) (\<lambda>_. ?P) anything"
    by (auto simp: triple_def set_state_def modify_apply tracks_def replayed_def the_state_def)
  show "triple ?P (get_or_create (tg_id g)) (\<lambda>_. ?P) anything" by (rule triple_free) (rule apart_steps)
  show "triple ?P (lift x) (\<lambda>_. ?P) anything" for x :: "json result" by (rule triple_lift)
  show "triple ?P (set_record (tg_id g) c) (\<lambda>_. ?P) anything" for c by (rule triple_free) (rule apart_steps)
  let ?Q = "tracks (tg_id g) (\<lambda>r s. agree old r s \<and> s = initial_state g)"
  have new: "agree old (old\<lparr>rb_status := ''running'',
      rb_node_status := foldl (\<lambda>d n. AList.update (tk_id n) ''pending'' d) (rb_node_status old) (tg_nodes g),
      rb_delegated := foldl (\<lambda>d n. AList.update (tk_id n) (tk_agent n) d) (rb_delegated old) (tg_nodes g)\<rparr>) (initial_state g)"
    by (simp add: agree_def initial_completed) (simp add: initial_state_def over_set_all)
  show "triple ?P (es_append ''workflow.started'' (tg_id g) ((''status'', JStr ''started'') # scope_fields payload @
       [(''task_graph'', JObj [(''graph_id'', JStr (tg_id g)), (''nodes'', JList (map (\<lambda>n. JObj (node_as_dict n)) (tg_nodes g)))]), (''initial_payload'', JObj payload)]))
     (\<lambda>_. ?Q) anything"
    by (rule triple_append [OF registered_workflow(1)])
      (subst rebuild_workflow_started [of _ "tg_id g" "tg_nodes g"], auto simp: scope_fields_def new)
  show "triple ?Q (ok ()) (\<lambda>_. ?Q) anything" by (rule triple_ok)
qed

lemma finish_tracks: "triple (tracks gid (agree old)) (finish_workflow gid payload) (\<lambda>_. tracks gid (agree old)) anything"
  unfolding finish_workflow_def
proof (intro triple_bind)
  let ?P = "tracks gid (\<lambda>r s. agree old (r\<lparr>rb_status := ''completed''\<rparr>) s)"
  have eq: "agree old (r\<lparr>rb_status := ''completed''\<rparr>) s" if "agree old r s" "rb_status r = ''completed''" for r s using that by (simp add: agree_def)
  show "triple (tracks gid (agree old)) (change_state gid (\<lambda>s. s\<lparr>wf_status := ''completed''\<rparr>)) (\<lambda>_. ?P) anything"
    by (rule triple_change) (simp add: agree_def completed_nodes_def)
  show "triple ?P (es_append ''workflow'' gid ((''status'', JStr ''completed'') # x)) (\<lambda>_. ?P) anything" for x
    by (rule triple_append [OF registered_workflow(8)]) (simp add: rebuild_workflow_completed)
  show "triple ?P (gets (the_state gid)) (\<lambda>_. ?P) anything" by (rule triple_gets)
  show "triple ?P (es_append ''workflow.completed'' gid x) (\<lambda>_. tracks gid (agree old)) anything" for x
    by (rule triple_append [OF registered_workflow(9)]) (simp add: rebuild_workflow_completed)
  show "triple (tracks gid (agree old)) (ok ()) (\<lambda>_. tracks gid (agree old)) anything" by (rule triple_ok)
qed

lemma start_tracks:
  assumes "apart_engine (tg_id g) E" "\<And>ns. mset (en_order E ns) = mset ns" "replayed (tg_id g) w = (Inr (), old)"
    and "start E g payload approved par w = (Inr d, w')"
  shows "tracks (tg_id g) (agree old) w' \<and> d = workflow_as_dict (the_state (tg_id g) w')"
proof -
  let ?gid = "tg_id g"
  from assms(4) obtain G bs fin w1 w2 where r: "build_graph g = Inr G" "begin_workflow g payload w = (Inr (), w1)" "topological_batches G = Inr bs"
    "run_batches E ?gid par approved payload bs w1 = (Inr fin, w2)" "(if fin then finish_workflow ?gid payload else ok ()) w2 = (Inr (), w')"
    "d = workflow_as_dict (the_state ?gid w')"
    by (auto simp: start_def bind_eq_Inr_iff lift_apply gets_apply ok_apply)
  have w1: "tracks ?gid (\<lambda>r s. agree old r s \<and> s = initial_state g) w1" using triple_Inr [OF begin_tracks r(2)] assms(3) by blast
  then have "completed_nodes (the_state ?gid w1) = {}"
    by (auto simp: tracks_def initial_completed)
  moreover have "distinct (map tk_id (concat bs))"
  proof -
    have "mset (concat bs) = mset (tg_nodes g)" using batches_of_built [OF r(1,3)] by blast
    then have "mset (map tk_id (concat bs)) = mset (map tk_id (tg_nodes g))" by (simp only: mset_map)
    then show ?thesis using build_graph_spec(1) [OF r(1)] by (metis mset_eq_imp_distinct_iff)
  qed
  moreover have "tracks ?gid (agree old) w1" using w1 by (rule tracks_mono) simp
  ultimately have w2: "tracks ?gid (agree old) w2" using run_batches_track [OF assms(1,2) r(4)] by simp
  show ?thesis
  proof (cases fin)
    case True
    with r(5) w2 r(6) triple_Inr [OF finish_tracks, of ?gid payload w2 "()" w'] show ?thesis by simp
  next
    case False
    with r(5) w2 r(6) show ?thesis by (simp add: ok_apply)
  qed
qed

section \<open>Recovery\<close>

lemma completed_ids: "is_dict (wf_node_status s) \<Longrightarrow> sorted_list_of_set (completed_nodes s) = sort (ids_with ''completed'' s)"
proof -
  assume d: "is_dict (wf_node_status s)"
  have "completed_nodes s = set (ids_with ''completed'' s)"
    using map_of_eq_Some_iff_dict [OF d] by (force simp: completed_nodes_def ids_with_def)
  moreover have "distinct (ids_with ''completed'' s)" using d unfolding ids_with_def is_dict_def by (rule distinct_map_filter)
  ultimately show ?thesis by (simp add: sorted_list_of_set_sort_remdups distinct_remdups_id)
qed

lemma cp_latest_Inr: "\<exists>l. cp_latest gid w = (Inr l, w)"
  by (auto simp: cp_latest_def bind_apply on_store_def mem_keys_def mem_get_def gets_apply ok_apply Let_def)

text \<open>What recovery returns of a run that came after the log \<open>old\<close> was rebuilt from.\<close>

definition recovered_over :: "rebuilt \<Rightarrow> workflow_state \<Rightarrow> obj \<Rightarrow> bool" where
  "recovered_over old s d \<longleftrightarrow>
     map_of d ''status'' = Some (JStr (wf_status s)) \<and>
     map_of d ''node_results'' = Some (JObj (over (rb_results old) (wf_results s))) \<and>
     map_of d ''node_status'' = Some (JObj (map (map_prod id JStr) (over (rb_node_status old) (wf_node_status s)))) \<and>
     map_of d ''retry_counters'' = Some (JObj (map (map_prod id JInt) (over (rb_retries old) (wf_retries s)))) \<and>
     map_of d ''delegated_assignments'' = Some (JObj (map (map_prod id JStr) (over (rb_delegated old) (wf_assignments s)))) \<and>
     map_of d ''checkpoints'' = Some (strs (rb_checkpoints old @ wf_checkpoints s)) \<and>
     map_of d ''skip_completed_task_ids'' = Some (strs (sorted_list_of_set (rb_completed old \<union> completed_nodes s)))"

lemma recover_tracked:
  assumes "tracks gid (agree old) w" "log_ok w"
  shows "\<exists>d. outcome (recover_workflow persistence gid) w = Inr d \<and> recovered_over old (the_state gid w) d"
proof -
  let ?es = "filter (\<lambda>e. ev_aggregate e = gid) (w_events w)"
  obtain r where r: "replayed gid w = (Inr (), r)" "agree old r (the_state gid w)" using assms(1) by (auto simp: tracks_def)
  have "?es \<noteq> []" using r by (auto simp: replayed_def ok_apply agree_def rebuilt_init_def)
  moreover have "sort_key ev_seq ?es = ?es"
    using chain_ok_sorted(1) [of "w_sha w" "[]" 1 "w_events w"] assms(2) by (simp add: log_ok_def sort_key_id_if_sorted sorted_filter)
  then have rb: "rebuild_state ?es = Inr r" using r(1) by (simp add: rebuild_state_def replayed_def)
  moreover have v: "validate_integrity w" using assms(2) by (rule log_ok_validate)
  moreover obtain l where "cp_latest gid (w\<lparr>w_store := setdefault ''_meta'' [] (w_store w)\<rparr>) = (Inr l, w\<lparr>w_store := setdefault ''_meta'' [] (w_store w)\<rparr>)"
    using cp_latest_Inr by blast
  ultimately have "\<exists>x. outcome (recover_workflow persistence gid) w = Inr (rebuilt_dict gid r @ [
         (''recovered'', JBool True),
         (''safe_to_resume'', JBool (rb_final_status r = ''running'' \<or> rb_final_status r = ''awaiting_approval'')),
         (''skip_completed_task_ids'', str_list (sorted_list_of_set (rb_completed r)))] @ x)"
    by (cases persistence; cases l)
      (simp_all add: recover_workflow_def validate_or_raise_def guard_def bind_apply gets_apply ok_apply lift_apply es_replay_def Let_def
        on_store_def mem_initialize_def modify_apply)
  then show ?thesis
    using r(2) by (auto simp: recovered_over_def agree_def rebuilt_dict_def rb_final_status_def Let_def str_list_def strs_def)
qed

lemma replayed_new: "\<forall>e \<in> set (w_events w). ev_aggregate e \<noteq> gid \<Longrightarrow> replayed gid w = (Inr (), rebuilt_init)"
  by (simp add: replayed_def filter_empty_conv [THEN iffD2] ok_apply)

text \<open>
  C9. What is recovered is what the engine did: after \<^verbatim>\<open>start\<close> has returned, with all nodes run, retried ones
  included, or waiting for an approval, the recovery of the workflow from the log returns. When the
  identifier of the workflow was new to the log, it gives the status of the workflow, the results, the
  status and the attempts of its nodes, its checkpoints and the assigned agents as the engine reports them,
  and the tasks to skip are exactly the completed ones. When the log already has events of the workflow, as
  after a pause for an approval, it gives the engine's status, its entries for the nodes over those
  of the earlier runs, its checkpoints after the earlier ones, and the completed tasks together with the
  earlier ones; and the log can be replayed for the next run. The runner and the reputation service are taken to leave the
  workflow's record and its log to the engine.
\<close>

theorem recovery_agrees_with_engine:
  assumes "audited_engine E" "apart_engine (tg_id g) E" "\<And>ns. mset (en_order E ns) = mset ns"
    and "log_ok w" "replayed (tg_id g) w = (Inr (), old)" "start E g payload approved par w = (Inr d, w')"
  shows "\<exists>d'. outcome (recover_workflow persistence (tg_id g)) w' = Inr d' \<and> d = workflow_as_dict (the_state (tg_id g) w') \<and>
    recovered_over old (the_state (tg_id g) w') d' \<and> log_ok w' \<and> (\<exists>new. replayed (tg_id g) w' = (Inr (), new)) \<and>
    ((\<forall>e \<in> set (w_events w). ev_aggregate e \<noteq> tg_id g) \<longrightarrow>
      (\<forall>k \<in> {''status'', ''node_results'', ''node_status'', ''retry_counters'', ''checkpoints'', ''delegated_assignments''}. map_of d' k = map_of d k) \<and>
      (\<exists>cs. map_of d ''completed_task_ids'' = Some (strs cs) \<and> map_of d' ''skip_completed_task_ids'' = Some (strs (sort cs))))"
proof -
  let ?s = "the_state (tg_id g) w'"
  have ok: "log_ok w'"
    using audit.stepsD [OF audit_start [OF assms(1)], of w g payload approved par] assms(4,6) by (simp add: audit_step_def)
  have t: "tracks (tg_id g) (agree old) w'" "d = workflow_as_dict ?s" using start_tracks [OF assms(2,3,5,6)] by simp_all
  then obtain d' where d': "outcome (recover_workflow persistence (tg_id g)) w' = Inr d'" "recovered_over old ?s d'"
    using recover_tracked [OF t(1) ok] by blast
  obtain new where new: "replayed (tg_id g) w' = (Inr (), new)" "agree old new ?s" using t(1) by (auto simp: tracks_def)
  have "(\<forall>k \<in> {''status'', ''node_results'', ''node_status'', ''retry_counters'', ''checkpoints'', ''delegated_assignments''}. map_of d' k = map_of d k) \<and>
      (\<exists>cs. map_of d ''completed_task_ids'' = Some (strs cs) \<and> map_of d' ''skip_completed_task_ids'' = Some (strs (sort cs)))"
    if "\<forall>e \<in> set (w_events w). ev_aggregate e \<noteq> tg_id g"
  proof -
    have "old = rebuilt_init" using replayed_new [OF that] assms(5) by simp
    with d'(2) new(2) show ?thesis
      by (auto simp: t(2) recovered_over_def agree_def rebuilt_init_def over_Nil workflow_as_dict_def completed_ids)
  qed
  with d' t(2) ok new(1) show ?thesis by blast
qed

theorem recovery_agrees_with_engine_witness:
  "\<exists>d w' d'. start engine0 gated [] [] True fworld0 = (Inr d, w') \<and> outcome (recover_workflow True ''g'') w' = Inr d' \<and>
     map_of d' ''status'' = map_of d ''status'' \<and> map_of d' ''node_results'' = map_of d ''node_results''"
proof -
  obtain d w' where s: "start engine0 gated [] [] True fworld0 = (Inr d, w')" using gated_starts by blast
  have "audited_engine engine0" "apart_engine (tg_id gated) engine0"
    by (auto simp: audited_engine_def apart_engine_def engine0_def api_node_runner_def intro!: audit.steps_intros apart.steps_intros)
  moreover have "mset (en_order engine0 ns) = mset ns" for ns by (simp add: engine0_def)
  moreover have "log_ok fworld0" and new: "\<forall>e \<in> set (w_events fworld0). ev_aggregate e \<noteq> tg_id gated"
    by (simp_all add: fworld0_def aworld0_def mworld0_def pworld0_def cworld0_def tworld0_def world0_def world.defs tworld.defs
      cworld.defs pworld.defs mworld.defs aworld.defs fworld.defs log_ok_def)
  moreover note replayed_new [OF new]
  ultimately show ?thesis using recovery_agrees_with_engine [OF _ _ _ _ _ s, of rebuilt_init True] s new by (auto simp: gated_def)
qed

end
