(* ===== verification/Federation.thy ===== *)
theory Federation
  imports Agent_Memory
begin

text \<open>
  Federation with other organizations (\<^verbatim>\<open>agentfabric/federation\<close>): remote organizations, trust agreements,
  signed messages with protection against replay, receipts and delegations, and the endpoints of
  \<^verbatim>\<open>server/app.py\<close> on them. The catalogue of remote agents compares floating-point reputations and is left
  out. Identifiers and nonces are drawn from one source of fresh texts, whatever their length.
\<close>

section \<open>Remote organizations\<close>

record federated_org =
  fo_tenant :: string
  fo_organization :: string
  fo_remote :: string
  fo_name :: string
  fo_endpoint :: string
  fo_key :: string
  fo_created_by :: string
  fo_id :: string
  fo_blocked :: bool
  fo_created_at :: datetime
  fo_updated_at :: datetime

definition federated_org_as_dict :: "federated_org \<Rightarrow> obj" where
  "federated_org_as_dict g = [
     (''org_id'', JStr (fo_id g)),
     (''tenant_id'', JStr (fo_tenant g)),
     (''organization_id'', JStr (fo_organization g)),
     (''remote_org_id'', JStr (fo_remote g)),
     (''name'', JStr (fo_name g)),
     (''endpoint'', JStr (fo_endpoint g)),
     (''public_key'', JStr (fo_key g)),
     (''created_by'', JStr (fo_created_by g)),
     (''blocked'', JBool (fo_blocked g)),
     (''created_at'', JStr (isoformat (fo_created_at g))),
     (''updated_at'', JStr (isoformat (fo_updated_at g)))]"

definition federated_org_from_dict :: "obj \<Rightarrow> ('z world_scheme, federated_org) op" where
  "federated_org_from_dict d =
     bind (lift (req_str d ''org_id'')) (\<lambda>i.
     bind (lift (req_str d ''tenant_id'')) (\<lambda>tid.
     bind (lift (req_str d ''organization_id'')) (\<lambda>orgn.
     bind (lift (req_str d ''remote_org_id'')) (\<lambda>remote.
     bind (lift (req_str d ''name'')) (\<lambda>nm.
     bind (time_or_now d ''created_at'') (\<lambda>ca.
     bind (time_or_now d ''updated_at'') (\<lambda>ua.
     ok \<lparr>fo_tenant = tid, fo_organization = orgn, fo_remote = remote, fo_name = nm, fo_endpoint = str_or d ''endpoint'' [],
         fo_key = str_or d ''public_key'' [], fo_created_by = str_or d ''created_by'' [], fo_id = i,
         fo_blocked = bool_or d ''blocked'' False, fo_created_at = ca, fo_updated_at = ua\<rparr>)))))))"

section \<open>Trust agreements\<close>

record trust_agreement =
  ta_tenant :: string
  ta_organization :: string
  ta_remote :: string
  ta_created_by :: string
  ta_allowed :: "string list"
  ta_denied :: "string list"
  ta_data_classes :: "string list"
  ta_workflow_types :: "string list"
  ta_status :: string
  ta_id :: string
  ta_expires_at :: datetime
  ta_created_at :: datetime
  ta_updated_at :: datetime
  ta_reason :: string

definition agreement_active :: "trust_agreement \<Rightarrow> ('z world_scheme, bool) op" where
  "agreement_active a = (if ta_status a \<noteq> ''active'' then ok False else bind utc_now (\<lambda>t. ok (t < ta_expires_at a)))"

definition agreement_expired :: "trust_agreement \<Rightarrow> ('z world_scheme, bool) op" where
  "agreement_expired a = bind utc_now (\<lambda>t. ok (t \<ge> ta_expires_at a))"

definition allows_capability :: "trust_agreement \<Rightarrow> string \<Rightarrow> bool" where
  "allows_capability a c = (if List.member (ta_denied a) c then False else ta_allowed a = [] \<or> List.member (ta_allowed a) c)"

definition agreement_with_status :: "string \<Rightarrow> string \<Rightarrow> trust_agreement \<Rightarrow> ('z world_scheme, trust_agreement) op" where
  "agreement_with_status st reason a = bind utc_now (\<lambda>t. ok (a\<lparr>ta_status := st, ta_updated_at := t, ta_reason := reason\<rparr>))"

definition agreement_as_dict :: "trust_agreement \<Rightarrow> obj" where
  "agreement_as_dict a = [
     (''agreement_id'', JStr (ta_id a)),
     (''tenant_id'', JStr (ta_tenant a)),
     (''organization_id'', JStr (ta_organization a)),
     (''remote_org_id'', JStr (ta_remote a)),
     (''created_by'', JStr (ta_created_by a)),
     (''allowed_capabilities'', strs (ta_allowed a)),
     (''denied_capabilities'', strs (ta_denied a)),
     (''permitted_data_classes'', strs (ta_data_classes a)),
     (''allowed_workflow_types'', strs (ta_workflow_types a)),
     (''status'', JStr (ta_status a)),
     (''expires_at'', JStr (isoformat (ta_expires_at a))),
     (''created_at'', JStr (isoformat (ta_created_at a))),
     (''updated_at'', JStr (isoformat (ta_updated_at a))),
     (''revoked_reason'', JStr (ta_reason a))]"

definition agreement_from_dict :: "obj \<Rightarrow> ('z world_scheme, trust_agreement) op" where
  "agreement_from_dict d =
     bind (lift (req_str d ''agreement_id'')) (\<lambda>i.
     bind (lift (req_str d ''tenant_id'')) (\<lambda>tid.
     bind (lift (req_str d ''organization_id'')) (\<lambda>orgn.
     bind (lift (req_str d ''remote_org_id'')) (\<lambda>remote.
     bind (lift (strs_or d ''allowed_capabilities'' [])) (\<lambda>allowed.
     bind (lift (strs_or d ''denied_capabilities'' [])) (\<lambda>denied.
     bind (lift (strs_or d ''permitted_data_classes'' [''public'', ''internal''])) (\<lambda>classes.
     bind (lift (strs_or d ''allowed_workflow_types'' [])) (\<lambda>types.
     bind (time_or_now d ''expires_at'') (\<lambda>ea.
     bind (time_or_now d ''created_at'') (\<lambda>ca.
     bind (time_or_now d ''updated_at'') (\<lambda>ua.
     ok \<lparr>ta_tenant = tid, ta_organization = orgn, ta_remote = remote, ta_created_by = str_or d ''created_by'' [],
         ta_allowed = allowed, ta_denied = denied, ta_data_classes = classes, ta_workflow_types = types,
         ta_status = str_or d ''status'' ''draft'', ta_id = i, ta_expires_at = ea, ta_created_at = ca, ta_updated_at = ua,
         ta_reason = str_or d ''revoked_reason'' []\<rparr>)))))))))))"

lemma federated_org_round_trip [simp]: "federated_org_from_dict (federated_org_as_dict g) w = (Inr g, w)"
  by (simp add: federated_org_from_dict_def federated_org_as_dict_def record_defs op_simps)

lemma agreement_round_trip [simp]: "agreement_from_dict (agreement_as_dict a) w = (Inr a, w)"
  by (simp add: agreement_from_dict_def agreement_as_dict_def record_defs op_simps)

section \<open>The registry\<close>

definition add_org :: "federated_org \<Rightarrow> ('z world_scheme, federated_org) op" where
  "add_org g = bind (on_store (mem_put ''federation_orgs'' (fo_id g) (federated_org_as_dict g))) (\<lambda>_. ok g)"

definition federated_orgs :: "string \<Rightarrow> ('z world_scheme, federated_org list) op" where
  "federated_orgs tid = bind (on_store (mem_list_tenant ''federation_orgs'' tid)) (mapM federated_org_from_dict)"

definition federated_org_get :: "string \<Rightarrow> ('z world_scheme, federated_org) op" where
  "federated_org_get i =
     bind (on_store (mem_get ''federation_orgs'' i)) (\<lambda>item. case item of
       None \<Rightarrow> raise (NotFoundError ''federated org not found'')
     | Some d \<Rightarrow> federated_org_from_dict d)"

definition find_org_by_remote_id :: "string \<Rightarrow> string \<Rightarrow> ('z world_scheme, federated_org option) op" where
  "find_org_by_remote_id tid remote = bind (federated_orgs tid) (\<lambda>gs. ok (find (\<lambda>g. fo_remote g = remote) gs))"

definition put_agreement :: "trust_agreement \<Rightarrow> ('z world_scheme, trust_agreement) op" where
  "put_agreement a = bind (on_store (mem_put ''federation_agreements'' (ta_id a) (agreement_as_dict a))) (\<lambda>_. ok a)"

definition list_agreements :: "string \<Rightarrow> ('z world_scheme, trust_agreement list) op" where
  "list_agreements tid = bind (on_store (mem_list_tenant ''federation_agreements'' tid)) (mapM agreement_from_dict)"

definition get_agreement :: "string \<Rightarrow> ('z world_scheme, trust_agreement) op" where
  "get_agreement i =
     bind (on_store (mem_get ''federation_agreements'' i)) (\<lambda>item. case item of
       None \<Rightarrow> raise (NotFoundError ''trust agreement not found'')
     | Some d \<Rightarrow> agreement_from_dict d)"

fun first_active :: "string \<Rightarrow> trust_agreement list \<Rightarrow> ('z world_scheme, trust_agreement option) op" where
  "first_active remote [] = ok None"
| "first_active remote (a # as) =
     (if ta_remote a \<noteq> remote then first_active remote as
      else bind (agreement_active a) (\<lambda>active. if active then ok (Some a) else first_active remote as))"

definition active_for_remote :: "string \<Rightarrow> string \<Rightarrow> ('z world_scheme, trust_agreement option) op" where
  "active_for_remote tid remote = bind (list_agreements tid) (first_active remote)"

section \<open>Messages and receipts\<close>

record federated_message =
  fm_source_org :: string
  fm_source_tenant :: string
  fm_dest_org :: string
  fm_dest_tenant :: string
  fm_source_agent :: string
  fm_dest_agent :: string
  fm_agreement :: string
  fm_payload :: obj
  fm_veil_ref :: string
  fm_signature :: string
  fm_id :: string
  fm_correlation :: string
  fm_nonce :: string
  fm_timestamp :: datetime
  fm_ttl :: int
  fm_type :: string

definition signing_payload :: "federated_message \<Rightarrow> obj" where
  "signing_payload m = [
     (''message_id'', JStr (fm_id m)),
     (''source_org_id'', JStr (fm_source_org m)),
     (''source_tenant_id'', JStr (fm_source_tenant m)),
     (''destination_org_id'', JStr (fm_dest_org m)),
     (''destination_tenant_id'', JStr (fm_dest_tenant m)),
     (''source_agent_id'', JStr (fm_source_agent m)),
     (''destination_agent_id'', JStr (fm_dest_agent m)),
     (''trust_agreement_id'', JStr (fm_agreement m)),
     (''payload'', JObj (fm_payload m)),
     (''veil_reference'', JStr (fm_veil_ref m)),
     (''correlation_id'', JStr (fm_correlation m)),
     (''nonce'', JStr (fm_nonce m)),
     (''timestamp'', JStr (isoformat (fm_timestamp m))),
     (''ttl_seconds'', JInt (fm_ttl m)),
     (''message_type'', JStr (fm_type m))]"

definition message_expired :: "federated_message \<Rightarrow> ('z world_scheme, bool) op" where
  "message_expired m = bind utc_now (\<lambda>t. bind (lift (dt_add (fm_timestamp m) (seconds (fm_ttl m)))) (\<lambda>until. ok (t > until)))"

definition federated_as_dict :: "federated_message \<Rightarrow> obj" where
  "federated_as_dict m = signing_payload m @ [(''signature'', JStr (fm_signature m))]"

definition sign :: "(string \<Rightarrow> string) \<Rightarrow> obj \<Rightarrow> string \<Rightarrow> string" where
  "sign sha p secret = sha (dumps_compact (JObj p) @ secret)"

definition verify :: "(string \<Rightarrow> string) \<Rightarrow> string \<Rightarrow> federated_message \<Rightarrow> bool" where
  "verify sha secret m \<longleftrightarrow> fm_signature m = sign sha (signing_payload m) secret"

text \<open>The defaults of \<^verbatim>\<open>value.get\<close> are drawn whether they are needed or not.\<close>

definition federated_from_dict :: "obj \<Rightarrow> ('z world_scheme, federated_message) op" where
  "federated_from_dict d =
     bind (lift (req_str d ''message_id'')) (\<lambda>i.
     bind (lift (req_str d ''source_org_id'')) (\<lambda>so.
     bind (lift (req_str d ''source_tenant_id'')) (\<lambda>st.
     bind (lift (req_str d ''destination_org_id'')) (\<lambda>dorg.
     bind (lift (req_str d ''destination_tenant_id'')) (\<lambda>dten.
     bind (lift (req_str d ''source_agent_id'')) (\<lambda>sa.
     bind (lift (req_str d ''destination_agent_id'')) (\<lambda>da.
     bind (lift (req_str d ''trust_agreement_id'')) (\<lambda>ta.
     bind (lift (dict_or d ''payload'')) (\<lambda>p.
     bind uuid_hex12 (\<lambda>corr.
     bind uuid_hex12 (\<lambda>nonce.
     bind (time_or_now d ''timestamp'') (\<lambda>t.
     bind (lift (int_or d ''ttl_seconds'' 300)) (\<lambda>ttl.
     ok \<lparr>fm_source_org = so, fm_source_tenant = st, fm_dest_org = dorg, fm_dest_tenant = dten, fm_source_agent = sa, fm_dest_agent = da,
         fm_agreement = ta, fm_payload = p, fm_veil_ref = str_or d ''veil_reference'' [], fm_signature = str_or d ''signature'' [],
         fm_id = i, fm_correlation = str_or d ''correlation_id'' (''fed-corr-'' @ corr), fm_nonce = str_or d ''nonce'' (''nonce-'' @ nonce),
         fm_timestamp = t, fm_ttl = ttl, fm_type = str_or d ''message_type'' ''request''\<rparr>)))))))))))))"

text \<open>The caller gives everything but the identifiers, the time and the signature.\<close>

definition message_create :: "string \<Rightarrow> federated_message \<Rightarrow> ('z world_scheme, federated_message) op" where
  "message_create secret m =
     bind uuid_hex12 (\<lambda>i.
     bind uuid_hex12 (\<lambda>corr.
     bind uuid_hex12 (\<lambda>nonce.
     bind utc_now (\<lambda>t.
     bind (gets w_sha) (\<lambda>sha.
     let unsigned = m\<lparr>fm_signature := [], fm_id := ''fed-msg-'' @ i, fm_correlation := ''fed-corr-'' @ corr, fm_nonce := ''nonce-'' @ nonce, fm_timestamp := t\<rparr>
     in federated_from_dict (AList.update ''signature'' (JStr (sign sha (signing_payload unsigned) secret)) (federated_as_dict unsigned)))))))"

record federated_receipt =
  fr_message :: string
  fr_tenant :: string
  fr_status :: string
  fr_reason :: string
  fr_id :: string
  fr_created_at :: datetime

definition receipt_as_dict :: "federated_receipt \<Rightarrow> obj" where
  "receipt_as_dict r = [
     (''receipt_id'', JStr (fr_id r)),
     (''message_id'', JStr (fr_message r)),
     (''tenant_id'', JStr (fr_tenant r)),
     (''status'', JStr (fr_status r)),
     (''reason'', JStr (fr_reason r)),
     (''created_at'', JStr (isoformat (fr_created_at r)))]"

definition receipt_from_dict :: "obj \<Rightarrow> ('z world_scheme, federated_receipt) op" where
  "receipt_from_dict d =
     bind (lift (req_str d ''receipt_id'')) (\<lambda>i.
     bind (lift (req_str d ''message_id'')) (\<lambda>m.
     bind (lift (req_str d ''tenant_id'')) (\<lambda>t.
     bind (lift (req_str d ''status'')) (\<lambda>st.
     bind (time_or_now d ''created_at'') (\<lambda>ca.
     ok \<lparr>fr_message = m, fr_tenant = t, fr_status = st, fr_reason = str_or d ''reason'' [], fr_id = i, fr_created_at = ca\<rparr>)))))"

definition new_receipt :: "string \<Rightarrow> string \<Rightarrow> string \<Rightarrow> string \<Rightarrow> ('z world_scheme, federated_receipt) op" where
  "new_receipt mid tid st reason =
     bind uuid_hex12 (\<lambda>i.
     bind utc_now (\<lambda>t.
     ok \<lparr>fr_message = mid, fr_tenant = tid, fr_status = st, fr_reason = reason, fr_id = ''fed-receipt-'' @ i, fr_created_at = t\<rparr>))"

lemma receipt_round_trip [simp]: "receipt_from_dict (receipt_as_dict r) w = (Inr r, w)"
  by (simp add: receipt_from_dict_def receipt_as_dict_def record_defs op_simps)

section \<open>The router\<close>

definition raw_federated_keys :: "string list" where
  "raw_federated_keys = [''secret'', ''raw'', ''password'', ''token_value'']"

definition raw_federated :: "obj \<Rightarrow> bool" where
  "raw_federated p \<longleftrightarrow> list_ex (\<lambda>(k, _). List.member raw_federated_keys (lower k)) p"

definition reject_message :: "string \<Rightarrow> federated_message \<Rightarrow> string \<Rightarrow> py_error \<Rightarrow> ('z world_scheme, unit) op" where
  "reject_message ty m reason e =
     bind (es_append ty (fm_id m) [(''tenant_id'', JStr (fm_source_tenant m)), (''reason'', JStr reason)]) (\<lambda>_. raise e)"

definition validate_message :: "veil \<Rightarrow> federated_message \<Rightarrow> trust_agreement \<Rightarrow> string \<Rightarrow> ('z world_scheme, unit) op" where
  "validate_message V m a secret =
     bind (agreement_active a) (\<lambda>active.
     if \<not> active then raise (AuthorizationError ''active trust agreement is required'')
     else bind (message_expired m) (\<lambda>expired.
     if expired then reject_message ''federation.message.rejected'' m ''message expired'' (ValidationError ''message expired'')
     else bind (on_store (mem_get ''federation_nonces'' (fm_nonce m))) (\<lambda>seen.
     if seen \<noteq> None \<and> seen \<noteq> Some []
     then reject_message ''federation.message.rejected'' m ''replay detected'' (ValidationError ''replayed message rejected'')
     else bind (gets w_sha) (\<lambda>sha.
     if fm_signature m = [] \<or> \<not> verify sha secret m
     then reject_message ''federation.remote_key.rejected'' m ''bad signature'' (AuthorizationError ''invalid federated message signature'')
     else if raw_federated (fm_payload m)
     then raise (ValidationError ''raw sensitive federated payload values are not allowed'')
     else bind (lift (v_check V (fm_source_agent m) ''federation.message'' (federated_as_dict m))) (\<lambda>(allowed, reason).
     if \<not> allowed
     then reject_message ''federation.message.rejected'' m reason
            (AuthorizationError (if reason = [] then ''VEIL policy denied federated message'' else reason))
     else ok ())))))"

definition nonce_doc :: "string \<Rightarrow> federated_message \<Rightarrow> obj" where
  "nonce_doc tid m = [(''tenant_id'', JStr tid), (''nonce'', JStr (fm_nonce m)), (''message_id'', JStr (fm_id m))]"

definition put_receipt :: "federated_receipt \<Rightarrow> ('z world_scheme, unit) op" where
  "put_receipt r = on_store (mem_put ''federation_receipts'' (fr_id r) (receipt_as_dict r))"

definition remote_deliver :: "federated_message \<Rightarrow> ('z world_scheme, federated_receipt) op" where
  "remote_deliver m = new_receipt (fm_id m) (fm_source_tenant m) ''accepted'' []"

definition router_send :: "veil \<Rightarrow> federated_message \<Rightarrow> trust_agreement \<Rightarrow> string \<Rightarrow> ('z world_scheme, federated_receipt) op" where
  "router_send V m a secret =
     bind (validate_message V m a secret) (\<lambda>_.
     bind (on_store (mem_put ''federation_messages'' (fm_id m) (federated_as_dict m))) (\<lambda>_.
     bind (on_store (mem_put ''federation_nonces'' (fm_nonce m) (nonce_doc (fm_source_tenant m) m))) (\<lambda>_.
     bind (es_append ''federation.message.sent'' (fm_id m)
             ([(''tenant_id'', JStr (fm_source_tenant m)), (''organization_id'', JStr (fm_source_org m))] @ federated_as_dict m)) (\<lambda>_.
     bind (remote_deliver m) (\<lambda>r.
     bind (put_receipt r) (\<lambda>_.
     ok r))))))"

definition router_receive :: "veil \<Rightarrow> federated_message \<Rightarrow> trust_agreement \<Rightarrow> string \<Rightarrow> ('z world_scheme, federated_receipt) op" where
  "router_receive V m a secret =
     bind (validate_message V m a secret) (\<lambda>_.
     bind (new_receipt (fm_id m) (fm_dest_tenant m) ''received'' []) (\<lambda>r.
     bind (on_store (mem_put ''federation_messages'' (fm_id m) (federated_as_dict m))) (\<lambda>_.
     bind (put_receipt r) (\<lambda>_.
     bind (on_store (mem_put ''federation_nonces'' (fm_nonce m) (nonce_doc (fm_dest_tenant m) m))) (\<lambda>_.
     bind (es_append ''federation.message.received'' (fm_id m)
             ([(''tenant_id'', JStr (fm_dest_tenant m)), (''organization_id'', JStr (fm_dest_org m))] @ federated_as_dict m)) (\<lambda>_.
     ok r))))))"

definition router_receipt :: "string \<Rightarrow> string \<Rightarrow> string \<Rightarrow> string \<Rightarrow> ('z world_scheme, federated_receipt) op" where
  "router_receipt mid tid st reason =
     bind (new_receipt mid tid st reason) (\<lambda>r.
     bind (put_receipt r) (\<lambda>_.
     ok r))"

section \<open>Delegations\<close>

record remote_delegation =
  rd_tenant :: string
  rd_organization :: string
  rd_agreement :: string
  rd_remote :: string
  rd_source_agent :: string
  rd_dest_agent :: string
  rd_task_type :: string
  rd_payload :: obj
  rd_created_by :: string
  rd_status :: string
  rd_id :: string
  rd_receipt :: "string option"
  rd_result :: "obj option"
  rd_reason :: string
  rd_created_at :: datetime
  rd_updated_at :: datetime

definition delegation_as_dict :: "remote_delegation \<Rightarrow> obj" where
  "delegation_as_dict g = [
     (''delegation_id'', JStr (rd_id g)),
     (''tenant_id'', JStr (rd_tenant g)),
     (''organization_id'', JStr (rd_organization g)),
     (''trust_agreement_id'', JStr (rd_agreement g)),
     (''remote_org_id'', JStr (rd_remote g)),
     (''source_agent_id'', JStr (rd_source_agent g)),
     (''destination_agent_id'', JStr (rd_dest_agent g)),
     (''task_type'', JStr (rd_task_type g)),
     (''payload'', JObj (rd_payload g)),
     (''created_by'', JStr (rd_created_by g)),
     (''status'', JStr (rd_status g)),
     (''receipt_id'', opt_json (rd_receipt g)),
     (''result'', JObj (case rd_result g of None \<Rightarrow> [] | Some d \<Rightarrow> d)),
     (''rejection_reason'', JStr (rd_reason g)),
     (''created_at'', JStr (isoformat (rd_created_at g))),
     (''updated_at'', JStr (isoformat (rd_updated_at g)))]"

definition delegation_from_dict :: "obj \<Rightarrow> ('z world_scheme, remote_delegation) op" where
  "delegation_from_dict d =
     bind (lift (req_str d ''delegation_id'')) (\<lambda>i.
     bind (lift (req_str d ''tenant_id'')) (\<lambda>tid.
     bind (lift (req_str d ''organization_id'')) (\<lambda>orgn.
     bind (lift (req_str d ''trust_agreement_id'')) (\<lambda>ta.
     bind (lift (req_str d ''remote_org_id'')) (\<lambda>remote.
     bind (lift (req_str d ''source_agent_id'')) (\<lambda>sa.
     bind (lift (req_str d ''destination_agent_id'')) (\<lambda>da.
     bind (lift (req_str d ''task_type'')) (\<lambda>ty.
     bind (lift (dict_or d ''payload'')) (\<lambda>p.
     bind (lift (dict_or d ''result'')) (\<lambda>res.
     bind (time_or_now d ''created_at'') (\<lambda>ca.
     bind (time_or_now d ''updated_at'') (\<lambda>ua.
     ok \<lparr>rd_tenant = tid, rd_organization = orgn, rd_agreement = ta, rd_remote = remote, rd_source_agent = sa, rd_dest_agent = da,
         rd_task_type = ty, rd_payload = p, rd_created_by = str_or d ''created_by'' [], rd_status = str_or d ''status'' ''requested'',
         rd_id = i, rd_receipt = opt_str d ''receipt_id'', rd_result = nonempty (Some res), rd_reason = str_or d ''rejection_reason'' [],
         rd_created_at = ca, rd_updated_at = ua\<rparr>))))))))))))"

definition delegation_update :: "obj \<Rightarrow> remote_delegation \<Rightarrow> ('z world_scheme, remote_delegation) op" where
  "delegation_update updates g =
     bind utc_now (\<lambda>t.
     delegation_from_dict (AList.update ''updated_at'' (JStr (isoformat t))
       (foldl (\<lambda>d (k, v). AList.update k v d) (delegation_as_dict g) updates)))"

section \<open>The service\<close>

definition assert_active :: "trust_agreement \<Rightarrow> ('z world_scheme, unit) op" where
  "assert_active a =
     bind (agreement_expired a) (\<lambda>expired.
     if expired
     then bind (agreement_with_status ''expired'' [] a) (\<lambda>a'.
          bind (put_agreement a') (\<lambda>_.
          bind (es_append ''federation.agreement.expired'' (ta_id a) (agreement_as_dict a')) (\<lambda>_.
          raise (AuthorizationError ''trust agreement expired''))))
     else bind (agreement_active a) (\<lambda>active. guard active (AuthorizationError ''active trust agreement is required'')))"

definition safe_payload :: "obj \<Rightarrow> ('z world_scheme, unit) op" where
  "safe_payload p = guard (\<not> raw_federated p) (ValidationError ''raw sensitive federation payload values are not allowed'')"

definition federation_create_org :: "federated_org \<Rightarrow> ('z world_scheme, federated_org) op" where
  "federation_create_org g = add_org g"

definition create_agreement :: "trust_agreement \<Rightarrow> ('z world_scheme, trust_agreement) op" where
  "create_agreement a =
     bind (find_org_by_remote_id (ta_tenant a) (ta_remote a)) (\<lambda>found. case found of
       None \<Rightarrow> raise (NotFoundError ''remote organization must be registered before agreement'')
     | Some _ \<Rightarrow>
         bind (put_agreement a) (\<lambda>saved.
         bind (es_append ''federation.agreement.created'' (ta_id saved) (agreement_as_dict saved)) (\<lambda>_.
         ok saved)))"

definition activate_agreement :: "string \<Rightarrow> ('z world_scheme, trust_agreement) op" where
  "activate_agreement i =
     bind (get_agreement i) (\<lambda>a.
     bind (agreement_expired a) (\<lambda>expired.
     if expired
     then bind (agreement_with_status ''expired'' [] a) (\<lambda>a'.
          bind (put_agreement a') (\<lambda>_.
          bind (es_append ''federation.agreement.expired'' i (agreement_as_dict a')) (\<lambda>_.
          raise (ConflictError ''trust agreement expired''))))
     else
       bind (agreement_with_status ''active'' [] a) (\<lambda>a'.
       bind (put_agreement a') (\<lambda>_.
       bind (es_append ''federation.agreement.activated'' i (agreement_as_dict a')) (\<lambda>_.
       ok a')))))"

definition revoke_agreement :: "string \<Rightarrow> string \<Rightarrow> ('z world_scheme, trust_agreement) op" where
  "revoke_agreement i reason =
     bind (get_agreement i) (\<lambda>a.
     bind (agreement_with_status ''revoked'' reason a) (\<lambda>a'.
     bind (put_agreement a') (\<lambda>_.
     bind (es_append ''federation.agreement.revoked'' i (agreement_as_dict a')) (\<lambda>_.
     bind (es_append ''federation.remote_org.blocked'' (ta_remote a) [
             (''tenant_id'', JStr (ta_tenant a)),
             (''organization_id'', JStr (ta_organization a)),
             (''remote_org_id'', JStr (ta_remote a)),
             (''reason'', JStr reason)]) (\<lambda>_.
     ok a')))))"

definition send_message :: "veil \<Rightarrow> federated_message \<Rightarrow> string \<Rightarrow> ('z world_scheme, federated_receipt) op" where
  "send_message V m secret =
     bind (get_agreement (fm_agreement m)) (\<lambda>a.
     bind (assert_active a) (\<lambda>_.
     router_send V m a secret))"

definition get_message :: "string \<Rightarrow> ('z world_scheme, federated_message) op" where
  "get_message i =
     bind (on_store (mem_get ''federation_messages'' i)) (\<lambda>item. case item of
       None \<Rightarrow> raise (NotFoundError ''federated message not found'')
     | Some d \<Rightarrow> federated_from_dict d)"

definition add_receipt :: "string \<Rightarrow> string \<Rightarrow> string \<Rightarrow> string \<Rightarrow> ('z world_scheme, federated_receipt) op" where
  "add_receipt mid tid st reason =
     bind (router_receipt mid tid st reason) (\<lambda>r.
     bind (put_receipt r) (\<lambda>_.
     ok r))"

definition governed_tasks :: "string list" where
  "governed_tasks = [''code_review'', ''compliance_review'', ''package_verification'']"

definition delegation_message :: "remote_delegation \<Rightarrow> federated_message" where
  "delegation_message g = \<lparr>
     fm_source_org = rd_organization g, fm_source_tenant = rd_tenant g, fm_dest_org = rd_remote g, fm_dest_tenant = rd_remote g,
     fm_source_agent = rd_source_agent g, fm_dest_agent = rd_dest_agent g, fm_agreement = rd_agreement g,
     fm_payload = foldl (\<lambda>d (k, v). AList.update k v d) [(''delegation_id'', JStr (rd_id g)), (''task_type'', JStr (rd_task_type g))] (rd_payload g),
     fm_veil_ref = str_or (rd_payload g) ''veil_reference'' ''veil-ref'', fm_signature = [], fm_id = [], fm_correlation = [], fm_nonce = [],
     fm_timestamp = rd_created_at g, fm_ttl = 300, fm_type = ''request''\<rparr>"

definition request_delegation :: "veil \<Rightarrow> remote_delegation \<Rightarrow> string \<Rightarrow> bool \<Rightarrow> ('z world_scheme, remote_delegation) op" where
  "request_delegation V g secret approved =
     bind (get_agreement (rd_agreement g)) (\<lambda>a.
     bind (assert_active a) (\<lambda>_.
     if \<not> List.member (ta_allowed a) (rd_task_type g)
     then raise (AuthorizationError ''delegation capability is not allowed by agreement'')
     else if List.member governed_tasks (rd_task_type g) \<and> \<not> approved
     then raise (AuthorizationError ''governance approval is required for delegation'')
     else
       bind (safe_payload (rd_payload g)) (\<lambda>_.
       bind (lift (v_check V (rd_source_agent g) (''federation.delegate.'' @ rd_task_type g) (delegation_as_dict g))) (\<lambda>(allowed, reason).
       if \<not> allowed
       then raise (AuthorizationError (if reason = [] then ''VEIL policy denied federation delegation'' else reason))
       else
         bind (message_create secret (delegation_message g)) (\<lambda>m.
         bind (send_message V m secret) (\<lambda>r.
         bind (delegation_update [(''receipt_id'', JStr (fr_id r))] g) (\<lambda>g'.
         bind (on_store (mem_put ''federation_delegations'' (rd_id g') (delegation_as_dict g'))) (\<lambda>_.
         bind (es_append ''federation.delegation.requested'' (rd_id g') (delegation_as_dict g')) (\<lambda>_.
         ok g')))))))))"

definition get_delegation :: "string \<Rightarrow> ('z world_scheme, remote_delegation) op" where
  "get_delegation i =
     bind (on_store (mem_get ''federation_delegations'' i)) (\<lambda>item. case item of
       None \<Rightarrow> raise (NotFoundError ''federation delegation not found'')
     | Some d \<Rightarrow> delegation_from_dict d)"

definition complete_delegation :: "veil \<Rightarrow> string \<Rightarrow> obj \<Rightarrow> ('z world_scheme, remote_delegation) op" where
  "complete_delegation V i result =
     bind (get_delegation i) (\<lambda>g.
     bind (delegation_update [(''status'', JStr ''completed''), (''result'', JObj result)] g) (\<lambda>g'.
     bind (on_store (mem_put ''federation_delegations'' i (delegation_as_dict g'))) (\<lambda>_.
     bind (es_append ''federation.delegation.completed'' i (delegation_as_dict g')) (\<lambda>_.
     bind (lift (v_audit V (rd_dest_agent g') ''federation.delegation.completed'' (delegation_as_dict g'))) (\<lambda>_.
     ok g')))))"

definition reject_delegation :: "string \<Rightarrow> string \<Rightarrow> ('z world_scheme, remote_delegation) op" where
  "reject_delegation i reason =
     bind (get_delegation i) (\<lambda>g.
     bind (delegation_update [(''status'', JStr ''failed''), (''rejection_reason'', JStr reason)] g) (\<lambda>g'.
     bind (on_store (mem_put ''federation_delegations'' i (delegation_as_dict g'))) (\<lambda>_.
     bind (es_append ''federation.delegation.failed'' i (delegation_as_dict g')) (\<lambda>_.
     ok g'))))"

section \<open>The endpoints\<close>

text \<open>The fields of a request body have the types the records declare; other bodies are refused with a \<^verbatim>\<open>TypeError\<close>.\<close>

definition page :: "obj list \<Rightarrow> obj" where
  "page ds = [(''items'', JList (map JObj ds)), (''total'', JInt (int (length ds)))]"

definition federation_org_create :: "obj \<Rightarrow> request \<Rightarrow> ('z tworld_scheme, obj) op" where
  "federation_org_create body rq =
     scoped rq ''federation.manage'' (\<lambda>ctx.
     bind (consume_for (tc_tenant ctx) ''api_calls'') (\<lambda>_.
     bind (req_as as_str body ''remote_org_id'') (\<lambda>remote.
     bind (lift (as_str (get_or body ''name'' (JStr remote)))) (\<lambda>nm.
     bind (lift (as_str (get_or body ''endpoint'' (JStr [])))) (\<lambda>endpoint.
     bind (lift (as_str (get_or body ''public_key'' (JStr [])))) (\<lambda>key.
     bind (given_or_fresh body ''org_id'' ''fed-org-'') (\<lambda>i.
     bind utc_now (\<lambda>created.
     bind utc_now (\<lambda>updated.
     bind (federation_create_org \<lparr>fo_tenant = tc_tenant ctx, fo_organization = tc_organization ctx, fo_remote = remote, fo_name = nm,
             fo_endpoint = endpoint, fo_key = key, fo_created_by = tc_principal ctx, fo_id = i, fo_blocked = False,
             fo_created_at = created, fo_updated_at = updated\<rparr>) (\<lambda>g.
     ok (federated_org_as_dict g)))))))))))"

definition federation_orgs_list :: "request \<Rightarrow> ('z world_scheme, obj) op" where
  "federation_orgs_list rq =
     scoped rq ''federation.read'' (\<lambda>ctx.
     bind (federated_orgs (tc_tenant ctx)) (\<lambda>gs. ok (page (map federated_org_as_dict gs))))"

definition federation_org_get :: "string \<Rightarrow> request \<Rightarrow> ('z world_scheme, obj) op" where
  "federation_org_get i rq =
     scoped rq ''federation.read'' (\<lambda>ctx.
     bind (federated_org_get i) (\<lambda>g.
     bind (assert_governance_tenant ctx (federated_org_as_dict g)) (\<lambda>_.
     ok (federated_org_as_dict g))))"

definition agreement_expiry :: "obj \<Rightarrow> datetime option result" where
  "agreement_expiry body = (let v = get_or body ''expires_at'' JNull in
     if \<not> truthy v then Inr None
     else case as_str v of Inl e \<Rightarrow> Inl e | Inr s \<Rightarrow> (case fromisoformat s of Inl e \<Rightarrow> Inl e | Inr t \<Rightarrow> Inr (Some t)))"

definition federation_agreement_create :: "obj \<Rightarrow> request \<Rightarrow> ('z tworld_scheme, obj) op" where
  "federation_agreement_create body rq =
     scoped rq ''federation.manage'' (\<lambda>ctx.
     bind (consume_for (tc_tenant ctx) ''api_calls'') (\<lambda>_.
     bind (lift (agreement_expiry body)) (\<lambda>expiry.
     bind (req_as as_str body ''remote_org_id'') (\<lambda>remote.
     bind (lift (as_strs (get_or body ''allowed_capabilities'' (JList [])))) (\<lambda>allowed.
     bind (lift (as_strs (get_or body ''denied_capabilities'' (JList [])))) (\<lambda>denied.
     bind (lift (as_strs (get_or body ''permitted_data_classes'' (strs [''public'', ''internal''])))) (\<lambda>classes.
     bind (lift (as_strs (get_or body ''allowed_workflow_types'' (JList [])))) (\<lambda>types.
     bind uuid_hex12 (\<lambda>i.
     bind (case expiry of Some t \<Rightarrow> ok t | None \<Rightarrow> bind utc_now (\<lambda>t. lift (dt_add t (30 * day_us)))) (\<lambda>expires.
     bind utc_now (\<lambda>created.
     bind utc_now (\<lambda>updated.
     bind (catch (create_agreement \<lparr>ta_tenant = tc_tenant ctx, ta_organization = tc_organization ctx, ta_remote = remote,
                    ta_created_by = tc_principal ctx, ta_allowed = allowed, ta_denied = denied, ta_data_classes = classes,
                    ta_workflow_types = types, ta_status = ''draft'', ta_id = ''fed-agree-'' @ i, ta_expires_at = expires,
                    ta_created_at = created, ta_updated_at = updated, ta_reason = []\<rparr>)
             (\<lambda>e. case e of NotFoundError m \<Rightarrow> raise (http_error 404 m) | _ \<Rightarrow> raise e)) (\<lambda>a.
     ok (agreement_as_dict a))))))))))))))"

definition federation_agreements_list :: "request \<Rightarrow> ('z world_scheme, obj) op" where
  "federation_agreements_list rq =
     scoped rq ''federation.read'' (\<lambda>ctx.
     bind (list_agreements (tc_tenant ctx)) (\<lambda>as. ok (page (map agreement_as_dict as))))"

definition own_agreement :: "tenant_context \<Rightarrow> string \<Rightarrow> ('z world_scheme, trust_agreement) op" where
  "own_agreement tc i =
     bind (get_agreement i) (\<lambda>a.
     bind (assert_governance_tenant tc (agreement_as_dict a)) (\<lambda>_. ok a))"

definition federation_agreement_get :: "string \<Rightarrow> request \<Rightarrow> ('z world_scheme, obj) op" where
  "federation_agreement_get i rq =
     scoped rq ''federation.read'' (\<lambda>ctx. bind (own_agreement ctx i) (\<lambda>a. ok (agreement_as_dict a)))"

definition federation_agreement_activate :: "string \<Rightarrow> request \<Rightarrow> ('z world_scheme, obj) op" where
  "federation_agreement_activate i rq =
     scoped rq ''federation.manage'' (\<lambda>ctx.
     bind (own_agreement ctx i) (\<lambda>_.
     bind (catch (activate_agreement i) (\<lambda>e. case e of ConflictError m \<Rightarrow> raise (http_error 409 m) | _ \<Rightarrow> raise e)) (\<lambda>a.
     ok (agreement_as_dict a))))"

definition federation_agreement_revoke :: "string \<Rightarrow> obj \<Rightarrow> request \<Rightarrow> ('z world_scheme, obj) op" where
  "federation_agreement_revoke i body rq =
     scoped rq ''federation.manage'' (\<lambda>ctx.
     bind (own_agreement ctx i) (\<lambda>_.
     bind (lift (as_str (get_or body ''reason'' (JStr ''revoked'')))) (\<lambda>reason.
     bind (revoke_agreement i reason) (\<lambda>a. ok (agreement_as_dict a)))))"

definition federation_http :: "py_error \<Rightarrow> ('s, 'a) op" where
  "federation_http e = (case e of
     AuthorizationError m \<Rightarrow> raise (http_error 403 m)
   | ValidationError m \<Rightarrow> raise (http_error 400 m)
   | _ \<Rightarrow> raise e)"

definition signing_secret :: "obj \<Rightarrow> string result" where
  "signing_secret body = as_str (get_or body ''signing_secret'' (JStr ''local-federation-secret''))"

definition federation_message_send :: "veil \<Rightarrow> obj \<Rightarrow> request \<Rightarrow> ('z tworld_scheme, obj) op" where
  "federation_message_send V body rq =
     scoped rq ''federation.message'' (\<lambda>ctx.
     bind (consume_for (tc_tenant ctx) ''api_calls'') (\<lambda>_.
     bind (lift (signing_secret body)) (\<lambda>secret.
     bind (req_as as_str body ''trust_agreement_id'') (\<lambda>i.
     bind (own_agreement ctx i) (\<lambda>a.
     bind (lift (as_str (get_or body ''destination_tenant_id'' (JStr (ta_remote a))))) (\<lambda>dest.
     bind (req_as as_str body ''source_agent_id'') (\<lambda>src.
     bind (req_as as_str body ''destination_agent_id'') (\<lambda>dst.
     bind (lift (dict_or body ''payload'')) (\<lambda>content.
     bind (lift (as_str (get_or body ''veil_reference'' (JStr [])))) (\<lambda>ref.
     bind (lift (int_or body ''ttl_seconds'' 300)) (\<lambda>ttl.
     bind (lift (as_str (get_or body ''message_type'' (JStr ''request'')))) (\<lambda>ty.
     bind (message_create secret \<lparr>fm_source_org = tc_organization ctx, fm_source_tenant = tc_tenant ctx, fm_dest_org = ta_remote a,
             fm_dest_tenant = dest, fm_source_agent = src, fm_dest_agent = dst, fm_agreement = ta_id a, fm_payload = content,
             fm_veil_ref = ref, fm_signature = [], fm_id = [], fm_correlation = [], fm_nonce = [], fm_timestamp = ta_created_at a,
             fm_ttl = ttl, fm_type = ty\<rparr>) (\<lambda>m.
     bind (catch (send_message V m secret) federation_http) (\<lambda>r.
     ok [(''message'', JObj (federated_as_dict m)), (''receipt'', JObj (receipt_as_dict r))]))))))))))))))"

definition federation_message_get :: "string \<Rightarrow> request \<Rightarrow> ('z world_scheme, obj) op" where
  "federation_message_get i rq =
     scoped rq ''federation.read'' (\<lambda>ctx.
     bind (get_message i) (\<lambda>m.
     if fm_source_tenant m \<noteq> tc_tenant ctx \<and> fm_dest_tenant m \<noteq> tc_tenant ctx \<and> \<not> tc_global_admin ctx
     then raise (http_error 403 ''cross-tenant federation access denied'')
     else ok (federated_as_dict m)))"

definition federation_message_receipt :: "string \<Rightarrow> obj \<Rightarrow> request \<Rightarrow> ('z world_scheme, obj) op" where
  "federation_message_receipt i body rq =
     scoped rq ''federation.message'' (\<lambda>ctx.
     bind (get_message i) (\<lambda>m.
     if fm_source_tenant m \<noteq> tc_tenant ctx \<and> fm_dest_tenant m \<noteq> tc_tenant ctx
     then raise (http_error 403 ''cross-tenant federation access denied'')
     else
       bind (lift (as_str (get_or body ''status'' (JStr ''accepted'')))) (\<lambda>st.
       bind (lift (as_str (get_or body ''reason'' (JStr [])))) (\<lambda>reason.
       bind (add_receipt i (tc_tenant ctx) st reason) (\<lambda>r.
       ok (receipt_as_dict r))))))"

definition federation_delegation_create :: "veil \<Rightarrow> obj \<Rightarrow> request \<Rightarrow> ('z tworld_scheme, obj) op" where
  "federation_delegation_create V body rq =
     scoped rq ''federation.delegate'' (\<lambda>ctx.
     bind (consume_for (tc_tenant ctx) ''api_calls'') (\<lambda>_.
     bind (req_as as_str body ''trust_agreement_id'') (\<lambda>i.
     bind (own_agreement ctx i) (\<lambda>a.
     bind (req_as as_str body ''source_agent_id'') (\<lambda>src.
     bind (req_as as_str body ''destination_agent_id'') (\<lambda>dst.
     bind (req_as as_str body ''task_type'') (\<lambda>ty.
     bind (lift (dict_or body ''payload'')) (\<lambda>content.
     bind uuid_hex12 (\<lambda>hex.
     bind utc_now (\<lambda>created.
     bind utc_now (\<lambda>updated.
     bind (lift (signing_secret body)) (\<lambda>secret.
     bind (catch (request_delegation V \<lparr>rd_tenant = tc_tenant ctx, rd_organization = tc_organization ctx, rd_agreement = ta_id a,
                    rd_remote = ta_remote a, rd_source_agent = src, rd_dest_agent = dst, rd_task_type = ty, rd_payload = content,
                    rd_created_by = tc_principal ctx, rd_status = ''requested'', rd_id = ''fed-del-'' @ hex, rd_receipt = None,
                    rd_result = None, rd_reason = [], rd_created_at = created, rd_updated_at = updated\<rparr>
                   secret (bool_or body ''governance_approved'' False)) federation_http) (\<lambda>g.
     bind (meter_record (tc_tenant ctx) ''federation_delegations'' 1 [(''delegation_id'', JStr (rd_id g))]) (\<lambda>_.
     ok (delegation_as_dict g)))))))))))))))"

definition own_delegation :: "tenant_context \<Rightarrow> string \<Rightarrow> ('z world_scheme, remote_delegation) op" where
  "own_delegation tc i =
     bind (get_delegation i) (\<lambda>g.
     bind (assert_governance_tenant tc (delegation_as_dict g)) (\<lambda>_. ok g))"

definition federation_delegation_get :: "string \<Rightarrow> request \<Rightarrow> ('z world_scheme, obj) op" where
  "federation_delegation_get i rq =
     scoped rq ''federation.read'' (\<lambda>ctx. bind (own_delegation ctx i) (\<lambda>g. ok (delegation_as_dict g)))"

definition federation_delegation_complete :: "veil \<Rightarrow> string \<Rightarrow> obj \<Rightarrow> request \<Rightarrow> ('z world_scheme, obj) op" where
  "federation_delegation_complete V i body rq =
     scoped rq ''federation.delegate'' (\<lambda>ctx.
     bind (own_delegation ctx i) (\<lambda>_.
     bind (lift (dict_or body ''result'')) (\<lambda>result.
     bind (complete_delegation V i result) (\<lambda>g. ok (delegation_as_dict g)))))"

definition federation_delegation_reject :: "string \<Rightarrow> obj \<Rightarrow> request \<Rightarrow> ('z world_scheme, obj) op" where
  "federation_delegation_reject i body rq =
     scoped rq ''federation.delegate'' (\<lambda>ctx.
     bind (own_delegation ctx i) (\<lambda>_.
     bind (lift (as_str (get_or body ''reason'' (JStr ''rejected'')))) (\<lambda>reason.
     bind (reject_delegation i reason) (\<lambda>g. ok (delegation_as_dict g)))))"

section \<open>Histories of calls\<close>

datatype federation_cmd =
    OrgCreate obj request | AgreementCreate obj request | AgreementActivate string request | AgreementRevoke string obj request
  | MessageSend obj request | MessageReceive federated_message string string | MessageReceipt string obj request
  | DelegationCreate obj request | DelegationComplete string obj request | DelegationReject string obj request

definition receive_message :: "veil \<Rightarrow> federated_message \<Rightarrow> string \<Rightarrow> string \<Rightarrow> ('z world_scheme, federated_receipt) op" where
  "receive_message V m i secret = bind (get_agreement i) (\<lambda>a. router_receive V m a secret)"

fun run_federation_cmd :: "veil \<Rightarrow> federation_cmd \<Rightarrow> ('z tworld_scheme, unit) op" where
  "run_federation_cmd V (OrgCreate body rq) = bind (federation_org_create body rq) (\<lambda>_. ok ())"
| "run_federation_cmd V (AgreementCreate body rq) = bind (federation_agreement_create body rq) (\<lambda>_. ok ())"
| "run_federation_cmd V (AgreementActivate i rq) = bind (federation_agreement_activate i rq) (\<lambda>_. ok ())"
| "run_federation_cmd V (AgreementRevoke i body rq) = bind (federation_agreement_revoke i body rq) (\<lambda>_. ok ())"
| "run_federation_cmd V (MessageSend body rq) = bind (federation_message_send V body rq) (\<lambda>_. ok ())"
| "run_federation_cmd V (MessageReceive m i secret) = bind (receive_message V m i secret) (\<lambda>_. ok ())"
| "run_federation_cmd V (MessageReceipt i body rq) = bind (federation_message_receipt i body rq) (\<lambda>_. ok ())"
| "run_federation_cmd V (DelegationCreate body rq) = bind (federation_delegation_create V body rq) (\<lambda>_. ok ())"
| "run_federation_cmd V (DelegationComplete i body rq) = bind (federation_delegation_complete V i body rq) (\<lambda>_. ok ())"
| "run_federation_cmd V (DelegationReject i body rq) = bind (federation_delegation_reject i body rq) (\<lambda>_. ok ())"

definition run_federation :: "veil \<Rightarrow> federation_cmd list \<Rightarrow> ('z tworld_scheme, unit) op" where
  "run_federation V cmds = forM (\<lambda>x. catch (run_federation_cmd V x) (\<lambda>_. ok ())) cmds"

section \<open>What is composed of steps with a contract\<close>

lemmas federation_record_ops = agreement_active_def agreement_expired_def agreement_with_status_def agreement_from_dict_def
  federated_org_from_dict_def federated_from_dict_def receipt_from_dict_def delegation_from_dict_def delegation_update_def
  message_expired_def new_receipt_def

lemmas federation_service_ops = add_org_def federated_orgs_def federated_org_get_def find_org_by_remote_id_def put_agreement_def
  list_agreements_def get_agreement_def reject_message_def validate_message_def put_receipt_def remote_deliver_def router_send_def
  router_receive_def router_receipt_def assert_active_def safe_payload_def federation_create_org_def create_agreement_def
  activate_agreement_def revoke_agreement_def send_message_def get_message_def add_receipt_def request_delegation_def get_delegation_def
  complete_delegation_def reject_delegation_def message_create_def receive_message_def

lemmas federation_endpoints = federation_org_create_def federation_agreement_create_def federation_agreement_activate_def
  federation_agreement_revoke_def federation_message_send_def federation_message_receipt_def federation_delegation_create_def
  federation_delegation_complete_def federation_delegation_reject_def own_agreement_def own_delegation_def

section \<open>The audit log\<close>

lemma audit_federation_http: "audit.steps (federation_http e)"
  "audit.steps (case e of NotFoundError m \<Rightarrow> raise (f m) | _ \<Rightarrow> raise e)" "audit.steps (case e of ConflictError m \<Rightarrow> raise (f m) | _ \<Rightarrow> raise e)"
  by (auto simp: federation_http_def split: py_error.split intro: audit.steps_raise)

lemma audit_federation_records [audit_steps]:
  "audit.steps (agreement_active a)" "audit.steps (agreement_expired a)" "audit.steps (agreement_with_status st reason a)"
  "audit.steps (agreement_from_dict d)" "audit.steps (federated_org_from_dict d)" "audit.steps (federated_from_dict d)"
  "audit.steps (delegation_from_dict d)" "audit.steps (delegation_update us g)" "audit.steps (message_expired m)"
  "audit.steps (new_receipt mid tid st reason)"
  unfolding federation_record_ops Let_def by (intro audit.steps_intros audit_steps)+

lemma audit_router [audit_steps]:
  "audit.steps (get_agreement i)" "audit.steps (put_agreement a)" "audit.steps (validate_message V m a secret)"
  "audit.steps (put_receipt r)" "audit.steps (message_create secret m)" "audit.steps (assert_active a)"
  unfolding get_agreement_def put_agreement_def validate_message_def reject_message_def put_receipt_def message_create_def assert_active_def Let_def
  by (intro audit.steps_intros audit_steps; simp)+

lemma audit_federation_service [audit_steps]:
  "audit.steps (create_agreement a)" "audit.steps (activate_agreement i)" "audit.steps (revoke_agreement i reason)"
  "audit.steps (send_message V m secret)" "audit.steps (receive_message V m i secret)" "audit.steps (get_message i)"
  "audit.steps (add_receipt mid tid st reason)" "audit.steps (get_delegation i)" "audit.steps (federation_create_org g)"
  unfolding create_agreement_def find_org_by_remote_id_def federated_orgs_def activate_agreement_def revoke_agreement_def send_message_def
    router_send_def remote_deliver_def receive_message_def router_receive_def get_message_def add_receipt_def router_receipt_def
    get_delegation_def federation_create_org_def add_org_def
  by (intro audit.steps_intros audit_steps; simp)+

lemma audit_delegations [audit_steps]:
  "audit.steps (request_delegation V g secret approved)" "audit.steps (complete_delegation V i result)" "audit.steps (reject_delegation i reason)"
  "audit.steps (own_agreement tc i)" "audit.steps (own_delegation tc i)"
  unfolding request_delegation_def complete_delegation_def reject_delegation_def safe_payload_def own_agreement_def own_delegation_def
  by (intro audit.steps_intros audit_steps; simp)+

lemma audit_run_federation [audit_steps]: "audit.steps (run_federation_cmd V c)"
proof -
  have "audit.steps (federation_org_create body rq)" "audit.steps (federation_agreement_create body rq)"
    "audit.steps (federation_agreement_activate i rq)" "audit.steps (federation_agreement_revoke i body rq)"
    "audit.steps (federation_message_send V body rq)" "audit.steps (federation_message_receipt i body rq)"
    "audit.steps (federation_delegation_create V body rq)" "audit.steps (federation_delegation_complete V i body rq)"
    "audit.steps (federation_delegation_reject i body rq)" for body rq i
    unfolding federation_endpoints req_as_def given_or_fresh_def Let_def
    by (intro audit.steps_intros audit_steps audit_federation_http; simp)+
  then show ?thesis by (cases c) (auto intro!: audit.steps_intros audit_steps)
qed

section \<open>Nonces\<close>

text \<open>A nonce that was seen is seen ever after.\<close>

definition seen :: "string \<Rightarrow> 'z world_scheme \<Rightarrow> bool" where
  "seen n w \<longleftrightarrow> (\<exists>d. map_of (coll (w_store w) ''federation_nonces'') n = Some d \<and> d \<noteq> [])"

definition nonces_kept :: "'z world_scheme \<Rightarrow> 'z world_scheme \<Rightarrow> bool" where
  "nonces_kept w w' \<longleftrightarrow> (\<forall>n. seen n w \<longrightarrow> seen n w')"

interpretation nonces: step_contract nonces_kept
  by unfold_locales (auto simp: nonces_kept_def)

named_theorems nonce_steps \<open>operations that forget no nonce\<close>

lemma nonces_keeps: "keeps.steps ''federation_nonces'' m \<Longrightarrow> nonces.steps m"
  by (simp add: keeps.steps_def nonces.steps_def keeps_coll_def nonces_kept_def seen_def)

lemma nonces_world [nonce_steps]:
  "nonces.steps utc_now" "nonces.steps uuid_hex12" "nonces.steps (es_append ty ag p)" "nonces.steps (time_or_now d k)"
  "nonces.steps (on_store (mem_get c k))" "nonces.steps (on_store (mem_list c))" "nonces.steps (on_store (mem_list_tenant c t))"
  by (rule nonces_keeps; (rule keeps_steps; simp)?)+

lemma nonces_put [nonce_steps]: "c \<noteq> ''federation_nonces'' \<Longrightarrow> nonces.steps (on_store (mem_put c k d))"
  by (rule nonces_keeps) (simp add: keeps_steps)

lemma nonces_put_nonce [nonce_steps]: "nonces.steps (on_store (mem_put ''federation_nonces'' n (nonce_doc tid m)))"
  by (auto simp: nonces.steps_def nonces_kept_def seen_def on_put nonce_doc_def)

lemma nonces_usage [nonce_steps]: "nonces.steps (modify (\<lambda>w. w\<lparr>w_usage := f w\<rparr>))"
  by (simp add: nonces.steps_def nonces_kept_def seen_def modify_apply)

lemma nonces_access [nonce_steps]:
  "nonces.steps (require_scopes rq scopes tid)" "nonces.steps (tenant_context_of rq)" "nonces.steps (consume_for t counter)"
  "nonces.steps (assert_governance_tenant tc d)" "nonces.steps (meter_record t ty q md)"
proof -
  show s: "nonces.steps (require_scopes rq scopes tid)" for rq scopes tid
    unfolding require_scopes_def by (intro nonces.steps_intros)
  have g: "nonces.steps (get_tenant i)" for i
    unfolding get_tenant_def tenant_from_dict_def by (intro nonces.steps_intros nonce_steps)
  have c: "nonces.steps (require_context x)" for x
    unfolding require_context_def tc_require_def
    by (intro nonces.steps_intros) (auto split: py_error.split intro: nonces.steps_raise)
  show "nonces.steps (tenant_context_of rq)" unfolding tenant_context_of_def by (intro nonces.steps_intros s g c)
  show "nonces.steps (consume_for t counter)"
    unfolding consume_for_def tenant_policy_def quota_consume_def quota_check_def tracker_increment_def tracker_usage_def Let_def
    by (intro nonces.steps_intros nonce_steps g)
  show "nonces.steps (assert_governance_tenant tc d)"
    unfolding assert_governance_tenant_def assert_tenant_def Let_def
    by (intro nonces.steps_intros c) (auto split: py_error.split intro: nonces.steps_raise)
  show "nonces.steps (meter_record t ty q md)" unfolding meter_record_def Let_def by (intro nonces.steps_intros nonce_steps) simp
qed

lemma nonces_records [nonce_steps]:
  "nonces.steps (agreement_active a)" "nonces.steps (agreement_expired a)" "nonces.steps (agreement_with_status st reason a)"
  "nonces.steps (agreement_from_dict d)" "nonces.steps (federated_org_from_dict d)" "nonces.steps (federated_from_dict d)"
  "nonces.steps (delegation_from_dict d)" "nonces.steps (delegation_update us g)" "nonces.steps (message_expired m)"
  "nonces.steps (new_receipt mid tid st reason)"
  unfolding federation_record_ops Let_def by (intro nonces.steps_intros nonce_steps)+

lemma nonces_router [nonce_steps]:
  "nonces.steps (get_agreement i)" "nonces.steps (put_agreement a)" "nonces.steps (validate_message V m a secret)"
  "nonces.steps (put_receipt r)" "nonces.steps (message_create secret m)" "nonces.steps (assert_active a)"
  unfolding get_agreement_def put_agreement_def validate_message_def reject_message_def put_receipt_def message_create_def assert_active_def Let_def
  by (intro nonces.steps_intros nonce_steps; simp)+

lemma nonces_service [nonce_steps]:
  "nonces.steps (create_agreement a)" "nonces.steps (activate_agreement i)" "nonces.steps (revoke_agreement i reason)"
  "nonces.steps (send_message V m secret)" "nonces.steps (receive_message V m i secret)" "nonces.steps (get_message i)"
  "nonces.steps (add_receipt mid tid st reason)" "nonces.steps (get_delegation i)" "nonces.steps (federation_create_org g)"
  unfolding create_agreement_def find_org_by_remote_id_def federated_orgs_def activate_agreement_def revoke_agreement_def send_message_def
    router_send_def remote_deliver_def receive_message_def router_receive_def get_message_def add_receipt_def router_receipt_def
    get_delegation_def federation_create_org_def add_org_def
  by (intro nonces.steps_intros nonce_steps; simp)+

lemma nonces_delegations [nonce_steps]:
  "nonces.steps (request_delegation V g secret approved)" "nonces.steps (complete_delegation V i result)" "nonces.steps (reject_delegation i reason)"
  "nonces.steps (own_agreement tc i)" "nonces.steps (own_delegation tc i)"
  unfolding request_delegation_def complete_delegation_def reject_delegation_def safe_payload_def own_agreement_def own_delegation_def
  by (intro nonces.steps_intros nonce_steps; simp)+

lemma nonces_http: "nonces.steps (federation_http e)"
  "nonces.steps (case e of NotFoundError m \<Rightarrow> raise (f m) | _ \<Rightarrow> raise e)" "nonces.steps (case e of ConflictError m \<Rightarrow> raise (f m) | _ \<Rightarrow> raise e)"
  by (auto simp: federation_http_def split: py_error.split intro: nonces.steps_raise)

lemma nonces_run: "nonces.steps (run_federation V cmds)"
proof -
  have "nonces.steps (federation_org_create body rq)" "nonces.steps (federation_agreement_create body rq)"
    "nonces.steps (federation_agreement_activate i rq)" "nonces.steps (federation_agreement_revoke i body rq)"
    "nonces.steps (federation_message_send V body rq)" "nonces.steps (federation_message_receipt i body rq)"
    "nonces.steps (federation_delegation_create V body rq)" "nonces.steps (federation_delegation_complete V i body rq)"
    "nonces.steps (federation_delegation_reject i body rq)" for body rq i
    unfolding federation_endpoints scoped_def req_as_def given_or_fresh_def Let_def
    by (intro nonces.steps_intros nonce_steps nonces_http; simp)+
  then have "nonces.steps (run_federation_cmd V c)" for c by (cases c) (auto intro!: nonces.steps_intros nonce_steps)
  then show ?thesis unfolding run_federation_def by (intro nonces.steps_intros)
qed

section \<open>Replay\<close>

definition fails :: "('s, 'a) op \<Rightarrow> 's \<Rightarrow> bool" where
  "fails m s \<longleftrightarrow> (\<exists>e. fst (m s) = Inl e)"

lemma fails_bind: "fails m s \<Longrightarrow> fails (bind m f) s"
  by (auto simp: fails_def bind_apply split: prod.splits sum.splits)

lemma fails_bind_rest: "(\<And>a s'. m s = (Inr a, s') \<Longrightarrow> fails (f a) s') \<Longrightarrow> fails (bind m f) s"
  by (cases "m s"; cases "fst (m s)") (auto simp: fails_def bind_apply)

lemma fails_raise: "fails (raise e) s"
  by (simp add: fails_def raise_apply)

lemma reject_message_fails: "fails (reject_message ty m reason e) w"
  unfolding reject_message_def by (rule fails_bind_rest) (rule fails_raise)

lemma seen_after: "nonces.steps m \<Longrightarrow> m w = (r, w') \<Longrightarrow> seen n w \<Longrightarrow> seen n w'"
  using nonces.stepsD [of m w] by (simp add: nonces_kept_def)

lemma validate_seen:
  assumes "seen (fm_nonce m) w"
  shows "fails (validate_message V m a secret) w"
  unfolding validate_message_def
proof (rule fails_bind_rest)
  fix active w1 assume "agreement_active a w = (Inr active, w1)"
  then have 1: "seen (fm_nonce m) w1" using assms by (rule seen_after [OF nonces_records(1)])
  have "fails (bind (on_store (mem_get ''federation_nonces'' (fm_nonce m))) (\<lambda>s. if s \<noteq> None \<and> s \<noteq> Some []
     then reject_message ''federation.message.rejected'' m ''replay detected'' (ValidationError ''replayed message rejected'') else f s)) w2"
    if "message_expired m w1 = (Inr b, w2)" for b w2 f
  proof (rule fails_bind_rest)
    fix s w3 assume s: "on_store (mem_get ''federation_nonces'' (fm_nonce m)) w2 = (Inr s, w3)"
    have "seen (fm_nonce m) w2" using that 1 by (rule seen_after [OF nonces_records(9)])
    with s have "s \<noteq> None \<and> s \<noteq> Some []" by (auto simp: on_get seen_def)
    then show "fails (if s \<noteq> None \<and> s \<noteq> Some []
      then reject_message ''federation.message.rejected'' m ''replay detected'' (ValidationError ''replayed message rejected'') else f s) w3"
      using reject_message_fails by simp
  qed
  then show "fails (if \<not> active then raise (AuthorizationError ''active trust agreement is required'')
     else bind (message_expired m) (\<lambda>expired.
       if expired then reject_message ''federation.message.rejected'' m ''message expired'' (ValidationError ''message expired'')
       else bind (on_store (mem_get ''federation_nonces'' (fm_nonce m))) (\<lambda>s. if s \<noteq> None \<and> s \<noteq> Some []
         then reject_message ''federation.message.rejected'' m ''replay detected'' (ValidationError ''replayed message rejected'') else f s))) w1" for f
    by (auto intro!: fails_bind_rest [of "message_expired m"] fails_raise reject_message_fails split: if_splits)
qed

lemma send_seen: "seen (fm_nonce m) w \<Longrightarrow> fails (send_message V m secret) w"
  unfolding send_message_def router_send_def
  by (intro fails_bind_rest [of "get_agreement _"] fails_bind_rest [of "assert_active _"] fails_bind validate_seen)
    (blast intro: seen_after [OF nonces_router(1)] seen_after [OF nonces_router(6)])

lemma receive_seen: "seen (fm_nonce m) w \<Longrightarrow> fails (receive_message V m i secret) w"
  unfolding receive_message_def router_receive_def
  by (intro fails_bind_rest [of "get_agreement _"] fails_bind validate_seen) (blast intro: seen_after [OF nonces_router(1)])

lemma sent_seen:
  fixes w w' :: "'z world_scheme"
  assumes "send_message V m secret w = (Inr r, w')"
  shows "seen (fm_nonce m) w'"
proof -
  define rest :: "('z world_scheme, federated_receipt) op" where "rest = bind (es_append ''federation.message.sent'' (fm_id m)
      ([(''tenant_id'', JStr (fm_source_tenant m)), (''organization_id'', JStr (fm_source_org m))] @ federated_as_dict m)) (\<lambda>_.
     bind (remote_deliver m) (\<lambda>r. bind (put_receipt r) (\<lambda>_. ok r)))"
  have "router_send V m a secret = bind (validate_message V m a secret) (\<lambda>_.
     bind (on_store (mem_put ''federation_messages'' (fm_id m) (federated_as_dict m))) (\<lambda>_.
     bind (on_store (mem_put ''federation_nonces'' (fm_nonce m) (nonce_doc (fm_source_tenant m) m))) (\<lambda>_. rest)))" for a
    by (simp add: router_send_def rest_def)
  with assms obtain w1 where w1: "rest (put_doc ''federation_nonces'' (fm_nonce m) (nonce_doc (fm_source_tenant m) m) w1) = (Inr r, w')"
    unfolding send_message_def by (auto simp: bind_eq_Inr_iff on_put)
  have "nonces.steps rest" unfolding rest_def remote_deliver_def by (intro nonces.steps_intros nonce_steps)
  from seen_after [OF this w1, of "fm_nonce m"] show ?thesis by (simp add: seen_def nonce_doc_def)
qed

text \<open>
  C12. No message is delivered twice: once a message was sent, after any history of calls of the federation's
  endpoints and of received messages, every attempt to send or to receive a message with the same nonce raises,
  whatever the rest of the message, the agreement and the secret are.
\<close>

theorem replayed_message_refused:
  assumes "send_message V m secret w = (Inr r, w1)" "w2 = final (run_federation V cmds) w1" "fm_nonce m' = fm_nonce m"
  shows "(\<exists>e. outcome (send_message V m' secret') w2 = Inl e) \<and> (\<exists>e. outcome (receive_message V m' i secret') w2 = Inl e)"
proof -
  have "seen (fm_nonce m') w2"
    using sent_seen [OF assms(1)] nonces.stepsD [OF nonces_run, of w1 V cmds] assms(2,3) by (simp add: nonces_kept_def)
  then show ?thesis using send_seen receive_seen unfolding fails_def by blast
qed

section \<open>When a message is sent\<close>

lemma assert_active_Inr:
  "assert_active a w = (Inr (), w') \<longleftrightarrow>
     ta_status a = ''active'' \<and> now w < ta_expires_at a \<and> now (tick w) < ta_expires_at a \<and> w' = tick (tick w)"
  by (auto simp: assert_active_def agreement_expired_def agreement_active_def bind_eq_Inr_iff utc_now_apply ok_apply raise_apply guard_def
      split: if_splits)

lemma seen_tick [simp]: "seen n (tick w) = seen n w"
  by (simp add: seen_def)

lemma sha_tick [simp]: "w_sha (tick w) = w_sha w"
  by (simp add: tick_def)

lemma reject_message_Inr [simp]: "reject_message ty m reason e w \<noteq> (Inr u, w')"
  using reject_message_fails [of ty m reason e w] by (auto simp: fails_def)

lemma agreement_active_apply:
  "agreement_active a w = (if ta_status a = ''active'' then (Inr (now w < ta_expires_at a), tick w) else (Inr False, w))"
  by (simp add: agreement_active_def bind_apply utc_now_apply ok_apply)

lemma message_expired_apply:
  "message_expired m w = (case dt_add (fm_timestamp m) (seconds (fm_ttl m)) of Inl e \<Rightarrow> (Inl e, tick w) | Inr until \<Rightarrow> (Inr (until < now w), tick w))"
  by (simp add: message_expired_def bind_apply utc_now_apply ok_apply lift_apply split: sum.split)

lemma seen_doc: "seen n w \<longleftrightarrow> map_of (coll (w_store w) ''federation_nonces'') n \<noteq> None \<and> map_of (coll (w_store w) ''federation_nonces'') n \<noteq> Some []"
  by (auto simp: seen_def)

lemma validate_message_Inr:
  "validate_message V m a secret w = (Inr (), w') \<longleftrightarrow>
     ta_status a = ''active'' \<and> now w < ta_expires_at a \<and>
     (\<exists>until. dt_add (fm_timestamp m) (seconds (fm_ttl m)) = Inr until \<and> now (tick w) \<le> until) \<and>
     \<not> seen (fm_nonce m) w \<and> fm_signature m \<noteq> [] \<and> verify (w_sha w) secret m \<and> \<not> raw_federated (fm_payload m) \<and>
     (\<exists>reason. v_check V (fm_source_agent m) ''federation.message'' (federated_as_dict m) = Inr (True, reason)) \<and> w' = tick (tick w)"
proof (cases "ta_status a = ''active'' \<and> now w < ta_expires_at a")
  case True
  note act = this
  show ?thesis
  proof (cases "dt_add (fm_timestamp m) (seconds (fm_ttl m))")
    case (Inl e)
    with act show ?thesis by (simp add: validate_message_def bind_apply agreement_active_apply message_expired_apply)
  next
    case (Inr until)
    note head = act Inr validate_message_def bind_apply agreement_active_apply message_expired_apply on_get gets_apply
    show ?thesis
    proof (cases "until < now (tick w) \<or> seen (fm_nonce m) w \<or> fm_signature m = [] \<or> \<not> verify (w_sha w) secret m \<or> raw_federated (fm_payload m)")
      case True
      then show ?thesis by (auto simp: head seen_doc raise_apply not_le)
    next
      case False
      then show ?thesis by (auto simp: head seen_doc lift_apply ok_apply not_less split: sum.split)
    qed
  qed
qed (auto simp: validate_message_def bind_apply agreement_active_apply raise_apply)

definition cleared :: "veil \<Rightarrow> trust_agreement \<Rightarrow> federated_message \<Rightarrow> string \<Rightarrow> 'z world_scheme \<Rightarrow> bool" where
  "cleared V a m secret w \<longleftrightarrow> ta_status a = ''active'' \<and> (\<forall>k \<in> {0, 1, 2}. w_clock w (w_ticks w + k) < ta_expires_at a) \<and>
     (\<exists>until. dt_add (fm_timestamp m) (seconds (fm_ttl m)) = Inr until \<and> w_clock w (w_ticks w + 3) \<le> until) \<and>
     \<not> seen (fm_nonce m) w \<and> fm_signature m \<noteq> [] \<and> verify (w_sha w) secret m \<and> \<not> raw_federated (fm_payload m) \<and>
     (\<exists>reason. v_check V (fm_source_agent m) ''federation.message'' (federated_as_dict m) = Inr (True, reason))"

lemma registered_federation:
  "registered ''federation.message.sent''" "registered ''federation.agreement.revoked''" "registered ''federation.remote_org.blocked''"
  "registered ''federation.agreement.activated''" "registered ''federation.agreement.expired''" "registered ''federation.message.rejected''"
  by code_simp+

lemma get_agreement_stored:
  "map_of (coll (w_store w) ''federation_agreements'') i = Some (agreement_as_dict a) \<Longrightarrow> get_agreement i w = (Inr a, w)"
  by (simp add: get_agreement_def bind_apply on_get)

text \<open>
  C13. Exactly the cleared messages are sent: with the message's agreement in the registry, \<^verbatim>\<open>send_message\<close>
  returns if and only if the agreement is active and not expired at each of the three readings of the clock, the
  message is within its time to live, its nonce was never seen, its signature is the one of its content under the
  given secret, its payload has no raw key and VEIL allows it; then the message is kept under its
  identifier, its nonce is seen, and the receipt names the message as accepted.
\<close>

theorem federated_send_exact:
  assumes "map_of (coll (w_store w) ''federation_agreements'') (fm_agreement m) = Some (agreement_as_dict a)"
  shows "((\<exists>r w'. send_message V m secret w = (Inr r, w')) \<longleftrightarrow> cleared V a m secret w) \<and>
    (\<forall>r w'. send_message V m secret w = (Inr r, w') \<longrightarrow>
       map_of (coll (w_store w') ''federation_messages'') (fm_id m) = Some (federated_as_dict m) \<and> seen (fm_nonce m) w' \<and>
       fr_message r = fm_id m \<and> fr_status r = ''accepted'')"
proof -
  let ?v = "put_doc ''federation_nonces'' (fm_nonce m) (nonce_doc (fm_source_tenant m) m) (put_doc ''federation_messages'' (fm_id m) (federated_as_dict m) (tick (tick (tick (tick w)))))"
  let ?ev = "es_append ''federation.message.sent'' (fm_id m)
      ([(''tenant_id'', JStr (fm_source_tenant m)), (''organization_id'', JStr (fm_source_org m))] @ federated_as_dict m)"
  have v: "(\<exists>w'. bind (assert_active a) (\<lambda>_. validate_message V m a secret) w = (Inr (), w')) \<longleftrightarrow> cleared V a m secret w"
    by (auto simp: bind_eq_Inr_iff assert_active_Inr validate_message_Inr cleared_def numeral_3_eq_3)
  have w': "w' = tick (tick (tick (tick w)))" if "bind (assert_active a) (\<lambda>_. validate_message V m a secret) w = (Inr (), w')" for w'
    using that by (auto simp: bind_eq_Inr_iff assert_active_Inr validate_message_Inr)
  have split: "send_message V m secret w = bind (bind (assert_active a) (\<lambda>_. validate_message V m a secret)) (\<lambda>_.
     bind (on_store (mem_put ''federation_messages'' (fm_id m) (federated_as_dict m))) (\<lambda>_.
     bind (on_store (mem_put ''federation_nonces'' (fm_nonce m) (nonce_doc (fm_source_tenant m) m))) (\<lambda>_.
     bind ?ev (\<lambda>_. bind (remote_deliver m) (\<lambda>r. bind (put_receipt r) (\<lambda>_. ok r)))))) w"
    by (simp add: send_message_def router_send_def bind_apply [of "get_agreement _"] get_agreement_stored [OF assms] bind_assoc)
  have run: "\<exists>r u. bind ?ev (\<lambda>_. bind (remote_deliver m) (\<lambda>r. bind (put_receipt r) (\<lambda>_. ok r))) x = (Inr r, u) \<and>
      map_of (coll (w_store u) ''federation_messages'') (fm_id m) = map_of (coll (w_store x) ''federation_messages'') (fm_id m) \<and>
      fr_message r = fm_id m \<and> fr_status r = ''accepted''" for x :: "'a world_scheme"
    by (simp add: bind_apply es_append_registered registered_federation remote_deliver_def new_receipt_def uuid_hex12_def utc_now_apply ok_apply
        put_receipt_def on_put events_put_def coll_mem_put tick_def)
  show ?thesis
  proof (cases "cleared V a m secret w")
    case True
    with v w' have "bind (assert_active a) (\<lambda>_. validate_message V m a secret) w = (Inr (), tick (tick (tick (tick w))))" by metis
    with run [of ?v] have "\<exists>r u. send_message V m secret w = (Inr r, u) \<and>
       map_of (coll (w_store u) ''federation_messages'') (fm_id m) = Some (federated_as_dict m) \<and> fr_message r = fm_id m \<and> fr_status r = ''accepted''"
      unfolding split by (auto simp: bind_apply [of "bind (assert_active a) _"] bind_apply [of "on_store _"] on_put)
    with True sent_seen show ?thesis by auto
  next
    case False
    then have "send_message V m secret w \<noteq> (Inr r, u)" for r u
      using v unfolding split by (auto simp: bind_eq_Inr_iff [of "bind (assert_active a) _"])
    with False show ?thesis by blast
  qed
qed

text \<open>
  Revoking does not last: an agreement that was revoked and has not expired is active again after
  \<^verbatim>\<open>activate_agreement\<close>, which looks at the expiry only.
\<close>

theorem revoked_agreement_reactivated:
  assumes "map_of (coll (w_store w) ''federation_agreements'') i = Some (agreement_as_dict a)" "ta_id a = i"
    "w_clock w (w_ticks w + 3) < ta_expires_at a"
  shows "\<exists>r w1 b w2. revoke_agreement i reason w = (Inr r, w1) \<and> ta_status r = ''revoked'' \<and>
    activate_agreement i w1 = (Inr b, w2) \<and> ta_status b = ''active'' \<and>
    map_of (coll (w_store w2) ''federation_agreements'') i = Some (agreement_as_dict b)"
proof -
  let ?r = "a\<lparr>ta_status := ''revoked'', ta_updated_at := now w, ta_reason := reason\<rparr>"
  have "\<exists>w1. revoke_agreement i reason w = (Inr ?r, w1) \<and> map_of (coll (w_store w1) ''federation_agreements'') i = Some (agreement_as_dict ?r) \<and>
      w_clock w1 = w_clock w \<and> w_ticks w1 = w_ticks w + 3"
    using get_agreement_stored [OF assms(1)] assms(2)
    by (simp add: revoke_agreement_def bind_apply agreement_with_status_def utc_now_apply ok_apply put_agreement_def on_put
        es_append_registered registered_federation events_put_def coll_mem_put put_doc_def)
  then obtain w1 where w1: "revoke_agreement i reason w = (Inr ?r, w1)" "map_of (coll (w_store w1) ''federation_agreements'') i = Some (agreement_as_dict ?r)"
    "w_clock w1 = w_clock w" "w_ticks w1 = w_ticks w + 3" by blast
  let ?b = "?r\<lparr>ta_status := ''active'', ta_updated_at := now (tick w1), ta_reason := []\<rparr>"
  have current: "\<not> ta_expires_at a \<le> now w1" using assms(3) w1(3,4) by (simp add: not_le)
  have "\<exists>w2. activate_agreement i w1 = (Inr ?b, w2) \<and> map_of (coll (w_store w2) ''federation_agreements'') i = Some (agreement_as_dict ?b)"
    using get_agreement_stored [OF w1(2)] assms(2) current
    by (simp add: activate_agreement_def bind_apply agreement_with_status_def agreement_expired_def utc_now_apply ok_apply put_agreement_def on_put
        es_append_registered registered_federation events_put_def coll_mem_put put_doc_def)
  with w1(1) show ?thesis by fastforce
qed

section \<open>Witnesses\<close>

definition agreement0 :: trust_agreement where
  "agreement0 = \<lparr>ta_tenant = ''t'', ta_organization = ''o'', ta_remote = ''r'', ta_created_by = ''p'', ta_allowed = [''research''],
     ta_denied = [], ta_data_classes = [''public''], ta_workflow_types = [], ta_status = ''active'', ta_id = ''a'',
     ta_expires_at = dt 1000, ta_created_at = dt 0, ta_updated_at = dt 0, ta_reason = []\<rparr>"

definition unsigned0 :: federated_message where
  "unsigned0 = \<lparr>fm_source_org = ''o'', fm_source_tenant = ''t'', fm_dest_org = ''r'', fm_dest_tenant = ''r'', fm_source_agent = ''x'',
     fm_dest_agent = ''y'', fm_agreement = ''a'', fm_payload = [(''task'', JInt 1)], fm_veil_ref = [], fm_signature = [], fm_id = ''m'',
     fm_correlation = ''c'', fm_nonce = ''n'', fm_timestamp = dt 0, fm_ttl = 300, fm_type = ''request''\<rparr>"

definition signed0 :: federated_message where
  "signed0 = unsigned0\<lparr>fm_signature := sign (w_sha tworld0) (signing_payload unsigned0) ''k''\<rparr>"

definition federation0 :: tworld where
  "federation0 = put_doc ''federation_agreements'' ''a'' (agreement_as_dict agreement0) tworld0"

lemma agreement0_stored:
  "map_of (coll (w_store federation0) ''federation_agreements'') (fm_agreement signed0) = Some (agreement_as_dict agreement0)"
  "map_of (coll (w_store federation0) ''federation_agreements'') ''a'' = Some (agreement_as_dict agreement0)"
  by (simp_all add: federation0_def signed0_def unsigned0_def)

lemma federation0_simps: "w_clock federation0 n = dt (int n)" "w_ticks federation0 = 0" "w_sha federation0 = w_sha tworld0" "\<not> seen x federation0"
  by (simp_all add: federation0_def put_doc_def tworld0_def world0_def world.defs tworld.defs seen_def coll_mem_put coll_def mem_put_def modify_apply setdefault_def)

lemma cleared0: "cleared mock_veil agreement0 signed0 ''k'' federation0"
proof -
  have p: "signing_payload signed0 = signing_payload unsigned0" by (simp add: signed0_def signing_payload_def)
  have "\<not> raw_federated [(''task'', JInt 1)]" by code_simp
  then have "\<not> raw_federated (fm_payload signed0)" by (simp add: signed0_def unsigned0_def)
  moreover have "fm_signature signed0 \<noteq> []" by (simp add: signed0_def sign_def tworld0_def world0_def world.defs tworld.defs)
  moreover have "verify (w_sha federation0) ''k'' signed0"
    unfolding verify_def p federation0_simps by (simp add: signed0_def)
  moreover have "\<exists>until. dt_add (fm_timestamp signed0) (seconds (fm_ttl signed0)) = Inr until \<and> dt 3 \<le> until"
    by (simp add: signed0_def unsigned0_def dt_add_def seconds_def max_us_def day_us_def less_eq_datetime_def us_of_dt)
  moreover have "dt n < dt 1000" if "n \<in> {0, 1, 2}" for n
    using that by (auto simp: less_datetime_def us_of_dt max_us_def day_us_def)
  ultimately show ?thesis
    by (simp add: cleared_def federation0_simps mock_veil_def agreement0_def)
qed

theorem federated_send_exact_witness:
  "\<exists>r w'. send_message mock_veil signed0 ''k'' federation0 = (Inr r, w') \<and> fr_message r = ''m'' \<and> seen ''n'' w'"
proof -
  obtain r w' where "send_message mock_veil signed0 ''k'' federation0 = (Inr r, w')" "fr_message r = fm_id signed0" "seen (fm_nonce signed0) w'"
    using federated_send_exact [OF agreement0_stored(1), of mock_veil "''k''"] cleared0 by blast
  then show ?thesis by (auto simp: signed0_def unsigned0_def)
qed

lemma signed0_sent: "\<exists>r w'. send_message mock_veil signed0 ''k'' federation0 = (Inr r, w')"
proof -
  have "bind (assert_active agreement0) (\<lambda>_. validate_message mock_veil signed0 agreement0 ''k'') federation0 =
      (Inr (), tick (tick (tick (tick federation0))))"
    using cleared0 by (auto simp: bind_eq_Inr_iff assert_active_Inr validate_message_Inr cleared_def numeral_3_eq_3)
  then show ?thesis
    using get_agreement_stored [OF agreement0_stored(1)]
    by (auto simp: send_message_def router_send_def bind_apply es_append_registered registered_federation remote_deliver_def new_receipt_def
        uuid_hex12_def utc_now_apply ok_apply put_receipt_def on_put split: prod.splits sum.splits)
qed

theorem replayed_message_refused_witness:
  "\<exists>r w1 e. send_message mock_veil signed0 ''k'' federation0 = (Inr r, w1) \<and>
     outcome (send_message mock_veil signed0 ''k'') (final (run_federation mock_veil [AgreementActivate ''a'' None]) w1) = Inl e"
proof -
  obtain r w1 where s: "send_message mock_veil signed0 ''k'' federation0 = (Inr r, w1)" using signed0_sent by blast
  from replayed_message_refused [OF this HOL.refl HOL.refl] s show ?thesis by blast
qed

theorem revoked_agreement_reactivated_witness:
  "\<exists>r w1 b w2. revoke_agreement ''a'' ''breach'' federation0 = (Inr r, w1) \<and> activate_agreement ''a'' w1 = (Inr b, w2) \<and> ta_status b = ''active''"
proof -
  have "ta_id agreement0 = ''a''" "w_clock federation0 (w_ticks federation0 + 3) < ta_expires_at agreement0"
    by (auto simp: agreement0_def federation0_simps less_datetime_def us_of_dt max_us_def day_us_def)
  from revoked_agreement_reactivated [OF agreement0_stored(2) this, of "''breach''"] show ?thesis by blast
qed

end
