(* ===== verification/Packages.thy ===== *)
theory Packages
  imports Cloud_Queue Py_Float
begin

text \<open>
  Marketplace packages (\<^verbatim>\<open>agentfabric/marketplace/packages\<close>), their dependencies
  (\<^verbatim>\<open>marketplace/dependencies\<close>, \<^verbatim>\<open>marketplace/registry/version_resolver.py\<close>), scanners
  (\<^verbatim>\<open>marketplace/scanning\<close>) and signatures (\<^verbatim>\<open>marketplace/signing\<close>). The search for cycles in the dependency
  graph is shown to report none exactly when there is none. Versions are texts and are compared as texts.
\<close>

section \<open>Dependencies and manifests\<close>

record package_dependency =
  pd_id :: string
  pd_constraint :: string
  pd_required :: bool
  pd_deprecated :: bool

definition dependency_as_dict :: "package_dependency \<Rightarrow> obj" where
  "dependency_as_dict d = [
     (''package_id'', JStr (pd_id d)),
     (''version_constraint'', JStr (pd_constraint d)),
     (''required'', JBool (pd_required d)),
     (''deprecated'', JBool (pd_deprecated d))]"

text \<open>An element that is no object has no fields to look up.\<close>

fun dependency_from_dict :: "json \<Rightarrow> package_dependency result" where
  "dependency_from_dict (JObj d) =
     (case req_str d ''package_id'' of
        Inl e \<Rightarrow> Inl e
      | Inr i \<Rightarrow> Inr \<lparr>pd_id = i, pd_constraint = str_or d ''version_constraint'' ''*'',
          pd_required = bool_or d ''required'' True, pd_deprecated = bool_or d ''deprecated'' False\<rparr>)"
| "dependency_from_dict _ = Inl (TypeError ''indices must be integers'')"

record package_manifest =
  pm_id :: string
  pm_name :: string
  pm_version :: string
  pm_publisher :: string
  pm_agent :: string
  pm_runtime :: obj
  pm_tools :: "string list"
  pm_connectors :: "string list"
  pm_connector_permissions :: "string list"
  pm_dependencies :: "package_dependency list"
  pm_license :: string
  pm_pricing :: string

definition industry_categories :: "string list" where
  "industry_categories = [''general'', ''construction'', ''treasury'', ''trust'', ''energy'', ''manufacturing'', ''aerospace'']"

definition connector_names :: "string list" where
  "connector_names = [''gmail'', ''calendar'', ''github'', ''jira'', ''slack'', ''servicenow'', ''s3'', ''custom_http'',
     ''teams'', ''salesforce'', ''sharepoint'']"

text \<open>\<^verbatim>\<open>s.split(".", 1)[0]\<close> and \<^verbatim>\<open>s.split(".")[0]\<close>: the text before the first dot.\<close>

definition before_dot :: "string \<Rightarrow> string" where
  "before_dot s = takeWhile (\<lambda>c. c \<noteq> CHR ''.'') s"

definition connector_like :: "package_manifest \<Rightarrow> string list" where
  "connector_like m = filter (\<lambda>p. List.member p (CHR ''.'') \<and> List.member connector_names (before_dot p)) (pm_tools m)"

definition manifest_validate :: "package_manifest \<Rightarrow> unit result" where
  "manifest_validate m =
     (if \<not> list_all (\<lambda>s. s \<noteq> []) [pm_id m, pm_name m, pm_version m, pm_publisher m, pm_agent m]
      then Inl (ValueError ''package manifest is missing required fields'')
      else if list_ex (prefix ''raw.'') (pm_tools m) then Inl (ValueError ''package cannot request raw sensitive persistence'')
      else if \<not> list_all (List.member (pm_connector_permissions m)) (connector_like m)
      then Inl (ValueError ''connector permissions must be explicitly declared'')
      else Inr ())"

definition package_manifest_as_dict :: "package_manifest \<Rightarrow> obj" where
  "package_manifest_as_dict m = [
     (''package_id'', JStr (pm_id m)),
     (''name'', JStr (pm_name m)),
     (''version'', JStr (pm_version m)),
     (''publisher_tenant_id'', JStr (pm_publisher m)),
     (''agent_identity_id'', JStr (pm_agent m)),
     (''runtime_requirements'', JObj (pm_runtime m)),
     (''tool_permissions'', strs (pm_tools m)),
     (''connector_requirements'', strs (pm_connectors m)),
     (''connector_permissions'', strs (pm_connector_permissions m)),
     (''dependencies'', JList (map (JObj \<circ> dependency_as_dict) (pm_dependencies m))),
     (''license_type'', JStr (pm_license m)),
     (''pricing_model'', JStr (pm_pricing m))]"

definition manifest_hash :: "(string \<Rightarrow> string) \<Rightarrow> package_manifest \<Rightarrow> string" where
  "manifest_hash sha m = sha (dumps (JObj (package_manifest_as_dict m)))"

definition dependencies_or :: "obj \<Rightarrow> package_dependency list result" where
  "dependencies_or d = (case py_iter (get_or d ''dependencies'' (JList [])) of Inl e \<Rightarrow> Inl e | Inr xs \<Rightarrow> map_result dependency_from_dict xs)"

definition manifest_from_dict :: "obj \<Rightarrow> ('s, package_manifest) op" where
  "manifest_from_dict d =
     bind (lift (req_str d ''package_id'')) (\<lambda>i.
     bind (lift (req_str d ''version'')) (\<lambda>version.
     bind (lift (req_str d ''publisher_tenant_id'')) (\<lambda>publisher.
     bind (lift (req_str d ''agent_identity_id'')) (\<lambda>agent.
     bind (lift (dict_or d ''runtime_requirements'')) (\<lambda>runtime.
     bind (lift (strs_or d ''tool_permissions'' [])) (\<lambda>tools.
     bind (lift (strs_or d ''connector_requirements'' [])) (\<lambda>connectors.
     bind (lift (strs_or d ''connector_permissions'' [])) (\<lambda>permissions.
     bind (lift (dependencies_or d)) (\<lambda>deps.
     ok \<lparr>pm_id = i, pm_name = str_or d ''name'' i, pm_version = version, pm_publisher = publisher, pm_agent = agent, pm_runtime = runtime,
         pm_tools = tools, pm_connectors = connectors, pm_connector_permissions = permissions, pm_dependencies = deps,
         pm_license = str_or d ''license_type'' ''free'', pm_pricing = str_or d ''pricing_model'' ''free''\<rparr>)))))))))"

section \<open>Metadata and versions\<close>

text \<open>A Python float: a finite one is the rational number it stands for.\<close>

datatype py_float = Finite rat | PosInf | NegInf | NaN

record package_metadata =
  md_description :: string
  md_tags :: "string list"
  md_private :: bool
  md_enterprise_only :: bool
  md_deprecated :: bool
  md_revoked :: bool
  md_high_risk_approved :: bool
  md_approval_notes :: string
  md_category :: string
  md_bundle :: "string option"
  md_compatibility :: "string dict"
  md_quality :: "py_float option"
  md_extra :: obj

record package_version =
  pv_manifest :: package_manifest
  pv_hash :: string
  pv_signature :: string
  pv_fingerprint :: string
  pv_metadata :: package_metadata
  pv_created_at :: datetime
  pv_published_at :: datetime

definition pv_id :: "package_version \<Rightarrow> string" where
  "pv_id p = pm_id (pv_manifest p)"

definition pv_version :: "package_version \<Rightarrow> string" where
  "pv_version p = pm_version (pv_manifest p)"

definition pv_key :: "package_version \<Rightarrow> string" where
  "pv_key p = pv_id p @ '':'' @ pv_version p"

record package =
  pk_id :: string
  pk_publisher :: string
  pk_versions :: "package_version dict"

definition add_version :: "package_version \<Rightarrow> package \<Rightarrow> package" where
  "add_version v p = p\<lparr>pk_versions := AList.update (pv_version v) v (pk_versions p)\<rparr>"

definition package_latest :: "package \<Rightarrow> package_version result" where
  "package_latest p =
     (if pk_versions p = [] then Inl (KeyError ''package has no versions'')
      else case map_of (pk_versions p) (last (sort (map fst (pk_versions p)))) of Some v \<Rightarrow> Inr v | None \<Rightarrow> Inl (KeyError []))"

section \<open>Versions and constraints\<close>

definition compatible :: "string \<Rightarrow> string \<Rightarrow> bool" where
  "compatible version constraint =
     (if constraint = ''*'' \<or> constraint = version then True
      else if suffix ''.x'' constraint then before_dot version = before_dot constraint
      else if prefix ''>='' constraint then version \<ge> drop 2 constraint
      else False)"

definition latest :: "package_version list \<Rightarrow> package_version result" where
  "latest vs = (if vs = [] then Inl (KeyError ''no package versions available'') else Inr (last (sort_key pv_version vs)))"

definition resolve_version :: "package_version list \<Rightarrow> string option \<Rightarrow> package_version result" where
  "resolve_version vs constraint = (case nonempty constraint of
     None \<Rightarrow> latest vs
   | Some c \<Rightarrow> latest (filter (\<lambda>p. compatible (pv_version p) c) vs))"

section \<open>Conflicts\<close>

fun conflict_check :: "package_version dict \<Rightarrow> package_dependency list \<Rightarrow> unit result" where
  "conflict_check available [] = Inr ()"
| "conflict_check available (d # ds) =
     (if pd_required d \<and> map_of available (pd_id d) = None then Inl (ValidationError (''missing dependency: '' @ pd_id d))
      else if pd_deprecated d then Inl (ValidationError (''deprecated dependency: '' @ pd_id d))
      else case map_of available (pd_id d) of
        Some p \<Rightarrow> if \<not> compatible (pv_version p) (pd_constraint d) then Inl (ValidationError (''incompatible dependency: '' @ pd_id d))
                  else conflict_check available ds
      | None \<Rightarrow> conflict_check available ds)"

definition conflict_validate :: "package_version \<Rightarrow> package_version dict \<Rightarrow> unit result" where
  "conflict_validate p available = conflict_check available (pm_dependencies (pv_manifest p))"

section \<open>The dependency graph\<close>

type_synonym edges = "string list dict"

definition edges_of :: "string \<Rightarrow> edges \<Rightarrow> string list" where
  "edges_of n es = (case map_of es n of None \<Rightarrow> [] | Some cs \<Rightarrow> cs)"

definition add_edge :: "string \<Rightarrow> edges \<Rightarrow> package_dependency \<Rightarrow> edges" where
  "add_edge i es d = AList.update i (edges_of i es @ [pd_id d]) es"

definition add_package :: "edges \<Rightarrow> package_version \<Rightarrow> edges" where
  "add_package es p = foldl (add_edge (pv_id p)) es (pm_dependencies (pv_manifest p))"

definition package_edges :: "package_version list \<Rightarrow> edges" where
  "package_edges ps = foldl add_package [] ps"

definition package_ids :: "package_version list \<Rightarrow> string list" where
  "package_ids ps = map fst (foldl (\<lambda>d p. AList.update (pv_id p) p d) [] ps)"

lemma unvisited_less:
  "n \<notin> set visiting \<Longrightarrow> n \<in> fst ` set es \<Longrightarrow> card (fst ` set es - set (n # visiting)) < card (fst ` set es - set visiting)"
  by (rule psubset_card_mono) auto

lemma edges_of_none: "n \<notin> fst ` set es \<Longrightarrow> edges_of n es = []"
  by (simp add: edges_of_def map_of_eq_None_iff [symmetric])

text \<open>
  The search of \<^verbatim>\<open>detect_cycles\<close>. A node is removed from \<^verbatim>\<open>visiting\<close> where it was added, so the set is
  passed down; the cycles found and the nodes done with are passed along.
\<close>

function visit :: "edges \<Rightarrow> string \<Rightarrow> string list \<Rightarrow> string list \<Rightarrow> string list list \<times> string list \<Rightarrow> string list list \<times> string list"
  and visit_each :: "edges \<Rightarrow> string list \<Rightarrow> string list \<Rightarrow> string list \<Rightarrow> string list list \<times> string list \<Rightarrow> string list list \<times> string list" where
  "visit es n path visiting (cycles, visited) =
     (if List.member visiting n then (cycles @ [dropWhile (\<lambda>x. x \<noteq> n) path @ [n]], visited)
      else if List.member visited n then (cycles, visited)
      else let (cycles', visited') = visit_each es (edges_of n es) path (n # visiting) (cycles, visited) in (cycles', n # visited'))"
| "visit_each es [] path visiting st = st"
| "visit_each es (c # cs) path visiting st = visit_each es cs path visiting (visit es c (path @ [c]) visiting st)"
  by pat_completeness auto

termination
proof (relation "measures [case_sum (\<lambda>(es, n, path, visiting, st). card (fst ` set es - set visiting))
      (\<lambda>(es, cs, path, visiting, st). card (fst ` set es - set visiting)),
    case_sum (\<lambda>_. 1) (\<lambda>(es, cs, path, visiting, st). 2 * length cs)]", goal_cases)
  case (2 es n path visiting cycles visited)
  then show ?case
  proof (cases "n \<in> fst ` set es")
    case True
    with 2 unvisited_less [of n visiting es] show ?thesis by simp
  next
    case False
    then have "fst ` set es - set (n # visiting) = fst ` set es - set visiting" by auto
    with False show ?thesis by (simp add: edges_of_none)
  qed
qed auto

definition visit_all :: "edges \<Rightarrow> string list \<Rightarrow> string list list \<times> string list \<Rightarrow> string list list \<times> string list" where
  "visit_all es ids st = foldl (\<lambda>st i. visit es i [i] [] st) st ids"

definition detect_cycles :: "package_version list \<Rightarrow> string list list" where
  "detect_cycles ps = fst (visit_all (package_edges ps) (package_ids ps) ([], []))"

section \<open>Resolution\<close>

definition unsafe_permissions :: "string list" where
  "unsafe_permissions = [''tenant.data.all'', ''network.unbounded'', ''veil.restore'']"

definition sorted_set :: "string list \<Rightarrow> string list" where
  "sorted_set xs = sort (remdups xs)"

definition available_dependencies :: "package_version \<Rightarrow> package_version dict \<Rightarrow> package_version list" where
  "available_dependencies p available = List.map_filter (\<lambda>d. map_of available (pd_id d)) (pm_dependencies (pv_manifest p))"

definition resolve :: "package_version \<Rightarrow> package_version dict \<Rightarrow> package_version list result" where
  "resolve p available =
     (case conflict_validate p available of
        Inl e \<Rightarrow> Inl e
      | Inr _ \<Rightarrow>
          let resolved = p # available_dependencies p available in
          if detect_cycles resolved \<noteq> [] then Inl (ValidationError ''circular dependency detected'')
          else let unsafe = sorted_set (filter (List.member unsafe_permissions) (concat (map (pm_tools \<circ> pv_manifest) (tl resolved)))) in
            if unsafe \<noteq> [] then Inl (ValidationError (''unsafe transitive permissions: '' @ join '', '' unsafe)) else Inr resolved)"

section \<open>Scanning\<close>

definition high_risk_permissions :: "string list" where
  "high_risk_permissions = [''network.unbounded'', ''tenant.data.all'', ''memory.unbounded'', ''events.write'', ''marketplace.admin'',
     ''veil.restore'', ''gmail.send'', ''calendar.write'', ''github.write'', ''jira.write'', ''slack.write'', ''servicenow.write'',
     ''s3.write'', ''custom_http.execute'']"

record permission_report =
  pr_requested :: "string list"
  pr_high_risk :: "string list"
  pr_requires_approval :: bool
  pr_summary :: string

definition permission_scan :: "package_version \<Rightarrow> permission_report" where
  "permission_scan p =
     (let requested = pm_tools (pv_manifest p) @ pm_connector_permissions (pv_manifest p);
          high_risk = sorted_set (filter (List.member high_risk_permissions) requested) in
      \<lparr>pr_requested = sorted_set requested, pr_high_risk = high_risk, pr_requires_approval = (high_risk \<noteq> []),
       pr_summary = (if high_risk \<noteq> [] then ''high-risk permissions require tenant approval'' else ''no high-risk permissions'')\<rparr>)"

record dependency_report =
  dr_missing :: "string list"
  dr_deprecated :: "string list"
  dr_unsigned :: "string list"
  dr_ok :: bool

definition dependency_scan :: "package_version \<Rightarrow> package_version dict \<Rightarrow> dependency_report" where
  "dependency_scan p available =
     (let deps = pm_dependencies (pv_manifest p);
          missing = map pd_id (filter (\<lambda>d. pd_required d \<and> map_of available (pd_id d) = None) deps);
          deprecated = map pd_id (filter pd_deprecated deps);
          unsigned = map pd_id (filter (\<lambda>d. case map_of available (pd_id d) of None \<Rightarrow> False | Some q \<Rightarrow> pv_signature q = []) deps) in
      \<lparr>dr_missing = missing, dr_deprecated = deprecated, dr_unsigned = unsigned,
       dr_ok = (missing = [] \<and> deprecated = [] \<and> unsigned = [])\<rparr>)"

record policy_report =
  pl_findings :: "string list"
  pl_ok :: bool

text \<open>\<^verbatim>\<open>q < 0.8\<close>, where the literal is the double nearest to 4/5.\<close>

fun below_threshold :: "py_float \<Rightarrow> bool" where
  "below_threshold (Finite x) = (x < fl (4 / 5))"
| "below_threshold PosInf = False"
| "below_threshold NegInf = True"
| "below_threshold NaN = False"

definition policy_scan :: "package_version \<Rightarrow> policy_report" where
  "policy_scan p =
     (let md = pv_metadata p;
          findings =
            (if list_ex (\<lambda>(k, _). prefix ''raw_'' (lower k)) (package_manifest_as_dict (pv_manifest p)) then [''suspicious raw manifest field''] else []) @
            (if md_revoked md then [''package version is revoked''] else []) @
            (if md_deprecated md then [''package version is deprecated''] else []) @
            (if \<not> List.member industry_categories (md_category md) then [''unsupported industry package category''] else []) @
            (case md_quality md of None \<Rightarrow> [] | Some q \<Rightarrow>
               if below_threshold q then [''industry package quality score is below threshold''] else []) in
      \<lparr>pl_findings = findings, pl_ok = (findings = [])\<rparr>)"

record scan_report =
  sr_ok :: bool
  sr_permission :: permission_report
  sr_dependency :: dependency_report
  sr_policy :: policy_report

definition package_scan :: "package_version \<Rightarrow> package_version dict \<Rightarrow> scan_report" where
  "package_scan p available =
     (let permission = permission_scan p; dependency = dependency_scan p available; policy = policy_scan p in
      \<lparr>sr_ok = (dr_ok dependency \<and> pl_ok policy \<and> \<not> pr_requires_approval permission), sr_permission = permission,
       sr_dependency = dependency, sr_policy = policy\<rparr>)"

definition scan_enforce :: "package_version \<Rightarrow> package_version dict \<Rightarrow> scan_report result" where
  "scan_enforce p available =
     (let r = package_scan p available in
      if \<not> sr_ok r \<and> \<not> md_high_risk_approved (pv_metadata p) then Inl (ValidationError ''package failed marketplace scan'') else Inr r)"

section \<open>Signatures\<close>

record signing_key =
  sk_publisher :: string
  sk_secret :: string

definition key_fingerprint :: "(string \<Rightarrow> string) \<Rightarrow> signing_key \<Rightarrow> string" where
  "key_fingerprint sha k = sha (sk_publisher k @ '':'' @ sk_secret k)"

record package_signature =
  ps_signature :: string
  ps_fingerprint :: string

definition package_sign :: "(string \<Rightarrow> string) \<Rightarrow> string \<Rightarrow> signing_key \<Rightarrow> package_signature" where
  "package_sign sha h k = \<lparr>ps_signature = sha (h @ '':'' @ sk_secret k), ps_fingerprint = key_fingerprint sha k\<rparr>"

definition trust :: "string \<Rightarrow> string \<Rightarrow> string dict \<Rightarrow> string dict" where
  "trust publisher fingerprint d = AList.update publisher fingerprint d"

definition fingerprint_for :: "string \<Rightarrow> string dict \<Rightarrow> string option" where
  "fingerprint_for publisher d = map_of d publisher"

definition verify_package :: "(string \<Rightarrow> string) \<Rightarrow> string dict \<Rightarrow> bool \<Rightarrow> string \<Rightarrow> string \<Rightarrow> string \<Rightarrow> signing_key option \<Rightarrow> string result" where
  "verify_package sha trusted allow_unsigned publisher h signature key =
     (if signature = []
      then (if allow_unsigned then Inr ''unsigned-local'' else Inl (ValidationError ''unsigned packages are not allowed''))
      else case fingerprint_for publisher trusted of
        None \<Rightarrow> Inl (ValidationError ''publisher is not trusted'')
      | Some fingerprint \<Rightarrow> (case key of
          None \<Rightarrow> Inl (ValidationError ''signing key is required for local verification'')
        | Some k \<Rightarrow> let expected = package_sign sha h k in
            if ps_fingerprint expected \<noteq> fingerprint \<or> ps_signature expected \<noteq> signature
            then Inl (ValidationError ''package signature verification failed'') else Inr (ps_fingerprint expected)))"

section \<open>What the search for cycles reports\<close>

definition depends_on :: "edges \<Rightarrow> (string \<times> string) set" where
  "depends_on es = {(a, b). b \<in> set (edges_of a es)}"

text \<open>A walk: consecutive nodes are joined by an edge.\<close>

fun walk :: "edges \<Rightarrow> string list \<Rightarrow> bool" where
  "walk es (a # b # ns) = (b \<in> set (edges_of a es) \<and> walk es (b # ns))"
| "walk es _ = True"

definition reported_cycle :: "edges \<Rightarrow> string list \<Rightarrow> bool" where
  "reported_cycle es c \<longleftrightarrow> (\<exists>n ns. c = n # ns @ [n, n] \<and> walk es (n # ns @ [n]))"

lemma walk_append: "walk es (xs @ [x]) \<Longrightarrow> y \<in> set (edges_of x es) \<Longrightarrow> walk es (xs @ [x, y])"
  by (induction es xs rule: walk.induct) (auto split: if_splits)

lemma walk_suffix: "walk es (xs @ ys) \<Longrightarrow> walk es ys"
proof (induction xs)
  case (Cons x xs)
  then show ?case by (cases "xs @ ys") auto
qed simp

lemma walk_trancl: "walk es (a # ns @ [b]) \<Longrightarrow> (a, b) \<in> (depends_on es)\<^sup>+"
proof (induction ns arbitrary: a)
  case (Cons n ns)
  then show ?case by (auto simp: depends_on_def intro: trancl_into_trancl2)
qed (auto simp: depends_on_def)

lemma dropWhile_first: "n \<in> set pre \<Longrightarrow> \<exists>as ns. pre = as @ n # ns \<and> dropWhile (\<lambda>x. x \<noteq> n) (pre @ [n]) = n # ns @ [n]"
proof -
  assume "n \<in> set pre"
  then obtain as ns where "pre = as @ n # ns" "n \<notin> set as" by (metis split_list_first)
  then show ?thesis by (intro exI [of _ as] exI [of _ ns]) (auto simp: dropWhile_append3)
qed

lemma visit_sound:
  "walk es path \<Longrightarrow> path = pre @ [n] \<Longrightarrow> set visiting \<subseteq> set pre \<Longrightarrow> \<forall>c\<in>set (fst st). reported_cycle es c \<Longrightarrow>
     \<forall>c\<in>set (fst (visit es n path visiting st)). reported_cycle es c"
  "walk es path \<Longrightarrow> path = pre @ [m] \<Longrightarrow> set cs \<subseteq> set (edges_of m es) \<Longrightarrow> set visiting \<subseteq> set path \<Longrightarrow> \<forall>c\<in>set (fst st). reported_cycle es c \<Longrightarrow>
     \<forall>c\<in>set (fst (visit_each es cs path visiting st)). reported_cycle es c"
proof (induction es n path visiting st and es cs path visiting st arbitrary: pre and pre m rule: visit_visit_each.induct)
  case (1 es n path visiting cycles visited)
  show ?case
  proof (cases "n \<in> set visiting")
    case True
    then obtain as ns where ns: "pre = as @ n # ns" "dropWhile (\<lambda>x. x \<noteq> n) (pre @ [n]) = n # ns @ [n]"
      using 1 dropWhile_first [of n pre] by blast
    then have "walk es (n # ns @ [n])" using 1 walk_suffix [of es as "n # ns @ [n]"] by simp
    then show ?thesis using True 1 ns by (auto simp: reported_cycle_def)
  next
    case False
    have vis: "set (n # visiting) \<subseteq> set path" using 1 by auto
    show ?thesis
    proof (cases "n \<in> set visited")
      case new: False
      have "\<forall>c\<in>set (fst (visit_each es (edges_of n es) path (n # visiting) (cycles, visited))). reported_cycle es c"
        using "1.IH" [OF _ _ "1.prems"(1,2) subset_refl vis] False new "1.prems"(4) by simp
      then show ?thesis using False new by (simp split: prod.splits)
    qed (use False 1 in simp)
  qed
next
  case (3 es c cs path visiting st)
  have w: "walk es (path @ [c])" using "3.prems"(1-3) walk_append [of es pre m c] by simp
  have "\<forall>x\<in>set (fst (visit es c (path @ [c]) visiting st)). reported_cycle es x"
    using "3.IH"(1) [OF w HOL.refl "3.prems"(4,5)] .
  then have "\<forall>x\<in>set (fst (visit_each es cs path visiting (visit es c (path @ [c]) visiting st))). reported_cycle es x"
    using "3.IH"(2) [OF "3.prems"(1,2) _ "3.prems"(4)] "3.prems"(3) by (meson set_subset_Cons subset_trans)
  then show ?case by (simp only: visit_each.simps)
qed simp

text \<open>Nodes in the order they are done with: everything a node depends on was done before it.\<close>

fun done_in_order :: "edges \<Rightarrow> string list \<Rightarrow> bool" where
  "done_in_order es [] = True"
| "done_in_order es (n # ns) = (set (edges_of n es) \<subseteq> set ns \<and> done_in_order es ns)"

lemma visit_grows:
  "length (fst st) \<le> length (fst (visit es n path visiting st)) \<and> set (snd st) \<subseteq> set (snd (visit es n path visiting st))"
  "length (fst st) \<le> length (fst (visit_each es cs path visiting st)) \<and> set (snd st) \<subseteq> set (snd (visit_each es cs path visiting st))"
  by (induction es n path visiting st and es cs path visiting st rule: visit_visit_each.induct)
    (fastforce split: prod.splits)+

lemma visit_complete:
  "fst (visit es n path visiting st) = [] \<Longrightarrow> done_in_order es (snd st) \<Longrightarrow>
     done_in_order es (snd (visit es n path visiting st)) \<and> n \<in> set (snd (visit es n path visiting st))"
  "fst (visit_each es cs path visiting st) = [] \<Longrightarrow> done_in_order es (snd st) \<Longrightarrow>
     done_in_order es (snd (visit_each es cs path visiting st)) \<and> set cs \<subseteq> set (snd (visit_each es cs path visiting st))"
proof (induction es n path visiting st and es cs path visiting st rule: visit_visit_each.induct)
  case (1 es n path visiting cycles visited)
  then show ?case by (auto split: if_splits prod.splits)
next
  case (3 es c cs path visiting st)
  then have "fst (visit es c (path @ [c]) visiting st) = []"
    using visit_grows(2) [of "visit es c (path @ [c]) visiting st" es cs path visiting] by simp
  with 3 show ?case using visit_grows(2) [of "visit es c (path @ [c]) visiting st" es cs path visiting] by auto
qed simp

declare visit.simps [simp del] visit_each.simps [simp del]

fun done_rank :: "string list \<Rightarrow> string \<Rightarrow> nat" where
  "done_rank [] a = 0"
| "done_rank (n # ns) a = (if a \<in> set ns then done_rank ns a else if a = n then Suc (length ns) else 0)"

lemma done_rank_le: "done_rank ns a \<le> length ns"
  by (induction ns) (auto intro: le_SucI)

lemma done_rank_less: "done_in_order es ns \<Longrightarrow> a \<in> set ns \<Longrightarrow> b \<in> set (edges_of a es) \<Longrightarrow> b \<in> set ns \<and> done_rank ns b < done_rank ns a"
  using done_rank_le by (induction ns) (auto simp: le_imp_less_Suc split: if_splits)

lemma done_acyclic:
  assumes "done_in_order es ns" "fst ` set es \<subseteq> set ns"
  shows "acyclic (depends_on es)"
proof -
  have "depends_on es \<subseteq> (measure (done_rank ns))\<inverse>"
    using assms done_rank_less edges_of_none by (fastforce simp: depends_on_def)
  moreover have "acyclic ((measure (done_rank ns))\<inverse>)" by (simp add: acyclic_converse wf_acyclic)
  ultimately show ?thesis by (rule acyclic_subset [rotated])
qed

text \<open>The relation the graph stands for: a package and what it declares as a dependency.\<close>

definition package_depends :: "package_version list \<Rightarrow> (string \<times> string) set" where
  "package_depends ps = {(pv_id p, pd_id d) | p d. p \<in> set ps \<and> d \<in> set (pm_dependencies (pv_manifest p))}"

lemma package_depends_Cons:
  "package_depends (p # ps) = (\<lambda>d. (pv_id p, pd_id d)) ` set (pm_dependencies (pv_manifest p)) \<union> package_depends ps"
  by (auto simp: package_depends_def)

lemma edges_of_update [simp]: "edges_of n (AList.update m cs es) = (if n = m then cs else edges_of n es)"
  by (simp add: edges_of_def)

lemma edges_of_add_package:
  "edges_of n (add_package es p) = edges_of n es @ (if n = pv_id p then map pd_id (pm_dependencies (pv_manifest p)) else [])"
proof -
  have "edges_of n (foldl (add_edge i) es ds) = edges_of n es @ (if n = i then map pd_id ds else [])" for i ds
    by (induction ds arbitrary: es) (auto simp: add_edge_def)
  then show ?thesis by (simp add: add_package_def)
qed

lemma keys_add_package: "fst ` set (add_package es p) \<subseteq> insert (pv_id p) (fst ` set es)"
proof -
  have "fst ` set (foldl (add_edge i) es ds) \<subseteq> insert i (fst ` set es)" for i ds
  proof (induction ds arbitrary: es)
    case (Cons d ds)
    show ?case using Cons.IH [of "add_edge i es d"] by (simp add: add_edge_def dom_update)
  qed auto
  then show ?thesis by (simp add: add_package_def)
qed

lemma depends_on_package_edges: "depends_on (package_edges ps) = package_depends ps"
proof -
  have "set (edges_of n (foldl add_package es ps)) = set (edges_of n es) \<union> {b. (n, b) \<in> package_depends ps}" for n es
    by (induction ps arbitrary: es) (auto simp: edges_of_add_package package_depends_def)
  then show ?thesis by (auto simp: depends_on_def package_edges_def edges_of_def [of _ "[]"])
qed

lemma set_package_ids: "set (package_ids ps) = pv_id ` set ps"
proof -
  have "fst ` set (foldl (\<lambda>d p. AList.update (pv_id p) p d) d ps) = fst ` set d \<union> pv_id ` set ps" for d
    by (induction ps arbitrary: d) (auto simp: dom_update)
  then show ?thesis by (simp add: package_ids_def)
qed

lemma package_edges_keys: "fst ` set (package_edges ps) \<subseteq> set (package_ids ps)"
proof -
  have "fst ` set (foldl add_package es ps) \<subseteq> fst ` set es \<union> pv_id ` set ps" for es
  proof (induction ps arbitrary: es)
    case (Cons p ps)
    have "fst ` set (foldl add_package es (p # ps)) \<subseteq> fst ` set (add_package es p) \<union> pv_id ` set ps"
      using Cons.IH [of "add_package es p"] by simp
    then show ?case using keys_add_package [of es p] by auto
  qed simp
  from this [of "[]"] show ?thesis by (simp add: set_package_ids package_edges_def)
qed

lemma visit_all_simps [simp]: "visit_all es [] st = st" "visit_all es (i # is) st = visit_all es is (visit es i [i] [] st)"
  by (simp_all add: visit_all_def)

lemma visit_all_sound: "\<forall>c\<in>set (fst st). reported_cycle es c \<Longrightarrow> \<forall>c\<in>set (fst (visit_all es is st)). reported_cycle es c"
proof (induction "is" arbitrary: st)
  case (Cons i "is")
  have "walk es [i]" by simp
  from visit_sound(1) [OF this, of "[]" i "[]" st] Cons show ?case by simp
qed simp

lemma visit_all_grows: "length (fst st) \<le> length (fst (visit_all es is st)) \<and> set (snd st) \<subseteq> set (snd (visit_all es is st))"
proof (induction "is" arbitrary: st)
  case (Cons i "is")
  show ?case using Cons.IH [of "visit es i [i] [] st"] visit_grows(1) [of st es i "[i]" "[]"] by fastforce
qed simp

lemma visit_all_complete:
  "fst (visit_all es is st) = [] \<Longrightarrow> done_in_order es (snd st) \<Longrightarrow>
     done_in_order es (snd (visit_all es is st)) \<and> set is \<subseteq> set (snd (visit_all es is st))"
proof (induction "is" arbitrary: st)
  case (Cons i "is")
  let ?st = "visit es i [i] [] st"
  have "fst ?st = []" using Cons.prems(1) visit_all_grows [of ?st es "is"] by simp
  from visit_complete(1) [OF this Cons.prems(2)] have *: "done_in_order es (snd ?st)" "i \<in> set (snd ?st)" by simp_all
  then show ?case using Cons.IH [of ?st] Cons.prems(1) visit_all_grows [of ?st es "is"] by auto
qed simp

lemma detect_cycles_reported: "\<forall>c\<in>set (detect_cycles ps). reported_cycle (package_edges ps) c"
  unfolding detect_cycles_def by (rule visit_all_sound) simp

lemma detect_cycles_empty: "detect_cycles ps = [] \<longleftrightarrow> acyclic (package_depends ps)"
proof -
  let ?es = "package_edges ps"
  note sound = detect_cycles_reported [of ps]
  have "acyclic (depends_on ?es)" if "detect_cycles ps = []"
  proof -
    let ?ns = "snd (visit_all ?es (package_ids ps) ([], []))"
    have "done_in_order ?es ?ns" "set (package_ids ps) \<subseteq> set ?ns"
      using visit_all_complete [of ?es "package_ids ps" "([], [])"] that by (simp_all add: detect_cycles_def)
    then show ?thesis using done_acyclic package_edges_keys by blast
  qed
  moreover have "detect_cycles ps = []" if "acyclic (depends_on ?es)"
  proof (rule ccontr)
    assume "detect_cycles ps \<noteq> []"
    then obtain c where "reported_cycle ?es c" using sound hd_in_set by blast
    then obtain n ns where "walk ?es (n # ns @ [n])" by (auto simp: reported_cycle_def)
    then have "(n, n) \<in> (depends_on ?es)\<^sup>+" by (rule walk_trancl)
    then show False using that by (simp add: acyclic_def)
  qed
  ultimately show ?thesis unfolding depends_on_package_edges by blast
qed

text \<open>
  C14. The cycle check of the dependency resolver is exact: \<^verbatim>\<open>detect_cycles\<close> returns no cycle exactly when
  the declared dependencies of the packages it is given are acyclic, and every cycle it does return is a
  closed walk along declared dependencies (with its first package repeated once more at the end).
\<close>

theorem detect_cycles_exact:
  "(detect_cycles ps = [] \<longleftrightarrow> acyclic (package_depends ps)) \<and> list_all (reported_cycle (package_edges ps)) (detect_cycles ps)"
  using detect_cycles_empty detect_cycles_reported by (simp add: list_all_iff)


section \<open>What is resolved, scanned and signed\<close>

lemma manifest_round_trip [simp]: "manifest_from_dict (package_manifest_as_dict m) s = (Inr m, s)"
proof -
  have "dependency_from_dict (JObj (dependency_as_dict d)) = Inr d" for d
    by (simp add: dependency_as_dict_def field_defs)
  then have "map_result dependency_from_dict (map (JObj \<circ> dependency_as_dict) ds) = Inr ds" for ds
    by (induction ds) simp_all
  then show ?thesis
    by (simp add: manifest_from_dict_def package_manifest_as_dict_def dependencies_or_def record_defs op_simps)
qed

text \<open>A declared dependency that nothing stands against.\<close>

definition dependency_met :: "package_version dict \<Rightarrow> package_dependency \<Rightarrow> bool" where
  "dependency_met available d \<longleftrightarrow> (pd_required d \<longrightarrow> map_of available (pd_id d) \<noteq> None) \<and> \<not> pd_deprecated d \<and>
     (\<forall>p. map_of available (pd_id d) = Some p \<longrightarrow> compatible (pv_version p) (pd_constraint d))"

lemma conflict_check_iff: "conflict_check available ds = Inr () \<longleftrightarrow> (\<forall>d\<in>set ds. dependency_met available d)"
  by (induction ds) (auto simp: dependency_met_def split: option.splits)

lemma conflict_check_error: "conflict_check available ds = Inl e \<Longrightarrow> \<exists>m. e = ValidationError m"
  by (induction ds) (auto split: if_splits option.splits)

lemma sorted_set_Nil [simp]: "sorted_set xs = [] \<longleftrightarrow> xs = []"
  by (metis set_empty set_remdups set_sort sorted_set_def)

lemma set_sorted_set [simp]: "set (sorted_set xs) = set xs"
  by (simp add: sorted_set_def)

text \<open>
  C39. What the dependency resolver accepts: exactly the packages each of whose declared dependencies is
  there if required, is not deprecated and has a compatible version, for which the package and its
  direct dependencies have no cycle among their declarations, and none of whose direct dependencies asks
  for an unsafe permission; the answer is then the package followed by its available dependencies in
  the order declared. Everything else is refused with a \<^verbatim>\<open>ValidationError\<close>.
\<close>

theorem resolve_exact:
  "if list_all (dependency_met available) (pm_dependencies (pv_manifest p)) \<and>
      acyclic (package_depends (p # available_dependencies p available)) \<and>
      list_all (\<lambda>q. set (pm_tools (pv_manifest q)) \<inter> set unsafe_permissions = {}) (available_dependencies p available)
   then resolve p available = Inr (p # available_dependencies p available)
   else \<exists>m. resolve p available = Inl (ValidationError m)"
proof -
  let ?ds = "pm_dependencies (pv_manifest p)" and ?rs = "p # available_dependencies p available"
  let ?unsafe = "filter (List.member unsafe_permissions) (concat (map (pm_tools \<circ> pv_manifest) (available_dependencies p available)))"
  have met: "conflict_validate p available = Inr () \<longleftrightarrow> list_all (dependency_met available) ?ds"
    unfolding conflict_validate_def list_all_iff by (rule conflict_check_iff)
  have refused: "\<exists>m. conflict_validate p available = Inl (ValidationError m)" if "conflict_validate p available \<noteq> Inr ()"
    using that conflict_check_error unfolding conflict_validate_def by (cases "conflict_check available ?ds") fastforce+
  have cyc: "detect_cycles ?rs = [] \<longleftrightarrow> acyclic (package_depends ?rs)" using detect_cycles_empty by blast
  have uns: "?unsafe = [] \<longleftrightarrow> list_all (\<lambda>q. set (pm_tools (pv_manifest q)) \<inter> set unsafe_permissions = {}) (available_dependencies p available)"
    by (auto simp: filter_empty_conv list_all_iff)
  show ?thesis
  proof (cases "conflict_validate p available = Inr ()")
    case True
    then show ?thesis using met cyc uns unfolding resolve_def by (simp add: Let_def)
  next
    case False
    then show ?thesis using met refused unfolding resolve_def by auto
  qed
qed

lemma verify_package_Inr:
  "verify_package sha trusted unsigned publisher h signature key = Inr fp \<longleftrightarrow>
     (if signature = [] then unsigned \<and> fp = ''unsigned-local''
      else map_of trusted publisher = Some fp \<and>
        (\<exists>k. key = Some k \<and> fp = key_fingerprint sha k \<and> signature = sha (h @ '':'' @ sk_secret k)))"
  by (auto simp: verify_package_def fingerprint_for_def package_sign_def Let_def split: option.splits)

lemma verify_package_error: "verify_package sha trusted unsigned publisher h signature key = Inl e \<Longrightarrow> \<exists>m. e = ValidationError m"
  by (auto simp: verify_package_def Let_def split: if_splits option.splits)

section \<open>Examples\<close>

definition manifest0 :: package_manifest where
  "manifest0 = \<lparr>pm_id = ''a'', pm_name = ''A'', pm_version = ''1.0.0'', pm_publisher = ''t1'', pm_agent = ''agent-1'', pm_runtime = [],
     pm_tools = [], pm_connectors = [], pm_connector_permissions = [], pm_dependencies = [], pm_license = ''free'', pm_pricing = ''free''\<rparr>"

definition metadata0 :: package_metadata where
  "metadata0 = \<lparr>md_description = [], md_tags = [], md_private = False, md_enterprise_only = False, md_deprecated = False, md_revoked = False,
     md_high_risk_approved = False, md_approval_notes = [], md_category = ''general'', md_bundle = None, md_compatibility = [],
     md_quality = None, md_extra = []\<rparr>"

definition version_of :: "package_manifest \<Rightarrow> datetime \<Rightarrow> package_version" where
  "version_of m t = \<lparr>pv_manifest = m, pv_hash = ''h'', pv_signature = ''s'', pv_fingerprint = ''f'', pv_metadata = metadata0,
     pv_created_at = t, pv_published_at = t\<rparr>"

definition needs :: "string \<Rightarrow> package_dependency" where
  "needs i = \<lparr>pd_id = i, pd_constraint = ''*'', pd_required = True, pd_deprecated = False\<rparr>"

definition chained :: "string \<Rightarrow> string \<Rightarrow> datetime \<Rightarrow> package_version" where
  "chained i j t = version_of (manifest0\<lparr>pm_id := i, pm_dependencies := [needs j]\<rparr>) t"

lemmas package_examples = manifest0_def metadata0_def version_of_def needs_def chained_def pv_id_def pv_version_def

text \<open>
  The resolver looks at a package and its direct dependencies only: packages a, b and c that depend on each
  other in a ring are a cycle, and yet each of them resolves.
\<close>

theorem longer_cycle_missed:
  "\<not> acyclic (package_depends [chained ''a'' ''b'' t, chained ''b'' ''c'' t, chained ''c'' ''a'' t]) \<and>
   resolve (chained ''a'' ''b'' t) [(''a'', chained ''a'' ''b'' t), (''b'', chained ''b'' ''c'' t), (''c'', chained ''c'' ''a'' t)] =
     Inr [chained ''a'' ''b'' t, chained ''b'' ''c'' t]"
proof -
  let ?ring = "[chained ''a'' ''b'' t, chained ''b'' ''c'' t, chained ''c'' ''a'' t]"
  have "{(''a'', ''b''), (''b'', ''c''), (''c'', ''a'')} \<subseteq> package_depends ?ring"
    by (simp add: package_depends_Cons package_examples)
  then have "(''a'', ''a'') \<in> (package_depends ?ring)\<^sup>+"
    by (meson insert_subset r_into_trancl trancl_into_trancl)
  then have "\<not> acyclic (package_depends ?ring)" by (auto simp: acyclic_def)
  moreover have "detect_cycles [chained ''a'' ''b'' t, chained ''b'' ''c'' t] = []"
    by (simp add: detect_cycles_def package_ids_def package_edges_def add_package_def add_edge_def edges_of_def package_examples
        visit.simps visit_each.simps)
  ultimately show ?thesis
    by (simp add: resolve_def conflict_validate_def available_dependencies_def compatible_def unsafe_permissions_def package_examples
        List.map_filter_simps)
qed

text \<open>Versions are ordered as texts: of 9.0.0 and 10.0.0 the registry takes 9.0.0 for the latest, and 10.0.0 does not satisfy \<^verbatim>\<open>>=9.0.0\<close>.\<close>

theorem newer_version_passed_over:
  "latest [version_of (manifest0\<lparr>pm_version := ''9.0.0''\<rparr>) t, version_of (manifest0\<lparr>pm_version := ''10.0.0''\<rparr>) t] =
     Inr (version_of (manifest0\<lparr>pm_version := ''9.0.0''\<rparr>) t) \<and> \<not> compatible ''10.0.0'' ''>=9.0.0''"
  by (simp add: latest_def package_examples compatible_def sort_key_def less_char_def less_eq_char_def suffix_def)
end
