(* ===== verification/Marketplace.thy ===== *)
theory Marketplace
  imports Workflow Packages
begin

text \<open>
  The marketplace (\<^verbatim>\<open>agentfabric/marketplace/registry\<close>, \<^verbatim>\<open>licensing\<close> and \<^verbatim>\<open>reviews\<close>): the registry of package
  versions, publication, installation with entitlements, reviews, and the endpoints of \<^verbatim>\<open>server/app.py\<close>
  on them. A package's metadata may carry a floating-point quality score, which the documents of this
  development cannot hold, so the collection \<^verbatim>\<open>marketplace_packages\<close> is kept as the records that reading its
  documents gives; the other collections are documents. Left out are the endpoints for publication
  and installation, which go on to record revenue in floating point, and the reputation of publishers.
\<close>

section \<open>The registry\<close>

record kworld = fworld +
  w_packages :: "package_version dict"
  w_trusted :: "string dict"

text \<open>A version as \<^verbatim>\<open>from_dict\<close> reads it back: an empty bundle identifier is \<^verbatim>\<open>None\<close>.\<close>

definition version_read :: "package_version \<Rightarrow> package_version" where
  "version_read p = p\<lparr>pv_metadata := (pv_metadata p)\<lparr>md_bundle := nonempty (md_bundle (pv_metadata p))\<rparr>\<rparr>"

definition save_version :: "package_version \<Rightarrow> ('z kworld_scheme, unit) op" where
  "save_version p = modify (\<lambda>w. w\<lparr>w_packages := AList.update (pv_key p) (version_read p) (w_packages w)\<rparr>)"

definition visible_to :: "string option \<Rightarrow> package_version \<Rightarrow> bool" where
  "visible_to tenant p = (case tenant of None \<Rightarrow> True
     | Some t \<Rightarrow> pm_publisher (pv_manifest p) = t \<or> \<not> md_private (pv_metadata p))"

definition list_packages :: "string option \<Rightarrow> ('z kworld_scheme, package_version list) op" where
  "list_packages tenant = gets (\<lambda>w. filter (visible_to tenant) (map snd (sorted_items (w_packages w))))"

text \<open>The version asked for is what the request body holds: no text, or a text, or something no version equals.\<close>

definition registry_get :: "string \<Rightarrow> json \<Rightarrow> ('z kworld_scheme, package_version) op" where
  "registry_get i version =
     bind (list_packages None) (\<lambda>all.
     let versions = filter (\<lambda>p. pv_id p = i) all in
     if versions = [] then raise (NotFoundError ''package not found'')
     else if truthy version
     then (case find (\<lambda>p. JStr (pv_version p) = version) versions of
             Some p \<Rightarrow> ok p
           | None \<Rightarrow> raise (NotFoundError ''package version not found''))
     else lift (latest versions))"

definition newest_by_id :: "package_version list \<Rightarrow> package_version dict" where
  "newest_by_id ps = foldl (\<lambda>d p. case map_of d (pv_id p) of
       None \<Rightarrow> AList.update (pv_id p) p d
     | Some q \<Rightarrow> if pv_version p > pv_version q then AList.update (pv_id p) p d else d) [] ps"

definition available_by_id :: "('z kworld_scheme, package_version dict) op" where
  "available_by_id = bind (list_packages None) (\<lambda>all. ok (newest_by_id all))"

section \<open>Publication\<close>

definition trust_publisher :: "string \<Rightarrow> string \<Rightarrow> ('z kworld_scheme, unit) op" where
  "trust_publisher publisher fingerprint = modify (\<lambda>w. w\<lparr>w_trusted := trust publisher fingerprint (w_trusted w)\<rparr>)"

definition publish_package :: "bool \<Rightarrow> package_manifest \<Rightarrow> package_metadata \<Rightarrow> string \<Rightarrow> signing_key \<Rightarrow> ('z kworld_scheme, package_version) op" where
  "publish_package allow_unsigned m md signature key =
     bind (lift (manifest_validate m)) (\<lambda>_.
     bind (gets w_sha) (\<lambda>sha.
     bind (gets w_trusted) (\<lambda>trusted.
     let h = manifest_hash sha m in
     bind (lift (verify_package sha trusted allow_unsigned (pm_publisher m) h signature (Some key))) (\<lambda>fingerprint.
     bind utc_now (\<lambda>created.
     bind utc_now (\<lambda>published.
     let p = \<lparr>pv_manifest = m, pv_hash = h, pv_signature = signature, pv_fingerprint = fingerprint, pv_metadata = md,
              pv_created_at = created, pv_published_at = published\<rparr> in
     bind available_by_id (\<lambda>available.
     bind (lift (scan_enforce p available)) (\<lambda>_.
     bind (save_version p) (\<lambda>_.
     bind (es_append ''marketplace.package.published'' (pv_id p) [
             (''tenant_id'', JStr (pm_publisher m)), (''package_id'', JStr (pv_id p)), (''version'', JStr (pv_version p)),
             (''manifest_hash'', JStr h)]) (\<lambda>_.
     bind (es_append ''marketplace.package.signed'' (pv_id p) [
             (''tenant_id'', JStr (pm_publisher m)), (''package_id'', JStr (pv_id p)), (''version'', JStr (pv_version p)),
             (''publisher_fingerprint'', JStr fingerprint)]) (\<lambda>_.
     ok p)))))))))))"

section \<open>Entitlements\<close>

record entitlement =
  et_tenant :: string
  et_package :: string
  et_version :: string
  et_license :: string
  et_active :: bool
  et_expires_at :: "datetime option"
  et_id :: string
  et_created_at :: datetime

definition entitlement_as_dict :: "entitlement \<Rightarrow> obj" where
  "entitlement_as_dict e = [
     (''entitlement_id'', JStr (et_id e)),
     (''tenant_id'', JStr (et_tenant e)),
     (''package_id'', JStr (et_package e)),
     (''version'', JStr (et_version e)),
     (''license_type'', JStr (et_license e)),
     (''active'', JBool (et_active e)),
     (''expires_at'', time_json (et_expires_at e)),
     (''created_at'', JStr (isoformat (et_created_at e)))]"

definition entitlement_from_dict :: "obj \<Rightarrow> ('s, entitlement) op" where
  "entitlement_from_dict d =
     bind (lift (req_str d ''entitlement_id'')) (\<lambda>i.
     bind (lift (req_str d ''tenant_id'')) (\<lambda>tid.
     bind (lift (req_str d ''package_id'')) (\<lambda>pid.
     bind (lift (req_str d ''version'')) (\<lambda>version.
     bind (lift (req_str d ''license_type'')) (\<lambda>license.
     bind (lift (opt_time d ''expires_at'')) (\<lambda>expires.
     bind (lift (req_time d ''created_at'')) (\<lambda>created.
     ok \<lparr>et_tenant = tid, et_package = pid, et_version = version, et_license = license, et_active = bool_or d ''active'' True,
         et_expires_at = expires, et_id = i, et_created_at = created\<rparr>)))))))"

definition check_license :: "entitlement option \<Rightarrow> ('z world_scheme, unit) op" where
  "check_license e = (case e of
     None \<Rightarrow> raise (AuthorizationError ''package entitlement is required'')
   | Some x \<Rightarrow>
       if \<not> et_active x then raise (AuthorizationError ''package entitlement is required'')
       else (case et_expires_at x of
         None \<Rightarrow> ok ()
       | Some t \<Rightarrow> bind utc_now (\<lambda>now. guard (\<not> t \<le> now) (AuthorizationError ''package entitlement has expired''))))"

section \<open>Installation\<close>

definition validate_install :: "string \<Rightarrow> package_version \<Rightarrow> bool \<Rightarrow> ('z kworld_scheme, unit) op" where
  "validate_install tid p approved =
     (if md_private (pv_metadata p) \<and> pm_publisher (pv_manifest p) \<noteq> tid then raise (AuthorizationError ''tenant cannot install private package'')
      else bind available_by_id (\<lambda>available.
        let scan = package_scan p available in
        if pr_requires_approval (sr_permission scan) \<and> \<not> (approved \<or> md_high_risk_approved (pv_metadata p))
        then raise (AuthorizationError ''high-risk package permissions require approval'')
        else if \<not> dr_ok (sr_dependency scan) \<or> \<not> pl_ok (sr_policy scan) then raise (ValidationError ''package failed install scan'')
        else bind available_by_id (\<lambda>available. bind (lift (resolve p available)) (\<lambda>_. ok ()))))"

text \<open>The first document of the tenant for this package that is active; a document must name its package.\<close>

fun first_of_package :: "string \<Rightarrow> obj list \<Rightarrow> obj option result" where
  "first_of_package i [] = Inr None"
| "first_of_package i (d # ds) =
     (case req d ''package_id'' of
        Inl e \<Rightarrow> Inl e
      | Inr v \<Rightarrow> if v = JStr i \<and> bool_or d ''active'' True then Inr (Some d) else first_of_package i ds)"

definition active_install :: "string \<Rightarrow> string \<Rightarrow> ('z world_scheme, obj) op" where
  "active_install tid i =
     bind (on_store (mem_list_tenant ''marketplace_installs'' tid)) (\<lambda>ds.
     bind (lift (first_of_package i ds)) (\<lambda>found. case found of
       None \<Rightarrow> raise (ValidationError ''package is not installed'')
     | Some d \<Rightarrow> ok d))"

definition put_install :: "obj \<Rightarrow> ('z world_scheme, unit) op" where
  "put_install d = bind (lift (req_str d ''install_id'')) (\<lambda>i. on_store (mem_put ''marketplace_installs'' i d))"

definition install :: "string \<Rightarrow> string \<Rightarrow> json \<Rightarrow> bool \<Rightarrow> ('z kworld_scheme, obj) op" where
  "install tid i version approved =
     bind (registry_get i version) (\<lambda>p.
     bind (validate_install tid p approved) (\<lambda>_.
     bind uuid_hex12 (\<lambda>ent.
     bind utc_now (\<lambda>granted.
     let e = \<lparr>et_tenant = tid, et_package = pv_id p, et_version = pv_version p, et_license = pm_license (pv_manifest p), et_active = True,
              et_expires_at = None, et_id = ''ent-'' @ ent, et_created_at = granted\<rparr> in
     bind uuid_hex12 (\<lambda>inst.
     bind utc_now (\<lambda>installed.
     let d = [(''install_id'', JStr (''inst-'' @ inst)), (''tenant_id'', JStr tid), (''package_id'', JStr (pv_id p)),
              (''publisher_tenant_id'', JStr (pm_publisher (pv_manifest p))), (''version'', JStr (pv_version p)),
              (''installed_at'', JStr (isoformat installed)), (''active'', JBool True)] in
     bind (on_store (mem_put ''marketplace_entitlements'' (et_id e) (entitlement_as_dict e))) (\<lambda>_.
     bind (put_install d) (\<lambda>_.
     bind (es_append ''marketplace.entitlement.granted'' (pv_id p)
             (foldl (\<lambda>d (k, v). AList.update k v d) [(''tenant_id'', JStr tid)] (entitlement_as_dict e))) (\<lambda>_.
     bind (es_append ''marketplace.package.installed'' (pv_id p) d) (\<lambda>_.
     ok d))))))))))"

definition uninstall :: "string \<Rightarrow> string \<Rightarrow> ('z world_scheme, obj) op" where
  "uninstall tid i =
     bind (active_install tid i) (\<lambda>d.
     let d' = AList.update ''active'' (JBool False) d in
     bind (put_install d') (\<lambda>_.
     bind (es_append ''marketplace.package.uninstalled'' i [(''tenant_id'', JStr tid), (''package_id'', JStr i)]) (\<lambda>_.
     ok d')))"

definition moved_event :: "string \<Rightarrow> string \<Rightarrow> string \<Rightarrow> package_version \<Rightarrow> ('z world_scheme, event) op" where
  "moved_event ty tid i p =
     es_append ty i [(''tenant_id'', JStr tid), (''package_id'', JStr i), (''version'', JStr (pv_version p))]"

definition upgrade :: "string \<Rightarrow> string \<Rightarrow> json \<Rightarrow> ('z kworld_scheme, obj) op" where
  "upgrade tid i version =
     bind (registry_get i version) (\<lambda>p.
     bind (validate_install tid p True) (\<lambda>_.
     bind (active_install tid i) (\<lambda>d.
     bind utc_now (\<lambda>t.
     let d' = AList.update ''upgraded_at'' (JStr (isoformat t)) (AList.update ''version'' (JStr (pv_version p)) d) in
     bind (put_install d') (\<lambda>_.
     bind (moved_event ''marketplace.package.upgraded'' tid i p) (\<lambda>_.
     ok d'))))))"

definition rollback :: "string \<Rightarrow> string \<Rightarrow> json \<Rightarrow> bool \<Rightarrow> ('z kworld_scheme, obj) op" where
  "rollback tid i version admin_override =
     bind (registry_get i version) (\<lambda>p.
     if md_revoked (pv_metadata p) \<and> \<not> admin_override then raise (ValidationError ''cannot rollback to revoked package version'')
     else
       bind (active_install tid i) (\<lambda>d.
       bind utc_now (\<lambda>t.
       let d' = AList.update ''rolled_back_at'' (JStr (isoformat t)) (AList.update ''version'' (JStr (pv_version p)) d) in
       bind (put_install d') (\<lambda>_.
       bind (moved_event ''marketplace.package.rolled_back'' tid i p) (\<lambda>_.
       ok d')))))"

definition verify_runtime_entitlement :: "string \<Rightarrow> string \<Rightarrow> ('z world_scheme, unit) op" where
  "verify_runtime_entitlement tid i =
     bind (on_store (mem_list_tenant ''marketplace_entitlements'' tid)) (\<lambda>ds.
     bind (lift (first_of_package i ds)) (\<lambda>found. case found of
       None \<Rightarrow> check_license None
     | Some d \<Rightarrow> bind (entitlement_from_dict d) (\<lambda>e. check_license (Some e))))"

definition list_installed :: "string \<Rightarrow> ('z world_scheme, obj list) op" where
  "list_installed tid = on_store (mem_list_tenant ''marketplace_installs'' tid)"

section \<open>Reviews\<close>

record package_review =
  rv_tenant :: string
  rv_package :: string
  rv_rating :: int
  rv_review :: json
  rv_abuse :: bool
  rv_id :: string
  rv_created_at :: datetime

definition review_as_dict :: "package_review \<Rightarrow> obj" where
  "review_as_dict r = [
     (''review_id'', JStr (rv_id r)),
     (''tenant_id'', JStr (rv_tenant r)),
     (''package_id'', JStr (rv_package r)),
     (''rating'', JInt (rv_rating r)),
     (''review'', rv_review r),
     (''abuse_report'', JBool (rv_abuse r)),
     (''created_at'', JStr (isoformat (rv_created_at r)))]"

definition submit_review :: "package_review \<Rightarrow> ('z world_scheme, package_review) op" where
  "submit_review r = bind (on_store (mem_put ''marketplace_reviews'' (rv_id r) (review_as_dict r))) (\<lambda>_. ok r)"

fun reviews_of :: "string \<Rightarrow> obj list \<Rightarrow> obj list result" where
  "reviews_of i [] = Inr []"
| "reviews_of i (d # ds) =
     (case req d ''package_id'' of
        Inl e \<Rightarrow> Inl e
      | Inr v \<Rightarrow> (case reviews_of i ds of Inl e \<Rightarrow> Inl e | Inr rs \<Rightarrow> Inr (if v = JStr i then d # rs else rs)))"

fun ratings :: "obj list \<Rightarrow> int result" where
  "ratings [] = Inr 0"
| "ratings (d # ds) =
     (case req d ''rating'' of
        Inl e \<Rightarrow> Inl e
      | Inr v \<Rightarrow> (case py_int v of Inl e \<Rightarrow> Inl e | Inr n \<Rightarrow> (case ratings ds of Inl e \<Rightarrow> Inl e | Inr s \<Rightarrow> Inr (n + s))))"

text \<open>The package, the number of reviews and the average as the rational the float stands for.\<close>

definition rating_summary :: "string \<Rightarrow> ('z world_scheme, string \<times> nat \<times> rat) op" where
  "rating_summary i =
     bind (on_store (mem_list ''marketplace_reviews'')) (\<lambda>ds.
     bind (lift (reviews_of i ds)) (\<lambda>rs.
     if rs = [] then ok (i, 0, 0)
     else bind (lift (ratings rs)) (\<lambda>s. bind (lift (py_truediv s (int (length rs)))) (\<lambda>q. ok (i, length rs, q)))))"

section \<open>The endpoints\<close>

text \<open>A package is answered as the record whose \<^verbatim>\<open>as_dict\<close> is sent.\<close>

definition own_or_public :: "tenant_context \<Rightarrow> package_version \<Rightarrow> ('s, unit) op" where
  "own_or_public tc p =
     guard (\<not> (md_private (pv_metadata p) \<and> pm_publisher (pv_manifest p) \<noteq> tc_tenant tc))
       (http_error 403 ''cross-tenant marketplace access denied'')"

definition marketplace_packages_list :: "request \<Rightarrow> ('z kworld_scheme, package_version list \<times> nat) op" where
  "marketplace_packages_list rq =
     scoped rq ''marketplace.read'' (\<lambda>ctx.
     bind (list_packages (Some (tc_tenant ctx))) (\<lambda>items. ok (items, length items)))"

definition marketplace_package_get :: "string \<Rightarrow> request \<Rightarrow> ('z kworld_scheme, package_version) op" where
  "marketplace_package_get i rq =
     scoped rq ''marketplace.read'' (\<lambda>ctx.
     bind (registry_get i JNull) (\<lambda>p.
     bind (own_or_public ctx p) (\<lambda>_.
     ok p)))"

definition marketplace_package_risk :: "string \<Rightarrow> request \<Rightarrow> ('z kworld_scheme, scan_report) op" where
  "marketplace_package_risk i rq =
     scoped rq ''marketplace.read'' (\<lambda>ctx.
     bind (registry_get i JNull) (\<lambda>p.
     bind (own_or_public ctx p) (\<lambda>_.
     bind available_by_id (\<lambda>available.
     ok (package_scan p available)))))"

definition validation_http :: "nat \<Rightarrow> py_error \<Rightarrow> ('s, 'a) op" where
  "validation_http code e = (case e of ValidationError m \<Rightarrow> raise (http_error code m) | _ \<Rightarrow> raise e)"

definition marketplace_package_uninstall :: "string \<Rightarrow> request \<Rightarrow> ('z world_scheme, obj) op" where
  "marketplace_package_uninstall i rq =
     scoped rq ''marketplace.install'' (\<lambda>ctx. catch (uninstall (tc_tenant ctx) i) (validation_http 404))"

definition marketplace_package_upgrade :: "string \<Rightarrow> obj \<Rightarrow> request \<Rightarrow> ('z kworld_scheme, obj) op" where
  "marketplace_package_upgrade i body rq =
     scoped rq ''marketplace.install'' (\<lambda>ctx.
     bind (catch (upgrade (tc_tenant ctx) i (get_or body ''version'' JNull)) (validation_http 400)) (\<lambda>d.
     bind (meter_record (tc_tenant ctx) ''marketplace_upgrades'' 1 [(''package_id'', JStr i)]) (\<lambda>_.
     ok d)))"

definition marketplace_package_rollback :: "string \<Rightarrow> obj \<Rightarrow> request \<Rightarrow> ('z kworld_scheme, obj) op" where
  "marketplace_package_rollback i body rq =
     scoped rq ''marketplace.install'' (\<lambda>ctx.
     bind (lift (req body ''version'')) (\<lambda>version.
     bind (catch (rollback (tc_tenant ctx) i version (bool_or body ''admin_override'' False)) (validation_http 400)) (\<lambda>d.
     bind (meter_record (tc_tenant ctx) ''marketplace_rollbacks'' 1 [(''package_id'', JStr i)]) (\<lambda>_.
     ok d))))"

definition marketplace_installed :: "request \<Rightarrow> ('z world_scheme, obj) op" where
  "marketplace_installed rq =
     scoped rq ''marketplace.read'' (\<lambda>ctx.
     bind (list_installed (tc_tenant ctx)) (\<lambda>ds. ok [(''items'', JList (map JObj ds))]))"

definition marketplace_package_review :: "string \<Rightarrow> obj \<Rightarrow> request \<Rightarrow> ('z world_scheme, obj) op" where
  "marketplace_package_review i body rq =
     scoped rq ''marketplace.review'' (\<lambda>ctx.
     bind (verify_runtime_entitlement (tc_tenant ctx) i) (\<lambda>_.
     bind (lift (req body ''rating'')) (\<lambda>v.
     bind (lift (py_int v)) (\<lambda>rating.
     bind uuid_hex12 (\<lambda>hex.
     bind utc_now (\<lambda>t.
     bind (submit_review \<lparr>rv_tenant = tc_tenant ctx, rv_package = i, rv_rating = rating, rv_review = get_or body ''review'' (JStr []),
             rv_abuse = bool_or body ''abuse_report'' False, rv_id = ''rev-'' @ hex, rv_created_at = t\<rparr>) (\<lambda>r.
     bind (es_append ''marketplace.review.submitted'' i
             [(''tenant_id'', JStr (tc_tenant ctx)), (''package_id'', JStr i), (''rating'', JInt (rv_rating r))]) (\<lambda>_.
     bind (if rv_abuse r
           then bind (es_append ''marketplace.abuse_report.submitted'' i [(''tenant_id'', JStr (tc_tenant ctx)), (''package_id'', JStr i)]) (\<lambda>_. ok ())
           else ok ()) (\<lambda>_.
     ok (review_as_dict r))))))))))"

section \<open>Histories of calls\<close>

datatype market_cmd =
    TrustPublisher string string
  | PublishPackage package_manifest package_metadata string signing_key
  | InstallPackage string string json bool
  | UninstallPackage string request
  | UpgradePackage string obj request
  | RollbackPackage string obj request
  | ReviewPackage string obj request

fun run_market_cmd :: "bool \<Rightarrow> market_cmd \<Rightarrow> ('z kworld_scheme, unit) op" where
  "run_market_cmd unsigned (TrustPublisher publisher fp) = trust_publisher publisher fp"
| "run_market_cmd unsigned (PublishPackage m md signature key) = bind (publish_package unsigned m md signature key) (\<lambda>_. ok ())"
| "run_market_cmd unsigned (InstallPackage tid i version approved) = bind (install tid i version approved) (\<lambda>_. ok ())"
| "run_market_cmd unsigned (UninstallPackage i rq) = bind (marketplace_package_uninstall i rq) (\<lambda>_. ok ())"
| "run_market_cmd unsigned (UpgradePackage i body rq) = bind (marketplace_package_upgrade i body rq) (\<lambda>_. ok ())"
| "run_market_cmd unsigned (RollbackPackage i body rq) = bind (marketplace_package_rollback i body rq) (\<lambda>_. ok ())"
| "run_market_cmd unsigned (ReviewPackage i body rq) = bind (marketplace_package_review i body rq) (\<lambda>_. ok ())"

definition run_market :: "bool \<Rightarrow> market_cmd list \<Rightarrow> ('z kworld_scheme, unit) op" where
  "run_market unsigned cmds = forM (\<lambda>x. catch (run_market_cmd unsigned x) (\<lambda>_. ok ())) cmds"

section \<open>The audit log\<close>

lemmas market_services = registry_get_def available_by_id_def list_packages_def entitlement_from_dict_def check_license_def
  validate_install_def active_install_def put_install_def install_def uninstall_def moved_event_def upgrade_def rollback_def
  verify_runtime_entitlement_def submit_review_def

lemmas market_endpoints = marketplace_package_uninstall_def marketplace_package_upgrade_def marketplace_package_rollback_def
  marketplace_package_review_def

lemma audit_packages [audit_steps]: "audit.steps (save_version p)" "audit.steps (trust_publisher publisher fp)"
  by (auto simp: save_version_def trust_publisher_def audit.steps_def audit_step_def modify_apply log_ok_def log_durable_def)

lemma audit_market_reads [audit_steps]:
  "audit.steps (registry_get i v)" "audit.steps available_by_id" "audit.steps (active_install tid i)" "audit.steps (put_install d)"
  "audit.steps (moved_event ty tid i p)" "audit.steps (check_license e)" "audit.steps (entitlement_from_dict d)"
  unfolding market_services Let_def by (intro audit.steps_intros audit_steps; simp)+

lemma audit_market_services [audit_steps]:
  "audit.steps (publish_package unsigned m md signature key)" "audit.steps (install tid i v approved)" "audit.steps (uninstall tid i)"
  "audit.steps (upgrade tid i v)" "audit.steps (rollback tid i v admin)" "audit.steps (verify_runtime_entitlement tid i)"
  "audit.steps (submit_review r)"
  unfolding publish_package_def validate_install_def install_def uninstall_def upgrade_def rollback_def verify_runtime_entitlement_def submit_review_def Let_def
  by (intro audit.steps_intros audit_steps; simp)+

lemma audit_validation_http: "audit.steps (validation_http code e)"
  by (auto simp: validation_http_def split: py_error.split intro: audit.steps_raise)

lemma audit_run_market [audit_steps]: "audit.steps (run_market_cmd unsigned c)"
proof -
  have "audit.steps (marketplace_package_uninstall i rq)" "audit.steps (marketplace_package_upgrade i body rq)"
    "audit.steps (marketplace_package_rollback i body rq)" "audit.steps (marketplace_package_review i body rq)" for body rq i
    unfolding market_endpoints by (intro audit.steps_intros audit_steps audit_validation_http; simp)+
  then show ?thesis by (cases c) (auto intro!: audit.steps_intros audit_steps)
qed

section \<open>The steps, one by one\<close>

definition appended :: "string \<Rightarrow> string \<Rightarrow> obj \<Rightarrow> 'z world_scheme \<Rightarrow> 'z world_scheme" where
  "appended ty ag p w = snd (es_append ty ag p w)"

lemma es_append_apply: "registered ty \<Longrightarrow> es_append ty ag p w = (Inr (next_event ty ag p w), appended ty ag p w)"
  by (simp add: es_append_registered appended_def)

lemma coll_appended [simp]: "c \<noteq> ''events'' \<Longrightarrow> coll (w_store (appended ty ag p w)) c = coll (w_store w) c"
  by (cases "registered ty") (simp_all add: appended_def es_append_registered es_append_unregistered events_put_def coll_mem_put)

lemma kworld_appended [simp]: "w_packages (appended ty ag p w) = w_packages w" "w_trusted (appended ty ag p w) = w_trusted w"
  "w_sha (appended ty ag p w) = w_sha w"
  by (cases "registered ty"; simp add: appended_def es_append_registered es_append_unregistered)+

lemma kworld_tick [simp]: "w_packages (tick w) = w_packages w" "w_trusted (tick w) = w_trusted w" "w_sha (tick w) = w_sha w"
  by (simp_all add: tick_def)

lemma kworld_put_doc [simp]: "w_packages (put_doc c k d w) = w_packages w" "w_trusted (put_doc c k d w) = w_trusted w"
  "w_sha (put_doc c k d w) = w_sha w"
  by (simp_all add: put_doc_def)

lemma registered_market:
  "registered ''marketplace.package.published''" "registered ''marketplace.package.signed''" "registered ''marketplace.package.installed''"
  "registered ''marketplace.entitlement.granted''" "registered ''marketplace.package.uninstalled''"
  "registered ''marketplace.package.upgraded''" "registered ''marketplace.package.rolled_back''"
  by code_simp+

definition all_packages :: "'z kworld_scheme \<Rightarrow> package_version list" where
  "all_packages w = map snd (sorted_items (w_packages w))"

lemma list_packages_apply: "list_packages None w = (Inr (all_packages w), w)"
  by (simp add: list_packages_def all_packages_def visible_to_def gets_apply)

lemma available_by_id_apply: "available_by_id w = (Inr (newest_by_id (all_packages w)), w)"
  by (simp add: available_by_id_def bind_apply list_packages_apply ok_apply)

lemma all_packages_same: "w_packages w' = w_packages w \<Longrightarrow> all_packages w' = all_packages w"
  by (simp add: all_packages_def)

definition published :: "string \<Rightarrow> package_manifest \<Rightarrow> package_metadata \<Rightarrow> string \<Rightarrow> 'z world_scheme \<Rightarrow> package_version" where
  "published fingerprint m md signature w = \<lparr>pv_manifest = m, pv_hash = manifest_hash (w_sha w) m, pv_signature = signature, pv_fingerprint = fingerprint,
     pv_metadata = md, pv_created_at = now w, pv_published_at = now (tick w)\<rparr>"

lemma publish_Inr:
  assumes "publish_package unsigned m md signature key w = (Inr p, w')"
  shows "\<exists>fp. manifest_validate m = Inr () \<and> verify_package (w_sha w) (w_trusted w) unsigned (pm_publisher m) (manifest_hash (w_sha w) m) signature (Some key) = Inr fp \<and>
    p = published fp m md signature w \<and> (sr_ok (package_scan p (newest_by_id (all_packages w))) \<or> md_high_risk_approved md) \<and>
    w_packages w' = AList.update (pv_key p) (version_read p) (w_packages w) \<and> w_trusted w' = w_trusted w \<and> w_sha w' = w_sha w"
proof -
  have same: "all_packages (tick (tick w)) = all_packages w" by (simp add: all_packages_def)
  show ?thesis
    using assms
    by (auto simp: publish_package_def Let_def bind_eq_Inr_iff lift_apply gets_apply utc_now_apply available_by_id_apply scan_enforce_def
        save_version_def modify_apply es_append_apply registered_market ok_apply published_def same split: if_splits)
qed

lemma publish_refused:
  assumes "publish_package unsigned m md signature key w = (Inl e, w')"
  shows "w_packages w' = w_packages w \<and> w_trusted w' = w_trusted w \<and> w_sha w' = w_sha w"
  using assms
  by (auto simp: publish_package_def Let_def bind_apply lift_apply gets_apply utc_now_apply available_by_id_apply
      save_version_def modify_apply es_append_apply registered_market ok_apply split: sum.splits prod.splits if_splits)

section \<open>What the registry holds\<close>

text \<open>
  A version that was published: a valid manifest, its hash, a signature of that hash by a key with the
  recorded fingerprint (or none, where unsigned packages are allowed), and nothing that calls for an
  approval unless it is marked as approved.
\<close>

definition version_ok :: "bool \<Rightarrow> (string \<Rightarrow> string) \<Rightarrow> package_version \<Rightarrow> bool" where
  "version_ok unsigned sha p \<longleftrightarrow> manifest_validate (pv_manifest p) = Inr () \<and> pv_hash p = manifest_hash sha (pv_manifest p) \<and>
     (if pv_signature p = [] then unsigned \<and> pv_fingerprint p = ''unsigned-local''
      else \<exists>k. pv_fingerprint p = key_fingerprint sha k \<and> pv_signature p = sha (pv_hash p @ '':'' @ sk_secret k)) \<and>
     (md_high_risk_approved (pv_metadata p) \<or> \<not> pr_requires_approval (permission_scan p) \<and> pl_ok (policy_scan p))"

definition registry_ok :: "bool \<Rightarrow> 'z kworld_scheme \<Rightarrow> bool" where
  "registry_ok unsigned w \<longleftrightarrow> is_dict (w_packages w) \<and>
     list_all (\<lambda>(k, p). k = pv_key p \<and> version_ok unsigned (w_sha w) p) (w_packages w)"

definition registry_kept :: "bool \<Rightarrow> 'z kworld_scheme \<Rightarrow> 'z kworld_scheme \<Rightarrow> bool" where
  "registry_kept unsigned w w' \<longleftrightarrow> (registry_ok unsigned w \<longrightarrow> registry_ok unsigned w')"

interpretation registry: step_contract "registry_kept unsigned" for unsigned
  by unfold_locales (auto simp: registry_kept_def)

lemma version_read_simps [simp]: "pv_manifest (version_read p) = pv_manifest p" "pv_hash (version_read p) = pv_hash p"
  "pv_signature (version_read p) = pv_signature p" "pv_fingerprint (version_read p) = pv_fingerprint p"
  "pv_id (version_read p) = pv_id p" "pv_version (version_read p) = pv_version p" "pv_key (version_read p) = pv_key p"
  by (simp_all add: version_read_def pv_id_def pv_version_def pv_key_def)

lemma version_ok_read [simp]: "version_ok unsigned sha (version_read p) = version_ok unsigned sha p"
  by (simp add: version_ok_def permission_scan_def policy_scan_def version_read_def Let_def)

lemma published_ok:
  assumes "publish_package unsigned m md signature key w = (Inr p, w')"
  shows "version_ok unsigned (w_sha w) p"
  using publish_Inr [OF assms]
  by (auto simp: version_ok_def published_def verify_package_Inr package_scan_def Let_def split: if_splits)

lemma registry_publish: "registry.steps unsigned (publish_package unsigned m md signature key)"
  unfolding registry.steps_def
proof
  fix w :: "'a kworld_scheme"
  obtain r w' where r: "publish_package unsigned m md signature key w = (r, w')" by fastforce
  show "registry_kept unsigned w (snd (publish_package unsigned m md signature key w))"
  proof (cases r)
    case (Inr p)
    then have p: "w_packages w' = AList.update (pv_key p) (version_read p) (w_packages w)" "w_sha w' = w_sha w" "version_ok unsigned (w_sha w) p"
      using publish_Inr published_ok r by blast+
    have "registry_ok unsigned w'" if "registry_ok unsigned w"
      using that p by (auto simp: registry_ok_def list_all_iff mem_update_dict split: if_splits)
    then show ?thesis using r by (simp add: registry_kept_def)
  qed (use r publish_refused [of unsigned m md signature key w] in \<open>auto simp: registry_kept_def registry_ok_def\<close>)
qed

named_theorems registry_steps \<open>operations that keep the registry well-formed\<close>

lemma registry_local: "w_packages w' = w_packages w \<Longrightarrow> w_sha w' = w_sha w \<Longrightarrow> registry_kept unsigned w w'"
  by (simp add: registry_kept_def registry_ok_def)

lemma registry_world [registry_steps]:
  "registry.steps unsigned utc_now" "registry.steps unsigned uuid_hex12" "registry.steps unsigned (es_append ty ag p)"
  "registry.steps unsigned (on_store m)" "registry.steps unsigned (trust_publisher publisher fp)"
  by (auto simp: registry.steps_def utc_now_def uuid_hex12_def on_store_def trust_publisher_def modify_apply simp flip: appended_def
      split: prod.split intro!: registry_local)

lemma registry_access [registry_steps]:
  "registry.steps unsigned (require_scopes rq scopes tid)" "registry.steps unsigned (tenant_context_of rq)"
  "registry.steps unsigned (meter_record t ty q md)"
proof -
  show s: "registry.steps unsigned (require_scopes rq scopes tid)" for rq scopes tid
    unfolding require_scopes_def by (intro registry.steps_intros)
  have g: "registry.steps unsigned (get_tenant i)" for i
    unfolding get_tenant_def tenant_from_dict_def time_or_now_def Let_def by (intro registry.steps_intros registry_steps)
  have c: "registry.steps unsigned (require_context x)" for x
    unfolding require_context_def tc_require_def
    by (intro registry.steps_intros) (auto split: py_error.split intro: registry.steps_raise)
  show "registry.steps unsigned (tenant_context_of rq)" unfolding tenant_context_of_def by (intro registry.steps_intros s g c)
  show "registry.steps unsigned (meter_record t ty q md)" unfolding meter_record_def Let_def by (intro registry.steps_intros registry_steps)
qed

lemma registry_services [registry_steps]:
  "registry.steps unsigned (install tid i v approved)" "registry.steps unsigned (uninstall tid i)" "registry.steps unsigned (upgrade tid i v)"
  "registry.steps unsigned (rollback tid i v admin)" "registry.steps unsigned (verify_runtime_entitlement tid i)"
  "registry.steps unsigned (submit_review r)"
  unfolding market_services Let_def by (intro registry.steps_intros registry_steps)+

lemma registry_run: "registry.steps unsigned (run_market unsigned cmds)"
proof -
  have h: "registry.steps unsigned (validation_http code e)" for code e
    by (auto simp: validation_http_def split: py_error.split intro: registry.steps_raise)
  have "registry.steps unsigned (marketplace_package_uninstall i rq)" "registry.steps unsigned (marketplace_package_upgrade i body rq)"
    "registry.steps unsigned (marketplace_package_rollback i body rq)" "registry.steps unsigned (marketplace_package_review i body rq)" for body rq i
    unfolding market_endpoints scoped_def by (intro registry.steps_intros registry_steps h)+
  then have "registry.steps unsigned (run_market_cmd unsigned c)" for c
    by (cases c) (auto intro!: registry.steps_intros registry_steps registry_publish)
  then show ?thesis unfolding run_market_def by (intro registry.steps_intros)
qed

text \<open>
  C15. What the registry holds is well-formed, whatever sequence of publications, installations, upgrades,
  rollbacks, removals and reviews it went through: its versions are filed under their package and version, have a valid
  manifest, carry the hash of that manifest and a signature of it under the key of the recorded
  fingerprint (or, only where unsigned packages are allowed, none), and ask for nothing that needs
  an approval unless they are marked as approved.
\<close>

theorem registry_well_formed:
  assumes "registry_ok unsigned w"
  shows "registry_ok unsigned (final (run_market unsigned cmds) w)"
  using registry.stepsD [OF registry_run, of unsigned w cmds] assms by (simp add: registry_kept_def)

lemma all_packages_iff: "is_dict (w_packages w) \<Longrightarrow> p \<in> set (all_packages w) \<longleftrightarrow> (\<exists>k. map_of (w_packages w) k = Some p)"
  by (force simp: all_packages_def map_of_eq_Some_iff_dict image_iff)

lemma find_member: "find P xs = Some x \<Longrightarrow> x \<in> set xs \<and> P x"
  by (induction xs) (auto split: if_splits)

lemma registry_get_version:
  assumes "registry_ok unsigned w" "map_of (w_packages w) (pv_key p) = Some q" "pv_id q = pv_id p" "pv_version q = pv_version p" "pv_version p \<noteq> []"
  shows "registry_get (pv_id p) (JStr (pv_version p)) w = (Inr q, w)"
proof -
  let ?vs = "filter (\<lambda>x. pv_id x = pv_id p) (all_packages w)"
  have d: "is_dict (w_packages w)" using assms(1) by (simp add: registry_ok_def)
  then have mem: "q \<in> set ?vs" using assms(2,3) all_packages_iff by auto
  have only: "x = q" if x: "x \<in> set ?vs" "pv_version x = pv_version p" for x
  proof -
    obtain k where k: "map_of (w_packages w) k = Some x" using x(1) all_packages_iff [OF d] by auto
    then have "k = pv_key x" using assms(1) d by (auto simp: registry_ok_def list_all_iff map_of_eq_Some_iff_dict)
    also have "\<dots> = pv_key p" using x by (simp add: pv_key_def)
    finally show ?thesis using k assms(2) by simp
  qed
  obtain y where y: "find (\<lambda>x. JStr (pv_version x) = JStr (pv_version p)) ?vs = Some y"
    using mem assms(4) by (cases "find (\<lambda>x. JStr (pv_version x) = JStr (pv_version p)) ?vs") (auto simp: find_None_iff)
  then have "y \<in> set ?vs" "pv_version y = pv_version p" using find_member by fastforce+
  then have "find (\<lambda>x. JStr (pv_version x) = JStr (pv_version p)) ?vs = Some q" using only y by blast
  moreover have "?vs \<noteq> []" using mem by force
  ultimately show ?thesis using assms(5)
    by (simp add: registry_get_def bind_apply list_packages_apply Let_def ok_apply)
qed

text \<open>
  C40. Publishing and looking up: the version that was just published is what the registry answers under its
  package and version, read back as it was written. Nothing else about the registry matters, so a version
  that another publisher had under the same package and version is gone.
\<close>

theorem published_version_found:
  assumes "registry_ok unsigned w" "publish_package unsigned m md signature key w = (Inr p, w')"
  shows "registry_get (pm_id m) (JStr (pm_version m)) w' = (Inr (version_read p), w')"
proof -
  obtain fp where m: "manifest_validate m = Inr ()" "p = published fp m md signature w"
    and w': "w_packages w' = AList.update (pv_key p) (version_read p) (w_packages w)"
    using publish_Inr [OF assms(2)] by blast
  have ok: "registry_ok unsigned w'"
    using registry.stepsD [OF registry_publish, of unsigned w m md signature key] assms by (simp add: registry_kept_def)
  have "pv_id p = pm_id m" "pv_version p = pm_version m" "pm_version m \<noteq> []"
    using m by (auto simp: pv_id_def pv_version_def published_def manifest_validate_def split: if_splits)
  with registry_get_version [OF ok, of p "version_read p"] w' show ?thesis by simp
qed

section \<open>What an installation requires and grants\<close>

lemma registry_get_state: "snd (registry_get i v w) = w"
  by (simp add: registry_get_def Let_def bind_apply list_packages_apply raise_apply ok_apply lift_apply split: option.split)

lemma registry_get_id: "registry_get i v w = (Inr p, w') \<Longrightarrow> pv_id p = i \<and> p \<in> set (all_packages w) \<and> w' = w"
proof -
  have "last (sort_key pv_version xs) \<in> set xs" if "xs \<noteq> []" for xs
    using that by (metis last_in_set set_empty set_sort)
  from this [of "filter (\<lambda>p. pv_id p = i) (all_packages w)"] show "registry_get i v w = (Inr p, w') \<Longrightarrow> pv_id p = i \<and> p \<in> set (all_packages w) \<and> w' = w"
    by (auto simp: registry_get_def Let_def bind_apply list_packages_apply raise_apply ok_apply lift_apply latest_def
        split: if_splits option.splits dest: find_member)
qed

definition installable :: "string \<Rightarrow> bool \<Rightarrow> package_version list \<Rightarrow> package_version \<Rightarrow> bool" where
  "installable tid approved ps p \<longleftrightarrow>
     (md_private (pv_metadata p) \<longrightarrow> pm_publisher (pv_manifest p) = tid) \<and>
     (pr_requires_approval (permission_scan p) \<longrightarrow> approved \<or> md_high_risk_approved (pv_metadata p)) \<and>
     dr_ok (dependency_scan p (newest_by_id ps)) \<and> pl_ok (policy_scan p) \<and>
     resolve p (newest_by_id ps) = Inr (p # available_dependencies p (newest_by_id ps))"

lemma resolve_answer: "resolve p available = Inr rs \<Longrightarrow> rs = p # available_dependencies p available"
  by (auto simp: resolve_def Let_def split: sum.splits if_splits)

lemma validate_install_iff:
  "\<exists>r. validate_install tid p approved w = (r, w) \<and> (r = Inr () \<longleftrightarrow> installable tid approved (all_packages w) p)"
proof (cases "resolve p (newest_by_id (all_packages w))")
  case (Inl e)
  then show ?thesis
    by (auto simp: validate_install_def installable_def bind_apply available_by_id_apply Let_def package_scan_def raise_apply lift_apply ok_apply)
next
  case (Inr rs)
  then show ?thesis using resolve_answer [OF Inr]
    by (auto simp: validate_install_def installable_def bind_apply available_by_id_apply Let_def package_scan_def raise_apply lift_apply ok_apply)
qed

definition granted_entitlement :: "string \<Rightarrow> package_version \<Rightarrow> 'z world_scheme \<Rightarrow> entitlement" where
  "granted_entitlement tid p w = \<lparr>et_tenant = tid, et_package = pv_id p, et_version = pv_version p, et_license = pm_license (pv_manifest p),
     et_active = True, et_expires_at = None, et_id = ''ent-'' @ w_uuid w (w_uuids w), et_created_at = now w\<rparr>"

definition install_doc :: "string \<Rightarrow> package_version \<Rightarrow> 'z world_scheme \<Rightarrow> obj" where
  "install_doc tid p w = [(''install_id'', JStr (''inst-'' @ w_uuid w (Suc (w_uuids w)))), (''tenant_id'', JStr tid), (''package_id'', JStr (pv_id p)),
     (''publisher_tenant_id'', JStr (pm_publisher (pv_manifest p))), (''version'', JStr (pv_version p)),
     (''installed_at'', JStr (isoformat (now (tick w)))), (''active'', JBool True)]"

lemma install_cases:
  "case registry_get i v w of
     (Inl e, _) \<Rightarrow> install tid i v approved w = (Inl e, w)
   | (Inr p, _) \<Rightarrow>
       if installable tid approved (all_packages w) p
       then \<exists>w'. install tid i v approved w = (Inr (install_doc tid p w), w') \<and>
         coll (w_store w') ''marketplace_entitlements'' = AList.update (''ent-'' @ w_uuid w (w_uuids w))
           (entitlement_as_dict (granted_entitlement tid p w)) (coll (w_store w) ''marketplace_entitlements'') \<and>
         coll (w_store w') ''marketplace_installs'' = AList.update (''inst-'' @ w_uuid w (Suc (w_uuids w)))
           (install_doc tid p w) (coll (w_store w) ''marketplace_installs'') \<and>
         w_uuid w' = w_uuid w \<and> w_uuids w < w_uuids w'
       else \<exists>e. install tid i v approved w = (Inl e, w)"
proof -
  obtain r where g: "registry_get i v w = (r, w)" using registry_get_state [of i v w] by (metis prod.collapse)
  show ?thesis
  proof (cases r)
    case (Inl e)
    then show ?thesis using g by (simp add: install_def bind_apply)
  next
    case (Inr p)
    obtain r' where v: "validate_install tid p approved w = (r', w)" "r' = Inr () \<longleftrightarrow> installable tid approved (all_packages w) p"
      using validate_install_iff by blast
    show ?thesis
    proof (cases r')
      case (Inl e)
      then show ?thesis using g Inr v by (simp add: install_def bind_apply)
    next
      case r': (Inr u)
      then show ?thesis using g Inr v
        by (simp add: install_def bind_apply Let_def uuid_hex12_def utc_now_apply on_put put_install_def lift_apply field_defs es_append_apply
            registered_market ok_apply granted_entitlement_def install_doc_def)
          (simp add: appended_def es_append_registered registered_market put_doc_def tick_def)
    qed
  qed
qed

text \<open>
  C17. Installing is exact: for the version the registry answers, \<^verbatim>\<open>install\<close> returns if and only if the package is not
  private to another tenant, its high-risk permissions are approved by the caller or marked as approved, its
  dependencies are present, signed, not deprecated and resolve, and it is neither revoked nor
  deprecated nor otherwise refused by the policy scan; then an active entitlement without expiry and
  the install record are stored. A refused installation changes nothing.
\<close>

theorem install_exact:
  assumes "registry_get i v w = (Inr p, w)"
  shows "if installable tid approved (all_packages w) p
    then \<exists>w'. install tid i v approved w = (Inr (install_doc tid p w), w') \<and>
      map_of (coll (w_store w') ''marketplace_installs'') (''inst-'' @ w_uuid w (Suc (w_uuids w))) = Some (install_doc tid p w) \<and>
      map_of (coll (w_store w') ''marketplace_entitlements'') (''ent-'' @ w_uuid w (w_uuids w)) =
        Some (entitlement_as_dict (granted_entitlement tid p w))
    else \<exists>e. install tid i v approved w = (Inl e, w)"
  using install_cases [where i = i and v = v and w = w and tid = tid and approved = approved] assms by auto

section \<open>Entitlements over time\<close>

text \<open>Entitlements are filed under identifiers drawn so far; each is active and does not expire.\<close>

definition lasting :: "obj \<Rightarrow> entitlement \<Rightarrow> bool" where
  "lasting d e \<longleftrightarrow> d = entitlement_as_dict e \<and> et_active e \<and> et_expires_at e = None"

definition entitlements_ok :: "'z world_scheme \<Rightarrow> bool" where
  "entitlements_ok w \<longleftrightarrow> inj (w_uuid w) \<and> is_dict (coll (w_store w) ''marketplace_entitlements'') \<and>
     (\<forall>(k, d) \<in> set (coll (w_store w) ''marketplace_entitlements''). (\<exists>n < w_uuids w. k = ''ent-'' @ w_uuid w n) \<and> (\<exists>e. lasting d e))"

definition entitled :: "string \<Rightarrow> string \<Rightarrow> 'z world_scheme \<Rightarrow> bool" where
  "entitled tid i w \<longleftrightarrow> (\<exists>k e. (k, entitlement_as_dict e) \<in> set (coll (w_store w) ''marketplace_entitlements'') \<and> et_tenant e = tid \<and> et_package e = i)"

lemma entitlement_round_trip [simp]: "entitlement_from_dict (entitlement_as_dict e) w = (Inr e, w)"
  by (cases "et_expires_at e") (simp_all add: entitlement_from_dict_def entitlement_as_dict_def record_defs req_time_def op_simps)

lemma doc_tenant_entitlement: "doc_tenant tid (entitlement_as_dict e) \<longleftrightarrow> et_tenant e = tid"
  by (simp add: doc_tenant_def entitlement_as_dict_def)

lemma first_of_package_lasting:
  assumes "\<forall>d\<in>set ds. \<exists>e. lasting d e"
  shows "(\<exists>e. first_of_package i ds = Inr (Some (entitlement_as_dict e)) \<and> et_package e = i \<and> entitlement_as_dict e \<in> set ds \<and> lasting (entitlement_as_dict e) e) \<or>
    first_of_package i ds = Inr None \<and> (\<forall>e. entitlement_as_dict e \<in> set ds \<longrightarrow> et_package e \<noteq> i)"
  using assms
proof (induction ds)
  case (Cons d ds)
  then obtain e where e: "lasting d e" by auto
  have d: "req d ''package_id'' = Inr (JStr (et_package e))" "bool_or d ''active'' True"
    using e by (simp_all add: lasting_def entitlement_as_dict_def field_defs)
  have same: "et_package e' = et_package e" if "entitlement_as_dict e' = d" for e'
    using that e by (auto simp: lasting_def entitlement_as_dict_def)
  show ?case
  proof (cases "et_package e = i")
    case True
    then show ?thesis using d e by (auto simp: lasting_def)
  next
    case False
    then show ?thesis using d same Cons by auto
  qed
qed simp

lemma verify_entitlement_iff:
  assumes "entitlements_ok w"
  shows "outcome (verify_runtime_entitlement tid i) w = Inr () \<longleftrightarrow> entitled tid i w"
proof -
  let ?c = "coll (w_store w) ''marketplace_entitlements''"
  let ?ds = "map snd (filter (\<lambda>(k, v). doc_tenant tid v) (sorted_items ?c))"
  have mem: "d \<in> set ?ds \<longleftrightarrow> (\<exists>k. (k, d) \<in> set ?c) \<and> doc_tenant tid d" for d by force
  have all: "\<forall>d\<in>set ?ds. \<exists>e. lasting d e" using assms mem unfolding entitlements_ok_def by fast
  have run: "verify_runtime_entitlement tid i w = bind (lift (first_of_package i ?ds)) (\<lambda>found. case found of
       None \<Rightarrow> check_license None | Some d \<Rightarrow> bind (entitlement_from_dict d) (\<lambda>e. check_license (Some e))) w"
    by (simp add: verify_runtime_entitlement_def bind_apply on_store_def mem_list_tenant_def gets_apply)
  from first_of_package_lasting [OF all, of i] show ?thesis
  proof (elim disjE exE conjE)
    fix e
    assume e: "first_of_package i ?ds = Inr (Some (entitlement_as_dict e))" "et_package e = i" "entitlement_as_dict e \<in> set ?ds" "lasting (entitlement_as_dict e) e"
    then have "entitled tid i w" using mem unfolding entitled_def by (metis doc_tenant_entitlement)
    then show ?thesis using e by (simp add: run bind_apply lift_apply check_license_def ok_apply lasting_def)
  next
    assume "first_of_package i ?ds = Inr None" and none: "\<forall>e. entitlement_as_dict e \<in> set ?ds \<longrightarrow> et_package e \<noteq> i"
    moreover have "\<not> entitled tid i w" using none mem unfolding entitled_def by (metis doc_tenant_entitlement)
    ultimately show ?thesis by (simp add: run check_license_def raise_apply)
  qed
qed

text \<open>The pairs of tenant and package whose installation returned in a history.\<close>

fun granted_by :: "bool \<Rightarrow> market_cmd list \<Rightarrow> 'z kworld_scheme \<Rightarrow> (string \<times> string) list" where
  "granted_by unsigned [] w = []"
| "granted_by unsigned (c # cs) w =
     (case c of InstallPackage tid i v approved \<Rightarrow> (case outcome (install tid i v approved) w of Inl _ \<Rightarrow> [] | Inr _ \<Rightarrow> [(tid, i)]) | _ \<Rightarrow> []) @
     granted_by unsigned cs (final (run_market_cmd unsigned c) w)"

definition entitlements_kept :: "'z world_scheme \<Rightarrow> 'z world_scheme \<Rightarrow> bool" where
  "entitlements_kept w w' \<longleftrightarrow> coll (w_store w') ''marketplace_entitlements'' = coll (w_store w) ''marketplace_entitlements'' \<and>
     w_uuid w' = w_uuid w \<and> w_uuids w \<le> w_uuids w'"

lemma entitlements_kept_ok:
  assumes "entitlements_kept w w'"
  shows "entitlements_ok w \<Longrightarrow> entitlements_ok w'" "entitled tid i w' \<longleftrightarrow> entitled tid i w"
  using assms unfolding entitlements_kept_def entitlements_ok_def entitled_def by (fastforce dest: less_le_trans)+

lemma install_entitles:
  assumes "entitlements_ok w" "install tid i v approved w = (Inr d, w')"
  shows "entitlements_ok w' \<and> (entitled t j w' \<longleftrightarrow> entitled t j w \<or> (t, j) = (tid, i))"
proof -
  let ?c = "coll (w_store w) ''marketplace_entitlements''" and ?k = "''ent-'' @ w_uuid w (w_uuids w)"
  obtain r where g: "registry_get i v w = (r, w)" using registry_get_state [of i v w] by (metis prod.collapse)
  obtain p where p: "r = Inr p" using install_cases [where i = i and v = v and w = w and tid = tid and approved = approved] assms(2) g by (cases r) auto
  let ?e = "granted_entitlement tid p w"
  have w': "coll (w_store w') ''marketplace_entitlements'' = AList.update ?k (entitlement_as_dict ?e) ?c" "w_uuid w' = w_uuid w" "w_uuids w < w_uuids w'"
    using install_cases [where i = i and v = v and w = w and tid = tid and approved = approved] assms(2) g p by (auto split: if_splits)
  have i: "pv_id p = i" using registry_get_id g p by blast
  have fresh: "(?k, x) \<notin> set ?c" for x
    using assms(1) unfolding entitlements_ok_def by (fastforce dest: injD)
  have d: "is_dict ?c" using assms(1) by (simp add: entitlements_ok_def)
  note mem = mem_update_dict [OF d, of _ _ ?k "entitlement_as_dict ?e"]
  have e: "lasting (entitlement_as_dict ?e) ?e" "et_tenant ?e = tid" "et_package ?e = i"
    by (simp_all add: lasting_def granted_entitlement_def i)
  have same: "et_tenant x = tid \<and> et_package x = i" if "entitlement_as_dict x = entitlement_as_dict ?e" for x
    using that e(2,3) by (auto simp: entitlement_as_dict_def)
  have "(\<exists>n < w_uuids w'. k = ''ent-'' @ w_uuid w n) \<and> (\<exists>e. lasting x e)"
    if "(k, x) \<in> set (AList.update ?k (entitlement_as_dict ?e) ?c)" for k x
  proof (cases "k = ?k")
    case True
    then show ?thesis using that mem e(1) w'(3) by auto
  next
    case False
    then have "(k, x) \<in> set ?c" using that mem by metis
    then have "(\<exists>n < w_uuids w. k = ''ent-'' @ w_uuid w n) \<and> (\<exists>e. lasting x e)" using assms(1) unfolding entitlements_ok_def by blast
    then show ?thesis using w'(3) less_trans by blast
  qed
  then have "entitlements_ok w'"
    using assms(1) is_dict_update [OF d] unfolding entitlements_ok_def w'(1,2) by blast
  moreover have "entitled t j w' \<longleftrightarrow> entitled t j w \<or> (t, j) = (tid, i)"
    unfolding entitled_def w'(1) using mem fresh same e(2,3) by (metis Pair_inject)
  ultimately show ?thesis by blast
qed

lemma keeps_access [keeps_steps]:
  "keeps.steps c (require_scopes rq scopes tid)" "keeps.steps c (tenant_context_of rq)"
proof -
  show s: "keeps.steps c (require_scopes rq scopes tid)" for rq scopes tid
    unfolding require_scopes_def by (intro keeps.steps_intros)
  have g: "keeps.steps c (get_tenant i)" for i
    unfolding get_tenant_def tenant_from_dict_def by (intro keeps.steps_intros keeps_steps)
  have r: "keeps.steps c (require_context x)" for x
    unfolding require_context_def tc_require_def
    by (intro keeps.steps_intros) (auto split: py_error.split intro: keeps.steps_raise)
  show "keeps.steps c (tenant_context_of rq)" unfolding tenant_context_of_def by (intro keeps.steps_intros s g r)
qed

lemma keeps_market_state [keeps_steps]: "keeps.steps c (save_version p)" "keeps.steps c (trust_publisher publisher fp)"
  by (simp_all add: keeps.steps_def keeps_coll_def save_version_def trust_publisher_def modify_apply)

lemma keeps_market [keeps_steps]:
  "keeps.steps ''marketplace_entitlements'' (publish_package unsigned m md signature key)" "keeps.steps ''marketplace_entitlements'' (uninstall tid i)"
  "keeps.steps ''marketplace_entitlements'' (upgrade tid i v)" "keeps.steps ''marketplace_entitlements'' (rollback tid i v admin)"
  "keeps.steps ''marketplace_entitlements'' (verify_runtime_entitlement tid i)" "keeps.steps ''marketplace_entitlements'' (submit_review r)"
  unfolding publish_package_def market_services Let_def by (intro keeps.steps_intros keeps_steps; simp)+

lemma run_market_keeps:
  assumes "\<And>tid i v approved. c \<noteq> InstallPackage tid i v approved"
  shows "entitlements_kept w (final (run_market_cmd unsigned c) w)"
proof -
  have h: "keeps.steps x (validation_http code e)" for x code e
    by (auto simp: validation_http_def split: py_error.split intro: keeps.steps_raise)
  have m: "keeps.steps ''marketplace_entitlements'' (meter_record t ty q md)" for t ty q md
    unfolding meter_record_def Let_def by (intro keeps.steps_intros keeps_steps) simp
  have "keeps.steps ''marketplace_entitlements'' (marketplace_package_uninstall i rq)"
    "keeps.steps ''marketplace_entitlements'' (marketplace_package_upgrade i body rq)"
    "keeps.steps ''marketplace_entitlements'' (marketplace_package_rollback i body rq)"
    "keeps.steps ''marketplace_entitlements'' (marketplace_package_review i body rq)" for body rq i
    unfolding market_endpoints scoped_def by (intro keeps.steps_intros keeps_steps h m; simp)+
  then have "keeps.steps ''marketplace_entitlements'' (run_market_cmd unsigned c)"
  proof (cases c)
    case (InstallPackage tid i v approved)
    then show ?thesis using assms by blast
  qed (auto intro!: keeps.steps_intros keeps_steps)
  then show ?thesis
    using audit.stepsD [OF audit_run_market, of w unsigned c] keeps.stepsD [of "''marketplace_entitlements''" _ w]
    by (simp add: entitlements_kept_def audit_step_def keeps_coll_def)
qed

lemma granted_step:
  assumes "entitlements_ok w"
  shows "entitlements_ok (final (run_market_cmd unsigned c) w) \<and>
    (entitled t j (final (run_market_cmd unsigned c) w) \<longleftrightarrow> entitled t j w \<or> (t, j) \<in> set (granted_by unsigned [c] w))"
proof (cases "\<exists>tid i v approved. c = InstallPackage tid i v approved")
  case True
  then obtain tid i v approved where c: "c = InstallPackage tid i v approved" by blast
  obtain r w' where r: "install tid i v approved w = (r, w')" by fastforce
  show ?thesis
  proof (cases r)
    case (Inr d)
    then show ?thesis using install_entitles [OF assms r [unfolded Inr]] r c by (simp add: bind_apply ok_apply)
  next
    case (Inl e)
    then have "w' = w" using install_cases [where i = i and v = v and w = w and tid = tid and approved = approved] r by (auto split: sum.splits prod.splits if_splits)
    then show ?thesis using Inl r c assms by (simp add: bind_apply)
  qed
next
  case False
  then have k: "entitlements_kept w (final (run_market_cmd unsigned c) w)" using run_market_keeps by blast
  have "granted_by unsigned [c] w = []" using False by (cases c) auto
  then show ?thesis using entitlements_kept_ok [OF k] assms by simp
qed

text \<open>
  C16. Whoever may run a package installed it: in every history of publications, installations, upgrades,
  rollbacks, removals and reviews that starts without entitlements, \<^verbatim>\<open>verify_runtime_entitlement\<close> returns for a tenant and a
  package if and only if an installation of that package by that tenant returned. (No call takes an
  entitlement away, so removing the package does not end the right to run it.)
\<close>

theorem entitled_iff_installed:
  assumes "coll (w_store w) ''marketplace_entitlements'' = []" "inj (w_uuid w)"
  shows "outcome (verify_runtime_entitlement tid i) (final (run_market unsigned cmds) w) = Inr () \<longleftrightarrow>
    (tid, i) \<in> set (granted_by unsigned cmds w)"
proof -
  have "entitlements_ok (final (run_market unsigned cmds) w) \<and>
      (entitled tid i (final (run_market unsigned cmds) w) \<longleftrightarrow> entitled tid i w \<or> (tid, i) \<in> set (granted_by unsigned cmds w))"
    if "entitlements_ok w" for w :: "'a kworld_scheme"
    using that
  proof (induction cmds arbitrary: w)
    case (Cons c cs)
    let ?w = "final (run_market_cmd unsigned c) w"
    have run: "final (run_market unsigned (c # cs)) w = final (run_market unsigned cs) ?w"
      by (simp add: run_market_def bind_apply catch_apply ok_apply split: prod.split sum.split)
    have "(tid, i) \<in> set (granted_by unsigned (c # cs) w) \<longleftrightarrow> (tid, i) \<in> set (granted_by unsigned [c] w) \<or> (tid, i) \<in> set (granted_by unsigned cs ?w)"
      by auto
    then show ?case using granted_step [OF Cons.prems, of unsigned c] Cons.IH [of ?w] unfolding run by blast
  qed (simp add: run_market_def ok_apply)
  moreover have "entitlements_ok w" "\<not> entitled tid i w" using assms by (simp_all add: entitlements_ok_def entitled_def)
  ultimately show ?thesis using verify_entitlement_iff by blast
qed

section \<open>Who approves\<close>

text \<open>
  The caller's approval never matters: a version with high-risk permissions gets into the registry only with
  its publisher's mark that they are approved, and the mark is all that an installation asks for.
\<close>

theorem caller_approval_irrelevant:
  assumes "registry_ok unsigned w"
  shows "fst (install tid i v False w) = fst (install tid i v True w)"
proof -
  obtain r where g: "registry_get i v w = (r, w)" using registry_get_state [of i v w] by (metis prod.collapse)
  show ?thesis
  proof (cases r)
    case (Inr p)
    then have "version_ok unsigned (w_sha w) p"
      using registry_get_id [of i v w p w] g assms
      by (auto simp: registry_ok_def list_all_iff all_packages_def)
    then have "validate_install tid p False w = validate_install tid p True w"
      by (auto simp: validate_install_def version_ok_def package_scan_def bind_apply available_by_id_apply Let_def)
    then show ?thesis using g Inr by (simp add: install_def bind_apply)
  qed (use g in \<open>simp add: install_def bind_apply\<close>)
qed

section \<open>Witnesses\<close>

definition kworld0 :: kworld where
  "kworld0 = fworld.extend fworld0 (kworld.fields [] [])"

definition key0 :: signing_key where
  "key0 = \<lparr>sk_publisher = ''t1'', sk_secret = ''k''\<rparr>"

definition market0 :: kworld where
  "market0 = kworld0\<lparr>w_trusted := [(''t1'', key_fingerprint (w_sha kworld0) key0)]\<rparr>"

definition shop0 :: kworld where
  "shop0 = kworld0\<lparr>w_packages := [(''a:1.0.0'', version_of manifest0 (dt 0))]\<rparr>"

lemmas kworld0_defs = kworld0_def fworld0_def aworld0_def mworld0_def pworld0_def cworld0_def tworld0_def world0_def world.defs tworld.defs
  cworld.defs pworld.defs mworld.defs aworld.defs fworld.defs kworld.defs

lemma market0_simps: "w_packages market0 = []" "w_trusted market0 = [(''t1'', key_fingerprint (w_sha kworld0) key0)]" "w_sha market0 = w_sha kworld0"
  "registry_ok unsigned market0"
  by (simp_all add: market0_def kworld0_defs registry_ok_def)

definition signature0 :: string where
  "signature0 = w_sha kworld0 (manifest_hash (w_sha kworld0) manifest0 @ '':'' @ sk_secret key0)"

theorem registry_well_formed_witness:
  "registry_ok False (final (run_market False [PublishPackage manifest0 metadata0 signature0 key0, TrustPublisher ''t2'' ''f'']) market0)"
  by (rule registry_well_formed) (rule market0_simps)

lemma scan0:
  assumes "pv_manifest p = manifest0" "pv_metadata p = metadata0"
  shows "permission_scan p = \<lparr>pr_requested = [], pr_high_risk = [], pr_requires_approval = False, pr_summary = ''no high-risk permissions''\<rparr>"
    "dependency_scan p available = \<lparr>dr_missing = [], dr_deprecated = [], dr_unsigned = [], dr_ok = True\<rparr>"
    "policy_scan p = \<lparr>pl_findings = [], pl_ok = True\<rparr>"
proof -
  have "\<not> list_ex (\<lambda>(k, _). prefix ''raw_'' (lower k)) (package_manifest_as_dict manifest0)" by code_simp
  then show "policy_scan p = \<lparr>pl_findings = [], pl_ok = True\<rparr>"
    using assms by (simp add: policy_scan_def metadata0_def industry_categories_def)
qed (use assms in \<open>simp_all add: permission_scan_def dependency_scan_def manifest0_def metadata0_def sorted_set_def Let_def\<close>)

lemma publish0: "\<exists>p w'. publish_package False manifest0 metadata0 signature0 key0 market0 = (Inr p, w')"
proof -
  have v: "manifest_validate manifest0 = Inr ()" by code_simp
  have s: "signature0 \<noteq> []" by (simp add: signature0_def kworld0_defs)
  have "verify_package (w_sha market0) (w_trusted market0) False (pm_publisher manifest0) (manifest_hash (w_sha market0) manifest0) signature0 (Some key0) =
      Inr (key_fingerprint (w_sha kworld0) key0)"
    unfolding verify_package_Inr using s by (simp add: market0_simps signature0_def manifest0_def)
  then show ?thesis
    by (simp add: publish_package_def bind_apply v lift_apply gets_apply utc_now_apply available_by_id_apply scan_enforce_def package_scan_def scan0
        save_version_def modify_apply es_append_apply registered_market ok_apply Let_def)
qed

theorem published_version_found_witness:
  "\<exists>p w'. publish_package False manifest0 metadata0 signature0 key0 market0 = (Inr p, w') \<and>
     registry_get ''a'' (JStr ''1.0.0'') w' = (Inr (version_read p), w')"
proof -
  obtain p w' where p: "publish_package False manifest0 metadata0 signature0 key0 market0 = (Inr p, w')" using publish0 by blast
  from published_version_found [OF market0_simps(4) this] show ?thesis using p by (simp add: manifest0_def)
qed

lemma shop0_simps:
  "all_packages shop0 = [version_of manifest0 (dt 0)]" "registry_get ''a'' JNull shop0 = (Inr (version_of manifest0 (dt 0)), shop0)"
  by (simp_all add: shop0_def all_packages_def sorted_items_def registry_get_def bind_apply list_packages_apply Let_def lift_apply latest_def
      package_examples)

lemma installable0: "installable ''t2'' False (all_packages shop0) (version_of manifest0 (dt 0))"
proof -
  have "pv_manifest (version_of manifest0 t) = manifest0" "pv_metadata (version_of manifest0 t) = metadata0" for t
    by (simp_all add: version_of_def)
  note p = this scan0 [OF this]
  have d: "pm_dependencies manifest0 = []" "pv_id (version_of manifest0 t) = ''a''" for t by (simp_all add: package_examples)
  have "detect_cycles [version_of manifest0 (dt 0)] = []"
    unfolding detect_cycles_empty by (simp add: package_depends_Cons p d) (simp add: package_depends_def acyclic_def)
  then show ?thesis
    by (simp add: installable_def p d metadata0_def resolve_def conflict_validate_def available_dependencies_def List.map_filter_simps)
qed

theorem install_exact_witness:
  "\<exists>w'. install ''t2'' ''a'' JNull False shop0 = (Inr (install_doc ''t2'' (version_of manifest0 (dt 0)) shop0), w')"
  using install_exact [OF shop0_simps(2), of "''t2''" False] installable0 by auto

theorem entitled_iff_installed_witness:
  "outcome (verify_runtime_entitlement ''t2'' ''a'')
     (final (run_market True [InstallPackage ''t2'' ''a'' JNull False, UninstallPackage ''a'' None]) shop0) = Inr ()"
proof -
  have "coll (w_store shop0) ''marketplace_entitlements'' = []" "inj (w_uuid shop0)"
    by (simp_all add: shop0_def kworld0_defs coll_def inj_dec_nat)
  moreover have "\<exists>d w'. install ''t2'' ''a'' JNull False shop0 = (Inr d, w')"
    using install_cases [where i = "''a''" and v = JNull and w = shop0 and tid = "''t2''" and approved = False] installable0 by (auto simp: shop0_simps(2))
  then have "(''t2'', ''a'') \<in> set (granted_by True [InstallPackage ''t2'' ''a'' JNull False, UninstallPackage ''a'' None] shop0)" by auto
  ultimately show ?thesis using entitled_iff_installed by blast
qed
end
