(* ===== verification/Spec2Isabelle.thy ===== *)
theory Spec2Isabelle
  imports Persistence Events Recovery Governance Cloud_Scheduler Workflow_Recovery Federation Marketplace
begin

text \<open>
  AgentFabric: the core services of the agent platform, verified.

  The program (\<^verbatim>\<open>src/agentfabric\<close>) is a server on which tenants run collaborating agents. One process
  builds the services in \<^verbatim>\<open>server/app.py\<close> and hands all of them the same document store and the same
  event store; every request is authorised, handled by one service, and recorded. A tenant's agents
  find each other in a directory and exchange messages over a bus that passes each payload through
  the VEIL service; workflows of tasks run in batches over a shared context; jobs wait in queues for
  workers and are created by schedules; actions of high risk need a vote and possibly a human
  approval; and what happened can be replayed from the event log.

  \<^bold>\<open>How the model is written.\<close> An operation is a function from a state to a result and a state
  (\<open>op\<close> in \<open>Fabric_Prelude\<close>): an exception is a value of \<open>py_error\<close>, and the state after it is the one
  Python leaves behind, so that effects made before a raise are kept. The state is a record that each
  service extends: \<open>world\<close> (document store, event log, clock, identifiers), \<open>tworld\<close> (usage counters),
  \<open>cworld\<close> (job queue and its database), \<open>pworld\<close> (contexts), \<open>mworld\<close> (directory, index, bus), \<open>aworld\<close>
  (memories), \<open>fworld\<close> (workflow states), \<open>kworld\<close> (packages and trusted publishers). What a service keeps and how it only grows is a relation
  between states; the locale \<open>step_contract\<close> lifts such a relation from primitive steps to
  every operation, returning or raising, and each component interprets it for its own relations.

  \<^bold>\<open>The theories and the code.\<close>
  \<^item> \<open>Fabric_Prelude\<close>: results, operations, dictionaries in insertion order, the locale \<open>step_contract\<close>.
  \<^item> \<open>Py_Json\<close>, \<open>Py_Json_Codec\<close>, \<open>Py_Time\<close>, \<open>Py_Float\<close>: the parts of Python the code relies on. JSON values with
    \<^verbatim>\<open>json.dumps(sort_keys=True)\<close> and \<^verbatim>\<open>json.loads\<close> and their round trip; instants of UTC with their ISO text
    and its round trip; division of integers rounded as doubles are.
  \<^item> \<open>Persistence\<close>: \<^verbatim>\<open>persistence/\<close> (memory, JSON-file and SQLite store, unit of work). The locale
    \<open>document_store\<close> is the contract of a store; all three backends interpret it, so a history of calls
    has the same answers on each of them, and a unit of work on SQLite is atomic.
  \<^item> \<open>Events\<close>: \<^verbatim>\<open>events/event_store.py\<close>. The hash-chained log is append-only, stays intact, survives a
    restart, and two logs with one final hash differ only through a collision of the digest.
    The relation \<open>audit_step\<close> states this for one operation; every later theory proves it for its
    operations (the collection \<open>audit_steps\<close>).
  \<^item> \<open>Recovery\<close>: \<^verbatim>\<open>recovery/\<close>. The state rebuilt from a workflow's events.
  \<^item> \<open>Documents\<close>: how \<^verbatim>\<open>from_dict\<close> and \<^verbatim>\<open>as_dict\<close> read and write the fields of a document.
  \<^item> \<open>Tenancy\<close>: \<^verbatim>\<open>enterprise/\<close>, \<^verbatim>\<open>quotas/\<close>, \<^verbatim>\<open>metering/\<close>. Isolation of tenants, memberships, bounds on usage.
  \<^item> \<open>Governance_Models\<close>, \<open>Governance\<close>: \<^verbatim>\<open>governance/\<close> and its handlers in \<^verbatim>\<open>server/app.py\<close>. What an approval by
    consensus rests on in each of its modes, that an action runs with every approval it needs and, unless
    an open human approval reopens its proposal, once in any later history of calls, that a human
    approval is resolved once, and three places where the checks can be passed or blocked.
  \<^item> \<open>Server_Access\<close>: \<^verbatim>\<open>server/auth.py\<close> (scopes), \<^verbatim>\<open>server/payments.py\<close> (plans), tenant contexts and policies.
  \<^item> \<open>Cloud_Queue\<close>, \<open>Cloud_Runtime\<close>, \<open>Cloud_Scheduler\<close>: \<^verbatim>\<open>cloud/\<close> and the runtime endpoints. The locale
    \<open>queue_contract\<close> is what the runtime relies on, interpreted for the memory and the SQLite queue; jobs
    are served in order, a worker drains the queue, failures are retried and then dead-lettered,
    schedules trigger once, and the next run of a cron expression is the first matching minute.
  \<^item> \<open>Task_Graph\<close>: \<^verbatim>\<open>collaboration/task_graph.py\<close>, \<^verbatim>\<open>dependency_graph.py\<close>. Batches respect dependencies and exist
    exactly for acyclic graphs.
  \<^item> \<open>Context_Store\<close>: \<^verbatim>\<open>collaboration/context_store.py\<close>, \<^verbatim>\<open>shared_memory.py\<close>. A checkpoint is restored exactly.
  \<^item> \<open>Mesh\<close>: \<^verbatim>\<open>identity/\<close>, \<^verbatim>\<open>mesh/\<close> and the mesh endpoints. Discovery misses no agent; nothing reaches the
    history of the bus without VEIL's consent; a broadcast that returns has reached every other agent once, and
    one that is denied has reached the first of them.
  \<^item> \<open>Agent_Memory\<close>: \<^verbatim>\<open>memory/\<close> and the memory endpoints. A listing shows exactly an agent's own memories of a
    tenant, memory under legal hold survives, a restart restores the memories and their index; and what a record
    put from outside under an identifier in use does to these.
  \<^item> \<open>Workflow\<close>: \<^verbatim>\<open>collaboration/workflow.py\<close>, \<^verbatim>\<open>coordinator.py\<close> and the endpoints on workflows and events. A
    node that needs approval never runs without it, a node runs after its dependencies with their
    results, what a started workflow ends with, and the state a cyclic graph leaves behind.
  \<^item> \<open>Workflow_Recovery\<close>: the workflow engine against \<^verbatim>\<open>recovery/\<close>. What is rebuilt from the events the engine
    appends is the state the engine reports, over what earlier runs of the same workflow left in the log.
  \<^item> \<open>Federation\<close>: \<^verbatim>\<open>federation/\<close> and the federation endpoints: remote organizations, trust agreements, signed
    messages, receipts and delegations. Exactly the messages that pass every check are sent, and none twice.
  \<^item> \<open>Packages\<close>, \<open>Marketplace\<close>: \<^verbatim>\<open>marketplace/\<close> and its endpoints but those that record revenue. The search for
    dependency cycles is exact, the resolver accepts exactly what it should among direct dependencies, what the
    registry holds is well-formed, a published version is found again, an installation is exact, and a
    tenant may run a package exactly if it installed it.
  \<^item> This theory: the platform as one system, and that its audit trail can be trusted whatever calls
    the services receive.

  \<^bold>\<open>Loops and bounds.\<close> Every function is total. The search of the cron parser visits at most
  \<open>cron_horizon\<close> minutes, the \<^verbatim>\<open>60 * 24 * 366\<close> of its source; an expression that matches at all is found within
  a day because the source looks at minutes and hours only. The retry loop of a node has
  \<^verbatim>\<open>max_retries + 1\<close> rounds, the number the source counts to. Batches of a task graph are formed by
  recursion on the nodes with positive in-degree. A dequeue looks at each waiting job at most once.
  A worker's loop ends because the work measure of the queue decreases with each dispatch. The search for
  cycles ends because each call below another has one node more among those being visited.

  \<^bold>\<open>Parameters.\<close> VEIL (a service behind a client interface; the mock client of the repository is one
  instance), the digest SHA-256, the clock and the source of identifiers; the handlers and the
  entitlement and federation checks of the dispatcher, and the cost tracker behind its spend check; what a subscriber does with a message;
  the runner of a workflow node, the reputation service it reports to and the order in which
  the nodes of a parallel batch finish. Where a theorem needs something of them it says so: identifiers do
  not repeat, a handler leaves the audit log to its operations, a runner the records of its workflow.
  A failed restore of a malformed context snapshot leaves the record as it was in the model, while the source
  has assigned the fields before the failing one.

  \<^bold>\<open>Not modelled.\<close> Threads and locks (an operation is atomic; a parallel batch is its nodes in some
  order), failures of disk and network, Redis, SQLAlchemy, PyJWT and Stripe, the HTTP layer
  (a request is its principal and body), strings beyond code point 255, floats in documents and so the
  economics, evaluation and reputation services, the catalogue of remote agents, the endpoints for publication and
  installation and the reputation of publishers (a package's quality score, a float, is kept outside documents), the software
  factories and the vertical applications, and the remaining endpoints of \<^verbatim>\<open>server/app.py\<close>.

\<close>

section \<open>The platform as one system\<close>

text \<open>
  The services of one server process share its clock, its identifiers, the document store and the
  event store. A call of one of them is a service call; a history is a list of calls, each of which
  may return or raise, the server going on in either case.
\<close>

record services =
  sv_veil :: veil
  sv_queue :: "kworld job_queue"
  sv_dispatcher :: "kworld dispatcher"
  sv_bus :: "kworld bus"
  sv_memory :: memory_policy
  sv_engine :: "kworld engine"
  sv_unsigned :: bool

datatype service_call =
    Append string string obj
  | Propose proposal "string option"
  | CastVote tenant_context string vote_request
  | Execute tenant_context string json json
  | ResolveApproval tenant_context string string string
  | Submit runtime_job
  | Dispatch "string option" string string
  | CancelJob string request
  | RetryJob string request
  | RequeueDeadLetter string request
  | CreateSchedule scheduled_job
  | TriggerDue "string option" "datetime option"
  | ContextCall context_cmd
  | BusCall bus_cmd
  | MemoryCall memory_cmd
  | StartWorkflow obj request
  | FederationCall federation_cmd
  | MarketCall market_cmd

definition settled :: "('s, 'a) op \<Rightarrow> ('s, unit) op" where
  "settled m = catch (bind m (\<lambda>_. ok ())) (\<lambda>_. ok ())"

fun run_call :: "services \<Rightarrow> service_call \<Rightarrow> (kworld, unit) op" where
  "run_call S (Append ty ag p) = settled (es_append ty ag p)"
| "run_call S (Propose p reviewer) = settled (create_proposal (sv_veil S) p reviewer)"
| "run_call S (CastVote c pid q) = settled (governance_proposal_vote c pid q)"
| "run_call S (Execute c pid res tgt) = settled (governance_proposal_execute (sv_veil S) c pid res tgt)"
| "run_call S (ResolveApproval c aid st reason) = settled (resolve_governance_approval c aid st reason)"
| "run_call S (Submit j) = settled (submit (sv_queue S) j)"
| "run_call S (Dispatch tenant name worker_id) = settled (dispatch_one (sv_queue S) (sv_dispatcher S) tenant name worker_id)"
| "run_call S (CancelJob i rq) = settled (runtime_job_cancel (sv_queue S) i rq)"
| "run_call S (RetryJob i rq) = settled (runtime_job_retry (sv_queue S) i rq)"
| "run_call S (RequeueDeadLetter i rq) = settled (runtime_dead_letter_requeue (sv_queue S) i rq)"
| "run_call S (CreateSchedule s) = settled (schedule_create s)"
| "run_call S (TriggerDue tenant given) = settled (trigger_due (sv_queue S) tenant given)"
| "run_call S (ContextCall c) = settled (run_context_cmd c)"
| "run_call S (BusCall c) = settled (run_bus_cmd (sv_bus S) c)"
| "run_call S (MemoryCall c) = settled (run_memory_cmd (sv_memory S) c)"
| "run_call S (StartWorkflow body rq) = settled (workflow_start (sv_engine S) body rq)"
| "run_call S (FederationCall c) = settled (run_federation_cmd (sv_veil S) c)"
| "run_call S (MarketCall c) = settled (run_market_cmd (sv_unsigned S) c)"

definition run_calls :: "services \<Rightarrow> service_call list \<Rightarrow> (kworld, unit) op" where
  "run_calls S calls = forM (run_call S) calls"

text \<open>Handlers, checks, subscribers, runners and the reputation service leave the audit log to its operations.\<close>

definition audited_services :: "services \<Rightarrow> bool" where
  "audited_services S \<longleftrightarrow> (sv_queue S = memory_queue \<or> sv_queue S = sqlite_queue) \<and> audited (sv_dispatcher S) \<and>
     audited_bus (sv_bus S) \<and> audited_engine (sv_engine S)"

lemma audit_settled: "audit.steps m \<Longrightarrow> audit.steps (settled m)"
  unfolding settled_def by (intro audit.steps_intros)

lemma audit_context_cmd: "audit.steps (run_context_cmd c)"
  by (cases c) (auto intro!: audit.steps_intros audit_steps)

lemma audit_job_calls:
  assumes "sv_queue S = memory_queue \<or> sv_queue S = sqlite_queue" "audited (sv_dispatcher S)"
  shows "audit.steps (submit (sv_queue S) j)" "audit.steps (dispatch_one (sv_queue S) (sv_dispatcher S) tenant name worker_id)"
    "audit.steps (runtime_job_cancel (sv_queue S) i rq)" "audit.steps (runtime_job_retry (sv_queue S) i rq)"
    "audit.steps (runtime_dead_letter_requeue (sv_queue S) i rq)" "audit.steps (trigger_due (sv_queue S) tenant given)"
  using assms memory_jobs.audit_runtime memory_jobs.audit_dispatch memory_jobs.audit_endpoints memory_jobs.audit_trigger
    sqlite_jobs.audit_runtime sqlite_jobs.audit_dispatch sqlite_jobs.audit_endpoints sqlite_jobs.audit_trigger
  by metis+

lemma audit_run_call:
  assumes "audited_services S"
  shows "audit.steps (run_call S c)"
proof -
  have jobs: "sv_queue S = memory_queue \<or> sv_queue S = sqlite_queue" "audited (sv_dispatcher S)"
    and others: "audited_bus (sv_bus S)" "audited_engine (sv_engine S)"
    using assms by (simp_all add: audited_services_def)
  show ?thesis
    by (cases c) (auto intro!: audit_settled audit_job_calls [OF jobs] audit_run_bus audit_workflow_start others
        audit_context_cmd audit_steps)
qed

lemma audit_run_calls: "audited_services S \<Longrightarrow> audit.steps (run_calls S calls)"
  unfolding run_calls_def by (intro audit.steps_intros audit_run_call)

text \<open>
  C1. The audit trail of the whole platform can be trusted: whatever sequence of calls arrives at
  governance, the runtime, the scheduler, the context store, the message bus, the agent memory, the
  workflow engine, federation and the marketplace, returning or raising, the log that was there is a prefix of the log there
  is, \<^verbatim>\<open>validate_integrity\<close> answers true, and an event store opened anew over the document store
  reads back exactly this log.
\<close>

theorem platform_log_trustworthy:
  assumes "audited_services S" "log_ok w" "log_durable w" "w_durable w" "w' = final (run_calls S calls) w"
  shows "prefix (w_events w) (w_events w') \<and> validate_integrity w' \<and>
    outcome es_open w' = Inr () \<and> w_events (final es_open w') = w_events w'"
proof -
  have *: "audit_step w w'" using audit.stepsD [OF audit_run_calls [OF assms(1)]] assms(5) by simp
  then have "log_ok w'" "log_durable w'" "w_durable w'" using assms(2-4) by (simp_all add: audit_step_def)
  then show ?thesis using * es_open_same_log [of w'] by (simp add: log_ok_validate audit_step_def)
qed

definition services0 :: services where
  "services0 = \<lparr>sv_veil = mock_veil, sv_queue = sqlite_queue,
     sv_dispatcher = \<lparr>dp_veil = mock_veil, dp_quota = Some tenant_policy, dp_entitlement = None,
       dp_governance = Some runtime_governance_check, dp_federation = None, dp_spend = None, dp_handlers = []\<rparr>,
     sv_bus = \<lparr>bus_veil = mock_mesh_veil, bus_tenant = ''default'', bus_call = (\<lambda>s m. ok ())\<rparr>,
     sv_memory = default_memory_policy,
     sv_engine = \<lparr>en_runner = api_node_runner, en_reputation = (\<lambda>agent success latency tenant. ok ()), en_latency = (\<lambda>w. 5), en_order = rev\<rparr>,
     sv_unsigned = False\<rparr>"

lemma audited_services0: "audited_services services0"
  by (auto simp: audited_services_def services0_def audited_def all_checks_def all_handlers_def all_policies_def
      audited_bus_def audited_engine_def api_node_runner_def intro!: audit.steps_intros audit_steps)

lemma kworld0_ok: "log_ok kworld0" "log_durable kworld0" "w_durable kworld0"
  by (simp_all add: kworld0_defs log_ok_def log_durable_def coll_def log_dict_def inj_dec_nat)

theorem platform_log_trustworthy_witness:
  "let w' = final (run_calls services0 [Append ''task'' ''a'' [], Propose proposal0 None, Submit job0,
       Dispatch None ''default'' ''k'', BusCall (Send message0), MarketCall (TrustPublisher ''t1'' ''f''), Append ''nope'' ''a'' []]) kworld0 in
   validate_integrity w' \<and> w_events (final es_open w') = w_events w'"
  using platform_log_trustworthy [OF audited_services0 kworld0_ok HOL.refl] unfolding Let_def by blast

end
